(* ===== verification/Prelude.thy ===== *)
theory Prelude
  imports Main "HOL-Library.Word" "HOL-Library.Multiset" "HOL-Library.Sublist"
begin

text \<open>
  Shared vocabulary of the development: fixed-width integers and byte vectors, the
  host-order and network-order encodings of the integers, the bytes of a C++
  \<open>std::string\<close>, exceptions as values, and the list lemmas the components share.
  Nothing here models a function of the repository by itself; the theories of the components
  build on these names.
\<close>

unbundle bit_operations_syntax

type_synonym u8 = "8 word"
type_synonym u16 = "16 word"
type_synonym u32 = "32 word"
type_synonym u64 = "64 word"
type_synonym bytes = "u8 list"

named_theorems codec_simps \<open>rewrite rules that decode what was encoded\<close>
named_theorems wire_defs \<open>definitions of the wire layouts, unfolded together\<close>
named_theorems enum_codes \<open>numeric codes of the enumerations\<close>

section \<open>Exceptions\<close>

text \<open>
  The exceptions the modelled code throws or lets pass, as values. A function that may throw
  returns \<open>exn + 'a\<close>; every \<open>throw\<close> is an \<open>Inl\<close>.
\<close>

datatype exn =
    Runtime_error string      \<comment> \<open>\<open>std::runtime_error\<close> with its message\<close>
  | Invalid_argument          \<comment> \<open>\<open>std::stoi\<close> and friends, no digits\<close>
  | Out_of_range              \<comment> \<open>value or index out of range\<close>
  | Json_error string         \<comment> \<open>\<open>nlohmann::json::exception\<close> with its message\<close>
  | Backend_error string      \<comment> \<open>an exception of the inference runtime\<close>

type_synonym 'a result = "exn + 'a"

definition bindR :: "'a result \<Rightarrow> ('a \<Rightarrow> 'b result) \<Rightarrow> 'b result" where
  "bindR m f = (case m of Inl e \<Rightarrow> Inl e | Inr x \<Rightarrow> f x)"

lemma bindR_simps [simp]:
  "bindR (Inl e) f = Inl e" "bindR (Inr x) f = f x"
  by (simp_all add: bindR_def)

lemma bindR_eq_Inr: "bindR m f = Inr y \<longleftrightarrow> (\<exists>x. m = Inr x \<and> f x = Inr y)"
  by (cases m) auto

lemma bindR_eq_Inl: "bindR m f = Inl e \<longleftrightarrow> m = Inl e \<or> (\<exists>x. m = Inr x \<and> f x = Inl e)"
  by (cases m) auto

section \<open>Bytes of integers\<close>

text \<open>Little-endian and big-endian images of the unsigned integers.\<close>

definition le16 :: "u16 \<Rightarrow> bytes" where
  "le16 w = [ucast w, ucast (drop_bit 8 w)]"

definition le32 :: "u32 \<Rightarrow> bytes" where
  "le32 w = [ucast w, ucast (drop_bit 8 w), ucast (drop_bit 16 w), ucast (drop_bit 24 w)]"

definition of_le16 :: "u8 \<Rightarrow> u8 \<Rightarrow> u16" where
  "of_le16 a b = ucast a OR push_bit 8 (ucast b)"

definition of_le32 :: "u8 \<Rightarrow> u8 \<Rightarrow> u8 \<Rightarrow> u8 \<Rightarrow> u32" where
  "of_le32 a b c d =
     ucast a OR push_bit 8 (ucast b) OR push_bit 16 (ucast c) OR push_bit 24 (ucast d)"

lemma length_le16 [simp]: "length (le16 w) = 2"
  by (simp add: le16_def)

lemma length_le32 [simp]: "length (le32 w) = 4"
  by (simp add: le32_def)

lemma bit_u8_bound: "bit (a :: u8) n \<Longrightarrow> n < 8"
  using bit_imp_le_length [of a n] by simp

lemma unat_u8_less [simp]: "unat (b :: u8) < 256"
  using unsigned_less [of b] by simp

lemma unat_u16_less: "unat (w :: u16) < 65536"
proof -
  have "unat w < 2 ^ LENGTH(16)" by (rule unsigned_less)
  then show ?thesis by simp
qed

lemma unat_u32_less: "unat (w :: u32) < 4294967296"
proof -
  have "unat w < 2 ^ LENGTH(32)" by (rule unsigned_less)
  then show ?thesis by simp
qed

text \<open>Reading a 32-bit length as a signed integer, as \<open>static_cast<int>\<close> does.\<close>

lemma bit_31_u32: "bit (w :: u32) 31 \<longleftrightarrow> 2 ^ 31 \<le> unat w"
proof -
  have "bit w 31 \<longleftrightarrow> bit (unat w) 31" by (simp add: bit_unsigned_iff)
  also have "\<dots> \<longleftrightarrow> odd (unat w div 2 ^ 31)" by (simp only: bit_iff_odd)
  moreover have "unat w div 2 ^ 31 < 2" using unat_u32_less [of w] by simp
  moreover have "unat w div 2 ^ 31 \<noteq> 0 \<longleftrightarrow> 2 ^ 31 \<le> unat w" by (simp add: div_eq_0_iff not_less)
  moreover have "n < 2 \<Longrightarrow> odd n = (n \<noteq> 0)" for n :: nat by (cases n) auto
  ultimately show ?thesis by metis
qed

lemma sint_neg_u32: "sint (w :: u32) < 0 \<longleftrightarrow> 2 ^ 31 \<le> unat w"
  using bit_last_iff [of w] bit_31_u32 [of w] by simp

lemma sint_small_u32:
  assumes "unat (w :: u32) < 2 ^ 31"
  shows "sint w = int (unat w)"
proof -
  have "int (unat w) < int (2 ^ 31)" using assms by (simp only: of_nat_less_iff)
  then have b: "uint w < 2 ^ 31" by simp
  have z: "0 \<le> uint w" by simp
  have "signed_take_bit 31 (uint w) = uint w"
    using b z by (intro signed_take_bit_int_eq_self) linarith+
  then show ?thesis by (simp add: sint_uint)
qed
lemma unat_of_nat_len32: "n < 2 ^ 32 \<Longrightarrow> unat (word_of_nat n :: u32) = n"
  by (simp add: unat_of_nat)

lemma of_le16_bytes [codec_simps]: "of_le16 (ucast w) (ucast (drop_bit 8 w)) = w"
  unfolding of_le16_def
  by (rule bit_word_eqI) (auto simp: bit_simps)

lemma of_le32_bytes [codec_simps]:
  "of_le32 (ucast w) (ucast (drop_bit 8 w)) (ucast (drop_bit 16 w)) (ucast (drop_bit 24 w)) = w"
  unfolding of_le32_def
proof (rule bit_word_eqI)
  fix n :: nat
  assume "n < LENGTH(32)"
  then consider "n < 8" | "8 \<le> n" "n < 16" | "16 \<le> n" "n < 24" | "24 \<le> n" "n < 32"
    by fastforce
  then show "bit (ucast (ucast w :: u8) OR push_bit 8 (ucast (ucast (drop_bit 8 w) :: u8))
      OR push_bit 16 (ucast (ucast (drop_bit 16 w) :: u8))
      OR push_bit 24 (ucast (ucast (drop_bit 24 w) :: u8)) :: u32) n = bit w n"
    by cases (auto simp: bit_simps)
qed

lemma ucast_of_le16 [codec_simps]:
  "ucast (of_le16 a b) = a" "ucast (drop_bit 8 (of_le16 a b)) = b"
  unfolding of_le16_def
  by (rule bit_word_eqI, auto simp: bit_simps dest: bit_u8_bound)+

lemma ucast_of_le32 [codec_simps]:
  "ucast (of_le32 a b c d) = a" "ucast (drop_bit 8 (of_le32 a b c d)) = b"
  "ucast (drop_bit 16 (of_le32 a b c d)) = c" "ucast (drop_bit 24 (of_le32 a b c d)) = d"
  unfolding of_le32_def
  by (rule bit_word_eqI, auto simp: bit_simps dest: bit_u8_bound)+

lemma le16_of_le16 [codec_simps]: "le16 (of_le16 a b) = [a, b]"
  by (simp add: le16_def codec_simps)

lemma le32_of_le32 [codec_simps]: "le32 (of_le32 a b c d) = [a, b, c, d]"
  by (simp add: le32_def codec_simps)

lemma le16_inj:
  assumes "le16 v = le16 w"
  shows "v = w"
proof -
  have "of_le16 (ucast v) (ucast (drop_bit 8 v)) = of_le16 (ucast w) (ucast (drop_bit 8 w))"
    using assms by (simp only: le16_def list.inject)
  then show ?thesis by (simp only: of_le16_bytes)
qed

lemma le32_inj:
  assumes "le32 v = le32 w"
  shows "v = w"
proof -
  have "of_le32 (ucast v) (ucast (drop_bit 8 v)) (ucast (drop_bit 16 v)) (ucast (drop_bit 24 v))
      = of_le32 (ucast w) (ucast (drop_bit 8 w)) (ucast (drop_bit 16 w)) (ucast (drop_bit 24 w))"
    using assms by (simp only: le32_def list.inject)
  then show ?thesis by (simp only: of_le32_bytes)
qed

section \<open>Bytes of strings\<close>

text \<open>
  A \<open>std::string\<close> is a sequence of bytes; it is a HOL \<open>string\<close>, whose characters are
  8-bit. A buffer of \<open>std::uint8_t\<close> is a list of 8-bit words.
\<close>

definition byte_of_char :: "char \<Rightarrow> u8" where
  "byte_of_char c = word_of_nat (of_char c)"

definition char_of_byte :: "u8 \<Rightarrow> char" where
  "char_of_byte b = char_of (unat b)"

lemma char_of_byte_of_char [codec_simps, simp]: "char_of_byte (byte_of_char c) = c"
proof -
  have "unat (word_of_nat (of_char c) :: u8) = of_char c"
    by (simp add: unat_of_nat)
  then show ?thesis
    by (simp add: byte_of_char_def char_of_byte_def)
qed

lemma byte_of_char_of_byte [codec_simps, simp]: "byte_of_char (char_of_byte b) = b"
proof -
  have "of_char (char_of (unat b) :: char) = unat b"
    by simp
  then show ?thesis
    by (simp add: byte_of_char_def char_of_byte_def)
qed

definition bytes_of_string :: "string \<Rightarrow> bytes" where
  "bytes_of_string s = map byte_of_char s"

definition string_of_bytes :: "bytes \<Rightarrow> string" where
  "string_of_bytes bs = map char_of_byte bs"

lemma string_of_bytes_of_string [codec_simps, simp]: "string_of_bytes (bytes_of_string s) = s"
  by (simp add: string_of_bytes_def bytes_of_string_def comp_def)

lemma bytes_of_string_of_bytes [codec_simps, simp]: "bytes_of_string (string_of_bytes bs) = bs"
  by (simp add: string_of_bytes_def bytes_of_string_def comp_def)

lemma length_bytes_of_string [simp]: "length (bytes_of_string s) = length s"
  by (simp add: bytes_of_string_def)

lemma length_string_of_bytes [simp]: "length (string_of_bytes bs) = length bs"
  by (simp add: string_of_bytes_def)

section \<open>Lists\<close>

lemma list_eq_nths_11:
  "length xs = 11 \<Longrightarrow>
     xs = [xs!0, xs!1, xs!2, xs!3, xs!4, xs!5, xs!6, xs!7, xs!8, xs!9, xs!10]"
  by (rule nth_equalityI) (auto simp: less_Suc_eq numeral_eq_Suc)

lemma take_length_append [simp]: "n = length xs \<Longrightarrow> take n (xs @ ys) = xs"
  by simp

lemma drop_length_append [simp]: "n = length xs \<Longrightarrow> drop n (xs @ ys) = ys"
  by simp

end
