(* ===== verification/Wire_V2.thy ===== *)
theory Wire_V2
  imports Prelude
begin

text \<open>
  The helper wire format, version 2 (\<open>liara-inference/common/wire_v2.hpp\<close>): big-endian
  integer and string writers, cursor readers that throw on a short buffer, the FNV-1a checksum,
  and the serialisers and parsers of the envelope and of the two payloads. A reader returns the
  value and the new cursor, or the exception it throws. The locale \<open>wire_field\<close> states what a
  writer and its reader promise each other; the four fields interpret it and the round trips of
  the messages are chains of its lemmas. A \<open>float\<close> travels as its bit pattern (\<open>memcpy\<close>),
  so it is one here.
\<close>

section \<open>Data\<close>

definition kMagic :: u16 where "kMagic = 0x4C54"
definition kVersion :: u8 where "kVersion = 2"

datatype message_type = TaskDispatch | TaskAccepted | TaskResultMsg | TaskError | HeartbeatMsg

fun message_type_code :: "message_type \<Rightarrow> u8" where
  "message_type_code TaskDispatch = 1"
| "message_type_code TaskAccepted = 2"
| "message_type_code TaskResultMsg = 3"
| "message_type_code TaskError = 4"
| "message_type_code HeartbeatMsg = 5"

text \<open>
  \<open>static_cast<MessageType>\<close> of any byte is a value of the enumeration's underlying type, so
  the field is the byte.
\<close>

record envelope =
  env_message_type :: u8
  env_flags :: u16
  env_task_id :: u64
  env_correlation_id :: u64
  env_payload :: bytes

record task_dispatch_payload =
  td_task_type :: string
  td_input :: string
  td_max_tokens :: u32
  td_temperature :: u32

record task_result_payload =
  tr_success :: bool
  tr_infer_ms :: u32
  tr_output :: string
  tr_error_message :: string

section \<open>Writers and readers\<close>

definition write_u16 :: "bytes \<Rightarrow> u16 \<Rightarrow> bytes" where
  "write_u16 out v = (out @ [ucast (drop_bit 8 v AND 0xFF)]) @ [ucast (v AND 0xFF)]"

definition write_u32 :: "bytes \<Rightarrow> u32 \<Rightarrow> bytes" where
  "write_u32 out v =
     (((out @ [ucast (drop_bit 24 v AND 0xFF)]) @ [ucast (drop_bit 16 v AND 0xFF)])
       @ [ucast (drop_bit 8 v AND 0xFF)]) @ [ucast (v AND 0xFF)]"

fun write_u64_loop :: "bytes \<Rightarrow> u64 \<Rightarrow> nat \<Rightarrow> bytes" where
  "write_u64_loop out v 0 = out"
| "write_u64_loop out v (Suc i) = write_u64_loop (out @ [ucast (drop_bit (8 * i) v AND 0xFF)]) v i"

definition write_u64 :: "bytes \<Rightarrow> u64 \<Rightarrow> bytes" where
  "write_u64 out v = write_u64_loop out v 8"

definition read_u16 :: "bytes \<Rightarrow> nat \<Rightarrow> (u16 \<times> nat) result" where
  "read_u16 inp off =
     (if off + 2 > length inp then Inl (Runtime_error ''short read u16'')
      else Inr (push_bit 8 (ucast (inp ! off)) OR ucast (inp ! (off + 1)), off + 2))"

definition read_u32 :: "bytes \<Rightarrow> nat \<Rightarrow> (u32 \<times> nat) result" where
  "read_u32 inp off =
     (if off + 4 > length inp then Inl (Runtime_error ''short read u32'')
      else Inr (push_bit 24 (ucast (inp ! off)) OR push_bit 16 (ucast (inp ! (off + 1)))
                OR push_bit 8 (ucast (inp ! (off + 2))) OR ucast (inp ! (off + 3)), off + 4))"

definition read_u64 :: "bytes \<Rightarrow> nat \<Rightarrow> (u64 \<times> nat) result" where
  "read_u64 inp off =
     (if off + 8 > length inp then Inl (Runtime_error ''short read u64'')
      else Inr (foldl (\<lambda>v i. push_bit 8 v OR ucast (inp ! (off + i))) 0 [0..<8], off + 8))"

definition write_str :: "bytes \<Rightarrow> string \<Rightarrow> bytes result" where
  "write_str out s =
     (if length s > 0xFFFF then Inl (Runtime_error ''string too large'')
      else Inr (write_u16 out (of_nat (length s)) @ bytes_of_string s))"

definition read_str :: "bytes \<Rightarrow> nat \<Rightarrow> (string \<times> nat) result" where
  "read_str inp off =
     bindR (read_u16 inp off) (\<lambda>(len, off).
       if off + unat len > length inp then Inl (Runtime_error ''short read str'')
       else Inr (string_of_bytes (take (unat len) (drop off inp)), off + unat len))"

text \<open>\<open>vector::at\<close>, the checked access.\<close>

definition read_at :: "bytes \<Rightarrow> nat \<Rightarrow> (u8 \<times> nat) result" where
  "read_at inp off = (if off < length inp then Inr (inp ! off, off + 1) else Inl Out_of_range)"

definition checksum32 :: "bytes \<Rightarrow> u32" where
  "checksum32 bs = foldl (\<lambda>h b. (h XOR ucast b) * 16777619) 2166136261 bs"

section \<open>Serialisers and parsers\<close>

definition serialize_envelope :: "envelope \<Rightarrow> bytes" where
  "serialize_envelope env =
     (let out = write_u16 [] kMagic;
          out = out @ [kVersion];
          out = out @ [env_message_type env];
          out = write_u16 out (env_flags env);
          out = write_u16 out 0;
          out = write_u32 out (of_nat (length (env_payload env)));
          out = write_u64 out (env_task_id env);
          out = write_u64 out (env_correlation_id env);
          out = write_u32 out (checksum32 (env_payload env))
      in out @ env_payload env)"

text \<open>
  The body of the \<open>try\<close> block: \<open>Inl\<close> is an exception, \<open>Inr None\<close> an early
  \<open>return std::nullopt\<close>. The handler turns every exception into \<open>nullopt\<close>.
\<close>

definition parse_envelope_body :: "bytes \<Rightarrow> (envelope option) result" where
  "parse_envelope_body frame =
     bindR (read_u16 frame 0) (\<lambda>(magic, off).
     if magic \<noteq> kMagic then Inr None else
     bindR (read_at frame off) (\<lambda>(ver, off).
     if ver \<noteq> kVersion then Inr None else
     bindR (read_at frame off) (\<lambda>(mt, off).
     bindR (read_u16 frame off) (\<lambda>(flags, off).
     bindR (read_u16 frame off) (\<lambda>(reserved, off).
     bindR (read_u32 frame off) (\<lambda>(payload_len, off).
     bindR (read_u64 frame off) (\<lambda>(task_id, off).
     bindR (read_u64 frame off) (\<lambda>(correlation_id, off).
     bindR (read_u32 frame off) (\<lambda>(checksum, off).
     if off + unat payload_len \<noteq> length frame then Inr None else
     let payload = drop off frame in
     if checksum32 payload \<noteq> checksum then Inr None
     else Inr (Some \<lparr>env_message_type = mt, env_flags = flags, env_task_id = task_id,
                     env_correlation_id = correlation_id, env_payload = payload\<rparr>))))))))))"

definition catch_none :: "('a option) result \<Rightarrow> 'a option" where
  "catch_none r = (case r of Inl _ \<Rightarrow> None | Inr x \<Rightarrow> x)"

definition parse_envelope :: "bytes \<Rightarrow> envelope option" where
  "parse_envelope frame = catch_none (parse_envelope_body frame)"

definition serialize_task_dispatch :: "task_dispatch_payload \<Rightarrow> bytes result" where
  "serialize_task_dispatch p =
     (let out = write_u32 [] (td_max_tokens p);
          out = write_u32 out (td_temperature p)
      in bindR (write_str out (td_task_type p)) (\<lambda>out. write_str out (td_input p)))"

definition parse_task_dispatch_body :: "bytes \<Rightarrow> (task_dispatch_payload option) result" where
  "parse_task_dispatch_body data =
     bindR (read_u32 data 0) (\<lambda>(max_tokens, off).
     bindR (read_u32 data off) (\<lambda>(temp_bits, off).
     bindR (read_str data off) (\<lambda>(task_type, off).
     bindR (read_str data off) (\<lambda>(inp, off).
     if off \<noteq> length data then Inr None
     else Inr (Some \<lparr>td_task_type = task_type, td_input = inp, td_max_tokens = max_tokens,
                     td_temperature = temp_bits\<rparr>)))))"

definition parse_task_dispatch :: "bytes \<Rightarrow> task_dispatch_payload option" where
  "parse_task_dispatch data = catch_none (parse_task_dispatch_body data)"

definition serialize_task_result :: "task_result_payload \<Rightarrow> bytes result" where
  "serialize_task_result p =
     (let out = [if tr_success p then 1 else 0];
          out = write_u32 out (tr_infer_ms p)
      in bindR (write_str out (tr_output p)) (\<lambda>out. write_str out (tr_error_message p)))"

definition parse_task_result_body :: "bytes \<Rightarrow> (task_result_payload option) result" where
  "parse_task_result_body data =
     (if 0 \<ge> length data then Inr None
      else let success = (data ! 0 \<noteq> 0) in
        bindR (read_u32 data 1) (\<lambda>(infer_ms, off).
        bindR (read_str data off) (\<lambda>(output, off).
        bindR (read_str data off) (\<lambda>(error_message, off).
        if off \<noteq> length data then Inr None
        else Inr (Some \<lparr>tr_success = success, tr_infer_ms = infer_ms, tr_output = output,
                        tr_error_message = error_message\<rparr>)))))"

definition parse_task_result :: "bytes \<Rightarrow> task_result_payload option" where
  "parse_task_result data = catch_none (parse_task_result_body data)"


section \<open>The contract of a field\<close>

text \<open>
  \<open>enc\<close> is what the writer appends, \<open>read\<close> the cursor reader and \<open>ok\<close> the
  values the writer accepts. The reader returns a written value and stops behind it; and what
  it returns is always a value that was written there.
\<close>

locale wire_field =
  fixes enc :: "'a \<Rightarrow> bytes" and read :: "bytes \<Rightarrow> nat \<Rightarrow> ('a \<times> nat) result"
    and ok :: "'a \<Rightarrow> bool"
  assumes read_enc:
    "ok x \<Longrightarrow> drop off inp = enc x @ post \<Longrightarrow> read inp off = Inr (x, off + length (enc x))"
  and read_sound:
    "read inp off = Inr (x, off') \<Longrightarrow>
       ok x \<and> off' = off + length (enc x) \<and> off' \<le> length inp
       \<and> drop off inp = enc x @ drop off' inp"
begin

lemma read_step:
  assumes "ok x" "drop off inp = enc x @ post"
  shows "read inp off = Inr (x, off + length (enc x)) \<and> drop (off + length (enc x)) inp = post"
proof -
  have "drop (length (enc x)) (drop off inp) = post"
    by (simp add: assms(2))
  then have "drop (off + length (enc x)) inp = post"
    by (simp only: drop_drop add.commute)
  then show ?thesis using read_enc [OF assms] by blast
qed

lemma read_split:
  assumes "read inp off = Inr (x, off')"
  shows "drop off inp = enc x @ drop off' inp" "ok x" "off' = off + length (enc x)"
    "off' \<le> length inp"
  using read_sound [OF assms] by simp_all

lemma enc_inj:
  assumes "ok x" "ok y" "enc x = enc y"
  shows "x = y"
proof -
  have "read (enc x) 0 = Inr (x, 0 + length (enc x))"
    using assms(1) by (rule read_enc) simp
  moreover have "read (enc y) 0 = Inr (y, 0 + length (enc y))"
    using assms(2) by (rule read_enc) simp
  ultimately show ?thesis using assms(3) by (metis prod.inject sum.inject(2))
qed

end

section \<open>Big-endian integers, generically\<close>

definition be_bytes :: "nat \<Rightarrow> 'a::len word \<Rightarrow> bytes" where
  "be_bytes k w = map (\<lambda>i. ucast (drop_bit (8 * i) w)) (rev [0..<k])"

definition of_be :: "'a::len word \<Rightarrow> bytes \<Rightarrow> 'a word" where
  "of_be a bs = foldl (\<lambda>v b. push_bit 8 v OR ucast b) a bs"

lemma length_be_bytes [simp]: "length (be_bytes k w) = k"
  by (simp add: be_bytes_def)

lemma be_bytes_Suc: "be_bytes (Suc k) w = ucast (drop_bit (8 * k) w) # be_bytes k w"
  by (simp add: be_bytes_def)

lemma nth_be_bytes: "i < k \<Longrightarrow> be_bytes k w ! i = ucast (drop_bit (8 * (k - 1 - i)) w)"
  by (simp add: be_bytes_def rev_nth)

lemma of_be_be_bytes:
  fixes w :: "'a::len word"
  shows "of_be a (be_bytes k w) = push_bit (8 * k) a OR take_bit (8 * k) w"
proof (induction k arbitrary: a)
  case 0
  show ?case by (simp add: of_be_def be_bytes_def)
next
  case (Suc k)
  let ?b = "ucast (drop_bit (8 * k) w) :: u8"
  have "of_be a (be_bytes (Suc k) w) = of_be (push_bit 8 a OR ucast ?b) (be_bytes k w)"
    by (simp add: be_bytes_Suc of_be_def)
  also have "\<dots> = push_bit (8 * k) (push_bit 8 a OR ucast ?b) OR take_bit (8 * k) w"
    by (rule Suc.IH)
  also have "\<dots> = push_bit (8 * Suc k) a OR take_bit (8 * Suc k) w"
  proof (rule bit_word_eqI)
    fix n assume "n < LENGTH('a)"
    consider "n < 8 * k" | "8 * k \<le> n" "n < 8 * k + 8" | "8 * k + 8 \<le> n" by linarith
    then show "bit (push_bit (8 * k) (push_bit 8 a OR ucast ?b) OR take_bit (8 * k) w) n
      = bit (push_bit (8 * Suc k) a OR take_bit (8 * Suc k) w) n"
      using \<open>n < LENGTH('a)\<close>
      by cases (auto simp: bit_or_iff bit_push_bit_iff bit_take_bit_iff bit_ucast_iff
          bit_drop_bit_eq diff_diff_left add.commute)
  qed
  finally show ?case .
qed

lemma of_be_inverse: "8 * k = LENGTH('a) \<Longrightarrow> of_be 0 (be_bytes k w) = (w :: 'a::len word)"
  by (simp add: of_be_be_bytes take_bit_word_eq_self)

lemma be_bytes_of_be:
  assumes "length bs = k" "8 * k \<le> LENGTH('a)"
  shows "be_bytes k (of_be a bs :: 'a::len word) = bs"
  using assms
proof (induction bs arbitrary: k rule: rev_induct)
  case Nil
  then show ?case by (simp add: be_bytes_def)
next
  case (snoc b bs)
  then obtain m where k: "k = Suc m" and m: "length bs = m" by simp
  have step: "of_be a (bs @ [b]) = push_bit 8 (of_be a bs) OR ucast b"
    by (simp add: of_be_def)
  have "be_bytes (Suc m) (push_bit 8 v OR ucast b) = be_bytes m v @ [b]"
    if "8 * Suc m \<le> LENGTH('a)" for v :: "'a word"
  proof (rule nth_equalityI)
    fix i assume "i < length (be_bytes (Suc m) (push_bit 8 v OR ucast b))"
    then consider "i = m" | "i < m" by fastforce
    then show "be_bytes (Suc m) (push_bit 8 v OR ucast b) ! i = (be_bytes m v @ [b]) ! i"
    proof cases
      case 1
      have "ucast (push_bit 8 v OR ucast b :: 'a word) = b"
        using that by (intro bit_word_eqI) (auto simp: bit_simps dest: bit_u8_bound)
      with 1 show ?thesis by (simp add: nth_be_bytes nth_append)
    next
      case 2
      then obtain d where d: "m - i = Suc d" "m - 1 - i = d"
        by (metis Suc_diff_Suc diff_Suc_1 diff_diff_left plus_1_eq_Suc)
      have "ucast (drop_bit (8 * Suc d) (push_bit 8 v OR ucast b) :: 'a word)
          = (ucast (drop_bit (8 * d) v) :: u8)"
      proof (rule bit_word_eqI)
        fix n assume "n < LENGTH(8)"
        then have "8 + (8 * d + n) < LENGTH('a)" using that 2 d by auto
        then show "bit (ucast (drop_bit (8 * Suc d) (push_bit 8 v OR ucast b) :: 'a word) :: u8) n
            = bit (ucast (drop_bit (8 * d) v) :: u8) n"
          by (auto simp: bit_simps add.assoc dest: bit_u8_bound)
      qed
      with 2 d show ?thesis by (simp add: nth_be_bytes nth_append)
    qed
  qed simp
  with snoc k m step show ?case by simp
qed


definition read_be :: "nat \<Rightarrow> exn \<Rightarrow> bytes \<Rightarrow> nat \<Rightarrow> ('a::len word \<times> nat) result" where
  "read_be k err inp off =
     (if off + k > length inp then Inl err
      else Inr (of_be 0 (take k (drop off inp)), off + k))"

lemma wire_field_be:
  assumes "8 * k = LENGTH('a)"
  shows "wire_field (be_bytes k :: 'a::len word \<Rightarrow> bytes) (read_be k err) (\<lambda>_. True)"
proof
  fix x :: "'a word" and off inp post
  assume d: "drop off inp = be_bytes k x @ post"
  then have "length (drop off inp) = k + length post" by simp
  then have "\<not> off + k > length inp \<or> k = 0" by auto
  moreover have "k \<noteq> 0" using assms by (metis len_gt_0 mult_0_right neq0_conv)
  ultimately show "read_be k err inp off = Inr (x, off + length (be_bytes k x))"
    using assms by (simp add: read_be_def d of_be_inverse)
next
  fix inp off and x :: "'a word" and off'
  assume r: "read_be k err inp off = Inr (x, off')"
  then have len: "off + k \<le> length inp" and off': "off' = off + k"
    and x: "x = of_be 0 (take k (drop off inp))"
    by (auto simp: read_be_def split: if_splits)
  have "be_bytes k x = take k (drop off inp)"
    unfolding x using assms len by (intro be_bytes_of_be) auto
  then show "True \<and> off' = off + length (be_bytes k x) \<and> off' \<le> length inp
      \<and> drop off inp = be_bytes k x @ drop off' inp"
    using len off' by (simp add: add.commute flip: drop_drop)
qed

section \<open>The fields of the format\<close>

lemma ucast_and_0xFF: "(ucast (w AND 0xFF) :: u8) = ucast (w :: 'a::len word)"
proof -
  have ff: "(0xFF :: 'a word) = mask 8" by (simp add: mask_eq_exp_minus_1)
  show ?thesis
    unfolding ff
  proof (rule bit_word_eqI)
    fix n assume "n < LENGTH(8)"
    then show "bit (ucast (w AND mask 8) :: u8) n = bit (ucast w :: u8) n"
      unfolding bit_ucast_iff bit_and_iff bit_mask_iff using bit_imp_possible_bit [of w n] by auto
  qed
qed

lemma write_u16_be: "write_u16 out v = out @ be_bytes 2 v"
  by (simp add: write_u16_def ucast_and_0xFF be_bytes_def eval_nat_numeral)

lemma write_u32_be: "write_u32 out v = out @ be_bytes 4 v"
  by (simp add: write_u32_def ucast_and_0xFF be_bytes_def eval_nat_numeral)

lemma write_u64_loop_be: "write_u64_loop out v k = out @ be_bytes k v"
  by (induction k arbitrary: out)
    (simp_all add: be_bytes_Suc ucast_and_0xFF, simp add: be_bytes_def)

lemma write_u64_be: "write_u64 out v = out @ be_bytes 8 v"
  by (simp add: write_u64_def write_u64_loop_be)

lemmas write_be = write_u16_be write_u32_be write_u64_be

lemma take_drop_nths:
  "off + k \<le> length xs \<Longrightarrow> take k (drop off xs) = map (\<lambda>i. xs ! (off + i)) [0..<k]"
  by (rule nth_equalityI) auto

lemma read_u16_be: "read_u16 = read_be 2 (Runtime_error ''short read u16'')"
  by (intro ext) (auto simp: read_u16_def read_be_def take_drop_nths of_be_def eval_nat_numeral)

lemma upt_4: "[0..<4] = [0, 1, 2, 3 :: nat]"
  by code_simp

lemma read_u32_be: "read_u32 = read_be 4 (Runtime_error ''short read u32'')"
proof (intro ext)
  fix inp :: bytes and off
  have "of_be 0 [a, b, c, d] = (push_bit 24 (ucast a) OR push_bit 16 (ucast b)
      OR push_bit 8 (ucast c) OR ucast d :: u32)" for a b c d
    unfolding of_be_def foldl.simps push_bit_or push_bit_push_bit by (simp add: ac_simps)
  moreover have "take 4 (drop off inp) = [inp ! off, inp ! (off + 1), inp ! (off + 2), inp ! (off + 3)]"
    if "\<not> off + 4 > length inp"
    using that by (simp add: take_drop_nths upt_4)
  ultimately show "read_u32 inp off = read_be 4 (Runtime_error ''short read u32'') inp off"
    unfolding read_u32_def read_be_def by (cases "off + 4 > length inp") simp_all
qed

lemma read_u64_be: "read_u64 = read_be 8 (Runtime_error ''short read u64'')"
  by (intro ext) (auto simp: read_u64_def read_be_def take_drop_nths of_be_def foldl_map)

interpretation u16_field: wire_field "be_bytes 2" read_u16 "\<lambda>_. True"
  unfolding read_u16_be by (rule wire_field_be) simp

interpretation u32_field: wire_field "be_bytes 4" read_u32 "\<lambda>_. True"
  unfolding read_u32_be by (rule wire_field_be) simp

interpretation u64_field: wire_field "be_bytes 8" read_u64 "\<lambda>_. True"
  unfolding read_u64_be by (rule wire_field_be) simp

lemma byte_field: "wire_field (\<lambda>b. [b]) read_at (\<lambda>_. True)"
proof
  fix x :: u8 and off inp post
  assume "drop off inp = [x] @ post"
  then have "off < length inp" "inp ! off = x"
    by (metis append_Cons drop_eq_Nil2 linorder_not_less list.distinct(1),
        metis append_Cons hd_drop_conv_nth drop_eq_Nil2 linorder_not_less list.distinct(1) list.sel(1))
  then show "read_at inp off = Inr (x, off + length [x])"
    by (simp add: read_at_def)
next
  fix inp off and x :: u8 and off'
  assume "read_at inp off = Inr (x, off')"
  then show "True \<and> off' = off + length [x] \<and> off' \<le> length inp
      \<and> drop off inp = [x] @ drop off' inp"
    by (auto simp: read_at_def Cons_nth_drop_Suc split: if_splits)
qed

interpretation u8_field: wire_field "\<lambda>b. [b]" read_at "\<lambda>_. True"
  by (rule byte_field)

text \<open>A string: its length in two bytes, then its bytes; the writer refuses more than 65535.\<close>

definition str_bytes :: "string \<Rightarrow> bytes" where
  "str_bytes s = be_bytes 2 (of_nat (length s) :: u16) @ bytes_of_string s"

definition str_ok :: "string \<Rightarrow> bool" where
  "str_ok s \<longleftrightarrow> length s \<le> 0xFFFF"

lemma write_str_bytes:
  "write_str out s = (if str_ok s then Inr (out @ str_bytes s)
                      else Inl (Runtime_error ''string too large''))"
  by (simp add: write_str_def str_ok_def str_bytes_def write_u16_be)

lemma unat_len16: "n \<le> 0xFFFF \<Longrightarrow> unat (of_nat n :: u16) = n"
  by (simp add: unat_of_nat)

lemma str_field: "wire_field str_bytes read_str str_ok"
proof
  fix x off inp post
  assume ok: "str_ok x" and d: "drop off inp = str_bytes x @ post"
  let ?n = "of_nat (length x) :: u16"
  have n: "unat ?n = length x" using ok by (simp add: str_ok_def unat_len16)
  from d have r: "read_u16 inp off = Inr (?n, off + 2)
      \<and> drop (off + 2) inp = bytes_of_string x @ post"
    using u16_field.read_step [where x = ?n and off = off and inp = inp
        and post = "bytes_of_string x @ post"]
    by (simp add: str_bytes_def)
  then have "length inp - (off + 2) = length x + length post"
    by (metis length_append length_bytes_of_string length_drop)
  moreover have "off + 2 \<le> length inp"
    using u16_field.read_split(4) [of inp off ?n "off + 2"] r by simp
  ultimately have "off + 2 + length x \<le> length inp" by linarith
  with r n show "read_str inp off = Inr (x, off + length (str_bytes x))"
    by (simp add: read_str_def str_bytes_def add.assoc)
next
  fix inp off x off'
  assume r: "read_str inp off = Inr (x, off')"
  then obtain len o1 where l: "read_u16 inp off = Inr (len, o1)"
    and b: "\<not> o1 + unat len > length inp" "off' = o1 + unat len"
      "x = string_of_bytes (take (unat len) (drop o1 inp))"
    by (auto simp: read_str_def bindR_eq_Inr split: if_splits)
  note s = u16_field.read_split [OF l]
  have "unat len \<le> 0xFFFF" using unat_u16_less [of len] by simp
  moreover have lx: "length x = unat len" using b by simp
  ultimately have ok: "str_ok x" by (simp add: str_ok_def)
  have "bytes_of_string x = take (unat len) (drop o1 inp)"
    using b by simp
  then have "drop o1 inp = bytes_of_string x @ drop (unat len) (drop o1 inp)"
    by (metis append_take_drop_id)
  then have "drop o1 inp = bytes_of_string x @ drop off' inp"
    using b by (simp only: drop_drop add.commute)
  with s lx b ok show "str_ok x \<and> off' = off + length (str_bytes x) \<and> off' \<le> length inp
      \<and> drop off inp = str_bytes x @ drop off' inp"
    by (simp add: str_bytes_def)
qed

interpretation str_field: wire_field str_bytes read_str str_ok
  by (rule str_field)


section \<open>Round trips\<close>

lemma serialize_envelope_bytes:
  "serialize_envelope env =
     be_bytes 2 kMagic @ [kVersion] @ [env_message_type env] @ be_bytes 2 (env_flags env)
     @ be_bytes 2 (0 :: u16) @ be_bytes 4 (of_nat (length (env_payload env)) :: u32)
     @ be_bytes 8 (env_task_id env) @ be_bytes 8 (env_correlation_id env)
     @ be_bytes 4 (checksum32 (env_payload env)) @ env_payload env"
  by (simp add: serialize_envelope_def Let_def write_be)

lemma serialize_task_dispatch_bytes:
  "serialize_task_dispatch p =
     (if str_ok (td_task_type p) \<and> str_ok (td_input p)
      then Inr (be_bytes 4 (td_max_tokens p) @ be_bytes 4 (td_temperature p)
                @ str_bytes (td_task_type p) @ str_bytes (td_input p))
      else Inl (Runtime_error ''string too large''))"
  by (simp add: serialize_task_dispatch_def Let_def write_be write_str_bytes)

lemma serialize_task_result_bytes:
  "serialize_task_result p =
     (if str_ok (tr_output p) \<and> str_ok (tr_error_message p)
      then Inr ((if tr_success p then 1 else 0) # be_bytes 4 (tr_infer_ms p)
                @ str_bytes (tr_output p) @ str_bytes (tr_error_message p))
      else Inl (Runtime_error ''string too large''))"
  by (simp add: serialize_task_result_def Let_def write_be write_str_bytes)

text \<open>The parse of a serialised envelope, cursor by cursor.\<close>

lemma parse_envelope_fields:
  assumes frame: "frame = be_bytes 2 kMagic @ [kVersion] @ [mt] @ be_bytes 2 fl
     @ be_bytes 2 (r :: u16) @ be_bytes 4 (pl :: u32) @ be_bytes 8 ti @ be_bytes 8 ci
     @ be_bytes 4 ck @ payload"
  shows "parse_envelope_body frame =
    (if 32 + unat pl \<noteq> length frame then Inr None
     else if checksum32 payload \<noteq> ck then Inr None
     else Inr (Some \<lparr>env_message_type = mt, env_flags = fl, env_task_id = ti,
                     env_correlation_id = ci, env_payload = payload\<rparr>))"
proof -
  note s16 = u16_field.read_step [OF TrueI] and s32 = u32_field.read_step [OF TrueI]
    and s64 = u64_field.read_step [OF TrueI] and s8 = u8_field.read_step [OF TrueI]
  have d0: "drop 0 frame = be_bytes 2 kMagic @ drop 2 frame" by (simp add: frame)
  have r0: "read_u16 frame 0 = Inr (kMagic, 2)"
    using s16 [OF d0] by (simp add: numeral_2_eq_2)
  have d2: "drop 2 frame = [kVersion] @ drop 3 frame" by (simp add: frame)
  note r2 = s8 [OF d2]
  have d3: "drop 3 frame = [mt] @ drop 4 frame" by (simp add: frame)
  note r3 = s8 [OF d3]
  have d4: "drop 4 frame = be_bytes 2 fl @ drop 6 frame" by (simp add: frame)
  note r4 = s16 [OF d4]
  have d6: "drop 6 frame = be_bytes 2 r @ drop 8 frame" by (simp add: frame)
  note r6 = s16 [OF d6]
  have d8: "drop 8 frame = be_bytes 4 pl @ drop 12 frame" by (simp add: frame)
  note r8 = s32 [OF d8]
  have d12: "drop 12 frame = be_bytes 8 ti @ drop 20 frame" by (simp add: frame)
  note r12 = s64 [OF d12]
  have d20: "drop 20 frame = be_bytes 8 ci @ drop 28 frame" by (simp add: frame)
  note r20 = s64 [OF d20]
  have d28: "drop 28 frame = be_bytes 4 ck @ payload" by (simp add: frame)
  note r28 = s32 [OF d28]
  have d32: "drop 32 frame = payload" using r28 by simp
  show ?thesis
    using r0 r2 r3 r4 r6 r8 r12 r20 r28 d32 by (simp add: parse_envelope_body_def Let_def)
qed

text \<open>
  C8: An envelope is recovered exactly from its serialised frame, as long as its payload length
  fits the 32-bit length field.
\<close>

theorem envelope_roundtrip:
  assumes "length (env_payload env) < 2 ^ 32"
  shows "parse_envelope (serialize_envelope env) = Some env"
proof -
  have "unat (of_nat (length (env_payload env)) :: u32) = length (env_payload env)"
    using assms by (simp add: unat_of_nat)
  then show ?thesis
    unfolding parse_envelope_def
    by (subst parse_envelope_fields [OF serialize_envelope_bytes])
      (simp add: serialize_envelope_bytes catch_none_def)
qed

theorem envelope_roundtrip_witness:
  "parse_envelope (serialize_envelope
     \<lparr>env_message_type = message_type_code TaskDispatch, env_flags = 3, env_task_id = 77,
      env_correlation_id = 5, env_payload = [1, 2, 250]\<rparr>)
   = Some \<lparr>env_message_type = message_type_code TaskDispatch, env_flags = 3, env_task_id = 77,
      env_correlation_id = 5, env_payload = [1, 2, 250]\<rparr>"
  by (rule envelope_roundtrip) simp


text \<open>
  FNV-1a mixes one byte by an XOR and a multiplication by an odd constant, both bijections of
  the 32-bit words; so two buffers that differ in one byte have different checksums.
\<close>

definition fnv_step :: "u32 \<Rightarrow> u8 \<Rightarrow> u32" where
  "fnv_step h b = (h XOR ucast b) * 16777619"

lemma fnv_prime_inverse: "(16777619 :: u32) * 899433627 = 1"
  by simp

lemma fnv_mult_inj: "(a :: u32) * 16777619 = b * 16777619 \<longleftrightarrow> a = b"
proof
  assume "a * 16777619 = b * 16777619"
  then have "a * (16777619 * 899433627) = b * (16777619 * 899433627)"
    by (simp only: mult.assoc [symmetric])
  then show "a = b" by (simp only: fnv_prime_inverse mult_1_right)
qed simp

lemma xor_left_inj: "(a :: 'a::len word) XOR b = a XOR c \<longleftrightarrow> b = c"
  by (metis xor.assoc xor.left_neutral xor_self_eq)

lemma ucast_u8_u32_inj: "(ucast (a :: u8) :: u32) = ucast b \<longleftrightarrow> a = b"
proof
  assume eq: "(ucast a :: u32) = ucast b"
  have inv: "(ucast (ucast c :: u32) :: u8) = c" for c :: u8
    by (rule bit_word_eqI) (simp add: bit_simps)
  from eq have "(ucast (ucast a :: u32) :: u8) = ucast (ucast b :: u32)" by (rule arg_cong)
  then show "a = b" by (simp only: inv)
qed simp

lemma fnv_step_inj_state: "fnv_step h b = fnv_step h' b \<longleftrightarrow> h = h'"
  by (simp add: fnv_step_def fnv_mult_inj xor.commute [of _ "ucast b"] xor_left_inj)

lemma fnv_step_inj_byte: "fnv_step h b = fnv_step h b' \<longleftrightarrow> b = b'"
  by (simp add: fnv_step_def fnv_mult_inj xor_left_inj ucast_u8_u32_inj)

lemma checksum32_foldl: "checksum32 bs = foldl fnv_step 2166136261 bs"
  unfolding checksum32_def fnv_step_def [abs_def] ..

lemma foldl_fnv_inj: "foldl fnv_step h bs = foldl fnv_step h' bs \<longleftrightarrow> h = h'"
  by (induction bs arbitrary: h h') (simp_all add: fnv_step_inj_state)

lemma checksum32_one_byte:
  assumes "i < length bs" "b \<noteq> bs ! i"
  shows "checksum32 (bs[i := b]) \<noteq> checksum32 bs"
proof -
  have split: "bs = take i bs @ bs ! i # drop (Suc i) bs"
    using assms(1) by (rule id_take_nth_drop)
  have "checksum32 (bs[i := b]) = checksum32 bs \<longleftrightarrow>
    foldl fnv_step 2166136261 (take i bs @ b # drop (Suc i) bs)
      = foldl fnv_step 2166136261 (take i bs @ bs ! i # drop (Suc i) bs)"
    using assms(1) split by (simp only: checksum32_foldl upd_conv_take_nth_drop)
  also have "\<dots> \<longleftrightarrow> b = bs ! i"
    by (simp add: foldl_fnv_inj fnv_step_inj_byte)
  finally show ?thesis using assms(2) by simp
qed

text \<open>
  A frame whose payload was altered in exactly one byte on the way is rejected, for every
  envelope whose length field does not overflow.
\<close>

lemma envelope_rejects_corrupt_payload:
  assumes "length (env_payload env) < 2 ^ 32"
    and "i < length (env_payload env)" "b \<noteq> env_payload env ! i"
  shows "parse_envelope ((serialize_envelope env)[32 + i := b]) = None"
proof -
  let ?p = "(env_payload env)[i := b]"
  let ?h = "be_bytes 2 kMagic @ [kVersion] @ [env_message_type env] @ be_bytes 2 (env_flags env)
     @ be_bytes 2 (0 :: u16) @ be_bytes 4 (of_nat (length (env_payload env)) :: u32)
     @ be_bytes 8 (env_task_id env) @ be_bytes 8 (env_correlation_id env)
     @ be_bytes 4 (checksum32 (env_payload env))"
  have "(serialize_envelope env)[32 + i := b] = (?h @ env_payload env)[32 + i := b]"
    by (simp add: serialize_envelope_bytes)
  also have "\<dots> = ?h @ ?p"
    by (subst list_update_append) simp
  finally have frame: "(serialize_envelope env)[32 + i := b]
      = be_bytes 2 kMagic @ [kVersion] @ [env_message_type env] @ be_bytes 2 (env_flags env)
     @ be_bytes 2 (0 :: u16) @ be_bytes 4 (of_nat (length (env_payload env)) :: u32)
     @ be_bytes 8 (env_task_id env) @ be_bytes 8 (env_correlation_id env)
     @ be_bytes 4 (checksum32 (env_payload env)) @ ?p"
    by simp
  show ?thesis
    unfolding parse_envelope_def
    using checksum32_one_byte [OF assms(2,3)]
    by (subst parse_envelope_fields [OF frame]) (simp add: catch_none_def)
qed

lemma envelope_rejects_corrupt_payload_witness:
  "parse_envelope ((serialize_envelope
     \<lparr>env_message_type = 3, env_flags = 0, env_task_id = 1, env_correlation_id = 2,
      env_payload = [10, 20, 30]\<rparr>)[32 + 1 := 21]) = None"
  by (rule envelope_rejects_corrupt_payload) simp_all

lemma task_dispatch_roundtrip:
  "case serialize_task_dispatch d of
     Inl _ \<Rightarrow> 0xFFFF < max (length (td_task_type d)) (length (td_input d))
   | Inr bs \<Rightarrow> parse_task_dispatch bs = Some d"
proof (cases "str_ok (td_task_type d) \<and> str_ok (td_input d)")
  case True
  note s32 = u32_field.read_step [OF TrueI] and sstr = str_field.read_step
  define bs where "bs = be_bytes 4 (td_max_tokens d) @ be_bytes 4 (td_temperature d)
              @ str_bytes (td_task_type d) @ str_bytes (td_input d)"
  have d0: "drop 0 bs = be_bytes 4 (td_max_tokens d) @ drop 4 bs" by (simp add: bs_def)
  note r0 = s32 [OF d0]
  have d4: "drop 4 bs = be_bytes 4 (td_temperature d) @ drop 8 bs" by (simp add: bs_def)
  note r4 = s32 [OF d4]
  have d8: "drop 8 bs = str_bytes (td_task_type d) @ str_bytes (td_input d) @ []"
    by (simp add: bs_def)
  note r8 = sstr [OF conjunct1 [OF True] d8]
  note r9 = sstr [OF conjunct2 [OF True] conjunct2 [OF r8]]
  have len: "length bs = 8 + length (str_bytes (td_task_type d)) + length (str_bytes (td_input d))"
    by (simp add: bs_def)
  have "parse_task_dispatch bs = Some d"
    using r0 r4 r8 r9 len
    by (simp add: parse_task_dispatch_def parse_task_dispatch_body_def catch_none_def)
  then show ?thesis using True by (simp add: serialize_task_dispatch_bytes bs_def)
next
  case False
  then show ?thesis by (auto simp: serialize_task_dispatch_bytes str_ok_def)
qed

lemma task_result_roundtrip:
  "case serialize_task_result r of
     Inl _ \<Rightarrow> 0xFFFF < max (length (tr_output r)) (length (tr_error_message r))
   | Inr bs \<Rightarrow> parse_task_result bs = Some r"
proof (cases "str_ok (tr_output r) \<and> str_ok (tr_error_message r)")
  case True
  note s32 = u32_field.read_step [OF TrueI] and sstr = str_field.read_step
  define bs where "bs = (if tr_success r then 1 else 0) # be_bytes 4 (tr_infer_ms r)
              @ str_bytes (tr_output r) @ str_bytes (tr_error_message r)"
  have d1: "drop 1 bs = be_bytes 4 (tr_infer_ms r) @ drop 5 bs" by (simp add: bs_def)
  note r1 = s32 [OF d1]
  have d5: "drop 5 bs = str_bytes (tr_output r) @ str_bytes (tr_error_message r) @ []"
    by (simp add: bs_def)
  note r5 = sstr [OF conjunct1 [OF True] d5]
  note r6 = sstr [OF conjunct2 [OF True] conjunct2 [OF r5]]
  have len: "length bs = 5 + length (str_bytes (tr_output r)) + length (str_bytes (tr_error_message r))"
    and b0: "(bs ! 0 \<noteq> 0) = tr_success r" and ne: "bs \<noteq> []"
    by (simp_all add: bs_def)
  have "parse_task_result bs = Some r"
    using r1 r5 r6 len b0 ne
    by (simp add: parse_task_result_def parse_task_result_body_def catch_none_def Let_def)
  then show ?thesis using True by (simp add: serialize_task_result_bytes bs_def)
next
  case False
  then show ?thesis by (auto simp: serialize_task_result_bytes str_ok_def)
qed


text \<open>
  The dispatch parser accepts nothing but serialised dispatches: a buffer it parses is,
  byte for byte, what the serialiser makes of the parsed record (no trailing bytes, no second
  encoding of a record).
\<close>

lemma task_dispatch_canonical:
  assumes "parse_task_dispatch data = Some p"
  shows "serialize_task_dispatch p = Inr data"
proof -
  from assms obtain mt o1 tb o2 tt o3 i o4
    where r: "read_u32 data 0 = Inr (mt, o1)" "read_u32 data o1 = Inr (tb, o2)"
      "read_str data o2 = Inr (tt, o3)" "read_str data o3 = Inr (i, o4)"
      and p: "o4 = length data"
        "p = \<lparr>td_task_type = tt, td_input = i, td_max_tokens = mt, td_temperature = tb\<rparr>"
    by (auto simp: parse_task_dispatch_def parse_task_dispatch_body_def catch_none_def bindR_def
        split: sum.splits prod.splits if_splits)
  have "data = be_bytes 4 mt @ be_bytes 4 tb @ str_bytes tt @ str_bytes i"
    using u32_field.read_split(1) [OF r(1)] u32_field.read_split(1) [OF r(2)]
      str_field.read_split(1) [OF r(3)] str_field.read_split(1) [OF r(4)] p(1) by simp
  then show ?thesis
    using str_field.read_split(2) [OF r(3)] str_field.read_split(2) [OF r(4)]
    by (simp add: serialize_task_dispatch_bytes p(2))
qed

lemma task_dispatch_canonical_witness:
  "serialize_task_dispatch \<lparr>td_task_type = ''code'', td_input = ''x'', td_max_tokens = 256,
      td_temperature = 0x3E4CCCCD\<rparr>
     = Inr [0, 0, 1, 0, 0x3E, 0x4C, 0xCC, 0xCD, 0, 4, 99, 111, 100, 101, 0, 1, 120]"
proof -
  have "parse_task_dispatch [0, 0, 1, 0, 0x3E, 0x4C, 0xCC, 0xCD, 0, 4, 99, 111, 100, 101, 0, 1, 120]
    = Some \<lparr>td_task_type = ''code'', td_input = ''x'', td_max_tokens = 256,
      td_temperature = 0x3E4CCCCD\<rparr>"
    by code_simp
  then show ?thesis by (rule task_dispatch_canonical)
qed

end
