(* ===== verification/Linep_Types.thy ===== *)
theory Linep_Types
  imports Prelude
begin

text \<open>
  The public vocabulary of LiNeP (\<open>linep/include/linep/messages.hpp\<close> and
  \<open>types.hpp\<close>): the enumerations with their numeric codes, the wire constants, the two
  packed structures and the flag bits. The enumerations are datatypes with the source's
  constructors; a field of a frame keeps the raw integer, as in the code, so the \<open>_code\<close>
  functions are the \<open>static_cast\<close>s of the source. The packed structures have a byte image
  (\<open>reinterpret_cast\<close> to \<open>const uint8_t*\<close> on a little-endian host, which is what x64 and
  ARM64 are) and a reader of that image.
\<close>

section \<open>Enumerations of messages.hpp\<close>

datatype msg_type =
    HEARTBEAT | REGISTER | REGISTER_ACK | BYE
  | TASK | TASK_ACK | RESULT | MSG_ERROR
  | STATUS_REQUEST | STATUS_RESPONSE
  | EMBED_REQUEST | EMBED_RESPONSE | SIMILARITY_REQUEST | SIMILARITY_RESPONSE
  | CONSENSUS_REQUEST | CONSENSUS_RESPONSE
  | PING | PONG

fun msg_code :: "msg_type \<Rightarrow> u8" where
  "msg_code HEARTBEAT = 0x01"
| "msg_code REGISTER = 0x02"
| "msg_code REGISTER_ACK = 0x03"
| "msg_code BYE = 0x04"
| "msg_code TASK = 0x10"
| "msg_code TASK_ACK = 0x11"
| "msg_code RESULT = 0x12"
| "msg_code MSG_ERROR = 0x13"
| "msg_code STATUS_REQUEST = 0x20"
| "msg_code STATUS_RESPONSE = 0x21"
| "msg_code EMBED_REQUEST = 0x30"
| "msg_code EMBED_RESPONSE = 0x31"
| "msg_code SIMILARITY_REQUEST = 0x32"
| "msg_code SIMILARITY_RESPONSE = 0x33"
| "msg_code CONSENSUS_REQUEST = 0x40"
| "msg_code CONSENSUS_RESPONSE = 0x41"
| "msg_code PING = 0xF0"
| "msg_code PONG = 0xF1"

datatype task_type =
    TASK_INSTRUCT | TASK_CODE | TASK_SUMMARIZE | TASK_CLASSIFY | TASK_VALIDATE
  | TASK_EDGE_TEXT_EVAL

fun task_code :: "task_type \<Rightarrow> u8" where
  "task_code TASK_INSTRUCT = 0x01"
| "task_code TASK_CODE = 0x02"
| "task_code TASK_SUMMARIZE = 0x03"
| "task_code TASK_CLASSIFY = 0x04"
| "task_code TASK_VALIDATE = 0x05"
| "task_code TASK_EDGE_TEXT_EVAL = 0x06"

datatype slot_type =
    SLOT_TYPE_INSTRUCT | SLOT_TYPE_CODER | SLOT_TYPE_EMBEDDING | SLOT_TYPE_CLASSIFIER
  | SLOT_TYPE_SUMMARIZER | SLOT_TYPE_VALIDATOR

fun slot_type_code :: "slot_type \<Rightarrow> u8" where
  "slot_type_code SLOT_TYPE_INSTRUCT = 0x01"
| "slot_type_code SLOT_TYPE_CODER = 0x02"
| "slot_type_code SLOT_TYPE_EMBEDDING = 0x03"
| "slot_type_code SLOT_TYPE_CLASSIFIER = 0x04"
| "slot_type_code SLOT_TYPE_SUMMARIZER = 0x05"
| "slot_type_code SLOT_TYPE_VALIDATOR = 0x06"

datatype result_status =
    RESULT_OK | RESULT_REJECTED | RESULT_TIMEOUT | RESULT_MODEL_ERROR
  | RESULT_INVALID_INPUT | RESULT_DEGRADED

fun status_code :: "result_status \<Rightarrow> u8" where
  "status_code RESULT_OK = 0x00"
| "status_code RESULT_REJECTED = 0x01"
| "status_code RESULT_TIMEOUT = 0x02"
| "status_code RESULT_MODEL_ERROR = 0x03"
| "status_code RESULT_INVALID_INPUT = 0x04"
| "status_code RESULT_DEGRADED = 0x05"

datatype consensus_level = CONSENSUS_FAILED | CONSENSUS_PARTIAL | CONSENSUS_STRONG

fun level_code :: "consensus_level \<Rightarrow> u8" where
  "level_code CONSENSUS_FAILED = 0"
| "level_code CONSENSUS_PARTIAL = 1"
| "level_code CONSENSUS_STRONG = 2"

datatype error_code =
    ERR_PROTOCOL_ERROR | ERR_CRC_ERROR | ERR_UNSUPPORTED_VERSION | ERR_UNKNOWN_MSG_TYPE
  | ERR_INVALID_PAYLOAD
  | ERR_MODEL_NOT_READY | ERR_MODEL_LOAD_FAILED | ERR_INFERENCE_FAILED | ERR_TOKENIZER_FAILED
  | ERR_DEVICE_UNAVAILABLE
  | ERR_TIMEOUT | ERR_NO_SLOT_AVAILABLE | ERR_CONSENSUS_FAILED

fun err_code :: "error_code \<Rightarrow> u16" where
  "err_code ERR_PROTOCOL_ERROR = 1000"
| "err_code ERR_CRC_ERROR = 1001"
| "err_code ERR_UNSUPPORTED_VERSION = 1002"
| "err_code ERR_UNKNOWN_MSG_TYPE = 1003"
| "err_code ERR_INVALID_PAYLOAD = 1004"
| "err_code ERR_MODEL_NOT_READY = 2000"
| "err_code ERR_MODEL_LOAD_FAILED = 2001"
| "err_code ERR_INFERENCE_FAILED = 2002"
| "err_code ERR_TOKENIZER_FAILED = 2003"
| "err_code ERR_DEVICE_UNAVAILABLE = 2004"
| "err_code ERR_TIMEOUT = 3000"
| "err_code ERR_NO_SLOT_AVAILABLE = 3001"
| "err_code ERR_CONSENSUS_FAILED = 3002"

text \<open>No two constants of an enumeration share a code, so a code identifies its constant.\<close>

lemma msg_code_inj: "msg_code a = msg_code b \<longleftrightarrow> a = b"
  by (cases a; cases b) simp_all

lemma task_code_inj: "task_code a = task_code b \<longleftrightarrow> a = b"
  by (cases a; cases b) simp_all

lemma status_code_inj: "status_code a = status_code b \<longleftrightarrow> a = b"
  by (cases a; cases b) simp_all

lemma err_code_inj: "err_code a = err_code b \<longleftrightarrow> a = b"
  by (cases a; cases b) simp_all

section \<open>Constants of types.hpp\<close>

definition MAGIC :: u16 where "MAGIC = 0x4C4E"
definition VERSION :: u8 where "VERSION = 0x01"
definition HEADER_BASE_LEN :: u16 where "HEADER_BASE_LEN = 24"
definition HEADER_BUILD_TIME_LEN :: u16 where "HEADER_BUILD_TIME_LEN = 6"

datatype flag =
    FLAG_ACK_REQUIRED | FLAG_IS_ACK | FLAG_ERROR | FLAG_COMPRESSED | FLAG_ENCRYPTED
  | FLAG_FRAGMENTED | FLAG_FINAL_FRAGMENT | FLAG_PRIORITY | FLAG_DEGRADED | FLAG_RETRY
  | FLAG_BUILD_TIME

fun flag_code :: "flag \<Rightarrow> u16" where
  "flag_code FLAG_ACK_REQUIRED = push_bit 0 1"
| "flag_code FLAG_IS_ACK = push_bit 1 1"
| "flag_code FLAG_ERROR = push_bit 2 1"
| "flag_code FLAG_COMPRESSED = push_bit 3 1"
| "flag_code FLAG_ENCRYPTED = push_bit 4 1"
| "flag_code FLAG_FRAGMENTED = push_bit 5 1"
| "flag_code FLAG_FINAL_FRAGMENT = push_bit 6 1"
| "flag_code FLAG_PRIORITY = push_bit 7 1"
| "flag_code FLAG_DEGRADED = push_bit 8 1"
| "flag_code FLAG_RETRY = push_bit 9 1"
| "flag_code FLAG_BUILD_TIME = push_bit 10 1"

datatype slot_flag =
    SLOT_ALIVE | SLOT_READY | SLOT_BUSY | SLOT_DEGRADED | SLOT_ERROR | SLOT_THERMAL_LIMIT
  | SLOT_MODEL_LOADING

fun slot_bit :: "slot_flag \<Rightarrow> nat" where
  "slot_bit SLOT_ALIVE = 0"
| "slot_bit SLOT_READY = 1"
| "slot_bit SLOT_BUSY = 2"
| "slot_bit SLOT_DEGRADED = 3"
| "slot_bit SLOT_ERROR = 4"
| "slot_bit SLOT_THERMAL_LIMIT = 5"
| "slot_bit SLOT_MODEL_LOADING = 6"

definition slot_flag_code :: "slot_flag \<Rightarrow> u8" where
  "slot_flag_code f = push_bit (slot_bit f) 1"

datatype load_special = LOAD_IDLE | LOAD_UNKNOWN | LOAD_OFFLINE | LOAD_INVALID

fun load_code :: "load_special \<Rightarrow> u8" where
  "load_code LOAD_IDLE = 0"
| "load_code LOAD_UNKNOWN = 200"
| "load_code LOAD_OFFLINE = 250"
| "load_code LOAD_INVALID = 255"

lemmas wire_consts = MAGIC_def VERSION_def HEADER_BASE_LEN_def HEADER_BUILD_TIME_LEN_def

text \<open>Testing a slot flag is testing one bit of the flag byte.\<close>

lemma and_slot_flag_code: "w AND slot_flag_code f \<noteq> 0 \<longleftrightarrow> bit w (slot_bit f)"
proof -
  have "slot_bit f < 8" by (cases f) simp_all
  then show ?thesis
    by (simp add: slot_flag_code_def push_bit_eq_mult and_exp_eq_0_iff_not_bit)
qed

lemma slot_bit_inj: "slot_bit a = slot_bit b \<longleftrightarrow> a = b"
  by (cases a; cases b) simp_all

section \<open>The packed structures\<close>

record header =
  h_magic :: u16
  h_version :: u8
  h_msg_type :: u8
  h_header_len :: u16
  h_flags :: u16
  h_payload_len :: u32
  h_sequence :: u32
  h_correlation_id :: u32
  h_worker_id :: u16
  h_slot_id :: u8
  h_header_crc :: u8

record build_time_ext =
  bt_year_2d :: u8
  bt_month :: u8
  bt_day :: u8
  bt_hour :: u8
  bt_minute :: u8
  bt_second :: u8

record heartbeat_compact =
  hb_magic :: u16
  hb_version :: u8
  hb_msg_type :: u8
  hb_worker_id :: u16
  hb_slot_id :: u8
  hb_slot_flags :: u8
  hb_load :: u8
  hb_queue_depth :: u8
  hb_sequence :: u8
  hb_crc8 :: u8

text \<open>The image of a packed structure in memory, field by field at the documented offsets.\<close>

definition header_bytes :: "header \<Rightarrow> bytes" where
  "header_bytes h =
     le16 (h_magic h) @ [h_version h, h_msg_type h] @ le16 (h_header_len h) @ le16 (h_flags h)
     @ le32 (h_payload_len h) @ le32 (h_sequence h) @ le32 (h_correlation_id h)
     @ le16 (h_worker_id h) @ [h_slot_id h, h_header_crc h]"

fun header_of_bytes :: "bytes \<Rightarrow> header option" where
  "header_of_bytes [b0, b1, b2, b3, b4, b5, b6, b7, b8, b9, b10, b11, b12, b13, b14, b15,
                    b16, b17, b18, b19, b20, b21, b22, b23] =
     Some \<lparr>h_magic = of_le16 b0 b1, h_version = b2, h_msg_type = b3,
           h_header_len = of_le16 b4 b5, h_flags = of_le16 b6 b7,
           h_payload_len = of_le32 b8 b9 b10 b11, h_sequence = of_le32 b12 b13 b14 b15,
           h_correlation_id = of_le32 b16 b17 b18 b19,
           h_worker_id = of_le16 b20 b21, h_slot_id = b22, h_header_crc = b23\<rparr>"
| "header_of_bytes _ = None"

definition build_time_bytes :: "build_time_ext \<Rightarrow> bytes" where
  "build_time_bytes e =
     [bt_year_2d e, bt_month e, bt_day e, bt_hour e, bt_minute e, bt_second e]"

definition heartbeat_bytes :: "heartbeat_compact \<Rightarrow> bytes" where
  "heartbeat_bytes f =
     le16 (hb_magic f) @ [hb_version f, hb_msg_type f] @ le16 (hb_worker_id f)
     @ [hb_slot_id f, hb_slot_flags f, hb_load f, hb_queue_depth f, hb_sequence f, hb_crc8 f]"

fun heartbeat_of_bytes :: "bytes \<Rightarrow> heartbeat_compact option" where
  "heartbeat_of_bytes [b0, b1, b2, b3, b4, b5, b6, b7, b8, b9, b10, b11] =
     Some \<lparr>hb_magic = of_le16 b0 b1, hb_version = b2, hb_msg_type = b3,
           hb_worker_id = of_le16 b4 b5, hb_slot_id = b6, hb_slot_flags = b7,
           hb_load = b8, hb_queue_depth = b9, hb_sequence = b10, hb_crc8 = b11\<rparr>"
| "heartbeat_of_bytes _ = None"

lemma length_header_bytes [simp]: "length (header_bytes h) = 24"
  by (simp add: header_bytes_def)

lemma length_build_time_bytes [simp]: "length (build_time_bytes e) = 6"
  by (simp add: build_time_bytes_def)

lemma length_heartbeat_bytes [simp]: "length (heartbeat_bytes f) = 12"
  by (simp add: heartbeat_bytes_def)

lemma header_of_header_bytes [codec_simps, simp]: "header_of_bytes (header_bytes h) = Some h"
  by (simp add: header_bytes_def le16_def le32_def of_le16_bytes of_le32_bytes)

lemma heartbeat_of_heartbeat_bytes [codec_simps, simp]:
  "heartbeat_of_bytes (heartbeat_bytes f) = Some f"
  by (simp add: heartbeat_bytes_def le16_def of_le16_bytes)

lemma header_bytes_of_bytes: "header_of_bytes bs = Some h \<Longrightarrow> header_bytes h = bs"
  by (induction bs rule: header_of_bytes.induct)
    (auto simp: header_bytes_def le16_of_le16 le32_of_le32)

lemma heartbeat_bytes_of_bytes: "heartbeat_of_bytes bs = Some f \<Longrightarrow> heartbeat_bytes f = bs"
  by (induction bs rule: heartbeat_of_bytes.induct)
    (auto simp: heartbeat_bytes_def le16_of_le16)

lemma header_of_bytes_24: "(\<exists>h. header_of_bytes bs = Some h) \<longleftrightarrow> length bs = 24"
proof
  assume "\<exists>h. header_of_bytes bs = Some h"
  then show "length bs = 24" by (metis header_bytes_of_bytes length_header_bytes)
next
  assume len: "length bs = 24"
  then show "\<exists>h. header_of_bytes bs = Some h"
    by (auto simp: numeral_eq_Suc length_Suc_conv)
qed

lemma heartbeat_of_bytes_12: "(\<exists>f. heartbeat_of_bytes bs = Some f) \<longleftrightarrow> length bs = 12"
proof
  assume "\<exists>f. heartbeat_of_bytes bs = Some f"
  then show "length bs = 12" by (metis heartbeat_bytes_of_bytes length_heartbeat_bytes)
next
  assume "length bs = 12"
  then show "\<exists>f. heartbeat_of_bytes bs = Some f"
    by (auto simp: numeral_eq_Suc length_Suc_conv)
qed

end
