(* ===== verification/Crc8.thy ===== *)
theory Crc8
  imports Prelude
begin

text \<open>
  The CRC-8 of the repository (polynomial \<open>0x07\<close>, initial value 0, no reflection), which
  exists twice: \<open>linep::core::crc8\<close> over a pointer and a length (\<open>core/crc.cpp\<close>) and
  \<open>liara::common::crc8_update\<close>/\<open>crc8\<close> over an array (\<open>common/crc8.hpp\<close>). Both loops
  are translated; the rest of the theory is the algebra of the code (it is linear over XOR, the
  register update is a bijection, a frame followed by its CRC has CRC 0 and even parity), from
  which the error-detection properties of the frames follow.
\<close>

section \<open>The two implementations\<close>

text \<open>\<open>linep::core::crc8\<close>: the inner eight-step loop and the outer loop over the buffer.\<close>

fun crc8_bits :: "nat \<Rightarrow> u8 \<Rightarrow> u8" where
  "crc8_bits 0 crc = crc"
| "crc8_bits (Suc k) crc =
     crc8_bits k (if crc AND 0x80 \<noteq> 0 then push_bit 1 crc XOR 0x07 else push_bit 1 crc)"

fun crc8_loop :: "u8 \<Rightarrow> bytes \<Rightarrow> u8" where
  "crc8_loop crc [] = crc"
| "crc8_loop crc (b # bs) = crc8_loop (crc8_bits 8 (crc XOR b)) bs"

definition crc8 :: "bytes \<Rightarrow> nat \<Rightarrow> u8" where
  "crc8 buf n = crc8_loop 0x00 (take n buf)"

text \<open>\<open>liara::common\<close>: one byte at a time, and the array version with its index loop.\<close>

definition kCrc8Polynomial :: u8 where
  "kCrc8Polynomial = 0x07"

fun crc8_update_loop :: "nat \<Rightarrow> u8 \<Rightarrow> u8" where
  "crc8_update_loop 0 crc = crc"
| "crc8_update_loop (Suc k) crc =
     (if crc AND 0x80 \<noteq> 0 then crc8_update_loop k (push_bit 1 crc XOR kCrc8Polynomial)
      else crc8_update_loop k (push_bit 1 crc))"

definition crc8_update :: "u8 \<Rightarrow> u8 \<Rightarrow> u8" where
  "crc8_update crc value = crc8_update_loop 8 (crc XOR value)"

definition array_crc8 :: "bytes \<Rightarrow> nat \<Rightarrow> u8" where
  "array_crc8 arr n = foldl (\<lambda>crc i. crc8_update crc (arr ! i)) 0 [0..<n]"

section \<open>Algebra of the register\<close>

definition crc8_shift :: "u8 \<Rightarrow> u8" where
  "crc8_shift c = (if c AND 0x80 \<noteq> 0 then push_bit 1 c XOR 0x07 else push_bit 1 c)"

lemma and_0x80_iff: "(c :: u8) AND 0x80 \<noteq> 0 \<longleftrightarrow> bit c 7"
proof -
  have "(0x80 :: u8) = 2 ^ 7" by simp
  then show ?thesis by (simp only: and_exp_eq_0_iff_not_bit) simp
qed

lemma crc8_bits_funpow: "crc8_bits k c = (crc8_shift ^^ k) c"
  by (induction k arbitrary: c) (simp_all add: crc8_shift_def funpow_Suc_right del: funpow.simps)

lemma crc8_update_loop_eq: "crc8_update_loop k c = crc8_bits k c"
  by (induction k arbitrary: c) (simp_all add: kCrc8Polynomial_def)

lemma bit_crc8_shift:
  "bit (crc8_shift c) n \<longleftrightarrow> n < 8 \<and> (0 < n \<and> bit c (n - 1)) \<noteq> (bit c 7 \<and> n < 3)"
proof -
  have seven: "(0x07 :: u8) = mask 3" by (simp add: mask_eq_exp_minus_1)
  have sh: "bit (push_bit 1 c) n \<longleftrightarrow> n < 8 \<and> 0 < n \<and> bit c (n - 1)"
    unfolding bit_push_bit_iff by auto
  have "bit (push_bit 1 c XOR 0x07) n \<longleftrightarrow> n < 8 \<and> (0 < n \<and> bit c (n - 1)) \<noteq> (n < 3)"
    unfolding bit_xor_iff sh seven bit_mask_iff by auto
  with sh show ?thesis by (auto simp only: crc8_shift_def and_0x80_iff split: if_splits)
qed

lemma crc8_shift_xor: "crc8_shift (a XOR b) = crc8_shift a XOR crc8_shift b"
  by (rule bit_word_eqI) (auto simp: bit_crc8_shift bit_xor_iff)

lemma crc8_shift_0 [simp]: "crc8_shift 0 = 0"
  by (rule bit_word_eqI) (simp add: bit_crc8_shift)

lemma crc8_shift_eq_0:
  assumes z: "crc8_shift c = 0"
  shows "c = 0"
proof (rule bit_word_eqI)
  have bits: "n < 8 \<Longrightarrow> (0 < n \<and> bit c (n - 1)) = (bit c 7 \<and> n < 3)" for n
    using bit_crc8_shift [of c n] z by auto
  from bits [of 0] have top: "\<not> bit c 7" by simp
  fix n assume "n < LENGTH(8)"
  then have "n < 8" by simp
  then show "bit c n = bit 0 n"
    using top bits [of "Suc n"] by (cases "n = 7") auto
qed

lemma funpow_crc8_shift_xor:
  "(crc8_shift ^^ k) (a XOR b) = (crc8_shift ^^ k) a XOR (crc8_shift ^^ k) b"
  by (induction k) (simp_all add: crc8_shift_xor)

lemma funpow_crc8_shift_0 [simp]: "(crc8_shift ^^ k) 0 = 0"
  by (induction k) simp_all

lemma funpow_crc8_shift_eq_0: "(crc8_shift ^^ k) c = 0 \<Longrightarrow> c = 0"
  by (induction k) (auto dest: crc8_shift_eq_0)

text \<open>One byte enters the register.\<close>

definition crc8_byte :: "u8 \<Rightarrow> u8" where
  "crc8_byte c = (crc8_shift ^^ 8) c"

lemma crc8_byte_xor: "crc8_byte (a XOR b) = crc8_byte a XOR crc8_byte b"
  by (simp add: crc8_byte_def funpow_crc8_shift_xor)

lemma crc8_byte_0 [simp]: "crc8_byte 0 = 0"
  by (simp add: crc8_byte_def)

lemma crc8_byte_eq_0 [simp]: "crc8_byte c = 0 \<longleftrightarrow> c = 0"
  by (auto simp: crc8_byte_def dest: funpow_crc8_shift_eq_0)

lemma crc8_loop_Cons: "crc8_loop c (b # bs) = crc8_loop (crc8_byte (c XOR b)) bs"
  by (simp only: crc8_loop.simps crc8_bits_funpow crc8_byte_def)

lemma crc8_loop_append: "crc8_loop c (xs @ ys) = crc8_loop (crc8_loop c xs) ys"
  by (induction xs arbitrary: c) (simp_all only: append_Cons append_Nil crc8_loop.simps)


section \<open>Both implementations compute the same function\<close>

lemma array_crc8_take: "array_crc8 arr n = foldl crc8_update 0 (map ((!) arr) [0..<n])"
  by (simp add: array_crc8_def foldl_map)

lemma crc8_update_byte: "crc8_update c b = crc8_byte (c XOR b)"
  by (simp only: crc8_update_def crc8_update_loop_eq crc8_bits_funpow crc8_byte_def)

lemma foldl_crc8_update: "foldl crc8_update c bs = crc8_loop c bs"
  by (induction bs arbitrary: c) (simp_all only: foldl.simps crc8_loop.simps(1) crc8_loop_Cons
      crc8_update_byte)

lemma map_nth_upt_take: "n \<le> length xs \<Longrightarrow> map ((!) xs) [0..<n] = take n xs"
  by (rule nth_equalityI) auto

lemma array_crc8_eq: "n \<le> length arr \<Longrightarrow> array_crc8 arr n = crc8 arr n"
  by (simp add: array_crc8_take foldl_crc8_update crc8_def map_nth_upt_take)

section \<open>Frames that carry their CRC\<close>

text \<open>
  A frame of \<open>n + 1\<close> bytes whose last byte is the CRC of the first \<open>n\<close> has CRC 0
  over all its bytes, and conversely.
\<close>

lemma xor_eq_0_word: "(a :: 'a::len word) XOR b = 0 \<longleftrightarrow> a = b"
  by (metis xor.right_neutral xor_self_eq xor.assoc xor.left_neutral)

lemma crc8_frame:
  assumes "length bs = Suc n"
  shows "crc8 bs n = bs ! n \<longleftrightarrow> crc8_loop 0 bs = 0"
proof -
  have "bs = take n bs @ [bs ! n]"
    using assms by (metis lessI take_Suc_conv_app_nth take_all order_refl)
  then have "crc8_loop 0 bs = crc8_loop (crc8_loop 0 (take n bs)) [bs ! n]"
    by (metis crc8_loop_append)
  also have "\<dots> = crc8_byte (crc8 bs n XOR bs ! n)"
    by (simp only: crc8_def crc8_loop_Cons crc8_loop.simps(1))
  finally show ?thesis by (simp add: xor_eq_0_word)
qed

text \<open>Changing one byte changes the CRC of the frame by a value that is never 0.\<close>

lemma funpow_crc8_byte_xor:
  "(crc8_byte ^^ k) (a XOR b) = (crc8_byte ^^ k) a XOR (crc8_byte ^^ k) b"
  by (induction k) (simp_all add: crc8_byte_xor)

lemma funpow_crc8_byte_eq_0 [simp]: "(crc8_byte ^^ k) c = 0 \<longleftrightarrow> c = 0"
  by (induction k) simp_all

lemma crc8_loop_xor_start: "crc8_loop (c XOR e) bs = crc8_loop c bs XOR (crc8_byte ^^ length bs) e"
proof (induction bs arbitrary: c e)
  case (Cons b bs)
  have "crc8_loop (c XOR e) (b # bs) = crc8_loop (crc8_byte (c XOR b) XOR crc8_byte e) bs"
    by (simp only: crc8_loop_Cons crc8_byte_xor [symmetric])
      (simp add: ac_simps)
  also have "\<dots> = crc8_loop c (b # bs) XOR (crc8_byte ^^ length bs) (crc8_byte e)"
    by (simp only: Cons.IH crc8_loop_Cons)
  finally show ?case by (simp add: funpow_swap1)
qed simp

lemma crc8_loop_update:
  assumes "i < length bs"
  shows "crc8_loop c (bs[i := bs ! i XOR e]) = crc8_loop c bs XOR (crc8_byte ^^ (length bs - i)) e"
proof -
  let ?p = "take i bs" and ?q = "drop (Suc i) bs"
  have bs: "bs = ?p @ (bs ! i) # ?q"
    using assms by (rule id_take_nth_drop)
  have "crc8_loop c (?p @ (bs ! i XOR e) # ?q)
      = crc8_loop (crc8_byte (crc8_loop c ?p XOR bs ! i) XOR crc8_byte e) ?q"
    by (simp only: crc8_loop_append crc8_loop_Cons crc8_byte_xor [symmetric])
      (simp add: ac_simps)
  also have "\<dots> = crc8_loop c (?p @ (bs ! i) # ?q) XOR (crc8_byte ^^ length ?q) (crc8_byte e)"
    by (simp only: crc8_loop_xor_start crc8_loop_append crc8_loop_Cons)
  also have "(crc8_byte ^^ length ?q) (crc8_byte e) = (crc8_byte ^^ (length bs - i)) e"
  proof -
    have "length bs - i = Suc (length ?q)" using assms by simp
    then show ?thesis by (simp add: funpow_swap1)
  qed
  finally show ?thesis
    using assms bs by (simp add: upd_conv_take_nth_drop)
qed

lemma single_byte_error_detected:
  assumes "i < length bs" "e \<noteq> 0" "crc8_loop 0 bs = 0"
  shows "crc8_loop 0 (bs[i := bs ! i XOR e]) \<noteq> 0"
  using assms by (simp add: crc8_loop_update)

section \<open>Flipping bits\<close>

text \<open>Bit \<open>k\<close> of a buffer is bit \<open>k mod 8\<close> of byte \<open>k div 8\<close>.\<close>

definition flip_bit_at :: "nat \<Rightarrow> bytes \<Rightarrow> bytes" where
  "flip_bit_at k bs = bs[k div 8 := bs ! (k div 8) XOR push_bit (k mod 8) 1]"

lemma length_flip_bit_at [simp]: "length (flip_bit_at k bs) = length bs"
  by (simp add: flip_bit_at_def)

definition syndrome :: "nat \<Rightarrow> nat \<Rightarrow> u8" where
  "syndrome n k = (crc8_shift ^^ (8 * (n - k div 8) + k mod 8)) 1"

lemma crc8_shift_funpow_1: "b < 8 \<Longrightarrow> (crc8_shift ^^ b) 1 = push_bit b 1"
proof (induction b)
  case (Suc b)
  then have "(crc8_shift ^^ Suc b) 1 = crc8_shift (push_bit b 1)" by simp
  also have "\<dots> = push_bit (Suc b) 1"
    using Suc.prems by (intro bit_word_eqI) (auto simp: bit_crc8_shift bit_simps)
  finally show ?case .
qed simp

lemma funpow_crc8_byte: "(crc8_byte ^^ k) c = (crc8_shift ^^ (8 * k)) c"
  by (induction k) (simp_all add: crc8_byte_def funpow_add)

lemma crc8_loop_flip:
  assumes "k < 8 * length bs"
  shows "crc8_loop 0 (flip_bit_at k bs) = crc8_loop 0 bs XOR syndrome (length bs) k"
proof -
  have "k div 8 < length bs" using assms by auto
  moreover have "push_bit (k mod 8) 1 = (crc8_shift ^^ (k mod 8)) 1"
    by (rule crc8_shift_funpow_1 [symmetric]) simp
  ultimately show ?thesis
    by (simp add: flip_bit_at_def crc8_loop_update funpow_crc8_byte syndrome_def funpow_add)
qed

lemma syndrome_nonzero: "syndrome n k \<noteq> 0"
  by (auto simp: syndrome_def dest: funpow_crc8_shift_eq_0)

text \<open>
  The orbit of the register has length 127: it returns to its start after 127 shifts, and, 127
  being prime, no earlier.
\<close>

lemma funpow_crc8_shift_inj: "(crc8_shift ^^ k) a = (crc8_shift ^^ k) b \<longleftrightarrow> a = b"
proof
  assume "(crc8_shift ^^ k) a = (crc8_shift ^^ k) b"
  then have "(crc8_shift ^^ k) (a XOR b) = 0" by (simp add: funpow_crc8_shift_xor)
  then have "a XOR b = 0" by (rule funpow_crc8_shift_eq_0)
  then show "a = b" by (simp add: xor_eq_0_word)
qed simp

text \<open>Evaluation, innermost application first.\<close>

lemma crc8_shift_numeral:
  "crc8_shift (numeral w) =
     (if numeral w AND (0x80 :: u8) \<noteq> 0 then push_bit 1 (numeral w) XOR 0x07
      else push_bit 1 (numeral w))"
  by (simp add: crc8_shift_def)

lemma crc8_shift_1: "crc8_shift 1 = 2"
  by (simp add: crc8_shift_def)

lemma funpow_numeral: "(f ^^ numeral k) x = f ((f ^^ pred_numeral k) x)"
  by (simp add: numeral_eq_Suc)

lemmas crc8_eval = crc8_shift_numeral crc8_shift_1 funpow_numeral

lemma crc8_orbit_127: "(crc8_shift ^^ 127) 1 = 1"
  by (simp add: crc8_eval)

lemma funpow_fixed: "(f ^^ n) x = x \<Longrightarrow> (f ^^ (n * k)) x = x"
  by (induction k) (simp_all add: funpow_add)

lemma no_divisor_127:
  fixes d :: nat
  assumes "d dvd 127" "d < 127"
  shows "d = 1"
proof -
  have "list_all (\<lambda>d. (127 :: nat) mod d \<noteq> 0) [2..<127]"
    by simp
  then have "\<forall>k \<in> {2..<127}. (127 :: nat) mod k \<noteq> 0"
    by (simp only: list_all_iff set_upt)
  then have "2 \<le> k \<and> k < 127 \<Longrightarrow> 127 mod k \<noteq> 0" for k :: nat
    by (metis atLeastLessThan_iff)
  then have "\<not> (2 \<le> d \<and> d < 127)"
    using assms(1) by (metis mod_0_imp_dvd dvd_imp_mod_0)
  moreover have "d \<noteq> 0" using assms by auto
  ultimately show ?thesis using assms by linarith
qed

lemma crc8_orbit_min:
  assumes "0 < d" "d < 127"
  shows "(crc8_shift ^^ d) 1 \<noteq> 1"
proof
  let ?P = "\<lambda>d. 0 < d \<and> (crc8_shift ^^ d) 1 = 1"
  define m where "m = (LEAST d. ?P d)"
  assume "(crc8_shift ^^ d) 1 = 1"
  with assms have "?P d" by simp
  then have m: "?P m"
    unfolding m_def by (rule LeastI)
  have min: "?P k \<Longrightarrow> m \<le> k" for k
    unfolding m_def by (rule Least_le)
  have "(crc8_shift ^^ (127 mod m)) ((crc8_shift ^^ (m * (127 div m))) 1) = 1"
    using crc8_orbit_127 by (simp flip: funpow_add [THEN fun_cong, unfolded comp_def])
  then have "(crc8_shift ^^ (127 mod m)) 1 = 1"
    using m by (simp add: funpow_fixed)
  then have "127 mod m = 0"
    using m min [of "127 mod m"] by (metis gr0I leD mod_less_divisor)
  moreover have "m < 127" using min [OF \<open>?P d\<close>] assms by simp
  ultimately have "m = 1" using no_divisor_127 by auto
  with m have "crc8_shift 1 = 1" by simp
  then show False by (simp add: crc8_shift_1)
qed

lemma crc8_orbit_inj:
  assumes "a < b" "b - a < 127"
  shows "(crc8_shift ^^ a) 1 \<noteq> (crc8_shift ^^ b) 1"
proof
  assume "(crc8_shift ^^ a) 1 = (crc8_shift ^^ b) 1"
  moreover have "(crc8_shift ^^ b) 1 = (crc8_shift ^^ a) ((crc8_shift ^^ (b - a)) 1)"
    using assms by (simp flip: funpow_add [THEN fun_cong, unfolded comp_def])
  ultimately have "(crc8_shift ^^ (b - a)) 1 = 1"
    by (simp add: funpow_crc8_shift_inj)
  then show False
    using crc8_orbit_min [of "b - a"] assms by simp
qed

lemma double_orbit_index:
  fixes n i j :: nat
  assumes "n \<le> 15" "i < 8 * n" "j < 8 * n" "i < j"
  defines "t \<equiv> \<lambda>k. 8 * (n - k div 8) + k mod 8"
  shows "t i < t j \<and> t j - t i < 127 \<or> t j < t i \<and> t i - t j < 127"
proof -
  define p q where "p = i div 8" and "q = j div 8"
  have i: "i = 8 * p + i mod 8" and j: "j = 8 * q + j mod 8"
    by (simp_all add: p_def q_def)
  have r: "i mod 8 < 8" "j mod 8 < 8" by simp_all
  have pq: "p < n" "q < n" "p \<le> q"
    using assms by (auto simp: p_def q_def div_le_mono)
  have t: "t i = 8 * (n - p) + i mod 8" "t j = 8 * (n - q) + j mod 8"
    by (simp_all add: t_def p_def q_def)
  show ?thesis
  proof (cases "p = q")
    case True
    with i j \<open>i < j\<close> have "i mod 8 < j mod 8" by linarith
    with True r show ?thesis unfolding t by simp
  next
    case False
    define a b x y where "a = n - p" and "b = n - q" and "x = i mod 8" and "y = j mod 8"
    have "b < a" "1 \<le> b" "a \<le> 15"
      using False pq \<open>n \<le> 15\<close> by (auto simp: a_def b_def)
    moreover have "x < 8" "y < 8" by (simp_all add: x_def y_def)
    ultimately have "8 * b + y < 8 * a + x \<and> 8 * a + x - (8 * b + y) < 127"
      by linarith
    then show ?thesis unfolding t a_def b_def x_def y_def by blast
  qed
qed

lemma syndrome_inj:
  assumes "n \<le> 15" "i < 8 * n" "j < 8 * n" "i \<noteq> j"
  shows "syndrome n i \<noteq> syndrome n j"
proof -
  have ordered: "syndrome n i \<noteq> syndrome n j"
    if "i < j" "i < 8 * n" "j < 8 * n" for i j
    using double_orbit_index [OF \<open>n \<le> 15\<close> that(2,3,1)]
  proof
    assume "8 * (n - i div 8) + i mod 8 < 8 * (n - j div 8) + j mod 8 \<and>
      8 * (n - j div 8) + j mod 8 - (8 * (n - i div 8) + i mod 8) < 127"
    then show ?thesis unfolding syndrome_def by (elim conjE) (rule crc8_orbit_inj)
  next
    assume "8 * (n - j div 8) + j mod 8 < 8 * (n - i div 8) + i mod 8 \<and>
      8 * (n - i div 8) + i mod 8 - (8 * (n - j div 8) + j mod 8) < 127"
    then show ?thesis unfolding syndrome_def by (elim conjE) (rule crc8_orbit_inj [symmetric])
  qed
  from assms(4) have "i < j \<or> j < i" by linarith
  then show ?thesis
    using ordered [of i j] ordered [of j i] assms(2,3) by auto
qed

section \<open>Parity\<close>

text \<open>
  \<open>x + 1\<close> divides the polynomial, so the register update keeps the parity of the number
  of one bits.
\<close>

definition ones :: "u8 \<Rightarrow> nat" where
  "ones c = length (filter (bit c) [0..<8])"

definition total_ones :: "bytes \<Rightarrow> nat" where
  "total_ones bs = sum_list (map ones bs)"

fun xors :: "bool list \<Rightarrow> bool" where
  "xors [] = False"
| "xors (b # bs) = (b \<noteq> xors bs)"

lemma xors_odd: "xors (map f xs) \<longleftrightarrow> odd (length (filter f xs))"
  by (induction xs) auto

lemma xors_map_neq: "xors (map (\<lambda>x. f x \<noteq> g x) xs) \<longleftrightarrow> xors (map f xs) \<noteq> xors (map g xs)"
  by (induction xs) auto

lemma odd_ones: "odd (ones c) \<longleftrightarrow> xors (map (bit c) [0..<8])"
  by (simp add: ones_def xors_odd)

lemma odd_ones_xor: "odd (ones (a XOR b)) \<longleftrightarrow> odd (ones a) \<noteq> odd (ones b)"
proof -
  have "bit (a XOR b) = (\<lambda>n. bit a n \<noteq> bit b n)" by (simp add: fun_eq_iff bit_xor_iff)
  then show ?thesis by (simp only: odd_ones xors_map_neq)
qed

lemma odd_ones_crc8_shift: "odd (ones (crc8_shift c)) \<longleftrightarrow> odd (ones c)"
proof -
  have "[0..<8] = [0, 1, 2, 3, 4, 5, 6, 7 :: nat]" by code_simp
  then show ?thesis
    unfolding odd_ones by (simp only:) (auto simp: bit_crc8_shift)
qed

lemma odd_ones_crc8_byte: "odd (ones (crc8_byte c)) \<longleftrightarrow> odd (ones c)"
proof -
  have "odd (ones ((crc8_shift ^^ k) c)) \<longleftrightarrow> odd (ones c)" for k
    by (induction k) (simp_all only: funpow.simps id_apply comp_apply odd_ones_crc8_shift)
  then show ?thesis by (simp only: crc8_byte_def)
qed

lemma odd_ones_crc8_loop:
  "odd (ones (crc8_loop c bs)) \<longleftrightarrow> odd (ones c) \<noteq> odd (total_ones bs)"
proof (induction bs arbitrary: c)
  case (Cons b bs)
  have "odd (ones (crc8_loop c (b # bs)))
      \<longleftrightarrow> odd (ones (crc8_byte (c XOR b))) \<noteq> odd (total_ones bs)"
    by (simp only: crc8_loop_Cons Cons.IH)
  then show ?case
    by (simp only: odd_ones_crc8_byte odd_ones_xor) (auto simp: total_ones_def)
qed (simp add: total_ones_def)

lemma ones_0 [simp]: "ones 0 = 0"
  by (simp add: ones_def)

lemma crc8_frame_even: "crc8_loop 0 bs = 0 \<Longrightarrow> even (total_ones bs)"
  using odd_ones_crc8_loop [of 0 bs] by simp

lemma ones_push_bit: "k < 8 \<Longrightarrow> ones (push_bit k 1) = 1"
proof -
  assume k: "k < 8"
  have "filter (bit (push_bit k 1 :: u8)) [0..<8] = filter (\<lambda>n. n = k) [0..<8]"
    using k by (intro filter_cong) (auto simp: bit_simps)
  also have "\<dots> = [k]"
    using k by (simp add: upt_rec less_Suc_eq numeral_eq_Suc) (elim disjE; simp)
  finally show ?thesis by (simp add: ones_def)
qed

lemma ones_pow [simp]: "k < 8 \<Longrightarrow> ones (2 ^ k) = 1"
  using ones_push_bit [of k] by simp

lemma odd_total_ones_update:
  assumes "i < length bs"
  shows "odd (total_ones (bs[i := bs ! i XOR e])) \<longleftrightarrow> odd (total_ones bs) \<noteq> odd (ones e)"
proof -
  have "bs = take i bs @ (bs ! i) # drop (Suc i) bs"
    using assms by (rule id_take_nth_drop)
  then have "total_ones bs = total_ones (take i bs) + ones (bs ! i) + total_ones (drop (Suc i) bs)"
    by (metis (no_types, lifting) add.assoc list.simps(9) map_append sum_list.Cons
        sum_list_append total_ones_def)
  then show ?thesis
    using assms odd_ones_xor [of "bs ! i" e]
    by (auto simp: upd_conv_take_nth_drop total_ones_def)
qed

lemma even_total_ones_flip:
  assumes "k < 8 * length bs"
  shows "even (total_ones (flip_bit_at k bs)) \<longleftrightarrow> odd (total_ones bs)"
proof -
  have "k div 8 < length bs" using assms by auto
  then show ?thesis
    using odd_total_ones_update [of "k div 8" bs "push_bit (k mod 8) 1"]
    by (auto simp: flip_bit_at_def)
qed

section \<open>What the code detects\<close>

text \<open>
  One, two or three flipped bits in a frame of at most 15 bytes leave a frame whose CRC is
  wrong; one and three flipped bits are detected at any length.
\<close>

lemma one_flip_detected:
  assumes "crc8_loop 0 bs = 0" "i < 8 * length bs"
  shows "crc8_loop 0 (flip_bit_at i bs) \<noteq> 0"
  using assms by (simp add: crc8_loop_flip syndrome_nonzero)

lemma two_flips_detected:
  assumes "crc8_loop 0 bs = 0" "length bs \<le> 15"
    and "i < 8 * length bs" "j < 8 * length bs" "i \<noteq> j"
  shows "crc8_loop 0 (flip_bit_at i (flip_bit_at j bs)) \<noteq> 0"
  using assms syndrome_inj [of "length bs" j i] by (simp add: crc8_loop_flip xor_eq_0_word)

lemma three_flips_detected:
  assumes "crc8_loop 0 bs = 0"
    and "i < 8 * length bs" "j < 8 * length bs" "k < 8 * length bs"
  shows "crc8_loop 0 (flip_bit_at i (flip_bit_at j (flip_bit_at k bs))) \<noteq> 0"
proof -
  have "even (total_ones bs)" using assms(1) by (rule crc8_frame_even)
  then have "odd (total_ones (flip_bit_at i (flip_bit_at j (flip_bit_at k bs))))"
    using assms by (simp add: even_total_ones_flip)
  then show ?thesis using crc8_frame_even by blast
qed

end
