(* ===== verification/Framing.thy ===== *)
theory Framing
  imports Linep_Types Crc8
begin

text \<open>
  Framing of LiNeP (\<open>linep/src/core/framing.cpp\<close>): construction and validation of the
  compact heartbeat and of the common header, and the build-time extension of protocol 1.1.
  The CRC is taken over the byte image of the packed structure. What the CRC gives a receiver
  is proved once, in the locale \<open>checked_frame\<close>, for any structure whose image ends with the
  CRC of the bytes before it; both frames interpret it.
\<close>

section \<open>Heartbeat frames\<close>

definition make_heartbeat_compact ::
  "u16 \<Rightarrow> u8 \<Rightarrow> u8 \<Rightarrow> u8 \<Rightarrow> u8 \<Rightarrow> u8 \<Rightarrow> heartbeat_compact" where
  "make_heartbeat_compact worker_id slot_id slot_flags load queue_depth sequence =
     (let f = \<lparr>hb_magic = MAGIC, hb_version = VERSION, hb_msg_type = msg_code HEARTBEAT,
               hb_worker_id = worker_id, hb_slot_id = slot_id, hb_slot_flags = slot_flags,
               hb_load = load, hb_queue_depth = queue_depth, hb_sequence = sequence,
               hb_crc8 = 0\<rparr>
      in f\<lparr>hb_crc8 := crc8 (heartbeat_bytes f) 11\<rparr>)"

definition validate_heartbeat_compact :: "heartbeat_compact \<Rightarrow> bool" where
  "validate_heartbeat_compact f =
     (if hb_magic f \<noteq> MAGIC then False
      else if hb_version f \<noteq> VERSION then False
      else if hb_msg_type f \<noteq> msg_code HEARTBEAT then False
      else hb_crc8 f = crc8 (heartbeat_bytes f) 11)"

section \<open>The common header\<close>

definition make_header ::
  "u8 \<Rightarrow> u16 \<Rightarrow> u32 \<Rightarrow> u32 \<Rightarrow> u32 \<Rightarrow> u16 \<Rightarrow> u8 \<Rightarrow> header" where
  "make_header msg_type flags payload_len sequence correlation_id worker_id slot_id =
     (let h = \<lparr>h_magic = MAGIC, h_version = VERSION, h_msg_type = msg_type,
               h_header_len = HEADER_BASE_LEN, h_flags = flags, h_payload_len = payload_len,
               h_sequence = sequence, h_correlation_id = correlation_id,
               h_worker_id = worker_id, h_slot_id = slot_id, h_header_crc = 0\<rparr>
      in h\<lparr>h_header_crc := crc8 (header_bytes h) 23\<rparr>)"

text \<open>
  The six \<open>LINEP_BUILD_*\<close> macros are given by the build or default to 2000-01-01 00:00:00;
  \<open>None\<close> is an undefined macro.
\<close>

record build_macros =
  LINEP_BUILD_YEAR_2D :: "int option"
  LINEP_BUILD_MONTH :: "int option"
  LINEP_BUILD_DAY :: "int option"
  LINEP_BUILD_HOUR :: "int option"
  LINEP_BUILD_MINUTE :: "int option"
  LINEP_BUILD_SECOND :: "int option"

definition macro_or :: "int \<Rightarrow> int option \<Rightarrow> u8" where
  "macro_or d m = word_of_int (case m of None \<Rightarrow> d | Some v \<Rightarrow> v)"

definition make_build_time_ext_from_build :: "build_macros \<Rightarrow> build_time_ext" where
  "make_build_time_ext_from_build m =
     \<lparr>bt_year_2d = macro_or 0 (LINEP_BUILD_YEAR_2D m), bt_month = macro_or 1 (LINEP_BUILD_MONTH m),
      bt_day = macro_or 1 (LINEP_BUILD_DAY m), bt_hour = macro_or 0 (LINEP_BUILD_HOUR m),
      bt_minute = macro_or 0 (LINEP_BUILD_MINUTE m),
      bt_second = macro_or 0 (LINEP_BUILD_SECOND m)\<rparr>"

definition apply_build_time_extension :: "header \<Rightarrow> header" where
  "apply_build_time_extension h =
     (let h1 = h\<lparr>h_flags := h_flags h OR flag_code FLAG_BUILD_TIME,
                 h_header_len := HEADER_BASE_LEN + HEADER_BUILD_TIME_LEN\<rparr>
      in h1\<lparr>h_header_crc := crc8 (header_bytes h1) 23\<rparr>)"

text \<open>\<open>ext\<close> may be a null pointer (\<open>None\<close>); the six bytes are copied when they are there.\<close>

fun ext_of_bytes :: "bytes \<Rightarrow> build_time_ext option" where
  "ext_of_bytes (y # mo # d # h # mi # s # _) =
     Some \<lparr>bt_year_2d = y, bt_month = mo, bt_day = d, bt_hour = h, bt_minute = mi,
           bt_second = s\<rparr>"
| "ext_of_bytes _ = None"

definition try_parse_build_time_ext :: "bytes option \<Rightarrow> u16 \<Rightarrow> build_time_ext option" where
  "try_parse_build_time_ext ext ext_len =
     (case ext of
        None \<Rightarrow> None
      | Some bs \<Rightarrow> if ext_len < HEADER_BUILD_TIME_LEN then None else ext_of_bytes bs)"

definition validate_header :: "header \<Rightarrow> bool" where
  "validate_header h =
     (if h_magic h \<noteq> MAGIC then False
      else if h_version h \<noteq> VERSION then False
      else if h_header_len h < HEADER_BASE_LEN then False
      else if h_header_len h > HEADER_BASE_LEN + HEADER_BUILD_TIME_LEN then False
      else h_header_crc h = crc8 (header_bytes h) 23)"

section \<open>Frames that end with their CRC\<close>

locale checked_frame =
  fixes image :: "'f \<Rightarrow> bytes" and n :: nat and stored :: "'f \<Rightarrow> u8"
  assumes length_image: "length (image f) = Suc n"
    and stored_last: "image f ! n = stored f"
begin

definition crc_ok :: "'f \<Rightarrow> bool" where
  "crc_ok f \<longleftrightarrow> stored f = crc8 (image f) n"

lemma crc_ok_zero: "crc_ok f \<longleftrightarrow> crc8_loop 0 (image f) = 0"
  using crc8_frame [OF length_image, of f] by (auto simp: crc_ok_def stored_last)

lemma byte_error:
  assumes "crc_ok f" "i \<le> n" "e \<noteq> 0" "image g = (image f)[i := image f ! i XOR e]"
  shows "\<not> crc_ok g"
  using assms single_byte_error_detected [of i "image f" e]
  by (simp add: crc_ok_zero length_image)

lemma one_flip:
  assumes "crc_ok f" "i < 8 * Suc n" "image g = flip_bit_at i (image f)"
  shows "\<not> crc_ok g"
  using assms one_flip_detected [of "image f" i] by (simp add: crc_ok_zero length_image)

lemma two_flips:
  assumes "crc_ok f" "n < 15" "i < 8 * Suc n" "j < 8 * Suc n" "i \<noteq> j"
    and "image g = flip_bit_at i (flip_bit_at j (image f))"
  shows "\<not> crc_ok g"
  using assms two_flips_detected [of "image f" i j] by (simp add: crc_ok_zero length_image)

lemma three_flips:
  assumes "crc_ok f" "i < 8 * Suc n" "j < 8 * Suc n" "k < 8 * Suc n"
    and "image g = flip_bit_at i (flip_bit_at j (flip_bit_at k (image f)))"
  shows "\<not> crc_ok g"
  using assms three_flips_detected [of "image f" i j k] by (simp add: crc_ok_zero length_image)

text \<open>Two flips whose distance in the register orbit is 127 cancel.\<close>

lemma cancelling_flips:
  assumes "crc_ok f" "i < 8 * Suc n" "j < 8 * Suc n" "syndrome (Suc n) i = syndrome (Suc n) j"
    and "image g = flip_bit_at i (flip_bit_at j (image f))"
  shows "crc_ok g"
  using assms by (simp add: crc_ok_zero length_image crc8_loop_flip)

end

lemma heartbeat_bytes_nth_11: "heartbeat_bytes f ! 11 = hb_crc8 f"
  by (simp add: heartbeat_bytes_def le16_def)

lemma header_bytes_nth_23: "header_bytes h ! 23 = h_header_crc h"
  by (simp add: header_bytes_def le16_def le32_def)

interpretation hb: checked_frame heartbeat_bytes 11 hb_crc8
  by unfold_locales (simp_all add: heartbeat_bytes_nth_11)

interpretation hdr: checked_frame header_bytes 23 h_header_crc
  by unfold_locales (simp_all add: header_bytes_nth_23)

lemma validate_heartbeat_compact_iff:
  "validate_heartbeat_compact f \<longleftrightarrow>
     hb_magic f = MAGIC \<and> hb_version f = VERSION \<and> hb_msg_type f = msg_code HEARTBEAT
     \<and> hb.crc_ok f"
  by (simp add: validate_heartbeat_compact_def hb.crc_ok_def)

lemma validate_header_iff:
  "validate_header h \<longleftrightarrow>
     h_magic h = MAGIC \<and> h_version h = VERSION \<and> 24 \<le> h_header_len h \<and> h_header_len h \<le> 30
     \<and> hdr.crc_ok h"
  by (auto simp: validate_header_def hdr.crc_ok_def HEADER_BASE_LEN_def HEADER_BUILD_TIME_LEN_def
      not_less)

text \<open>The CRC is computed over bytes that do not include its own field.\<close>

lemma crc8_heartbeat_update [simp]:
  "crc8 (heartbeat_bytes (f\<lparr>hb_crc8 := c\<rparr>)) 11 = crc8 (heartbeat_bytes f) 11"
  by (simp add: crc8_def heartbeat_bytes_def le16_def)

lemma crc8_header_update [simp]:
  "crc8 (header_bytes (h\<lparr>h_header_crc := c\<rparr>)) 23 = crc8 (header_bytes h) 23"
  by (simp add: crc8_def header_bytes_def le16_def le32_def)

lemma validate_make_heartbeat [simp]:
  "validate_heartbeat_compact (make_heartbeat_compact w s fl l q sq)"
  by (simp add: validate_heartbeat_compact_def make_heartbeat_compact_def Let_def
      del: heartbeat_compact.update_convs)


section \<open>Properties of the frames\<close>

lemma heartbeat_flips_length:
  "length (foldr flip_bit_at ks (heartbeat_bytes f)) = 12"
  by (induction ks) simp_all

text \<open>
  A compact heartbeat survives the wire: the twelve bytes the sender emits are read back as
  the frame it built, the frame passes validation, and every field is the argument it was
  built from.
\<close>

lemma heartbeat_wire_roundtrip:
  "\<exists>f. heartbeat_of_bytes (heartbeat_bytes (make_heartbeat_compact w s fl l q sq)) = Some f
     \<and> validate_heartbeat_compact f
     \<and> hb_worker_id f = w \<and> hb_slot_id f = s \<and> hb_slot_flags f = fl \<and> hb_load f = l
     \<and> hb_queue_depth f = q \<and> hb_sequence f = sq"
  by (simp add: make_heartbeat_compact_def Let_def del: heartbeat_compact.update_convs)
    (simp add: validate_heartbeat_compact_def del: heartbeat_compact.update_convs)

text \<open>
  C7: Up to three flipped bits in a heartbeat are always noticed: a frame that passed
  validation, with one, two or three distinct bits of its twelve bytes inverted (the CRC byte
  included), is rejected.
\<close>

theorem heartbeat_detects_three_flips:
  assumes "validate_heartbeat_compact f"
    and "distinct ks" "set ks \<subseteq> {..<96}" "1 \<le> length ks" "length ks \<le> 3"
    and "heartbeat_of_bytes (foldr flip_bit_at ks (heartbeat_bytes f)) = Some g"
  shows "\<not> validate_heartbeat_compact g"
proof -
  have ok: "hb.crc_ok f" using assms(1) by (simp add: validate_heartbeat_compact_iff)
  have img: "heartbeat_bytes g = foldr flip_bit_at ks (heartbeat_bytes f)"
    using assms(6) by (rule heartbeat_bytes_of_bytes)
  consider i where "ks = [i]" | i j where "ks = [i, j]" | i j k where "ks = [i, j, k]"
    using assms(4,5) by (cases ks; cases "tl ks"; cases "tl (tl ks)") auto
  then have "\<not> hb.crc_ok g"
  proof cases
    case 1
    with assms(3) img show ?thesis by (intro hb.one_flip [OF ok]) auto
  next
    case (2 i j)
    with assms(2,3) img show ?thesis by (intro hb.two_flips [OF ok, of i j]) auto
  next
    case (3 i j k)
    with assms(3) img show ?thesis by (intro hb.three_flips [OF ok, of i j k]) auto
  qed
  then show ?thesis by (simp add: validate_heartbeat_compact_iff)
qed

theorem heartbeat_detects_three_flips_witness:
  "\<exists>g. heartbeat_of_bytes (foldr flip_bit_at [0, 17, 95]
          (heartbeat_bytes (make_heartbeat_compact 7 1 3 40 2 9))) = Some g
       \<and> \<not> validate_heartbeat_compact g"
proof -
  obtain g where g: "heartbeat_of_bytes (foldr flip_bit_at [0, 17, 95]
      (heartbeat_bytes (make_heartbeat_compact 7 1 3 40 2 9))) = Some g"
    using heartbeat_of_bytes_12 heartbeat_flips_length by blast
  have "\<not> validate_heartbeat_compact g"
    by (rule heartbeat_detects_three_flips [OF validate_make_heartbeat _ _ _ _ g]) auto
  with g show ?thesis by blast
qed

lemma header_crc_ok_make [simp]:
  "validate_header (make_header mt fl pl sq co w s)"
  by (simp add: validate_header_def make_header_def Let_def HEADER_BASE_LEN_def
      HEADER_BUILD_TIME_LEN_def del: header.update_convs)

lemma make_header_fields [simp]:
  "h_magic (make_header mt fl pl sq co w s) = MAGIC"
  "h_version (make_header mt fl pl sq co w s) = VERSION"
  "h_msg_type (make_header mt fl pl sq co w s) = mt"
  "h_header_len (make_header mt fl pl sq co w s) = 24"
  "h_flags (make_header mt fl pl sq co w s) = fl"
  "h_payload_len (make_header mt fl pl sq co w s) = pl"
  "h_sequence (make_header mt fl pl sq co w s) = sq"
  "h_correlation_id (make_header mt fl pl sq co w s) = co"
  "h_worker_id (make_header mt fl pl sq co w s) = w"
  "h_slot_id (make_header mt fl pl sq co w s) = s"
  by (simp_all add: make_header_def Let_def HEADER_BASE_LEN_def)

lemma apply_build_time_fields [simp]:
  "h_magic (apply_build_time_extension h) = h_magic h"
  "h_version (apply_build_time_extension h) = h_version h"
  "h_msg_type (apply_build_time_extension h) = h_msg_type h"
  "h_header_len (apply_build_time_extension h) = 30"
  "h_flags (apply_build_time_extension h) = h_flags h OR flag_code FLAG_BUILD_TIME"
  "h_payload_len (apply_build_time_extension h) = h_payload_len h"
  "h_sequence (apply_build_time_extension h) = h_sequence h"
  "h_correlation_id (apply_build_time_extension h) = h_correlation_id h"
  "h_worker_id (apply_build_time_extension h) = h_worker_id h"
  "h_slot_id (apply_build_time_extension h) = h_slot_id h"
  by (simp_all add: apply_build_time_extension_def Let_def HEADER_BASE_LEN_def
      HEADER_BUILD_TIME_LEN_def del: flag_code.simps)

lemma validate_apply_build_time [simp]:
  "validate_header (apply_build_time_extension h) \<longleftrightarrow> h_magic h = MAGIC \<and> h_version h = VERSION"
  by (simp add: validate_header_iff hdr.crc_ok_def)
    (simp add: apply_build_time_extension_def Let_def del: header.update_convs flag_code.simps)

text \<open>
  Any corruption confined to one byte of a valid common header, whichever of the
  twenty-four bytes it hits and whatever it does to it, makes validation fail.
\<close>

lemma header_detects_byte_error:
  assumes "validate_header h" "i < 24" "e \<noteq> 0"
    and "header_of_bytes ((header_bytes h)[i := header_bytes h ! i XOR e]) = Some g"
  shows "\<not> validate_header g"
proof -
  have "hdr.crc_ok h" using assms(1) by (simp add: validate_header_iff)
  moreover have "header_bytes g = (header_bytes h)[i := header_bytes h ! i XOR e]"
    using assms(4) by (rule header_bytes_of_bytes)
  ultimately have "\<not> hdr.crc_ok g"
    using assms(2,3) by (intro hdr.byte_error [of h i e]) auto
  then show ?thesis by (simp add: validate_header_iff)
qed

lemma header_detects_byte_error_witness:
  "\<exists>g. header_of_bytes ((header_bytes (make_header 0x10 0 5 1 2 30 0))
            [8 := header_bytes (make_header 0x10 0 5 1 2 30 0) ! 8 XOR 0x40]) = Some g
       \<and> \<not> validate_header g"
proof -
  let ?h = "make_header 0x10 0 5 1 2 30 0"
  obtain g where g: "header_of_bytes ((header_bytes ?h)[8 := header_bytes ?h ! 8 XOR 0x40]) = Some g"
    using header_of_bytes_24 [of "(header_bytes ?h)[8 := header_bytes ?h ! 8 XOR 0x40]"] by auto
  have "\<not> validate_header g"
    by (rule header_detects_byte_error [OF header_crc_ok_make _ _ g]) simp_all
  with g show ?thesis by blast
qed

text \<open>
  The header is longer than the 127-bit period of the polynomial, so some pairs of flipped bits
  cancel: bit 7 of \<open>flags\<close> and bit 8 of \<open>worker_id\<close> are 127 register shifts apart.
\<close>

lemma syndromes_127: "syndrome 24 55 = syndrome 24 168"
  by (simp add: syndrome_def crc8_eval)

lemma ucast_xor_0x100: "ucast (w XOR 0x100 :: u16) = (ucast w :: u8)"
proof (rule bit_word_eqI)
  fix n assume "n < LENGTH(8)"
  then have "\<not> bit (push_bit 8 1 :: u16) n" unfolding bit_push_bit_iff by simp
  moreover have "(push_bit 8 1 :: u16) = 0x100" by simp
  ultimately have "\<not> bit (0x100 :: u16) n" by (simp only: not_False_eq_True)
  then show "bit (ucast (w XOR 0x100) :: u8) n = bit (ucast w :: u8) n"
    by (simp add: bit_ucast_iff bit_xor_iff)
qed

lemma header_flip_flags_worker:
  "header_bytes (h\<lparr>h_flags := h_flags h XOR 0x80, h_worker_id := h_worker_id h XOR 0x100\<rparr>)
     = flip_bit_at 55 (flip_bit_at 168 (header_bytes h))"
proof -
  have "ucast (w XOR 0x80 :: u16) = (ucast w XOR 0x80 :: u8)"
    "ucast (drop_bit 8 (w XOR 0x80 :: u16)) = (ucast (drop_bit 8 w) :: u8)"
    "ucast (drop_bit 8 (w XOR 0x100 :: u16)) = (ucast (drop_bit 8 w) XOR 0x01 :: u8)" for w
    by (simp_all add: unsigned_xor_eq)
  then show ?thesis
    by (simp add: header_bytes_def le16_def le32_def flip_bit_at_def ucast_xor_0x100)
qed

text \<open>
  The header CRC does not detect every double bit error: inverting the priority bit of
  \<open>flags\<close> together with bit 8 of \<open>worker_id\<close> turns every valid header into another valid
  header, addressed to another worker.
\<close>

lemma header_misses_double_flip:
  assumes "validate_header h"
  shows "validate_header
           (h\<lparr>h_flags := h_flags h XOR 0x80, h_worker_id := h_worker_id h XOR 0x100\<rparr>)
         \<and> h_worker_id h XOR 0x100 \<noteq> h_worker_id h"
proof -
  let ?g = "h\<lparr>h_flags := h_flags h XOR 0x80, h_worker_id := h_worker_id h XOR 0x100\<rparr>"
  have "hdr.crc_ok h" using assms by (simp add: validate_header_iff)
  then have "hdr.crc_ok ?g"
    by (rule hdr.cancelling_flips [of h 55 168])
      (simp_all add: header_flip_flags_worker syndromes_127)
  moreover have "(w :: u16) XOR 0x100 \<noteq> w" for w
  proof
    assume "w XOR 0x100 = w"
    then have "w XOR (w XOR 0x100) = w XOR w" by simp
    then show False by (simp flip: xor.assoc)
  qed
  ultimately show ?thesis using assms by (simp add: validate_header_iff)
qed

lemma header_misses_double_flip_witness:
  "validate_header (make_header 0x10 0 0 1 1 30 0)
   \<and> validate_header ((make_header 0x10 0 0 1 1 30 0)\<lparr>h_flags := 0 XOR 0x80,
        h_worker_id := 30 XOR 0x100\<rparr>)"
  using header_misses_double_flip [OF header_crc_ok_make [of 16 0 0 1 1 30 0]] by simp

end
