(* ===== verification/Cpp_String.thy ===== *)
theory Cpp_String
  imports Prelude
begin

text \<open>
  The operations of \<open>std::string\<close> and \<open><cctype>\<close> the sources use, in the "C" locale: character
  classes, prefix tests (\<open>rfind(p, 0) == 0\<close>), \<open>find\<close> from a position, \<open>substr\<close>, and the
  conversions between decimal strings and integers with their exceptions. These are models of
  the standard library, shared by the configuration reader, the HTTP server and the inference
  template.
\<close>

section \<open>Characters\<close>

definition code_of :: "char \<Rightarrow> nat" where "code_of c = of_char c"

definition is_space :: "char \<Rightarrow> bool" where
  "is_space c = (let n = code_of c in n = 32 \<or> (9 \<le> n \<and> n \<le> 13))"

definition is_digit :: "char \<Rightarrow> bool" where
  "is_digit c = (let n = code_of c in 48 \<le> n \<and> n \<le> 57)"

definition tolower :: "char \<Rightarrow> char" where
  "tolower c = (let n = code_of c in if 65 \<le> n \<and> n \<le> 90 then char_of (n + 32) else c)"

lemma code_of_char_of [simp]: "n < 256 \<Longrightarrow> code_of (char_of n) = n"
  by (simp add: code_of_def)

lemma code_of_less [simp]: "code_of c < 256"
  by (simp add: code_of_def)

lemma tolower_idem [simp]: "tolower (tolower c) = tolower c"
  by (simp add: tolower_def Let_def)

section \<open>Substrings\<close>

text \<open>\<open>s.rfind(p, 0) == 0\<close>: only position 0 is tried.\<close>

definition starts_with :: "string \<Rightarrow> string \<Rightarrow> bool" where
  "starts_with p s = (take (length p) s = p)"

lemma starts_with_iff: "starts_with p s \<longleftrightarrow> (\<exists>t. s = p @ t)"
  unfolding starts_with_def by (metis append_eq_conv_conj append_take_drop_id)

text \<open>\<open>s.find(pat, pos)\<close>; \<open>None\<close> is \<open>npos\<close>.\<close>

fun find_str :: "string \<Rightarrow> string \<Rightarrow> nat option" where
  "find_str pat s =
     (if starts_with pat s then Some 0
      else case s of [] \<Rightarrow> None | _ # t \<Rightarrow> map_option Suc (find_str pat t))"

declare find_str.simps [simp del]

definition find_from :: "string \<Rightarrow> string \<Rightarrow> nat \<Rightarrow> nat option" where
  "find_from pat s pos =
     (if length s < pos then None else map_option (\<lambda>i. pos + i) (find_str pat (drop pos s)))"

text \<open>\<open>s.substr(pos, n)\<close> with \<open>pos <= size()\<close>; the count is cut at the end of the string.\<close>

definition substr :: "string \<Rightarrow> nat \<Rightarrow> nat \<Rightarrow> string" where
  "substr s pos n = take n (drop pos s)"

definition substr_end :: "string \<Rightarrow> nat \<Rightarrow> string" where
  "substr_end s pos = drop pos s"

lemma find_str_Some:
  "find_str pat s = Some i \<Longrightarrow>
     i \<le> length s \<and> starts_with pat (drop i s) \<and> (\<forall>j<i. \<not> starts_with pat (drop j s))"
proof (induction s arbitrary: i)
  case Nil
  then show ?case by (subst (asm) find_str.simps) (auto split: if_splits)
next
  case (Cons c s)
  show ?case
  proof (cases "starts_with pat (c # s)")
    case True
    then have "i = 0" using Cons.prems by (subst (asm) find_str.simps) simp
    with True show ?thesis by simp
  next
    case False
    then obtain k where k: "find_str pat s = Some k" "i = Suc k"
      using Cons.prems by (subst (asm) find_str.simps) auto
    note IH = Cons.IH [OF k(1)]
    have "\<not> starts_with pat (drop j (c # s))" if "j < i" for j
      using that False IH k(2) by (cases j) auto
    with IH k(2) show ?thesis by simp
  qed
qed

lemma find_str_None: "find_str pat s = None \<Longrightarrow> j \<le> length s \<Longrightarrow> \<not> starts_with pat (drop j s)"
proof (induction s arbitrary: j)
  case Nil
  then show ?case by (subst (asm) find_str.simps) (auto split: if_splits)
next
  case (Cons c s)
  have n: "\<not> starts_with pat (c # s)" "find_str pat s = None"
    using Cons.prems(1) by (subst (asm) find_str.simps, auto split: if_splits)+
  then show ?case using Cons.IH [OF n(2)] Cons.prems(2) by (cases j) auto
qed

lemma find_str_eq_Some_iff:
  "find_str pat s = Some i \<longleftrightarrow>
     i \<le> length s \<and> starts_with pat (drop i s) \<and> (\<forall>j<i. \<not> starts_with pat (drop j s))"
proof
  assume r: "i \<le> length s \<and> starts_with pat (drop i s) \<and> (\<forall>j<i. \<not> starts_with pat (drop j s))"
  show "find_str pat s = Some i"
  proof (cases "find_str pat s")
    case None
    then show ?thesis using find_str_None r by blast
  next
    case (Some k)
    then show ?thesis using find_str_Some [OF Some] r by (metis linorder_neqE_nat)
  qed
qed (rule find_str_Some)

section \<open>Numbers\<close>

definition digit_value :: "char \<Rightarrow> nat" where "digit_value c = code_of c - 48"

definition nat_of_digits :: "string \<Rightarrow> nat" where
  "nat_of_digits ds = foldl (\<lambda>n c. 10 * n + digit_value c) 0 ds"

text \<open>
  \<open>strtol\<close> and its relatives in base 10: white space, an optional sign, digits; what follows is
  ignored. \<open>None\<close> when there is no digit, which the \<open>std\<close> wrappers turn into
  \<open>invalid_argument\<close>.
\<close>

definition strto :: "string \<Rightarrow> (bool \<times> nat) option" where
  "strto s =
     (let t = dropWhile is_space s;
          neg = (case t of c # _ \<Rightarrow> c = CHR ''-'' | [] \<Rightarrow> False);
          u = (case t of c # r \<Rightarrow> if c = CHR ''-'' \<or> c = CHR ''+'' then r else t | [] \<Rightarrow> []);
          ds = takeWhile is_digit u
      in if ds = [] then None else Some (neg, nat_of_digits ds))"

definition stoi :: "string \<Rightarrow> int result" where
  "stoi s =
     (case strto s of
        None \<Rightarrow> Inl Invalid_argument
      | Some (neg, m) \<Rightarrow>
          let v = (if neg then - int m else int m)
          in if v < - (2 ^ 31) \<or> v > 2 ^ 31 - 1 then Inl Out_of_range else Inr v)"

text \<open>An unsigned conversion accepts a minus sign and negates in the unsigned type.\<close>

definition stoull :: "string \<Rightarrow> u64 result" where
  "stoull s =
     (case strto s of
        None \<Rightarrow> Inl Invalid_argument
      | Some (neg, m) \<Rightarrow>
          if m > 2 ^ 64 - 1 then Inl Out_of_range
          else Inr (if neg then - word_of_nat m else word_of_nat m))"

text \<open>\<open>unsigned long\<close> has 32 bits on Windows, where the HTTP server runs.\<close>

definition stoul :: "string \<Rightarrow> u32 result" where
  "stoul s =
     (case strto s of
        None \<Rightarrow> Inl Invalid_argument
      | Some (neg, m) \<Rightarrow>
          if m > 2 ^ 32 - 1 then Inl Out_of_range
          else Inr (if neg then - word_of_nat m else word_of_nat m))"

text \<open>\<open>std::to_string\<close> and \<open>operator<<\<close> of an unsigned integer.\<close>

fun show_nat :: "nat \<Rightarrow> string" where
  "show_nat n = (if n < 10 then [char_of (48 + n)] else show_nat (n div 10) @ [char_of (48 + n mod 10)])"

declare show_nat.simps [simp del]

definition show_int :: "int \<Rightarrow> string" where
  "show_int i = (if i < 0 then CHR ''-'' # show_nat (nat (- i)) else show_nat (nat i))"

lemma digit_char: "d < 10 \<Longrightarrow> is_digit (char_of (48 + d)) \<and> digit_value (char_of (48 + d)) = d"
  by (simp add: is_digit_def digit_value_def Let_def)

lemma show_nat_digits: "list_all is_digit (show_nat n) \<and> show_nat n \<noteq> []"
proof (induction n rule: show_nat.induct)
  case (1 n)
  then show ?case
    by (subst (1 2) show_nat.simps) (auto simp: digit_char)
qed

lemma nat_of_digits_show [simp]: "nat_of_digits (show_nat n) = n"
proof (induction n rule: show_nat.induct)
  case (1 n)
  show ?case
  proof (cases "n < 10")
    case True
    then show ?thesis by (subst show_nat.simps) (simp add: nat_of_digits_def digit_char)
  next
    case False
    then have "nat_of_digits (show_nat (n div 10)) = n div 10" by (rule 1)
    with False show ?thesis
      by (subst show_nat.simps) (simp add: nat_of_digits_def digit_char)
  qed
qed

lemma digit_not_space: "is_digit c \<Longrightarrow> \<not> is_space c"
  by (auto simp: is_digit_def is_space_def Let_def)

lemma digit_not_sign: "is_digit c \<Longrightarrow> c \<noteq> CHR ''-'' \<and> c \<noteq> CHR ''+''"
  by (auto simp: is_digit_def code_of_def Let_def)

lemma strto_show:
  assumes "list_all is_space ws" "rest = [] \<or> \<not> is_digit (hd rest)"
  shows "strto (ws @ show_nat n @ rest) = Some (False, n)"
proof -
  obtain c cs where s: "show_nat n = c # cs" and d: "is_digit c" "list_all is_digit cs"
    using show_nat_digits [of n] by (cases "show_nat n") auto
  have dw: "dropWhile is_space (ws @ show_nat n @ rest) = show_nat n @ rest"
    using assms(1) digit_not_space [OF d(1)]
    by (simp add: s list_all_iff)
  have tw: "takeWhile is_digit (show_nat n @ rest) = show_nat n"
    using show_nat_digits [of n] assms(2) by (cases rest) (auto simp: list_all_iff takeWhile_tail)
  from digit_not_sign [OF d(1)] show ?thesis
    unfolding strto_def dw using tw nat_of_digits_show [of n] by (simp add: s Let_def)
qed

lemma stoull_show: "n < 2 ^ 64 \<Longrightarrow> stoull (show_nat n) = Inr (word_of_nat n)"
  using strto_show [of "[]" "[]" n] by (simp add: stoull_def)

lemma stoi_show: "n < 2 ^ 31 \<Longrightarrow> stoi (show_nat n) = Inr (int n)"
  using strto_show [of "[]" "[]" n] by (simp add: stoi_def Let_def)

lemma stoi_range: "stoi s = Inr v \<Longrightarrow> - (2 ^ 31) \<le> v \<and> v < 2 ^ 31"
  by (auto simp: stoi_def Let_def split: option.splits if_splits)

end
