(* ===== verification/Helper_Contract.thy ===== *)
theory Helper_Contract
  imports Framing Cpp_String "HOL-Library.Signed_Division"
begin

text \<open>
  The shared contract of the helper workers (\<open>liara-inference/common\<close>): the task types and the
  readiness of a helper for them (\<open>task_contract.hpp\<close>), the outcome of a helper call
  (\<open>helper_contract.hpp\<close>), the big-endian helper heartbeat with its parse errors
  (\<open>heartbeat.hpp\<close>) and the message header of \<open>protocol.hpp\<close>. The helper heartbeat interprets
  the locale of frames that end with their CRC, so it inherits the error detection proved for
  LiNeP. Enumerations are read from bytes with casts, so a parameter of enumeration type is
  the byte and the \<open>default\<close> branches of the source are kept.
\<close>

section \<open>Task types and readiness\<close>

datatype TaskType = Instruct | Coder

fun TaskType_code :: "TaskType \<Rightarrow> u8" where
  "TaskType_code Instruct = 1"
| "TaskType_code Coder = 2"

record TaskRequest =
  rq_task_id :: u64
  rq_task_type :: u8
  rq_input :: string
  rq_max_tokens :: u32
  rq_temperature :: u32

definition TaskRequest_default :: TaskRequest where
  "TaskRequest_default =
     \<lparr>rq_task_id = 0, rq_task_type = TaskType_code Instruct, rq_input = '''', rq_max_tokens = 256,
      rq_temperature = 0x3E4CCCCD\<rparr>"

record TaskResult =
  rs_task_id :: u64
  rs_success :: bool
  rs_output :: string
  rs_error_message :: string

record HelperProfiles =
  instruct_ready :: bool
  coder_ready :: bool

record WarmModelResidency =
  instruct_warm :: bool
  coder_warm :: bool

text \<open>Time points of \<open>steady_clock\<close> are nanoseconds.\<close>

record WarmModelMetrics =
  warm_since :: int
  reload_count :: u64

definition required_task_types :: "u8 list" where
  "required_task_types = [TaskType_code Instruct, TaskType_code Coder]"

definition has_required_profiles :: "HelperProfiles \<Rightarrow> bool" where
  "has_required_profiles p = (instruct_ready p \<and> coder_ready p)"

definition has_required_warm_models :: "WarmModelResidency \<Rightarrow> bool" where
  "has_required_warm_models r = (instruct_warm r \<and> coder_warm r)"

definition task_type_name :: "u8 \<Rightarrow> string" where
  "task_type_name t =
     (if t = TaskType_code Instruct then ''Instruct''
      else if t = TaskType_code Coder then ''Coder''
      else ''Unknown'')"

definition route_helper_task_type :: "string \<Rightarrow> u8" where
  "route_helper_task_type helper_task_type =
     (let normalized = map tolower helper_task_type
      in if starts_with ''code_'' normalized \<or> normalized = ''code'' \<or> normalized = ''coder''
            \<or> starts_with ''coder'' normalized
         then TaskType_code Coder else TaskType_code Instruct)"

definition can_serve_task_type :: "HelperProfiles \<Rightarrow> u8 \<Rightarrow> bool" where
  "can_serve_task_type p t =
     (if t = TaskType_code Instruct then instruct_ready p
      else if t = TaskType_code Coder then coder_ready p
      else False)"

definition can_serve_without_reload :: "HelperProfiles \<Rightarrow> WarmModelResidency \<Rightarrow> u8 \<Rightarrow> bool" where
  "can_serve_without_reload p r t =
     (if \<not> can_serve_task_type p t then False
      else if t = TaskType_code Instruct then instruct_warm r
      else if t = TaskType_code Coder then coder_warm r
      else False)"

text \<open>\<open>duration_cast\<close> truncates towards zero; \<open>now\<close> is the reading of the clock.\<close>

definition warm_age_ms :: "int \<Rightarrow> WarmModelMetrics \<Rightarrow> u64" where
  "warm_age_ms now m = word_of_int ((now - warm_since m) sdiv 1000000)"

definition mark_reload :: "int \<Rightarrow> WarmModelMetrics \<Rightarrow> WarmModelMetrics" where
  "mark_reload now m = m\<lparr>reload_count := reload_count m + 1, warm_since := now\<rparr>"

section \<open>Outcome of a helper call\<close>

record HelperInferRequest =
  hq_task_id :: string
  hq_task_type :: string
  hq_source_text :: string
  hq_expected_fields :: "string list"
  hq_max_tokens :: int
  hq_temperature :: u32
  hq_model :: string

definition HelperInferRequest_default :: HelperInferRequest where
  "HelperInferRequest_default =
     \<lparr>hq_task_id = '''', hq_task_type = ''quick_extract'', hq_source_text = '''',
      hq_expected_fields = [''task_id'', ''key_points'', ''confidence''], hq_max_tokens = 256,
      hq_temperature = 0x3E4CCCCD, hq_model = ''openvino-npu''\<rparr>"

record HelperInferResponse =
  hr_status :: string
  hr_schema_ok :: bool
  hr_missing_fields :: "string list"
  hr_parse_error :: string
  hr_normalized :: bool
  hr_raw_content :: string
  hr_parsed_json :: string

definition HelperInferResponse_default :: HelperInferResponse where
  "HelperInferResponse_default =
     \<lparr>hr_status = ''failed'', hr_schema_ok = False, hr_missing_fields = [], hr_parse_error = '''',
      hr_normalized = False, hr_raw_content = '''', hr_parsed_json = ''''\<rparr>"

definition is_helper_success :: "HelperInferResponse \<Rightarrow> bool" where
  "is_helper_success r = (hr_status r = ''success'' \<and> hr_schema_ok r \<and> hr_missing_fields r = [])"

definition helper_error_message :: "HelperInferResponse \<Rightarrow> string" where
  "helper_error_message r =
     (if is_helper_success r then ''''
      else if hr_parse_error r \<noteq> '''' then hr_parse_error r
      else if hr_missing_fields r \<noteq> []
      then foldl (\<lambda>message field. message @ '' '' @ field)
             ''helper schema mismatch: missing fields'' (hr_missing_fields r)
      else ''helper endpoint returned status='' @ hr_status r)"

section \<open>The helper heartbeat\<close>

definition kHeartbeatPacketSize :: nat where "kHeartbeatPacketSize = 12"
definition kHeartbeatMagic :: u16 where "kHeartbeatMagic = 0x4C48"
definition kHeartbeatVersion :: u8 where "kHeartbeatVersion = 1"
definition kHeartbeatType :: u8 where "kHeartbeatType = 0x01"

datatype HeartbeatParseError = No_error | InvalidMagic | InvalidVersion | InvalidType | InvalidCrc

record HeartbeatPacket =
  pk_magic :: u16
  pk_version :: u8
  pk_type :: u8
  pk_worker_id :: u16
  pk_slot_id :: u8
  pk_flags :: u8
  pk_load :: u8
  pk_queue :: u8
  pk_seq :: u8
  pk_crc8 :: u8

definition HeartbeatPacket_default :: HeartbeatPacket where
  "HeartbeatPacket_default =
     \<lparr>pk_magic = kHeartbeatMagic, pk_version = kHeartbeatVersion, pk_type = kHeartbeatType,
      pk_worker_id = 0, pk_slot_id = 0, pk_flags = 0, pk_load = 0, pk_queue = 0, pk_seq = 0,
      pk_crc8 = 0\<rparr>"

definition serialize_heartbeat :: "HeartbeatPacket \<Rightarrow> bytes" where
  "serialize_heartbeat p =
     (let bytes = replicate kHeartbeatPacketSize 0;
          bytes = bytes[0 := ucast (drop_bit 8 (pk_magic p))];
          bytes = bytes[1 := ucast (pk_magic p AND 0xFF)];
          bytes = bytes[2 := pk_version p];
          bytes = bytes[3 := pk_type p];
          bytes = bytes[4 := ucast (drop_bit 8 (pk_worker_id p))];
          bytes = bytes[5 := ucast (pk_worker_id p AND 0xFF)];
          bytes = bytes[6 := pk_slot_id p];
          bytes = bytes[7 := pk_flags p];
          bytes = bytes[8 := pk_load p];
          bytes = bytes[9 := pk_queue p];
          bytes = bytes[10 := pk_seq p]
      in bytes[11 := array_crc8 bytes (kHeartbeatPacketSize - 1)])"

definition be16 :: "u8 \<Rightarrow> u8 \<Rightarrow> u16" where
  "be16 a b = push_bit 8 (ucast a) OR ucast b"

text \<open>The out parameter is passed and returned; it changes only when no error is found.\<close>

definition deserialize_heartbeat ::
  "bytes \<Rightarrow> HeartbeatPacket \<Rightarrow> HeartbeatParseError \<times> HeartbeatPacket" where
  "deserialize_heartbeat bs out_packet =
     (let magic = be16 (bs ! 0) (bs ! 1)
      in if magic \<noteq> kHeartbeatMagic then (InvalidMagic, out_packet)
         else if bs ! 2 \<noteq> kHeartbeatVersion then (InvalidVersion, out_packet)
         else if bs ! 3 \<noteq> kHeartbeatType then (InvalidType, out_packet)
         else let expected_crc = array_crc8 bs (kHeartbeatPacketSize - 1)
         in if expected_crc \<noteq> bs ! 11 then (InvalidCrc, out_packet)
         else (No_error, out_packet\<lparr>pk_magic := magic, pk_version := bs ! 2, pk_type := bs ! 3,
                 pk_worker_id := be16 (bs ! 4) (bs ! 5), pk_slot_id := bs ! 6,
                 pk_flags := bs ! 7, pk_load := bs ! 8, pk_queue := bs ! 9, pk_seq := bs ! 10,
                 pk_crc8 := bs ! 11\<rparr>))"

section \<open>The header of protocol.hpp\<close>

datatype MessageType = MT_Heartbeat | MT_TaskRequest | MT_TaskResult

fun MessageType_code :: "MessageType \<Rightarrow> u8" where
  "MessageType_code MT_Heartbeat = 1"
| "MessageType_code MT_TaskRequest = 2"
| "MessageType_code MT_TaskResult = 3"

record WireHeader =
  wh_magic :: u16
  wh_version :: u8
  wh_type :: u8
  wh_payload_size :: u32

definition WireHeader_default :: WireHeader where
  "WireHeader_default =
     \<lparr>wh_magic = 0x4C49, wh_version = 1, wh_type = MessageType_code MT_Heartbeat,
      wh_payload_size = 0\<rparr>"

section \<open>The packet as a frame that ends with its CRC\<close>

definition packet_bytes :: "HeartbeatPacket \<Rightarrow> bytes" where
  "packet_bytes p =
     [ucast (drop_bit 8 (pk_magic p)), ucast (pk_magic p), pk_version p, pk_type p,
      ucast (drop_bit 8 (pk_worker_id p)), ucast (pk_worker_id p), pk_slot_id p, pk_flags p,
      pk_load p, pk_queue p, pk_seq p, pk_crc8 p]"

lemma length_packet_bytes [simp]: "length (packet_bytes p) = 12"
  by (simp add: packet_bytes_def)

interpretation hp: checked_frame packet_bytes 11 pk_crc8
  by unfold_locales (simp_all add: packet_bytes_def)

lemma ucast_u16_and_0xFF: "(ucast (w AND 0xFF) :: u8) = ucast (w :: u16)"
proof -
  have ff: "(0xFF :: u16) = mask 8" by (simp add: mask_eq_exp_minus_1)
  show ?thesis
    unfolding ff by (rule bit_word_eqI) (simp add: bit_simps)
qed

lemma be16_bytes [simp]: "be16 (ucast (drop_bit 8 w)) (ucast w) = w"
  unfolding be16_def by (rule bit_word_eqI) (auto simp: bit_simps)

lemma bytes_be16 [simp]: "ucast (drop_bit 8 (be16 a b)) = a" "ucast (be16 a b) = b"
  unfolding be16_def by (rule bit_word_eqI, auto simp: bit_simps dest: bit_u8_bound)+

lemma serialize_heartbeat_bytes:
  "serialize_heartbeat p = packet_bytes (p\<lparr>pk_crc8 := crc8 (packet_bytes p) 11\<rparr>)"
proof -
  have "replicate kHeartbeatPacketSize 0 = [0, 0, 0, 0, 0, 0, 0, 0, 0, 0, 0, 0 :: u8]"
    by (simp add: kHeartbeatPacketSize_def eval_nat_numeral)
  then show ?thesis
    unfolding serialize_heartbeat_def
    by (simp add: Let_def kHeartbeatPacketSize_def packet_bytes_def ucast_u16_and_0xFF
        array_crc8_eq) (simp add: crc8_def)
qed

lemma crc8_packet_update [simp]:
  "crc8 (packet_bytes (p\<lparr>pk_crc8 := c\<rparr>)) 11 = crc8 (packet_bytes p) 11"
  by (simp add: crc8_def packet_bytes_def)

lemma crc_ok_serialized [simp]: "hp.crc_ok (p\<lparr>pk_crc8 := crc8 (packet_bytes p) 11\<rparr>)"
  by (simp add: hp.crc_ok_def del: HeartbeatPacket.update_convs)

lemma list_nths_12:
  "length xs = 12 \<Longrightarrow>
     xs = [xs!0, xs!1, xs!2, xs!3, xs!4, xs!5, xs!6, xs!7, xs!8, xs!9, xs!10, xs!11]"
  by (rule nth_equalityI) (auto simp: less_Suc_eq numeral_eq_Suc)

text \<open>What the parser accepts is the image of the packet it returns, with its CRC.\<close>

lemma deserialize_heartbeat_ok:
  assumes "length bs = 12"
  shows "deserialize_heartbeat bs p0 = (No_error, p) \<longleftrightarrow>
    packet_bytes p = bs \<and> hp.crc_ok p \<and> pk_magic p = kHeartbeatMagic
    \<and> pk_version p = kHeartbeatVersion \<and> pk_type p = kHeartbeatType"
proof -
  have crc: "array_crc8 bs (kHeartbeatPacketSize - 1) = crc8 bs 11"
    using assms by (simp add: array_crc8_eq kHeartbeatPacketSize_def)
  show ?thesis
  proof
    assume "deserialize_heartbeat bs p0 = (No_error, p)"
    then have v: "be16 (bs ! 0) (bs ! 1) = kHeartbeatMagic" "bs ! 2 = kHeartbeatVersion"
        "bs ! 3 = kHeartbeatType" "crc8 bs 11 = bs ! 11"
      and p: "p = \<lparr>pk_magic = be16 (bs ! 0) (bs ! 1), pk_version = bs ! 2, pk_type = bs ! 3,
                 pk_worker_id = be16 (bs ! 4) (bs ! 5), pk_slot_id = bs ! 6,
                 pk_flags = bs ! 7, pk_load = bs ! 8, pk_queue = bs ! 9, pk_seq = bs ! 10,
                 pk_crc8 = bs ! 11\<rparr>"
      unfolding deserialize_heartbeat_def crc by (auto simp: Let_def split: if_splits)
    have pb: "packet_bytes p = bs"
      using list_nths_12 [OF assms] by (simp add: p packet_bytes_def)
    with v p show "packet_bytes p = bs \<and> hp.crc_ok p \<and> pk_magic p = kHeartbeatMagic
        \<and> pk_version p = kHeartbeatVersion \<and> pk_type p = kHeartbeatType"
      by (simp add: hp.crc_ok_def)
  next
    assume r: "packet_bytes p = bs \<and> hp.crc_ok p \<and> pk_magic p = kHeartbeatMagic
        \<and> pk_version p = kHeartbeatVersion \<and> pk_type p = kHeartbeatType"
    then have "bs ! 0 = ucast (drop_bit 8 (pk_magic p))" "bs ! 1 = ucast (pk_magic p)"
      "bs ! 2 = pk_version p" "bs ! 3 = pk_type p"
      "bs ! 4 = ucast (drop_bit 8 (pk_worker_id p))" "bs ! 5 = ucast (pk_worker_id p)"
      "bs ! 6 = pk_slot_id p" "bs ! 7 = pk_flags p" "bs ! 8 = pk_load p" "bs ! 9 = pk_queue p"
      "bs ! 10 = pk_seq p" "bs ! 11 = pk_crc8 p"
      by (auto simp: packet_bytes_def)
    moreover have "crc8 bs 11 = pk_crc8 p" using r by (simp add: hp.crc_ok_def)
    ultimately show "deserialize_heartbeat bs p0 = (No_error, p)"
      using r unfolding deserialize_heartbeat_def crc by (simp add: Let_def)
  qed
qed

section \<open>Properties\<close>

text \<open>
  A helper heartbeat whose constant fields are the protocol's is read back from its twelve
  bytes unchanged but for the CRC, which becomes the right one; and a failed parse, of whatever
  bytes, leaves the caller's packet alone.
\<close>

lemma helper_heartbeat_roundtrip:
  "(let p = \<lparr>pk_magic = kHeartbeatMagic, pk_version = kHeartbeatVersion, pk_type = kHeartbeatType,
             pk_worker_id = w, pk_slot_id = s, pk_flags = fl, pk_load = l, pk_queue = q,
             pk_seq = sq, pk_crc8 = c\<rparr>
    in deserialize_heartbeat (serialize_heartbeat p) p0
         = (No_error, p\<lparr>pk_crc8 := crc8 (packet_bytes p) 11\<rparr>))
   \<and> (fst (deserialize_heartbeat bs p0) = No_error \<or> snd (deserialize_heartbeat bs p0) = p0)"
proof
  show "let p = \<lparr>pk_magic = kHeartbeatMagic, pk_version = kHeartbeatVersion,
             pk_type = kHeartbeatType, pk_worker_id = w, pk_slot_id = s, pk_flags = fl,
             pk_load = l, pk_queue = q, pk_seq = sq, pk_crc8 = c\<rparr>
    in deserialize_heartbeat (serialize_heartbeat p) p0
         = (No_error, p\<lparr>pk_crc8 := crc8 (packet_bytes p) 11\<rparr>)"
    unfolding Let_def
    by (simp add: serialize_heartbeat_bytes deserialize_heartbeat_ok
        del: HeartbeatPacket.update_convs)
  show "fst (deserialize_heartbeat bs p0) = No_error \<or> snd (deserialize_heartbeat bs p0) = p0"
    by (simp add: deserialize_heartbeat_def Let_def)
qed

text \<open>
  The two heartbeat formats share length, version and type code but cannot be mistaken for
  each other: a datagram the LiNeP receiver accepts is refused by the helper parser with
  \<open>InvalidMagic\<close>, because one magic is little-endian and the other big-endian on the wire.
\<close>

lemma heartbeat_formats_disjoint:
  assumes "heartbeat_of_bytes bs = Some f" "validate_heartbeat_compact f"
  shows "deserialize_heartbeat bs p0 = (InvalidMagic, p0)"
proof -
  have "bs = heartbeat_bytes f" using heartbeat_bytes_of_bytes [OF assms(1)] by simp
  then have "bs ! 0 = 0x4E" "bs ! 1 = 0x4C"
    using assms(2) by (simp_all add: validate_heartbeat_compact_iff heartbeat_bytes_def le16_def
        MAGIC_def)
  moreover have "be16 0x4E 0x4C \<noteq> kHeartbeatMagic"
    by (simp add: be16_def kHeartbeatMagic_def)
  ultimately show ?thesis
    by (simp add: deserialize_heartbeat_def Let_def)
qed

lemma heartbeat_formats_disjoint_witness:
  "deserialize_heartbeat (heartbeat_bytes (make_heartbeat_compact 7 1 3 40 2 9))
     HeartbeatPacket_default = (InvalidMagic, HeartbeatPacket_default)"
  by (rule heartbeat_formats_disjoint [OF _ validate_make_heartbeat]) simp

lemma foldl_append_fields:
  "foldl (\<lambda>message field. message @ CHR '' '' # field) acc fs
     = acc @ concat (map (\<lambda>field. CHR '' '' # field) fs)"
  by (induction fs arbitrary: acc) simp_all

text \<open>
  A helper response carries an error message exactly when it is not a success, so the
  empty message can be tested for success; with missing fields and no parse error the message
  names every missing field, in order.
\<close>

lemma helper_error_message_iff:
  "(helper_error_message r = '''' \<longleftrightarrow> is_helper_success r)
   \<and> helper_error_message (r\<lparr>hr_parse_error := '''', hr_missing_fields := f # fs\<rparr>)
       = ''helper schema mismatch: missing fields'' @ concat (map (\<lambda>field. '' '' @ field) (f # fs))"
  by (auto simp: helper_error_message_def is_helper_success_def foldl_append_fields)

text \<open>
  A helper serves every required task type without a reload exactly when both profiles are
  ready and both models warm; and the routing of a task name, whatever its case, always yields
  one of the required types.
\<close>

lemma helper_readiness:
  "list_all (can_serve_without_reload p r) required_task_types
     = (has_required_profiles p \<and> has_required_warm_models r)
   \<and> route_helper_task_type (map tolower s) = route_helper_task_type s
   \<and> route_helper_task_type s \<in> set required_task_types"
  by (auto simp: required_task_types_def can_serve_without_reload_def can_serve_task_type_def
      has_required_profiles_def has_required_warm_models_def route_helper_task_type_def Let_def
      comp_def)

end
