(* ===== verification/Cpp_Map.thy ===== *)
theory Cpp_Map
  imports Main "HOL-Library.Multiset"
begin

text \<open>
  \<open>std::map\<close> as the scheduler uses it: an association list in strictly increasing key order,
  with \<open>find\<close>, \<open>operator[]\<close> followed by an assignment to the element, and iteration in key order.
  The locale \<open>std_map\<close> is the interface the scheduler's proofs use; \<open>std_sort\<close> is the contract
  of \<open>std::sort\<close>: a permutation in which no later element is smaller, for a comparison that is a
  strict weak ordering of the elements. What it does with equivalent elements is left open.
\<close>

section \<open>Ordered maps\<close>

type_synonym ('k, 'v) std_map = "('k \<times> 'v) list"

definition map_find :: "('k, 'v) std_map \<Rightarrow> 'k \<Rightarrow> 'v option" where
  "map_find m k = map_of m k"

fun map_put :: "'k::linorder \<Rightarrow> 'v \<Rightarrow> ('k, 'v) std_map \<Rightarrow> ('k, 'v) std_map" where
  "map_put k v [] = [(k, v)]"
| "map_put k v ((k', v') # m) =
     (if k < k' then (k, v) # (k', v') # m
      else if k = k' then (k, v) # m
      else (k', v') # map_put k v m)"

text \<open>\<open>f(m[k])\<close>: the element is default-constructed when it is missing.\<close>

definition map_at ::
  "'v \<Rightarrow> 'k::linorder \<Rightarrow> ('v \<Rightarrow> 'v) \<Rightarrow> ('k, 'v) std_map \<Rightarrow> ('k, 'v) std_map" where
  "map_at d k f m = map_put k (f (case map_find m k of None \<Rightarrow> d | Some v \<Rightarrow> v)) m"

text \<open>\<open>it = m.find(k); if (it != m.end()) f(it->second)\<close>.\<close>

definition map_modify ::
  "'k::linorder \<Rightarrow> ('v \<Rightarrow> 'v) \<Rightarrow> ('k, 'v) std_map \<Rightarrow> ('k, 'v) std_map" where
  "map_modify k f m = (case map_find m k of None \<Rightarrow> m | Some v \<Rightarrow> map_put k (f v) m)"

text \<open>\<open>for (auto& [key, value] : m) f(key, value)\<close>.\<close>

definition map_each :: "('k \<Rightarrow> 'v \<Rightarrow> 'v) \<Rightarrow> ('k, 'v) std_map \<Rightarrow> ('k, 'v) std_map" where
  "map_each f m = map (\<lambda>(k, v). (k, f k v)) m"

definition map_ok :: "('k::linorder, 'v) std_map \<Rightarrow> bool" where
  "map_ok m \<longleftrightarrow> sorted_wrt (<) (map fst m)"

locale std_map =
  fixes find :: "'m \<Rightarrow> 'k \<Rightarrow> 'v option" and put :: "'k \<Rightarrow> 'v \<Rightarrow> 'm \<Rightarrow> 'm"
    and entries :: "'m \<Rightarrow> ('k \<times> 'v) list" and ok :: "'m \<Rightarrow> bool"
  assumes put_ok: "ok m \<Longrightarrow> ok (put k v m)"
    and find_put: "ok m \<Longrightarrow> find (put k v m) k' = (if k' = k then Some v else find m k')"
    and entries_find: "ok m \<Longrightarrow> (k, v) \<in> set (entries m) \<longleftrightarrow> find m k = Some v"
    and entries_distinct: "ok m \<Longrightarrow> distinct (map fst (entries m))"
begin

lemma find_put_same: "ok m \<Longrightarrow> find (put k v m) k = Some v"
  by (simp add: find_put)

lemma find_put_other: "ok m \<Longrightarrow> k' \<noteq> k \<Longrightarrow> find (put k v m) k' = find m k'"
  by (simp add: find_put)

text \<open>A property of all values survives an assignment of a value that has it.\<close>

lemma all_put:
  assumes "ok m" "\<And>k v. find m k = Some v \<Longrightarrow> P k v" "P k v"
  shows "find (put k v m) k' = Some v' \<Longrightarrow> P k' v'"
  using assms by (auto simp: find_put split: if_splits)

end

lemma map_of_put: "map_of (map_put k v m) k' = (if k' = k then Some v else map_of m k')"
  if "sorted_wrt (<) (map fst m)"
  using that
proof (induction m)
  case (Cons e m)
  obtain a b where e: "e = (a, b)" by (cases e)
  have none: "map_of m a = None" using Cons.prems e by (auto simp: map_of_eq_None_iff)
  show ?case
  proof (cases "k < a")
    case True
    then show ?thesis using e by auto
  next
    case False
    then show ?thesis using Cons e none by (cases "k = a") auto
  qed
qed simp

lemma keys_put: "fst ` set (map_put k v m) = insert k (fst ` set m)"
  by (induction k v m rule: map_put.induct) (simp_all add: insert_commute)

lemma map_put_ok:
  assumes "map_ok m"
  shows "map_ok (map_put k v m)"
  using assms
proof (induction m)
  case (Cons e m)
  obtain a b where e: "e = (a, b)" by (cases e)
  show ?case
  proof (cases "k < a")
    case True
    then show ?thesis using Cons.prems e by (auto simp: map_ok_def)
  next
    case False
    have "map_ok (map_put k v m)" using Cons by (simp add: map_ok_def)
    moreover have "\<forall>x \<in> fst ` set (map_put k v m). a < x" if "k \<noteq> a"
      using False Cons.prems e that by (auto simp: keys_put map_ok_def)
    ultimately show ?thesis using False Cons.prems e by (auto simp: map_ok_def)
  qed
qed (simp add: map_ok_def)

lemma std_map_alist: "std_map map_find map_put (\<lambda>m. m) (map_ok :: ('k::linorder, 'v) std_map \<Rightarrow> bool)"
proof
  fix m :: "('k, 'v) std_map" and k k' v
  assume ok: "map_ok m"
  show "map_ok (map_put k v m)" using ok by (rule map_put_ok)
  show "map_find (map_put k v m) k' = (if k' = k then Some v else map_find m k')"
    unfolding map_find_def by (rule map_of_put) (use ok in \<open>simp add: map_ok_def\<close>)
  have d: "distinct (map fst m)"
    using ok unfolding map_ok_def
    by (metis strict_sorted_iff strict_sorted_simps(1) sorted_wrt_mono_rel)
  show "(k, v) \<in> set m \<longleftrightarrow> map_find m k = Some v"
    using d by (simp add: map_find_def)
  show "distinct (map fst m)" by (rule d)
qed

interpretation alist: std_map map_find map_put "\<lambda>m. m" map_ok
  by (rule std_map_alist)

lemma map_ok_Nil [simp]: "map_ok []"
  by (simp add: map_ok_def)

lemma map_at_ok: "map_ok m \<Longrightarrow> map_ok (map_at d k f m)"
  by (simp add: map_at_def alist.put_ok)

lemma map_modify_ok: "map_ok m \<Longrightarrow> map_ok (map_modify k f m)"
  by (simp add: map_modify_def alist.put_ok split: option.splits)

lemma map_each_ok: "map_ok m \<Longrightarrow> map_ok (map_each f m)"
  by (simp add: map_each_def map_ok_def comp_def case_prod_beta)

lemma find_map_at:
  "map_ok m \<Longrightarrow> map_find (map_at d k f m) k'
     = (if k' = k then Some (f (case map_find m k of None \<Rightarrow> d | Some v \<Rightarrow> v)) else map_find m k')"
  by (simp add: map_at_def alist.find_put)

lemma find_map_modify:
  "map_ok m \<Longrightarrow> map_find (map_modify k f m) k'
     = (if k' = k then map_option f (map_find m k) else map_find m k')"
  by (simp add: map_modify_def alist.find_put split: option.splits)

lemma find_map_each: "map_find (map_each f m) k = map_option (f k) (map_find m k)"
  by (induction m) (auto simp: map_find_def map_each_def)

section \<open>Sorting\<close>

definition strict_weak_on :: "('a \<Rightarrow> 'a \<Rightarrow> bool) \<Rightarrow> 'a set \<Rightarrow> bool" where
  "strict_weak_on lt A \<longleftrightarrow>
     (\<forall>x\<in>A. \<not> lt x x) \<and> (\<forall>x\<in>A. \<forall>y\<in>A. \<forall>z\<in>A. lt x y \<longrightarrow> lt y z \<longrightarrow> lt x z)
     \<and> (\<forall>x\<in>A. \<forall>y\<in>A. \<forall>z\<in>A. \<not> lt y x \<longrightarrow> \<not> lt z y \<longrightarrow> \<not> lt z x)"

locale std_sort =
  fixes srt :: "('a \<Rightarrow> 'a \<Rightarrow> bool) \<Rightarrow> 'a list \<Rightarrow> 'a list"
  assumes perm: "mset (srt lt xs) = mset xs"
    and in_order: "strict_weak_on lt (set xs) \<Longrightarrow> sorted_wrt (\<lambda>x y. \<not> lt y x) (srt lt xs)"
begin

lemma set_sorted: "set (srt lt xs) = set xs"
  using perm by (metis set_mset_mset)

lemma distinct_sorted: "distinct (map f xs) \<Longrightarrow> distinct (map f (srt lt xs))"
  using perm [of lt xs] by (metis mset_map mset_eq_imp_distinct_iff)

lemma head_minimal:
  assumes "strict_weak_on lt (set xs)" "srt lt xs = y # ys" "x \<in> set xs"
  shows "\<not> lt x y"
proof -
  have "x \<in> set (y # ys)" using assms(2,3) set_sorted [of lt xs] by simp
  moreover have "\<not> lt y y"
    using assms(1) set_sorted [of lt xs] assms(2) by (auto simp: strict_weak_on_def)
  ultimately show ?thesis using in_order [OF assms(1)] assms(2) by auto
qed

end

text \<open>
  Insertion sort, which is what \<open>std::sort\<close> runs on ranges as short as the candidate lists here.
\<close>

fun insert_by :: "('a \<Rightarrow> 'a \<Rightarrow> bool) \<Rightarrow> 'a \<Rightarrow> 'a list \<Rightarrow> 'a list" where
  "insert_by lt x [] = [x]"
| "insert_by lt x (y # ys) = (if lt x y then x # y # ys else y # insert_by lt x ys)"

definition insertion_sort :: "('a \<Rightarrow> 'a \<Rightarrow> bool) \<Rightarrow> 'a list \<Rightarrow> 'a list" where
  "insertion_sort lt xs = foldl (\<lambda>acc x. insert_by lt x acc) [] xs"

lemma mset_insert_by: "mset (insert_by lt x ys) = add_mset x (mset ys)"
  by (induction ys) simp_all

lemma set_insert_by: "set (insert_by lt x ys) = insert x (set ys)"
  using mset_insert_by [of lt x ys] by (metis set_mset_add_mset_insert set_mset_mset)

lemma strict_weak_subset: "strict_weak_on lt A \<Longrightarrow> B \<subseteq> A \<Longrightarrow> strict_weak_on lt B"
  unfolding strict_weak_on_def by (meson subsetD)

lemma strict_weak_irrefl: "strict_weak_on lt A \<Longrightarrow> x \<in> A \<Longrightarrow> \<not> lt x x"
  unfolding strict_weak_on_def by blast

lemma strict_weak_trans:
  "strict_weak_on lt A \<Longrightarrow> x \<in> A \<Longrightarrow> y \<in> A \<Longrightarrow> z \<in> A \<Longrightarrow> lt x y \<Longrightarrow> lt y z \<Longrightarrow> lt x z"
  unfolding strict_weak_on_def by blast

lemma insert_by_sorted:
  assumes "strict_weak_on lt (insert x (set ys))" "sorted_wrt (\<lambda>a b. \<not> lt b a) ys"
  shows "sorted_wrt (\<lambda>a b. \<not> lt b a) (insert_by lt x ys)"
  using assms
proof (induction ys)
  case (Cons y ys)
  have sub: "strict_weak_on lt (insert x (set ys))"
    using Cons.prems(1) by (rule strict_weak_subset) auto
  show ?case
  proof (cases "lt x y")
    case True
    have "\<not> lt z x" if "z \<in> set (y # ys)" for z
    proof
      assume "lt z x"
      then have "lt z y"
        using True that by (intro strict_weak_trans [OF Cons.prems(1), of z x y]) auto
      moreover have "\<not> lt y y"
        by (rule strict_weak_irrefl [OF Cons.prems(1)]) simp
      ultimately show False using that Cons.prems(2) by auto
    qed
    with True Cons.prems(2) show ?thesis by auto
  next
    case False
    then show ?thesis
      using Cons.IH [OF sub] Cons.prems(2) by (auto simp: set_insert_by)
  qed
qed simp

lemma mset_foldl_insert: "mset (foldl (\<lambda>acc x. insert_by lt x acc) acc xs) = mset acc + mset xs"
  by (induction xs arbitrary: acc) (simp_all add: mset_insert_by)

lemma foldl_insert_sorted:
  "strict_weak_on lt (set acc \<union> set xs) \<Longrightarrow> sorted_wrt (\<lambda>a b. \<not> lt b a) acc \<Longrightarrow>
     sorted_wrt (\<lambda>a b. \<not> lt b a) (foldl (\<lambda>acc x. insert_by lt x acc) acc xs)"
proof (induction xs arbitrary: acc)
  case (Cons x xs)
  have "strict_weak_on lt (insert x (set acc))"
    using Cons.prems(1) by (rule strict_weak_subset) auto
  then have "sorted_wrt (\<lambda>a b. \<not> lt b a) (insert_by lt x acc)"
    using Cons.prems(2) by (rule insert_by_sorted)
  moreover have "strict_weak_on lt (set (insert_by lt x acc) \<union> set xs)"
    using Cons.prems(1) by (simp add: set_insert_by)
  ultimately show ?case using Cons.IH by simp
qed simp

interpretation insertion: std_sort insertion_sort
  by unfold_locales (simp_all add: insertion_sort_def mset_foldl_insert foldl_insert_sorted)

end
