(* ===== verification/Ieee.thy ===== *)
theory Ieee
  imports Complex_Main "HOL-Library.Log_Nat"
begin

text \<open>
  Floating-point arithmetic as the engine and the consensus code use it: \<open>float\<close> and \<open>double\<close>
  are IEEE binary32 and binary64 with rounding to nearest, ties to even. A value is a rational,
  an infinity or a NaN; the two zeros are one value, because the code never divides by a
  negative zero nor looks at the sign of a zero. Every operation computes the exact rational
  result and rounds it, square root included, and everything is executable. The lemmas are the
  three facts the other theories use: rounding is monotone, it is exact on representable
  numbers, and a rounded square root is no smaller than any representable number whose square
  fits.
\<close>

section \<open>Rounding\<close>

definition rne :: "rat \<Rightarrow> int" where
  "rne x = (let f = \<lfloor>x\<rfloor>; r = x - of_int f in
     if r < 1 / 2 then f else if r > 1 / 2 then f + 1 else if even f then f else f + 1)"

lemma rne_of_int [simp]: "rne (of_int n) = n"
  by (simp add: rne_def)

lemma rne_floor: "\<lfloor>x\<rfloor> \<le> rne x \<and> rne x \<le> \<lfloor>x\<rfloor> + 1"
  by (simp add: rne_def Let_def)

lemma rne_mono: "x \<le> y \<Longrightarrow> rne x \<le> rne y"
proof -
  assume xy: "x \<le> y"
  then have f: "\<lfloor>x\<rfloor> \<le> \<lfloor>y\<rfloor>" by (rule floor_mono)
  show ?thesis
  proof (cases "\<lfloor>x\<rfloor> = \<lfloor>y\<rfloor>")
    case True
    with xy show ?thesis by (auto simp: rne_def Let_def)
  next
    case False
    with f rne_floor [of x] rne_floor [of y] show ?thesis by linarith
  qed
qed

lemma rne_le: "x \<le> of_int n \<Longrightarrow> rne x \<le> n"
  using rne_mono [of x "of_int n"] by simp

lemma rne_ge: "of_int n \<le> x \<Longrightarrow> n \<le> rne x"
  using rne_mono [of "of_int n" x] by simp

lemma rne_minus: "rne (- x) = - rne x"
proof (cases "x \<in> \<int>")
  case True
  then obtain n where "x = of_int n" by (auto elim: Ints_cases)
  then show ?thesis using rne_of_int [of "- n"] by simp
next
  case False
  then have fl: "\<lfloor>- x\<rfloor> = - \<lfloor>x\<rfloor> - 1"
    by (metis Ints_of_int add.commute ceiling_altdef ceiling_def diff_conv_add_uminus
        floor_minus minus_add_distrib minus_minus)
  show ?thesis
    unfolding rne_def Let_def fl by (auto simp: field_simps)
qed

section \<open>The exponent of a number\<close>

definition ex2 :: "rat \<Rightarrow> int" where
  "ex2 x = (case quotient_of \<bar>x\<bar> of (n, d) \<Rightarrow>
     let k = int (floorlog 2 (nat n)) - int (floorlog 2 (nat d))
     in if 2 powi k \<le> \<bar>x\<bar> then k else k - 1)"

lemma powi_diff_nat: "(2 :: rat) powi (int a - int b) = 2 ^ a / 2 ^ b"
  by (simp add: power_int_diff)

lemma ex2_bounds:
  assumes "x \<noteq> 0"
  shows "2 powi (ex2 x) \<le> \<bar>x\<bar> \<and> \<bar>x\<bar> < 2 powi (ex2 x + 1)"
proof -
  obtain n d where q: "quotient_of \<bar>x\<bar> = (n, d)" by fastforce
  have d: "0 < d" using quotient_of_denom_pos [OF q] .
  have x: "\<bar>x\<bar> = of_int n / of_int d" using quotient_of_div [OF q] .
  have n: "0 < n"
  proof -
    have "0 < \<bar>x\<bar>" using assms by simp
    then have "(0 :: rat) < of_int n" using x d by (simp add: zero_less_divide_iff)
    then show ?thesis by simp
  qed
  let ?a = "floorlog 2 (nat n)" and ?b = "floorlog 2 (nat d)"
  have bits: "2 ^ (floorlog 2 m - 1) \<le> m \<and> m < 2 ^ floorlog 2 m \<and> 1 \<le> floorlog 2 m"
    if "0 < m" for m
    using floorlog_bounds [OF that, of 2] floorlog_eq_zero_iff [of 2 m] that
    by (cases "floorlog 2 m") auto
  have cast: "(of_nat (nat i) :: rat) = of_int i" if "0 < i" for i
    using that by simp
  have nb: "(2 :: rat) ^ (?a - 1) \<le> of_int n" "(of_int n :: rat) < 2 ^ ?a" "1 \<le> ?a"
    using bits [of "nat n"] n cast [OF n]
    by (metis of_nat_le_iff of_nat_numeral of_nat_power zero_less_nat_eq,
        metis of_nat_less_iff of_nat_numeral of_nat_power zero_less_nat_eq, simp)
  have db: "(2 :: rat) ^ (?b - 1) \<le> of_int d" "(of_int d :: rat) < 2 ^ ?b" "1 \<le> ?b"
    using bits [of "nat d"] d cast [OF d]
    by (metis of_nat_le_iff of_nat_numeral of_nat_power zero_less_nat_eq,
        metis of_nat_less_iff of_nat_numeral of_nat_power zero_less_nat_eq, simp)
  define k where "k = int ?a - int ?b"

  have up: "\<bar>x\<bar> < 2 powi (k + 1)"
  proof -
    have "\<bar>x\<bar> < 2 ^ ?a / 2 ^ (?b - 1)"
      unfolding x using nb db d n by (intro frac_less) auto
    also have "\<dots> = 2 powi (k + 1)"
    proof -
      have "k + 1 = int ?a - int (?b - 1)" using db(3) by (simp add: k_def)
      then show ?thesis by (simp only: powi_diff_nat)
    qed
    finally show ?thesis .
  qed
  have lo: "2 powi (k - 1) \<le> \<bar>x\<bar>"
  proof -
    have "2 powi (k - 1) = 2 ^ (?a - 1) / (2 :: rat) ^ ?b"
    proof -
      have "k - 1 = int (?a - 1) - int ?b" using nb(3) by (simp add: k_def)
      then show ?thesis by (simp only: powi_diff_nat)
    qed
    also have "\<dots> \<le> \<bar>x\<bar>"
      unfolding x using nb db d n by (intro frac_le) auto
    finally show ?thesis .
  qed
  have "ex2 x = (if 2 powi k \<le> \<bar>x\<bar> then k else k - 1)"
    by (simp add: ex2_def q k_def Let_def)
  then show ?thesis using up lo by auto
qed

lemma powi_less_iff [simp]: "(2 :: rat) powi a < 2 powi b \<longleftrightarrow> a < b"
  by (metis linorder_not_less one_less_numeral_iff power_int_increasing
      power_int_strict_increasing semiring_norm(76) less_imp_le)

lemma powi_le_iff [simp]: "(2 :: rat) powi a \<le> 2 powi b \<longleftrightarrow> a \<le> b"
  by (simp flip: linorder_not_less)

lemma ex2_minus [simp]: "ex2 (- x) = ex2 x"
  by (simp add: ex2_def)

lemma ex2_less:
  assumes "x \<noteq> 0" "\<bar>x\<bar> < 2 powi k"
  shows "ex2 x < k"
proof -
  have "(2 :: rat) powi (ex2 x) < 2 powi k" using ex2_bounds [OF assms(1)] assms(2) by linarith
  then show ?thesis by simp
qed

lemma ex2_mono:
  assumes "0 < x" "x \<le> y"
  shows "ex2 x \<le> ex2 y"
proof -
  have "2 powi (ex2 x) \<le> x" "y < 2 powi (ex2 y + 1)"
    using ex2_bounds [of x] ex2_bounds [of y] assms by simp_all
  then have "2 powi (ex2 x) < (2 :: rat) powi (ex2 y + 1)" using assms(2) by linarith
  then show ?thesis by simp
qed

section \<open>Rounding to a format\<close>

text \<open>\<open>p\<close> digits, smallest normal exponent \<open>emin\<close>; subnormal numbers included.\<close>

definition ulp_exp :: "nat \<Rightarrow> int \<Rightarrow> rat \<Rightarrow> int" where
  "ulp_exp p emin x = max (ex2 x) emin - (int p - 1)"

definition rq :: "nat \<Rightarrow> int \<Rightarrow> rat \<Rightarrow> rat" where
  "rq p emin x =
     (if x = 0 then 0
      else let u = 2 powi (ulp_exp p emin x) in of_int (rne (x / u)) * u)"

definition repr :: "nat \<Rightarrow> int \<Rightarrow> rat \<Rightarrow> bool" where
  "repr p emin x \<longleftrightarrow>
     (\<exists>m k. x = of_int m * 2 powi k \<and> \<bar>m\<bar> < 2 ^ p \<and> emin - (int p - 1) \<le> k)"

lemma powi_pos [simp]: "(0 :: rat) < 2 powi k"
  by simp

lemma powi_div: "(2 :: rat) powi a / 2 powi b = 2 powi (a - b)"
  by (simp add: power_int_diff)

lemma powi_int: "0 \<le> k \<Longrightarrow> (2 :: rat) powi k = of_int (2 ^ nat k)"
  by (simp add: power_int_def)

lemma pow_shift: "u \<le> E \<Longrightarrow> (of_int (2 ^ nat (E - u)) :: rat) * 2 powi u = 2 powi E"
proof -
  assume "u \<le> E"
  then have "(of_int (2 ^ nat (E - u)) :: rat) = 2 powi E / 2 powi u"
    by (simp only: powi_div) (simp add: powi_int)
  then show ?thesis by (simp add: field_simps)
qed

lemma rq_eq:
  "x \<noteq> 0 \<Longrightarrow> rq p emin x = of_int (rne (x / 2 powi ulp_exp p emin x)) * 2 powi ulp_exp p emin x"
  by (simp add: rq_def Let_def)

lemma rq_0 [simp]: "rq p emin 0 = 0"
  by (simp add: rq_def)

lemma rq_minus: "rq p emin (- x) = - rq p emin x"
  by (simp add: rq_def ulp_exp_def rne_minus Let_def)

lemma rq_nonneg: "0 \<le> x \<Longrightarrow> 0 \<le> rq p emin x"
proof -
  assume "0 \<le> x"
  have "0 \<le> rne (x / 2 powi k)" for k
    using \<open>0 \<le> x\<close> by (intro rne_ge) simp
  then show ?thesis by (simp add: rq_def Let_def)
qed

lemma rq_ge_power:
  assumes "2 powi E \<le> x" "ulp_exp p emin x \<le> E"
  shows "2 powi E \<le> rq p emin x"
proof -
  let ?u = "ulp_exp p emin x"
  have x: "0 < x" using assms(1) powi_pos [of E] by linarith
  have "of_int (2 ^ nat (E - ?u)) = (2 :: rat) powi E / 2 powi ?u"
    using assms(2) by (simp only: powi_div) (simp add: powi_int)
  also have "\<dots> \<le> x / 2 powi ?u" using assms(1) by (simp add: divide_right_mono)
  finally have "2 ^ nat (E - ?u) \<le> rne (x / 2 powi ?u)" by (rule rne_ge)
  then have "(of_int (2 ^ nat (E - ?u)) :: rat) * 2 powi ?u \<le> of_int (rne (x / 2 powi ?u)) * 2 powi ?u"
    by (intro mult_right_mono) (simp_all flip: of_int_le_iff)
  moreover have "(of_int (2 ^ nat (E - ?u)) :: rat) * 2 powi ?u = 2 powi E"
    using assms(2) by (rule pow_shift)
  moreover have "x \<noteq> 0" using x by simp
  ultimately show ?thesis by (simp only: rq_eq not_False_eq_True)
qed

lemma rq_le_power:
  assumes "0 < x" "x \<le> 2 powi E" "ulp_exp p emin x \<le> E"
  shows "rq p emin x \<le> 2 powi E"
proof -
  let ?u = "ulp_exp p emin x"
  have "x / 2 powi ?u \<le> (2 :: rat) powi E / 2 powi ?u" using assms(2) by (simp add: divide_right_mono)
  also have "\<dots> = of_int (2 ^ nat (E - ?u))"
    using assms(3) by (simp only: powi_div) (simp add: powi_int)
  finally have "rne (x / 2 powi ?u) \<le> 2 ^ nat (E - ?u)" by (rule rne_le)
  then have "of_int (rne (x / 2 powi ?u)) * 2 powi ?u \<le> (of_int (2 ^ nat (E - ?u)) :: rat) * 2 powi ?u"
    by (intro mult_right_mono) (simp_all flip: of_int_le_iff)
  moreover have "(of_int (2 ^ nat (E - ?u)) :: rat) * 2 powi ?u = 2 powi E"
    using assms(3) by (rule pow_shift)
  moreover have "x \<noteq> 0" using assms(1) by simp
  ultimately show ?thesis by (simp only: rq_eq not_False_eq_True)
qed

lemma rq_mono_pos:
  assumes "0 < x" "x \<le> y" "1 \<le> p"
  shows "rq p emin x \<le> rq p emin y"
proof -
  have y: "0 < y" using assms by linarith
  have e: "ex2 x \<le> ex2 y" using assms by (intro ex2_mono)
  show ?thesis
  proof (cases "ulp_exp p emin x = ulp_exp p emin y")
    case True
    have "rne (x / 2 powi ulp_exp p emin y) \<le> rne (y / 2 powi ulp_exp p emin y)"
      using assms(2) by (intro rne_mono divide_right_mono) simp_all
    then show ?thesis using True assms y by (simp add: rq_def Let_def mult_right_mono)
  next
    case False
    with e have lt: "max (ex2 x) emin < ex2 y" by (auto simp: ulp_exp_def max_def split: if_splits)
    have xs: "x \<le> 2 powi (ex2 y)"
    proof -
      have "x < 2 powi (ex2 x + 1)" using ex2_bounds [of x] assms(1) by simp
      moreover have "(2 :: rat) powi (ex2 x + 1) \<le> 2 powi (ex2 y)" using lt by simp
      ultimately show ?thesis by linarith
    qed
    have "rq p emin x \<le> 2 powi (ex2 y)"
      using xs assms(1,3) lt by (intro rq_le_power) (auto simp: ulp_exp_def)
    also have "\<dots> \<le> rq p emin y"
      using ex2_bounds [of y] y assms(3) lt by (intro rq_ge_power) (auto simp: ulp_exp_def)
    finally show ?thesis .
  qed
qed

lemma rq_mono:
  assumes "x \<le> y" "1 \<le> p"
  shows "rq p emin x \<le> rq p emin y"
proof -
  consider "0 < x" | "x \<le> 0" "0 \<le> y" | "y < 0" by linarith
  then show ?thesis
  proof cases
    case 1
    then show ?thesis using assms by (rule rq_mono_pos)
  next
    case 2
    have "rq p emin x = - rq p emin (- x)" using rq_minus [of p emin "- x"] by simp
    moreover have "0 \<le> rq p emin (- x)" using 2 by (intro rq_nonneg) simp
    moreover have "0 \<le> rq p emin y" using 2 by (intro rq_nonneg)
    ultimately show ?thesis by linarith
  next
    case 3
    then have "rq p emin (- y) \<le> rq p emin (- x)"
      using assms by (intro rq_mono_pos) simp_all
    then show ?thesis by (simp add: rq_minus)
  qed
qed

lemma repr_ulp:
  assumes "x = of_int m * 2 powi k" "\<bar>m\<bar> < 2 ^ p" "emin - (int p - 1) \<le> k" "x \<noteq> 0"
  shows "ulp_exp p emin x \<le> k"
proof (rule ccontr)
  assume "\<not> ?thesis"
  then have lt: "k + int p - 1 < max (ex2 x) emin" by (simp add: ulp_exp_def)
  with assms(3) have e: "k + int p \<le> ex2 x" by (auto simp: max_def split: if_splits)
  have "\<bar>x\<bar> = of_int \<bar>m\<bar> * 2 powi k" using assms(1) by (simp add: abs_mult)
  also have "\<dots> < of_int (2 ^ p) * 2 powi k"
    using assms(2) by (intro mult_strict_right_mono) (simp_all only: of_int_less_iff powi_pos)
  also have "\<dots> = 2 powi (k + int p)" by (simp add: power_int_add)
  also have "\<dots> \<le> 2 powi (ex2 x)" using e by simp
  also have "\<dots> \<le> \<bar>x\<bar>" using ex2_bounds [OF assms(4)] by simp
  finally show False by simp
qed

lemma rq_exact:
  assumes "repr p emin x"
  shows "rq p emin x = x"
proof (cases "x = 0")
  case False
  from assms obtain m k where x: "x = of_int m * 2 powi k" "\<bar>m\<bar> < 2 ^ p" "emin - (int p - 1) \<le> k"
    by (auto simp: repr_def)
  let ?u = "ulp_exp p emin x"
  have u: "?u \<le> k" using repr_ulp [OF x False] .
  have "x / 2 powi ?u = of_int m * (2 powi k / 2 powi ?u)" by (simp add: x(1))
  also have "\<dots> = of_int (m * 2 ^ nat (k - ?u))" using u by (simp only: powi_div) (simp add: powi_int)
  finally have q: "x / 2 powi ?u = of_int (m * 2 ^ nat (k - ?u))" .
  then have "rne (x / 2 powi ?u) = m * 2 ^ nat (k - ?u)" by (simp only: rne_of_int)
  moreover have "(of_int (m * 2 ^ nat (k - ?u)) :: rat) * 2 powi ?u = x"
  proof -
    have "(x / 2 powi ?u) * 2 powi ?u = x" by simp
    then show ?thesis by (simp only: q)
  qed
  ultimately show ?thesis using False by (simp add: rq_def Let_def)
qed simp

lemma repr_of_int: "\<bar>n\<bar> < 2 ^ p \<Longrightarrow> emin \<le> int p - 1 \<Longrightarrow> repr p emin (of_int n)"
  unfolding repr_def by (rule exI [of _ n], rule exI [of _ 0]) simp

lemma repr_minus: "repr p emin x \<Longrightarrow> repr p emin (- x)"
  unfolding repr_def by (metis abs_minus_cancel mult_minus_left of_int_minus)

text \<open>A rounded number is representable, up to the overflow threshold.\<close>

lemma rq_abs_le:
  assumes "\<bar>x\<bar> \<le> w" "repr p emin w" "1 \<le> p"
  shows "\<bar>rq p emin x\<bar> \<le> w"
proof -
  have "rq p emin x \<le> w" "rq p emin (- x) \<le> w"
    using rq_mono [of x w p emin] rq_mono [of "- x" w p emin] rq_exact [OF assms(2)] assms by auto
  then show ?thesis by (simp add: rq_minus)
qed

section \<open>Floating-point values\<close>

datatype fp = Fin rat | PInf | NInf | NaN

definition rnd :: "nat \<Rightarrow> int \<Rightarrow> int \<Rightarrow> rat \<Rightarrow> fp" where
  "rnd p emin emax x =
     (let r = rq p emin x in
      if r \<ge> 2 powi (emax + 1) then PInf else if r \<le> - (2 powi (emax + 1)) then NInf else Fin r)"

definition rnd32 :: "rat \<Rightarrow> fp" where "rnd32 = rnd 24 (-126) 127"
definition rnd64 :: "rat \<Rightarrow> fp" where "rnd64 = rnd 53 (-1022) 1023"

definition inf_of :: "rat \<Rightarrow> fp" where
  "inf_of s = (if s = 0 then NaN else if s > 0 then PInf else NInf)"

fun fneg :: "fp \<Rightarrow> fp" where
  "fneg (Fin a) = Fin (- a)"
| "fneg PInf = NInf"
| "fneg NInf = PInf"
| "fneg NaN = NaN"

fun fadd :: "(rat \<Rightarrow> fp) \<Rightarrow> fp \<Rightarrow> fp \<Rightarrow> fp" where
  "fadd r (Fin a) (Fin b) = r (a + b)"
| "fadd r NaN _ = NaN"
| "fadd r _ NaN = NaN"
| "fadd r PInf NInf = NaN"
| "fadd r NInf PInf = NaN"
| "fadd r PInf _ = PInf"
| "fadd r _ PInf = PInf"
| "fadd r NInf _ = NInf"
| "fadd r _ NInf = NInf"

definition fsub :: "(rat \<Rightarrow> fp) \<Rightarrow> fp \<Rightarrow> fp \<Rightarrow> fp" where "fsub r a b = fadd r a (fneg b)"

fun fmul :: "(rat \<Rightarrow> fp) \<Rightarrow> fp \<Rightarrow> fp \<Rightarrow> fp" where
  "fmul r (Fin a) (Fin b) = r (a * b)"
| "fmul r NaN _ = NaN"
| "fmul r _ NaN = NaN"
| "fmul r (Fin a) PInf = inf_of a"
| "fmul r (Fin a) NInf = inf_of (- a)"
| "fmul r PInf (Fin a) = inf_of a"
| "fmul r NInf (Fin a) = inf_of (- a)"
| "fmul r PInf PInf = PInf"
| "fmul r PInf NInf = NInf"
| "fmul r NInf PInf = NInf"
| "fmul r NInf NInf = PInf"

text \<open>A finite divisor that is zero is a positive zero.\<close>

fun fdiv :: "(rat \<Rightarrow> fp) \<Rightarrow> fp \<Rightarrow> fp \<Rightarrow> fp" where
  "fdiv r (Fin a) (Fin b) = (if b = 0 then inf_of a else r (a / b))"
| "fdiv r NaN _ = NaN"
| "fdiv r _ NaN = NaN"
| "fdiv r (Fin a) _ = Fin 0"
| "fdiv r PInf (Fin b) = (if b < 0 then NInf else PInf)"
| "fdiv r NInf (Fin b) = (if b < 0 then PInf else NInf)"
| "fdiv r _ _ = NaN"

text \<open>Comparisons are false on NaN.\<close>

fun flt :: "fp \<Rightarrow> fp \<Rightarrow> bool" where
  "flt (Fin a) (Fin b) = (a < b)"
| "flt NaN _ = False"
| "flt _ NaN = False"
| "flt NInf NInf = False"
| "flt NInf _ = True"
| "flt _ NInf = False"
| "flt PInf _ = False"
| "flt _ PInf = True"

definition fle :: "fp \<Rightarrow> fp \<Rightarrow> bool" where
  "fle a b = (flt a b \<or> (a = b \<and> a \<noteq> NaN))"

text \<open>\<open>static_cast\<close> between the formats: exact to \<open>double\<close>, rounding to \<open>float\<close>.\<close>

fun fcast :: "(rat \<Rightarrow> fp) \<Rightarrow> fp \<Rightarrow> fp" where
  "fcast r (Fin a) = r a"
| "fcast r x = x"

text \<open>\<open>std::max\<close> and \<open>std::clamp\<close> by their comparisons.\<close>

definition fmax :: "fp \<Rightarrow> fp \<Rightarrow> fp" where "fmax a b = (if flt a b then b else a)"

definition fclamp :: "fp \<Rightarrow> fp \<Rightarrow> fp \<Rightarrow> fp" where
  "fclamp v lo hi = (if flt v lo then lo else if flt hi v then hi else v)"

abbreviation dadd :: "fp \<Rightarrow> fp \<Rightarrow> fp" where "dadd \<equiv> fadd rnd64"
abbreviation dmul :: "fp \<Rightarrow> fp \<Rightarrow> fp" where "dmul \<equiv> fmul rnd64"

text \<open>\<open>a == b\<close> is false on NaN.\<close>

definition feq :: "fp \<Rightarrow> fp \<Rightarrow> bool" where "feq a b = (a = b \<and> a \<noteq> NaN)"

section \<open>Square root\<close>

fun isqrt :: "nat \<Rightarrow> nat" where
  "isqrt n = (if n = 0 then 0
     else let r = 2 * isqrt (n div 4) in if (r + 1) * (r + 1) \<le> n then r + 1 else r)"

declare isqrt.simps [simp del]

lemma isqrt_bounds: "isqrt n * isqrt n \<le> n \<and> n < (isqrt n + 1) * (isqrt n + 1)"
proof (induction n rule: isqrt.induct)
  case (1 n)
  show ?case
  proof (cases "n = 0")
    case True
    then show ?thesis by (simp add: isqrt.simps)
  next
    case False
    define s where "s = isqrt (n div 4)"
    have IH: "s * s \<le> n div 4" "n div 4 < (s + 1) * (s + 1)"
      using 1 [OF False] by (simp_all add: s_def)
    have lo: "(2 * s) * (2 * s) \<le> n" using IH(1) by (simp add: mult.assoc mult.left_commute)
    have hi: "n < (2 * s + 2) * (2 * s + 2)"
    proof -
      have "n < 4 * ((s + 1) * (s + 1))" using IH(2) by (simp add: div_less_iff_less_mult ac_simps)
      then show ?thesis by (simp add: algebra_simps)
    qed
    show ?thesis
      using lo hi False by (subst (1 2 3 4) isqrt.simps) (auto simp: Let_def s_def [symmetric] algebra_simps)
  qed
qed

lemma isqrt_ge: "j * j \<le> n \<Longrightarrow> j \<le> isqrt n"
proof (rule ccontr)
  assume a: "j * j \<le> n" "\<not> j \<le> isqrt n"
  then have "(isqrt n + 1) * (isqrt n + 1) \<le> j * j" by (intro mult_le_mono) simp_all
  with a isqrt_bounds [of n] show False by linarith
qed

text \<open>The correctly rounded square root of a non-negative binary64 number.\<close>

definition rsqrt64 :: "rat \<Rightarrow> rat" where
  "rsqrt64 a =
     (if a = 0 then 0
      else let u = 2 powi (ex2 a div 2 - 52);
               q = a / (u * u);
               n = isqrt (nat \<lfloor>q\<rfloor>);
               h = of_nat n + 1 / 2
           in of_nat (if q < h * h then n else if q > h * h then n + 1
                      else if even n then n else n + 1) * u)"

fun fsqrt64 :: "fp \<Rightarrow> fp" where
  "fsqrt64 (Fin a) = (if a < 0 then NaN else Fin (rsqrt64 a))"
| "fsqrt64 PInf = PInf"
| "fsqrt64 NInf = NaN"
| "fsqrt64 NaN = NaN"

lemma rsqrt64_ge_floor:
  assumes "0 < a"
  shows "of_nat (isqrt (nat \<lfloor>a / (2 powi (ex2 a div 2 - 52) * 2 powi (ex2 a div 2 - 52))\<rfloor>))
           * 2 powi (ex2 a div 2 - 52) \<le> rsqrt64 a"
  using assms by (auto simp: rsqrt64_def Let_def intro!: mult_right_mono)

lemma rsqrt64_ge:
  assumes w: "w = of_int m * 2 powi k" "\<bar>m\<bar> < 2 ^ 53" and "0 \<le> w" "w * w \<le> a"
  shows "w \<le> rsqrt64 a"
proof (cases "a \<le> 0")
  case True
  with assms(4) have "w = 0" by (metis dual_order.trans mult_eq_0_iff mult_nonneg_nonneg
      assms(3) order_antisym)
  then show ?thesis using True assms(4) by (simp add: rsqrt64_def)
next
  case False
  define e where "e = ex2 a div 2"
  define u where "u = (2 :: rat) powi (e - 52)"
  define q where "q = a / (u * u)"
  have u: "0 < u" by (simp add: u_def)
  have n: "of_nat (isqrt (nat \<lfloor>q\<rfloor>)) * u \<le> rsqrt64 a"
    using rsqrt64_ge_floor [of a] False by (simp add: q_def u_def e_def)
  have up: "of_nat j * u \<le> rsqrt64 a" if "(of_nat j * u) * (of_nat j * u) \<le> a" for j
  proof -
    have "of_nat (j * j) \<le> q" using that u by (simp add: q_def field_simps)
    then have "int (j * j) \<le> \<lfloor>q\<rfloor>" by (simp add: le_floor_iff)
    then have "j * j \<le> nat \<lfloor>q\<rfloor>" by (simp only: le_nat_iff [OF order_trans [OF of_nat_0_le_iff]])
    then have "j \<le> isqrt (nat \<lfloor>q\<rfloor>)" by (rule isqrt_ge)
    then have "of_nat j * u \<le> of_nat (isqrt (nat \<lfloor>q\<rfloor>)) * u" using u by (intro mult_right_mono) simp_all
    with n show ?thesis by linarith
  qed
  show ?thesis
  proof (cases "w < 2 powi e")
    case True
    have p: "of_nat (2 ^ 52) * u = 2 powi e" by (simp add: u_def power_int_diff)
    have "(2 :: rat) powi e * 2 powi e = 2 powi (2 * e)"
      by (simp flip: power_int_add)
    also have "\<dots> \<le> 2 powi (ex2 a)" by (simp add: e_def)
    also have "\<dots> \<le> a" using ex2_bounds [of a] False by simp
    finally have "of_nat (2 ^ 52) * u \<le> rsqrt64 a" by (intro up) (simp only: p)
    with True p show ?thesis by linarith
  next
    case False
    have "0 < w" using False powi_pos [of e] by linarith
    then have m: "0 < m" using w(1) powi_pos [of k] by (simp add: zero_less_mult_iff del: powi_pos)
    have "w < of_int (2 ^ 53) * 2 powi k"
      unfolding w(1) using w(2) m by (intro mult_strict_right_mono) (simp_all only: of_int_less_iff powi_pos)
    also have "\<dots> = 2 powi (k + 53)" by (simp add: power_int_add)
    finally have "(2 :: rat) powi e < 2 powi (k + 53)" using False by linarith
    then have k: "e - 52 \<le> k" by simp
    define j where "j = nat m * 2 ^ nat (k - (e - 52))"
    have "(of_nat j :: rat) = of_int m * of_int (2 ^ nat (k - (e - 52)))"
      using m by (simp add: j_def)
    then have "of_nat j * u = of_int m * (of_int (2 ^ nat (k - (e - 52))) * u)"
      by (simp only: mult.assoc)
    also have "\<dots> = w" using pow_shift [OF k] by (simp only: u_def w(1))
    finally have jw: "of_nat j * u = w" .
    with up [of j] assms(4) show ?thesis by simp
  qed
qed

section \<open>Results in range\<close>

lemma rnd_bounded:
  assumes "\<bar>x\<bar> \<le> w" "repr p emin w" "1 \<le> p" "w < 2 powi (emax + 1)"
  shows "\<exists>y. rnd p emin emax x = Fin y \<and> \<bar>y\<bar> \<le> w \<and> (0 \<le> x \<longrightarrow> 0 \<le> y)"
proof -
  have "\<bar>rq p emin x\<bar> \<le> w" using assms(1-3) by (rule rq_abs_le)
  then show ?thesis
    using assms(4) rq_nonneg [of x p emin] by (auto simp: rnd_def Let_def abs_le_iff)
qed

lemma repr_1: "repr 24 (-126) 1" "repr 53 (-1022) 1"
  using repr_of_int [of 1 24 "-126"] repr_of_int [of 1 53 "-1022"] by simp_all

lemma rnd32_unit:
  assumes "\<bar>x\<bar> \<le> 1"
  shows "\<exists>y. rnd32 x = Fin y \<and> \<bar>y\<bar> \<le> 1 \<and> (0 \<le> x \<longrightarrow> 0 \<le> y)"
proof -
  have "(1 :: rat) < 2 powi (127 + 1)" using powi_less_iff [of 0 128] by simp
  with rnd_bounded [OF assms repr_1(1), of 127] show ?thesis by (simp add: rnd32_def)
qed

lemma rnd64_unit:
  assumes "\<bar>x\<bar> \<le> 1"
  shows "\<exists>y. rnd64 x = Fin y \<and> \<bar>y\<bar> \<le> 1 \<and> (0 \<le> x \<longrightarrow> 0 \<le> y)"
proof -
  have "(1 :: rat) < 2 powi (1023 + 1)" using powi_less_iff [of 0 1024] by simp
  with rnd_bounded [OF assms repr_1(2), of 1023] show ?thesis by (simp add: rnd64_def)
qed

text \<open>A rounded sum or quotient is at least any representable lower bound, or an overflow.\<close>

lemma rnd_ge:
  assumes "w \<le> x" "repr p emin w" "1 \<le> p" "0 \<le> w"
  shows "rnd p emin emax x = PInf \<or> (\<exists>y. rnd p emin emax x = Fin y \<and> w \<le> y)"
proof -
  have "w \<le> rq p emin x"
    using rq_mono [OF assms(1,3), of emin] rq_exact [OF assms(2)] by simp
  moreover have "(0 :: rat) < 2 powi (emax + 1)" by simp
  ultimately show ?thesis using assms(4) by (auto simp: rnd_def Let_def)
qed

lemma rnd_exact:
  assumes "repr p emin x" "\<bar>x\<bar> < 2 powi (emax + 1)"
  shows "rnd p emin emax x = Fin x"
  using assms rq_exact [OF assms(1)] by (auto simp: rnd_def Let_def abs_less_iff)

text \<open>The values of \<open>float\<close>, and their squares, which are exact in \<open>double\<close>.\<close>

definition is_f32 :: "fp \<Rightarrow> bool" where
  "is_f32 v \<longleftrightarrow> (case v of Fin x \<Rightarrow> repr 24 (-126) x \<and> \<bar>x\<bar> < 2 powi 128 | _ \<Rightarrow> False)"

lemma repr_square:
  assumes "repr 24 (-126) x"
  shows "repr 53 (-1022) (x * x)"
proof -
  from assms obtain m k where x: "x = of_int m * 2 powi k" "\<bar>m\<bar> < 2 ^ 24" "-149 \<le> k"
    by (auto simp: repr_def)
  have "x * x = of_int (m * m) * 2 powi (k + k)"
  proof -
    have "(2 :: rat) powi k * 2 powi k = 2 powi (k + k)" by (rule power_int_add [symmetric]) simp
    then show ?thesis unfolding x(1) of_int_mult by (simp only: ac_simps)
  qed
  moreover have "\<bar>m * m\<bar> < 2 ^ 53"
  proof -
    have "\<bar>m\<bar> * \<bar>m\<bar> \<le> 2 ^ 24 * 2 ^ 24" using x(2) by (intro mult_mono) simp_all
    also have "\<dots> < (2 :: int) ^ 53" by simp
    finally show ?thesis by (simp add: abs_mult)
  qed
  moreover have "-1022 - (int 53 - 1) \<le> k + k" using x(3) by simp
  ultimately show ?thesis unfolding repr_def by blast
qed

lemma square_exact:
  assumes "repr 24 (-126) x" "\<bar>x\<bar> < 2 powi 128"
  shows "rnd64 (x * x) = Fin (x * x)"
  unfolding rnd64_def
proof (rule rnd_exact [OF repr_square [OF assms(1)]])
  have "\<bar>x * x\<bar> \<le> 2 powi 128 * 2 powi 128"
    unfolding abs_mult using assms(2) by (intro mult_mono) auto
  also have "\<dots> = (2 :: rat) powi 256" by (simp flip: power_int_add)
  also have "\<dots> < 2 powi (1023 + 1)" by simp
  finally show "\<bar>x * x\<bar> < 2 powi (1023 + 1)" .
qed

lemma repr_abs: "repr p emin x \<Longrightarrow> repr p emin \<bar>x\<bar>"
  by (cases "0 \<le> x") (auto dest: repr_minus simp: abs_of_neg not_le)

lemma repr_24_53:
  assumes "repr 24 (-126) x"
  obtains m k where "x = of_int m * 2 powi k" "\<bar>m\<bar> < 2 ^ 53"
proof -
  from assms obtain m k where "x = of_int m * 2 powi k" "\<bar>m\<bar> < 2 ^ 24"
    by (auto simp: repr_def)
  then show ?thesis by (intro that [of m k]) auto
qed

text \<open>Integers of up to 53 bits are computed exactly in \<open>double\<close>.\<close>

lemma rnd64_int: "\<bar>n\<bar> < 2 ^ 53 \<Longrightarrow> rnd64 (of_int n) = Fin (of_int n)"
  unfolding rnd64_def
proof (rule rnd_exact)
  assume n: "\<bar>n\<bar> < 2 ^ 53"
  then show "repr 53 (-1022) (of_int n)" by (intro repr_of_int) simp_all
  have "\<bar>of_int n\<bar> = (of_int \<bar>n\<bar> :: rat)" by simp
  also have "\<dots> < of_int (2 ^ 53)" using n by (simp only: of_int_less_iff)
  also have "\<dots> = 2 powi 53" by simp
  also have "\<dots> < 2 powi (1023 + 1)" by (simp only: powi_less_iff)
  finally show "\<bar>of_int n :: rat\<bar> < 2 powi (1023 + 1)" .
qed

text \<open>Every finite result of a rounding is a number of the format.\<close>

lemma repr_rq:
  assumes "1 \<le> p"
  shows "repr p emin (rq p emin x)"
proof (cases "x = 0")
  case True
  then show ?thesis unfolding repr_def by (intro exI [of _ 0] exI [of _ "emin"]) (use assms in simp)
next
  case False
  let ?u = "ulp_exp p emin x"
  let ?m = "rne (x / 2 powi ?u)"
  have k: "emin - (int p - 1) \<le> ?u" by (simp add: ulp_exp_def)
  have "\<bar>x\<bar> < 2 powi (ex2 x + 1)" using ex2_bounds [OF False] by simp
  also have "\<dots> \<le> 2 powi (?u + int p)" by (simp add: ulp_exp_def)
  also have "\<dots> = of_int (2 ^ p) * 2 powi ?u" by (simp add: power_int_add)
  finally have "\<bar>x / 2 powi ?u\<bar> \<le> of_int (2 ^ p)"
    by (simp add: abs_divide divide_le_eq)
  then have "x / 2 powi ?u \<le> of_int (2 ^ p)" "- (x / 2 powi ?u) \<le> of_int (2 ^ p)"
    by (simp_all only: abs_le_iff)
  then have "?m \<le> 2 ^ p" "- ?m \<le> 2 ^ p"
    by (auto dest!: rne_le simp only: rne_minus)
  then have m: "\<bar>?m\<bar> < 2 ^ p \<or> \<bar>?m\<bar> = 2 ^ p" by auto
  have eq: "rq p emin x = of_int ?m * 2 powi ?u" using False by (rule rq_eq)
  from m show ?thesis
  proof
    assume "\<bar>?m\<bar> < 2 ^ p"
    then show ?thesis unfolding repr_def using eq k by blast
  next
    assume e: "\<bar>?m\<bar> = 2 ^ p"
    obtain q where q: "p = Suc q" using assms by (cases p) auto
    define h :: int where "h = (if ?m < 0 then - (2 ^ q) else 2 ^ q)"
    have "?m = h * 2" using e q by (auto simp: h_def abs_if split: if_splits)
    then have "rq p emin x = of_int h * 2 powi (?u + 1)" by (simp add: eq power_int_add)
    moreover have "\<bar>h\<bar> < 2 ^ p" by (simp add: h_def q)
    moreover have "emin - (int p - 1) \<le> ?u + 1" using k by simp
    ultimately show ?thesis unfolding repr_def by blast
  qed
qed

lemma is_f32_rnd32: "rnd32 x = Fin y \<Longrightarrow> is_f32 (Fin y)"
  using repr_rq [of 24 "-126" x]
  by (auto simp: is_f32_def rnd32_def rnd_def Let_def abs_less_iff not_le split: if_splits)

lemma fcast_f32: "fcast rnd32 v = Fin y \<Longrightarrow> is_f32 (Fin y)"
  by (cases v) (auto dest: is_f32_rnd32)
end
