(* ===== verification/Score_Engine.thy ===== *)
theory Score_Engine
  imports Linep_Types Cpp_Map Ieee "HOL-Library.Product_Lexorder"
begin

text \<open>
  The slot registry and the score engine of the scheduler
  (\<open>linep/src/scheduler/slot_registry.hpp\<close>, \<open>score_engine.cpp\<close>): keys with their ordering, the
  state of a slot and its update by a heartbeat, eligibility, the score in \<open>double\<close> arithmetic,
  tie-breaking, the cooldown schedule and the selection of the best slots with one slot per
  worker. Time points and durations are nanoseconds of \<open>steady_clock\<close>. \<open>std::sort\<close> is a
  parameter of the selection, known only by its contract.
\<close>

section \<open>Slots\<close>

datatype SlotKey = SlotKey (worker_id: u16) (slot_id: u8)

definition slot_key_less :: "SlotKey \<Rightarrow> SlotKey \<Rightarrow> bool" where
  "slot_key_less a b =
     (if worker_id a \<noteq> worker_id b then worker_id a < worker_id b else slot_id a < slot_id b)"

definition slot_key_eq :: "SlotKey \<Rightarrow> SlotKey \<Rightarrow> bool" where
  "slot_key_eq a b = (worker_id a = worker_id b \<and> slot_id a = slot_id b)"

lemma slot_key_eq_iff: "slot_key_eq a b \<longleftrightarrow> a = b"
  by (cases a; cases b) (simp add: slot_key_eq_def)

instantiation SlotKey :: linorder
begin

definition less_SlotKey :: "SlotKey \<Rightarrow> SlotKey \<Rightarrow> bool" where
  "less_SlotKey = slot_key_less"

definition less_eq_SlotKey :: "SlotKey \<Rightarrow> SlotKey \<Rightarrow> bool" where
  "less_eq_SlotKey a b = (slot_key_less a b \<or> a = b)"

instance
proof
  fix x y z :: SlotKey
  show "(x < y) = (x \<le> y \<and> \<not> y \<le> x)"
    by (cases x; cases y)
      (auto simp: less_SlotKey_def less_eq_SlotKey_def slot_key_less_def split: if_splits)
  show "x \<le> x" by (simp add: less_eq_SlotKey_def)
  show "x \<le> y \<Longrightarrow> y \<le> z \<Longrightarrow> x \<le> z"
    by (cases x; cases y; cases z)
      (auto simp: less_eq_SlotKey_def slot_key_less_def split: if_splits)
  show "x \<le> y \<Longrightarrow> y \<le> x \<Longrightarrow> x = y"
    by (cases x; cases y) (auto simp: less_eq_SlotKey_def slot_key_less_def split: if_splits)
  show "x \<le> y \<or> y \<le> x"
    by (cases x; cases y) (auto simp: less_eq_SlotKey_def slot_key_less_def)
qed

end

record SlotState =
  ss_worker_id :: u16
  ss_slot_id :: u8
  ss_type :: u8
  ss_alive :: bool
  ss_ready :: bool
  ss_busy :: bool
  ss_degraded :: bool
  ss_error :: bool
  ss_thermal_limit :: bool
  ss_model_loading :: bool
  ss_load :: u8
  ss_queue_depth :: u8
  ss_seq :: u8
  ss_avg_latency_ms :: fp
  ss_success_count :: u32
  ss_error_count :: u32
  ss_timeout_count :: u32
  ss_last_heartbeat :: int
  ss_last_used :: int
  ss_cooldown_until :: int
  ss_ip :: string
  ss_tcp_port :: u16

definition SlotState_default :: SlotState where
  "SlotState_default =
     \<lparr>ss_worker_id = 0, ss_slot_id = 0, ss_type = task_code TASK_INSTRUCT, ss_alive = False,
      ss_ready = False, ss_busy = False, ss_degraded = False, ss_error = False,
      ss_thermal_limit = False, ss_model_loading = False, ss_load = 0, ss_queue_depth = 0,
      ss_seq = 0, ss_avg_latency_ms = Fin 0, ss_success_count = 0, ss_error_count = 0,
      ss_timeout_count = 0, ss_last_heartbeat = 0, ss_last_used = 0, ss_cooldown_until = 0,
      ss_ip = '''', ss_tcp_port = 0\<rparr>"

definition has_flag :: "heartbeat_compact \<Rightarrow> slot_flag \<Rightarrow> bool" where
  "has_flag hb f = (hb_slot_flags hb AND slot_flag_code f \<noteq> 0)"

definition apply_heartbeat_slot :: "int \<Rightarrow> heartbeat_compact \<Rightarrow> SlotState \<Rightarrow> SlotState" where
  "apply_heartbeat_slot now hb slot =
     slot\<lparr>ss_alive := has_flag hb SLOT_ALIVE, ss_ready := has_flag hb SLOT_READY,
          ss_busy := has_flag hb SLOT_BUSY, ss_degraded := has_flag hb SLOT_DEGRADED,
          ss_error := has_flag hb SLOT_ERROR, ss_thermal_limit := has_flag hb SLOT_THERMAL_LIMIT,
          ss_model_loading := has_flag hb SLOT_MODEL_LOADING, ss_load := hb_load hb,
          ss_queue_depth := hb_queue_depth hb, ss_seq := hb_sequence hb,
          ss_last_heartbeat := now\<rparr>"

definition expire_slot :: "SlotState \<Rightarrow> SlotState" where
  "expire_slot slot =
     slot\<lparr>ss_alive := False, ss_ready := False, ss_busy := False,
          ss_load := load_code LOAD_OFFLINE\<rparr>"

section \<open>Eligibility, score, ties, cooldown\<close>

definition seconds :: "int \<Rightarrow> int" where "seconds s = s * 1000000000"

definition HEARTBEAT_TIMEOUT :: int where "HEARTBEAT_TIMEOUT = seconds 5"

definition is_eligible :: "SlotState \<Rightarrow> int \<Rightarrow> bool" where
  "is_eligible slot now =
     (if \<not> ss_alive slot then False
      else if \<not> ss_ready slot then False
      else if ss_error slot then False
      else if ss_model_loading slot then False
      else if ss_thermal_limit slot then False
      else if ss_load slot \<ge> 90 then False
      else if ss_queue_depth slot \<ge> 8 then False
      else if ss_last_heartbeat slot = 0 then False
      else if now > ss_last_heartbeat slot + HEARTBEAT_TIMEOUT then False
      else if now < ss_cooldown_until slot then False
      else True)"

definition num8 :: "u8 \<Rightarrow> fp" where "num8 w = Fin (of_nat (unat w))"
definition num32 :: "u32 \<Rightarrow> fp" where "num32 w = Fin (of_nat (unat w))"

definition score_slot :: "SlotState \<Rightarrow> fp" where
  "score_slot slot =
     (let s = Fin 0;
          s = dadd s (dmul (num8 (ss_load slot)) (Fin 1));
          s = dadd s (dmul (num8 (ss_queue_depth slot)) (Fin 10));
          s = dadd s (dmul (ss_avg_latency_ms slot) (rnd64 (2 / 100)));
          s = (if ss_busy slot then dadd s (Fin 20) else s);
          s = (if ss_degraded slot then dadd s (Fin 50) else s);
          s = (if ss_thermal_limit slot then dadd s (Fin 100) else s);
          s = dadd s (dmul (num32 (ss_timeout_count slot)) (Fin 15));
          s = dadd s (dmul (num32 (ss_error_count slot)) (Fin 25))
      in s)"

definition is_better_tie :: "SlotState \<Rightarrow> SlotState \<Rightarrow> bool" where
  "is_better_tie a b =
     (if ss_queue_depth a \<noteq> ss_queue_depth b then ss_queue_depth a < ss_queue_depth b
      else if \<not> feq (ss_avg_latency_ms a) (ss_avg_latency_ms b)
      then flt (ss_avg_latency_ms a) (ss_avg_latency_ms b)
      else ss_last_used a < ss_last_used b)"

definition cooldown_for :: "u32 \<Rightarrow> int" where
  "cooldown_for failures =
     (if failures \<le> 1 then seconds 5 else if failures = 2 then seconds 30 else seconds 120)"

section \<open>Selection\<close>

type_synonym slots = "(SlotKey, SlotState) std_map"

record candidate =
  cd_key :: SlotKey
  cd_slot :: SlotState
  cd_score :: fp

definition cand_less :: "candidate \<Rightarrow> candidate \<Rightarrow> bool" where
  "cand_less a b =
     (if \<not> feq (cd_score a) (cd_score b) then flt (cd_score a) (cd_score b)
      else is_better_tie (cd_slot a) (cd_slot b))"

definition candidates :: "slots \<Rightarrow> u8 \<Rightarrow> int \<Rightarrow> candidate list" where
  "candidates slots task_type now =
     concat (map (\<lambda>(key, slot).
       if ss_type slot \<noteq> task_type then []
       else if \<not> is_eligible slot now then []
       else [\<lparr>cd_key = key, cd_slot = slot, cd_score = score_slot slot\<rparr>]) slots)"

text \<open>The loop over the sorted candidates, with the result and the workers used so far.\<close>

fun pick :: "int \<Rightarrow> candidate list \<Rightarrow> SlotKey list \<Rightarrow> u16 list \<Rightarrow> SlotKey list" where
  "pick k [] result used = result"
| "pick k (c # cs) result used =
     (if worker_id (cd_key c) \<in> set used then pick k cs result used
      else let result = result @ [cd_key c] in
        if int (length result) \<ge> k then result
        else pick k cs result (worker_id (cd_key c) # used))"

type_synonym cand_sort = "(candidate \<Rightarrow> candidate \<Rightarrow> bool) \<Rightarrow> candidate list \<Rightarrow> candidate list"

definition select_best_slots :: "cand_sort \<Rightarrow> slots \<Rightarrow> u8 \<Rightarrow> int \<Rightarrow> int \<Rightarrow> SlotKey list" where
  "select_best_slots srt slots task_type now k =
     (if k \<le> 0 then []
      else pick k (srt cand_less (candidates slots task_type now)) [] [])"

definition select_best_slot :: "cand_sort \<Rightarrow> slots \<Rightarrow> u8 \<Rightarrow> int \<Rightarrow> SlotKey option" where
  "select_best_slot srt slots task_type now =
     (let picks = select_best_slots srt slots task_type now 1
      in case picks of [] \<Rightarrow> None | p # _ \<Rightarrow> Some p)"

section \<open>Scores are exact\<close>

text \<open>
  Nothing in the scheduler writes \<open>ss_avg_latency_ms\<close>; it keeps its initial value 0.
  Then every partial sum of the score is an integer below \<open>2 ^ 53\<close> and \<open>double\<close> loses nothing.
\<close>

definition slot_wf :: "SlotState \<Rightarrow> bool" where
  "slot_wf s \<longleftrightarrow> ss_avg_latency_ms s = Fin 0"

definition exact_score :: "SlotState \<Rightarrow> int" where
  "exact_score s =
     int (unat (ss_load s)) + 10 * int (unat (ss_queue_depth s))
     + (if ss_busy s then 20 else 0) + (if ss_degraded s then 50 else 0)
     + (if ss_thermal_limit s then 100 else 0)
     + 15 * int (unat (ss_timeout_count s)) + 25 * int (unat (ss_error_count s))"

lemma int_unat_u8_less: "int (unat (w :: u8)) < 256"
  by (metis of_nat_less_iff of_nat_numeral unat_u8_less)

lemma int_unat_u32_less: "int (unat (w :: u32)) < 4294967296"
  by (metis of_nat_less_iff of_nat_numeral unat_u32_less)

lemma dadd_int:
  "\<bar>a + b\<bar> < 2 ^ 53 \<Longrightarrow> dadd (Fin (of_int a)) (Fin (of_int b)) = Fin (of_int (a + b))"
  using rnd64_int [of "a + b"] by simp

lemma dmul_int:
  "\<bar>a * b\<bar> < 2 ^ 53 \<Longrightarrow> dmul (Fin (of_int a)) (Fin (of_int b)) = Fin (of_int (a * b))"
  using rnd64_int [of "a * b"] by simp

lemma num_int: "num8 w = Fin (of_int (int (unat w)))" "num32 v = Fin (of_int (int (unat v)))"
  by (simp_all add: num8_def num32_def)

lemma score_slot_exact:
  assumes "slot_wf s"
  shows "score_slot s = Fin (of_int (exact_score s))"
proof -
  define l q t e where "l = int (unat (ss_load s))" "q = int (unat (ss_queue_depth s))"
    "t = int (unat (ss_timeout_count s))" "e = int (unat (ss_error_count s))"
  note defs = this
  have b: "0 \<le> l" "l < 256" "0 \<le> q" "q < 256" "0 \<le> t" "t < 4294967296" "0 \<le> e" "e < 4294967296"
    unfolding defs
    by (rule of_nat_0_le_iff int_unat_u8_less int_unat_u32_less)+
  define x where "x = (if ss_busy s then 20 else 0 :: int)"
  define y where "y = (if ss_degraded s then 50 else 0 :: int)"
  define z where "z = (if ss_thermal_limit s then 100 else 0 :: int)"
  have xyz: "0 \<le> x" "x \<le> 20" "0 \<le> y" "y \<le> 50" "0 \<le> z" "z \<le> 100"
    by (simp_all add: x_def y_def z_def)
  have s1: "dadd (Fin 0) (dmul (num8 (ss_load s)) (Fin 1)) = Fin (of_int l)"
    using dmul_int [of l 1] dadd_int [of 0 l] b by (simp add: num_int defs)
  have s2: "dadd (Fin (of_int l)) (dmul (num8 (ss_queue_depth s)) (Fin 10)) = Fin (of_int (l + q * 10))"
    using dmul_int [of q 10] dadd_int [of l "q * 10"] b by (simp add: num_int defs)
  have s3: "dadd (Fin (of_int (l + q * 10))) (dmul (ss_avg_latency_ms s) (rnd64 (2 / 100)))
      = Fin (of_int (l + q * 10))"
  proof -
    obtain c where c: "rnd64 (2 / 100) = Fin c" using rnd64_unit [of "2 / 100"] by auto
    have "rnd64 0 = Fin 0" using rnd64_int [of 0] by simp
    with c dadd_int [of "l + q * 10" 0] b show ?thesis using assms by (simp add: slot_wf_def)
  qed
  have opt: "(if c then dadd (Fin (of_int a)) (Fin (numeral d)) else Fin (of_int a))
      = Fin (of_int (a + (if c then numeral d else 0)))" if "\<bar>a + numeral d\<bar> < 2 ^ 53" for a d c
    using dadd_int [OF that] by (simp only: of_int_numeral) simp
  have s4: "(if ss_busy s then dadd (Fin (of_int (l + q * 10))) (Fin 20)
      else Fin (of_int (l + q * 10))) = Fin (of_int (l + q * 10 + x))"
    unfolding x_def by (rule opt) (use b xyz in simp)
  have s5: "(if ss_degraded s then dadd (Fin (of_int (l + q * 10 + x))) (Fin 50)
      else Fin (of_int (l + q * 10 + x))) = Fin (of_int (l + q * 10 + x + y))"
    unfolding y_def by (rule opt) (use b xyz in simp)
  have s6: "(if ss_thermal_limit s then dadd (Fin (of_int (l + q * 10 + x + y))) (Fin 100)
      else Fin (of_int (l + q * 10 + x + y))) = Fin (of_int (l + q * 10 + x + y + z))"
    unfolding z_def by (rule opt) (use b xyz in simp)
  have s7: "dadd (Fin (of_int (l + q * 10 + x + y + z))) (dmul (num32 (ss_timeout_count s)) (Fin 15))
      = Fin (of_int (l + q * 10 + x + y + z + t * 15))"
    using dmul_int [of t 15] dadd_int [of "l + q * 10 + x + y + z" "t * 15"] b xyz
    by (simp add: num_int defs)
  have s8: "dadd (Fin (of_int (l + q * 10 + x + y + z + t * 15)))
        (dmul (num32 (ss_error_count s)) (Fin 25))
      = Fin (of_int (l + q * 10 + x + y + z + t * 15 + e * 25))"
    using dmul_int [of e 25] dadd_int [of "l + q * 10 + x + y + z + t * 15" "e * 25"] b xyz
    by (simp add: num_int defs)
  have "score_slot s = Fin (of_int (l + q * 10 + x + y + z + t * 15 + e * 25))"
    unfolding score_slot_def Let_def s1 s2 s3 s4 s5 s6 s7 s8 by (rule refl)
  moreover have "exact_score s = l + q * 10 + x + y + z + t * 15 + e * 25"
    by (simp add: exact_score_def defs x_def y_def z_def)
  ultimately show ?thesis by simp
qed

section \<open>The order of the candidates\<close>

definition cand_rank :: "candidate \<Rightarrow> int \<times> nat \<times> int" where
  "cand_rank c = (exact_score (cd_slot c), unat (ss_queue_depth (cd_slot c)),
                  ss_last_used (cd_slot c))"

definition cand_wf :: "candidate \<Rightarrow> bool" where
  "cand_wf c \<longleftrightarrow> slot_wf (cd_slot c) \<and> cd_score c = score_slot (cd_slot c)"

lemma cand_less_rank:
  assumes "cand_wf a" "cand_wf b"
  shows "cand_less a b \<longleftrightarrow> cand_rank a < cand_rank b"
proof -
  have s: "cd_score a = Fin (of_int (exact_score (cd_slot a)))"
    "cd_score b = Fin (of_int (exact_score (cd_slot b)))"
    using assms by (simp_all add: cand_wf_def score_slot_exact)
  have l: "ss_avg_latency_ms (cd_slot a) = Fin 0" "ss_avg_latency_ms (cd_slot b) = Fin 0"
    using assms by (simp_all add: cand_wf_def slot_wf_def)
  show ?thesis
    by (auto simp: cand_less_def s l feq_def is_better_tie_def cand_rank_def less_prod_def
        word_less_nat_alt word_unat_eq_iff)
qed

lemma strict_weak_rank:
  assumes "\<And>x y. x \<in> A \<Longrightarrow> y \<in> A \<Longrightarrow> lt x y \<longleftrightarrow> (f x :: 'b::linorder) < f y"
  shows "strict_weak_on lt A"
  unfolding strict_weak_on_def using assms by (auto simp: not_less)

lemma cand_less_strict_weak: "(\<And>c. c \<in> A \<Longrightarrow> cand_wf c) \<Longrightarrow> strict_weak_on cand_less A"
  by (rule strict_weak_rank [where f = cand_rank]) (simp add: cand_less_rank)

section \<open>What the selection picks\<close>

text \<open>The first candidate of every worker, in order, among those not used before.\<close>

fun firsts :: "u16 list \<Rightarrow> candidate list \<Rightarrow> candidate list" where
  "firsts used [] = []"
| "firsts used (c # cs) =
     (if worker_id (cd_key c) \<in> set used then firsts used cs
      else c # firsts (worker_id (cd_key c) # used) cs)"

abbreviation cand_worker :: "candidate \<Rightarrow> u16" where
  "cand_worker c \<equiv> worker_id (cd_key c)"

lemma pick_firsts:
  "int (length result) < k \<Longrightarrow>
     pick k cs result used = result @ take (nat k - length result) (map cd_key (firsts used cs))"
proof (induction k cs result used rule: pick.induct)
  case (2 k c cs result used)
  show ?case
  proof (cases "cand_worker c \<in> set used")
    case True
    then show ?thesis using 2 by simp
  next
    case False
    have n: "nat k - length result = Suc (nat k - length (result @ [cd_key c]))"
      using 2(3) by (simp add: nat_diff_distrib)
    show ?thesis
    proof (cases "int (length (result @ [cd_key c])) \<ge> k")
      case True
      then have "nat k - length (result @ [cd_key c]) = 0" by simp
      then show ?thesis using False True n by (simp add: Let_def)
    next
      case not_full: False
      from 2(2) [OF False refl not_full] not_full False n show ?thesis by (simp add: Let_def)
    qed
  qed
qed simp

lemma firsts_subset: "set (firsts used cs) \<subseteq> set cs"
  by (induction used cs rule: firsts.induct) auto

lemma firsts_workers: "cand_worker ` set (firsts used cs) = cand_worker ` set cs - set used"
  by (induction used cs rule: firsts.induct) auto

lemma firsts_distinct: "distinct (map cand_worker (firsts used cs))"
proof (induction used cs rule: firsts.induct)
  case (2 used c cs)
  have "cand_worker c \<notin> cand_worker ` set (firsts (cand_worker c # used) cs)"
    by (simp add: firsts_workers)
  then show ?case using 2 by auto
qed simp

lemma firsts_sorted: "sorted_wrt R cs \<Longrightarrow> sorted_wrt R (firsts used cs)"
proof (induction used cs rule: firsts.induct)
  case (2 used c cs)
  then show ?case using firsts_subset [of "cand_worker c # used" cs] by auto
qed simp

lemma firsts_best:
  assumes "sorted_wrt (\<lambda>x y. \<not> cand_less y x) cs" "c \<in> set cs" "cand_worker c \<notin> set used"
    and "\<And>x. x \<in> set cs \<Longrightarrow> \<not> cand_less x x"
  shows "\<exists>f \<in> set (firsts used cs). cand_worker f = cand_worker c \<and> \<not> cand_less c f"
  using assms
proof (induction used cs rule: firsts.induct)
  case (2 used d cs)
  show ?case
  proof (cases "cand_worker d \<in> set used")
    case True
    then have "c \<noteq> d" using 2(5) by auto
    with 2 True show ?thesis by auto
  next
    case False
    show ?thesis
    proof (cases "cand_worker c = cand_worker d")
      case True
      moreover have "\<not> cand_less c d" using 2(3,4,6) by auto
      ultimately show ?thesis using False by auto
    next
      case w: False
      then have "c \<in> set cs" "cand_worker c \<notin> set (cand_worker d # used)" using 2(4,5) by auto
      with 2(2) [OF False] 2(3,6) obtain f where "f \<in> set (firsts (cand_worker d # used) cs)"
        "cand_worker f = cand_worker c" "\<not> cand_less c f" by auto
      with False show ?thesis by auto
    qed
  qed
qed simp

lemma candidates_iff:
  assumes "map_ok slots"
  shows "c \<in> set (candidates slots t now) \<longleftrightarrow>
    (\<exists>key slot. map_find slots key = Some slot \<and> ss_type slot = t \<and> is_eligible slot now
       \<and> c = \<lparr>cd_key = key, cd_slot = slot, cd_score = score_slot slot\<rparr>)"
  using alist.entries_find [OF assms]
  by (force simp: candidates_def split: if_splits prod.splits)

lemma candidates_distinct:
  assumes "map_ok slots"
  shows "distinct (map cd_key (candidates slots t now))"
proof -
  have "distinct (map cd_key (candidates m t now))" if "distinct (map fst m)" for m
    using that
    by (induction m) (auto simp: candidates_def image_iff split: prod.splits if_splits)
  then show ?thesis using alist.entries_distinct [OF assms] by simp
qed

definition slots_wf :: "slots \<Rightarrow> bool" where
  "slots_wf slots \<longleftrightarrow> map_ok slots \<and> list_all (\<lambda>(k, s). slot_wf s) slots"

lemma slots_wf_find: "slots_wf slots \<Longrightarrow> map_find slots k = Some s \<Longrightarrow> slot_wf s"
  by (auto simp: slots_wf_def map_find_def list_all_iff dest: map_of_SomeD)

text \<open>A slot a task may be sent to.\<close>

definition selectable :: "slots \<Rightarrow> u8 \<Rightarrow> int \<Rightarrow> SlotKey \<Rightarrow> SlotState \<Rightarrow> bool" where
  "selectable slots t now key slot \<longleftrightarrow>
     map_find slots key = Some slot \<and> ss_type slot = t \<and> is_eligible slot now"

text \<open>The preference between two slots: score, then queue depth, then least recently used.\<close>

definition preferred :: "SlotState \<Rightarrow> SlotState \<Rightarrow> bool" where
  "preferred a b \<longleftrightarrow>
     (exact_score a, unat (ss_queue_depth a), ss_last_used a)
       < (exact_score b, unat (ss_queue_depth b), ss_last_used b)"

context std_sort
begin

text \<open>
  The contract of the sort gives the structure of the sorted candidate list: it has the same
  elements, and it is ordered by the comparison of the source.
\<close>

lemma sorted_candidates:
  assumes "\<And>c. c \<in> set cs \<Longrightarrow> strict_weak_on lt (set cs)"
  shows "sorted_wrt (\<lambda>x y. \<not> lt y x) (srt lt cs)"
proof (cases cs)
  case Nil
  then show ?thesis using set_sorted [of lt cs] by simp
next
  case (Cons c cs')
  then show ?thesis using assms [of c] by (intro in_order) simp
qed

end

lemma selection_facts:
  fixes t :: u8 and now :: int
  assumes "std_sort srt" "slots_wf slots"
  defines "S \<equiv> srt cand_less (candidates slots t now)"
  shows "set S = set (candidates slots t now)"
    and "\<And>c. c \<in> set S \<Longrightarrow> cand_wf c"
    and "sorted_wrt (\<lambda>x y. \<not> cand_less y x) S"
    and "0 < k \<Longrightarrow> select_best_slots srt slots t now k = take (nat k) (map cd_key (firsts [] S))"
proof -
  show set: "set S = set (candidates slots t now)"
    unfolding S_def using std_sort.set_sorted [OF assms(1)] .
  have wf: "cand_wf c" if "c \<in> set (candidates slots t now)" for c
    using that candidates_iff [of slots c t now] slots_wf_find [OF assms(2)] assms(2)
    by (auto simp: cand_wf_def slots_wf_def)
  then show "\<And>c. c \<in> set S \<Longrightarrow> cand_wf c" using set by simp
  show "sorted_wrt (\<lambda>x y. \<not> cand_less y x) S"
    unfolding S_def
    using wf cand_less_strict_weak by (intro std_sort.sorted_candidates [OF assms(1)]) blast
  show "0 < k \<Longrightarrow> select_best_slots srt slots t now k = take (nat k) (map cd_key (firsts [] S))"
    using pick_firsts [of "[]" k S "[]"] by (simp add: select_best_slots_def S_def)
qed

lemma selection_length:
  assumes "std_sort srt" "slots_wf slots" "0 < k"
  shows "length (select_best_slots srt slots t now k)
    = min (nat k) (card {worker_id key | key slot. selectable slots t now key slot})"
proof -
  let ?S = "srt cand_less (candidates slots t now)"
  note f = selection_facts [OF assms(1,2), where t = t and now = now]
  have ok: "map_ok slots" using assms(2) by (simp add: slots_wf_def)
  have "{worker_id key | key slot. selectable slots t now key slot} = cand_worker ` set ?S"
    using f(1) candidates_iff [OF ok] by (force simp: selectable_def)
  also have "\<dots> = set (map cand_worker (firsts [] ?S))" using firsts_workers [of "[]" ?S] by simp
  finally have "card {worker_id key | key slot. selectable slots t now key slot}
      = length (firsts [] ?S)"
    using distinct_card [OF firsts_distinct [of "[]" ?S]] by simp
  then show ?thesis by (simp add: f(4) [OF assms(3)])
qed

section \<open>Properties\<close>

text \<open>
  C5: The selection returns at most \<open>k\<close> slots, all registered, of the requested type and
  eligible, no two of them of one worker; and it returns as many as it can: the smaller of \<open>k\<close>
  and the number of workers with such a slot. This holds for every sort that meets its contract.
\<close>

theorem selection_sound:
  assumes "std_sort srt" "slots_wf slots" "0 < k"
  shows "(let picks = select_best_slots srt slots t now k in
     list_all (\<lambda>key. \<exists>slot. selectable slots t now key slot) picks
     \<and> distinct (map worker_id picks)
     \<and> length picks
         = min (nat k) (card {worker_id key | key slot. selectable slots t now key slot}))"
proof -
  define picks where "picks = select_best_slots srt slots t now k"
  let ?S = "srt cand_less (candidates slots t now)"
  note f = selection_facts [OF assms(1,2), where t = t and now = now]
  have picks: "picks = take (nat k) (map cd_key (firsts [] ?S))"
    unfolding picks_def by (rule f(4) [OF assms(3)])
  have ok: "map_ok slots" using assms(2) by (simp add: slots_wf_def)
  have sel: "\<exists>slot. selectable slots t now (cd_key c) slot" if "c \<in> set ?S" for c
    using that f(1) candidates_iff [OF ok] by (auto simp: selectable_def)
  have a: "list_all (\<lambda>key. \<exists>slot. selectable slots t now key slot) picks"
  proof -
    have "\<exists>slot. selectable slots t now key slot" if "key \<in> set picks" for key
    proof -
      from that obtain c where "c \<in> set (firsts [] ?S)" "key = cd_key c"
        by (auto simp: picks dest!: in_set_takeD)
      with sel [of c] firsts_subset [of "[]" ?S] show ?thesis by blast
    qed
    then show ?thesis by (simp add: list_all_iff)
  qed
  have "map worker_id picks = take (nat k) (map cand_worker (firsts [] ?S))"
    by (simp add: picks take_map comp_def)
  then have "distinct (map worker_id picks)" using firsts_distinct [of "[]" ?S] by simp
  with a selection_length [OF assms] show ?thesis unfolding picks_def Let_def by blast
qed

definition slot_a :: SlotState where
  "slot_a = SlotState_default\<lparr>ss_alive := True, ss_ready := True, ss_load := 10,
     ss_last_heartbeat := 1000\<rparr>"

definition slot_b :: SlotState where
  "slot_b = SlotState_default\<lparr>ss_alive := True, ss_ready := True, ss_load := 20,
     ss_last_heartbeat := 1000\<rparr>"

definition two_workers :: slots where
  "two_workers = [(SlotKey 1 0, slot_b), (SlotKey 1 1, slot_a), (SlotKey 2 0, slot_b)]"

lemma slots_wf_two_workers [simp]: "slots_wf two_workers"
  by (simp add: slots_wf_def two_workers_def map_ok_def slot_wf_def slot_a_def slot_b_def
      SlotState_default_def less_SlotKey_def slot_key_less_def)

lemma eligible_ab [simp]: "is_eligible slot_a 2000" "is_eligible slot_b 2000"
  by (simp_all add: is_eligible_def slot_a_def slot_b_def SlotState_default_def
      HEARTBEAT_TIMEOUT_def seconds_def)

lemma type_ab [simp]: "ss_type slot_a = 1" "ss_type slot_b = 1"
  by (simp_all add: slot_a_def slot_b_def SlotState_default_def)

lemma selectable_two_workers:
  "selectable two_workers 1 2000 key slot \<longleftrightarrow>
     (key, slot) \<in> {(SlotKey 1 0, slot_b), (SlotKey 1 1, slot_a), (SlotKey 2 0, slot_b)}"
  by (auto simp: selectable_def two_workers_def map_find_def split: if_splits)

lemma workers_two:
  "{worker_id key | key slot. selectable two_workers 1 2000 key slot} = {1, 2}"
proof (intro equalityI subsetI)
  fix w :: u16 assume "w \<in> {1, 2}"
  then consider "w = worker_id (SlotKey 1 0)" | "w = worker_id (SlotKey 2 0)" by auto
  then show "w \<in> {worker_id key | key slot. selectable two_workers 1 2000 key slot}"
    unfolding selectable_two_workers by cases blast+
qed (auto simp: selectable_two_workers)

theorem selection_sound_witness:
  "length (select_best_slots insertion_sort two_workers 1 2000 3) = 2
   \<and> distinct (map worker_id (select_best_slots insertion_sort two_workers 1 2000 3))"
proof -
  show ?thesis
    using selection_sound [OF insertion.std_sort_axioms slots_wf_two_workers, of 3 1 2000]
    unfolding Let_def workers_two by simp
qed

lemma firsts_position:
  assumes "sorted_wrt (\<lambda>x y. \<not> cand_less y x) cs" "c \<in> set cs"
    and "\<And>x. x \<in> set cs \<Longrightarrow> \<not> cand_less x x"
    and "i < length (firsts [] cs)" "cand_worker c \<notin> cand_worker ` set (take i (firsts [] cs))"
  shows "\<exists>g \<in> set (firsts [] cs). \<not> cand_less c g \<and> \<not> cand_less g (firsts [] cs ! i)"
proof -
  let ?F = "firsts [] cs"
  obtain g where g: "g \<in> set ?F" "cand_worker g = cand_worker c" "\<not> cand_less c g"
    using firsts_best [OF assms(1,2), of "[]"] assms(3) by auto
  then obtain j where j: "j < length ?F" "?F ! j = g" by (auto simp: in_set_conv_nth)
  have "\<not> j < i"
  proof
    assume "j < i"
    then have "g \<in> set (take i ?F)" using j by (auto simp: in_set_conv_nth)
    with g(2) assms(5) show False by (metis image_eqI)
  qed
  then have "\<not> cand_less g (?F ! i)"
    using j g(1) assms(3) firsts_subset [of "[]" cs] sorted_wrt_nth_less [OF firsts_sorted [OF assms(1)], of i j "[]"]
    by (cases "i = j") auto
  with g show ?thesis by blast
qed

text \<open>
  C2: The selection is greedy and best: a slot it returns is beaten, on score, then queue depth,
  then least recent use, by no eligible slot of a worker that was not chosen before it. In
  particular \<open>select_best_slot\<close> returns a slot that no eligible slot beats, and \<open>nullopt\<close> only
  when there is none.
\<close>

theorem selection_best:
  assumes "std_sort srt" "slots_wf slots"
    and "i < length (select_best_slots srt slots t now k)"
    and "selectable slots t now key slot"
    and "worker_id key \<notin> worker_id ` set (take i (select_best_slots srt slots t now k))"
  shows "\<exists>chosen. map_find slots (select_best_slots srt slots t now k ! i) = Some chosen
     \<and> \<not> preferred slot chosen"
proof -
  let ?S = "srt cand_less (candidates slots t now)"
  let ?F = "firsts [] ?S"
  note f = selection_facts [OF assms(1,2), where t = t and now = now]
  have k: "0 < k" using assms(3) by (auto simp: select_best_slots_def split: if_splits)
  have picks: "select_best_slots srt slots t now k = take (nat k) (map cd_key ?F)"
    by (rule f(4) [OF k])
  have ok: "map_ok slots" using assms(2) by (simp add: slots_wf_def)
  have i: "i < nat k" "i < length ?F" using assms(3) by (simp_all add: picks)
  let ?c = "\<lparr>cd_key = key, cd_slot = slot, cd_score = score_slot slot\<rparr>"
  have c: "?c \<in> set ?S" using assms(4) candidates_iff [OF ok] f(1) by (auto simp: selectable_def)
  have irr: "\<not> cand_less x x" if "x \<in> set ?S" for x
    using f(2) [OF that] cand_less_rank by simp
  have seen: "worker_id key \<notin> cand_worker ` set (take i ?F)"
    using assms(5) i by (auto simp: picks take_map image_image min_def)
  obtain g where g: "g \<in> set ?F" "\<not> cand_less ?c g" "\<not> cand_less g (?F ! i)"
    using firsts_position [OF f(3) c _ i(2)] irr seen by auto
  moreover have "?F ! i \<in> set ?S" using i firsts_subset [of "[]" ?S] by auto
  moreover have "g \<in> set ?S" using g(1) firsts_subset [of "[]" ?S] by auto
  ultimately have "\<not> cand_rank ?c < cand_rank (?F ! i)"
    using g(3) cand_less_rank f(2) c by auto
  moreover obtain chosen where "map_find slots (cd_key (?F ! i)) = Some chosen"
      "cd_slot (?F ! i) = chosen"
    using \<open>?F ! i \<in> set ?S\<close> f(1) candidates_iff [OF ok] by auto
  ultimately show ?thesis
    using i by (auto simp: picks preferred_def cand_rank_def)
qed

theorem selection_best_witness:
  "\<exists>chosen. map_find two_workers (select_best_slots insertion_sort two_workers 1 2000 1 ! 0)
     = Some chosen \<and> \<not> preferred slot_a chosen"
proof -
  have "0 < length (select_best_slots insertion_sort two_workers 1 2000 1)"
    using selection_length [OF insertion.std_sort_axioms slots_wf_two_workers, of 1 1 2000]
    unfolding workers_two by simp
  then show ?thesis
    by (intro selection_best [OF insertion.std_sort_axioms slots_wf_two_workers,
          where key = "SlotKey 1 1" and now = 2000 and t = 1])
      (simp_all add: selectable_two_workers)
qed

text \<open>
  A heartbeat makes a slot eligible exactly when its flags say alive, ready, and neither
  error, thermal limit nor model loading, its load is below 90 and its queue below 8, for five
  seconds and outside the cooldown; an expired slot is never eligible, and a heartbeat leaves
  the task type, the counters, the endpoint and the cooldown alone.
\<close>

lemma heartbeat_eligibility:
  "(is_eligible (apply_heartbeat_slot t hb slot) now \<longleftrightarrow>
      bit (hb_slot_flags hb) 0 \<and> bit (hb_slot_flags hb) 1 \<and> \<not> bit (hb_slot_flags hb) 4
      \<and> \<not> bit (hb_slot_flags hb) 5 \<and> \<not> bit (hb_slot_flags hb) 6
      \<and> unat (hb_load hb) < 90 \<and> unat (hb_queue_depth hb) < 8
      \<and> t \<noteq> 0 \<and> now \<le> t + seconds 5 \<and> ss_cooldown_until slot \<le> now)
   \<and> \<not> is_eligible (expire_slot slot) now
   \<and> (let slot' = apply_heartbeat_slot t hb slot in
      ss_type slot' = ss_type slot \<and> ss_cooldown_until slot' = ss_cooldown_until slot
      \<and> ss_timeout_count slot' = ss_timeout_count slot \<and> ss_ip slot' = ss_ip slot
      \<and> ss_tcp_port slot' = ss_tcp_port slot)"
  by (auto simp: is_eligible_def apply_heartbeat_slot_def has_flag_def and_slot_flag_code
      HEARTBEAT_TIMEOUT_def expire_slot_def Let_def word_le_nat_alt not_le not_less)

text \<open>
  The score is computed exactly: for a slot whose latency was never set, the \<open>double\<close> is the
  integer load + 10 queue + 20 busy + 50 degraded + 100 thermal + 15 timeouts + 25 errors; it
  never decreases with a transport failure, and the cooldown grows from 5 to 30 to 120 seconds.
\<close>

lemma score_exact_and_monotone:
  assumes "slot_wf slot" "unat (ss_timeout_count slot) < 2 ^ 32 - 1"
  shows "score_slot slot = Fin (of_int (exact_score slot))
    \<and> flt (score_slot slot) (score_slot (slot\<lparr>ss_timeout_count := ss_timeout_count slot + 1\<rparr>))
    \<and> cooldown_for (ss_timeout_count slot) \<le> cooldown_for (ss_timeout_count slot + 1)
    \<and> seconds 5 \<le> cooldown_for n \<and> cooldown_for n \<le> seconds 120"
proof -
  let ?s = "slot\<lparr>ss_timeout_count := ss_timeout_count slot + 1\<rparr>"
  have u: "unat (ss_timeout_count slot + 1) = unat (ss_timeout_count slot) + 1"
    using assms(2) by (simp add: unat_word_ariths)
  have wf: "slot_wf ?s" using assms(1) by (simp add: slot_wf_def)
  have "exact_score ?s = exact_score slot + 15"
    unfolding exact_score_def by (simp add: u del: of_nat_unat)
  then have "flt (score_slot slot) (score_slot ?s)"
    by (simp add: score_slot_exact [OF assms(1)] score_slot_exact [OF wf])
  moreover have "cooldown_for (ss_timeout_count slot) \<le> cooldown_for (ss_timeout_count slot + 1)"
    using u by (auto simp: cooldown_for_def seconds_def word_le_nat_alt word_unat_eq_iff)
  ultimately show ?thesis
    using score_slot_exact [OF assms(1)] by (auto simp: cooldown_for_def seconds_def)
qed

lemma score_exact_and_monotone_witness:
  "score_slot slot_a = Fin 10"
  using score_exact_and_monotone [of slot_a 0]
  by (simp add: slot_wf_def slot_a_def SlotState_default_def exact_score_def)

end
