(* ===== verification/Linep_Tests.thy ===== *)
theory Linep_Tests
  imports Score_Engine Framing Helper_Contract
begin

text \<open>
  The test programs of the repository that need neither sockets nor threads (\<open>linep/tests\<close>,
  \<open>liara-inference/common/helper_contract_test_main.cpp\<close>): an \<open>assert\<close> is a conjunct and a program is a bool. Where a test reads
  the clock, \<open>now\<close> is its own reading and \<open>hb i\<close> the one of the \<open>i\<close>-th call of \<open>make_good_slot\<close>. The programs are
  run on the model, with any sorting function and any readings of the clock.
\<close>

section \<open>Frames and checksums\<close>

definition test_crc :: bool where
  "test_crc \<longleftrightarrow>
     crc8 [] 0 = 0 \<and>
     (let data = [0x4C, 0x4E, 0x01, 0x01, 0x00, 0x00]; c1 = crc8 data 6; c2 = crc8 data 6 in c1 = c2 \<and> c1 \<noteq> 0) \<and>
     (let data = [0xAB, 0xCD, 0xEF]; c_orig = crc8 data 3; data = data[1 := data ! 1 XOR 0x01] in c_orig \<noteq> crc8 data 3) \<and>
     (let a = [0x10, 0x20, 0x30, 0x40, 0x50]; b = [0x10, 0x20, 0x30, 0x40, 0x50] in crc8 a 5 = crc8 b 5)"

definition test_crc_fail_reject :: bool where
  "test_crc_fail_reject \<longleftrightarrow>
     (let h = make_header (msg_code REGISTER) 0 0 1 1 1 0
      in validate_header h \<and> \<not> validate_header (h\<lparr>h_sequence := h_sequence h XOR 0x01\<rparr>)) \<and>
     (let hb = make_heartbeat_compact 1 0 (slot_flag_code SLOT_ALIVE) 10 0 1
      in validate_heartbeat_compact hb \<and> \<not> validate_heartbeat_compact (hb\<lparr>hb_queue_depth := hb_queue_depth hb XOR 0x01\<rparr>))"

definition test_error_frame_handling :: bool where
  "test_error_frame_handling \<longleftrightarrow>
     (let err = err_code ERR_TIMEOUT; reason = map (of_char :: char \<Rightarrow> u8) ''backend timeout'';
          payload = le16 err @ reason;
          h = make_header (msg_code MSG_ERROR) (flag_code FLAG_ERROR) (of_nat (length payload)) 17 17 8 0
      in validate_header h \<and> h_msg_type h = msg_code MSG_ERROR \<and> h_flags h AND flag_code FLAG_ERROR \<noteq> 0 \<and>
         of_le16 (payload ! 0) (payload ! 1) = err_code ERR_TIMEOUT \<and> drop 2 payload = reason)"

definition test_heartbeat_compact :: bool where
  "test_heartbeat_compact \<longleftrightarrow>
     (let f = make_heartbeat_compact 17 1 (slot_flag_code SLOT_ALIVE OR slot_flag_code SLOT_READY) 42 3 0;
          h = make_header (msg_code TASK) (flag_code FLAG_ACK_REQUIRED) 256 1 0 42 0
      in length (heartbeat_bytes f) = 12 \<and> length (header_bytes h) = 24 \<and>
         hb_magic f = MAGIC \<and> hb_version f = VERSION \<and> hb_msg_type f = msg_code HEARTBEAT \<and> hb_worker_id f = 17 \<and>
         hb_slot_id f = 1 \<and> hb_load f = 42 \<and> hb_queue_depth f = 3 \<and> hb_sequence f = 0 \<and>
         h_magic h = MAGIC \<and> h_version h = VERSION \<and> h_header_len h = 24 \<and> validate_header h) \<and>
     (let f = make_heartbeat_compact 7 0 (slot_flag_code SLOT_ALIVE) 10 0 5
      in validate_heartbeat_compact f \<and> \<not> validate_heartbeat_compact (f\<lparr>hb_load := 99\<rparr>) \<and>
         \<not> validate_heartbeat_compact (f\<lparr>hb_magic := 0xDEAD\<rparr>) \<and> \<not> validate_heartbeat_compact (f\<lparr>hb_version := 0x02\<rparr>)) \<and>
     (let h = make_header (msg_code PING) 0 0 0 0 1 0 in \<not> validate_header (h\<lparr>h_worker_id := 999\<rparr>))"

definition test_register_frame :: bool where
  "test_register_frame \<longleftrightarrow>
     (let payload_len = 6; h = make_header (msg_code REGISTER) (flag_code FLAG_ACK_REQUIRED) payload_len 11 77 123 2
      in h_magic h = MAGIC \<and> h_version h = VERSION \<and> h_msg_type h = msg_code REGISTER \<and>
         h_flags h = flag_code FLAG_ACK_REQUIRED \<and> h_payload_len h = payload_len \<and> h_sequence h = 11 \<and>
         h_correlation_id h = 77 \<and> h_worker_id h = 123 \<and> h_slot_id h = 2 \<and> validate_header h)"

definition test_result_parsing :: bool where
  "test_result_parsing \<longleftrightarrow>
     (let txt = map (of_char :: char \<Rightarrow> u8) ''ok''; payload = status_code RESULT_OK # txt;
          h = make_header (msg_code RESULT) 0 (of_nat (length payload)) 42 900 5 1
      in validate_header h \<and> h_msg_type h = msg_code RESULT \<and> unat (h_payload_len h) = length payload \<and>
         payload ! 0 = status_code RESULT_OK \<and> drop 1 payload = map of_char ''ok'')"

section \<open>Slots\<close>

definition make_good_slot :: "int \<Rightarrow> u16 \<Rightarrow> u8 \<Rightarrow> task_type \<Rightarrow> u8 \<Rightarrow> u8 \<Rightarrow> SlotState" where
  "make_good_slot now worker slot ty load queue =
     SlotState_default\<lparr>ss_worker_id := worker, ss_slot_id := slot, ss_type := task_code ty, ss_alive := True, ss_ready := True,
       ss_load := load, ss_queue_depth := queue, ss_last_heartbeat := now\<rparr>"

definition good :: "int \<Rightarrow> u16 \<Rightarrow> SlotState" where
  "good now worker = make_good_slot now worker 0 TASK_INSTRUCT 20 0"

abbreviation instruct :: u8 where "instruct \<equiv> task_code TASK_INSTRUCT"

definition slots_of :: "(u16 \<times> u8 \<times> SlotState) list \<Rightarrow> slots" where
  "slots_of entries = foldl (\<lambda>m (w, s, st). map_put (SlotKey w s) st m) [] entries"

definition selects :: "cand_sort \<Rightarrow> slots \<Rightarrow> int \<Rightarrow> u16 option \<Rightarrow> bool" where
  "selects srt slots now worker = (map_option worker_id (select_best_slot srt slots instruct now) = worker)"

definition test_applies_busy_penalty :: "cand_sort \<Rightarrow> int \<Rightarrow> (nat \<Rightarrow> int) \<Rightarrow> bool" where
  "test_applies_busy_penalty srt now hb \<longleftrightarrow>
     (let s1 = make_good_slot (hb 0) 1 0 TASK_INSTRUCT 20 0; s2 = (make_good_slot (hb 1) 2 0 TASK_INSTRUCT 5 0)\<lparr>ss_busy := True\<rparr>
      in score_slot s1 = Fin 20 \<and> score_slot s2 = Fin 25 \<and>
         selects srt (slots_of [(1, 0, s1), (2, 0, s2)]) now (Some 1))"

definition test_applies_degraded_penalty :: "cand_sort \<Rightarrow> int \<Rightarrow> (nat \<Rightarrow> int) \<Rightarrow> bool" where
  "test_applies_degraded_penalty srt now hb \<longleftrightarrow>
     (let s1 = make_good_slot (hb 0) 1 0 TASK_INSTRUCT 50 0;
          s2 = (make_good_slot (hb 1) 2 0 TASK_INSTRUCT 5 0)\<lparr>ss_degraded := True\<rparr>
      in score_slot s1 = Fin 50 \<and> score_slot s2 = Fin 55 \<and>
         selects srt (slots_of [(1, 0, s1), (2, 0, s2)]) now (Some 1))"

definition test_cooldown_after_timeout :: "cand_sort \<Rightarrow> int \<Rightarrow> (nat \<Rightarrow> int) \<Rightarrow> bool" where
  "test_cooldown_after_timeout srt now hb \<longleftrightarrow>
     cooldown_for 0 = seconds 5 \<and> cooldown_for 1 = seconds 5 \<and> cooldown_for 2 = seconds 30 \<and>
     cooldown_for 3 = seconds 120 \<and> cooldown_for 9 = seconds 120 \<and>
     (let s = (good (hb 0) 1)\<lparr>ss_timeout_count := 1, ss_cooldown_until := now + cooldown_for 1\<rparr>
      in \<not> is_eligible s now \<and> is_eligible (s\<lparr>ss_cooldown_until := now - seconds 1\<rparr>) now) \<and>
     (let bad = (good (hb 1) 1)\<lparr>ss_timeout_count := 3, ss_cooldown_until := now + cooldown_for 3\<rparr>
      in selects srt (slots_of [(1, 0, bad)]) now None \<and>
         selects srt (slots_of [(1, 0, bad), (2, 0, good (hb 2) 2)]) now (Some 2))"

definition test_ignores_error_slot :: "cand_sort \<Rightarrow> int \<Rightarrow> (nat \<Rightarrow> int) \<Rightarrow> bool" where
  "test_ignores_error_slot srt now hb \<longleftrightarrow>
     (let s = (good (hb 0) 1)\<lparr>ss_error := True\<rparr>
      in \<not> is_eligible s now \<and> selects srt (slots_of [(1, 0, s)]) now None \<and>
         selects srt (slots_of [(1, 0, s), (2, 0, good (hb 1) 2)]) now (Some 2))"

definition test_ignores_not_ready :: "cand_sort \<Rightarrow> int \<Rightarrow> (nat \<Rightarrow> int) \<Rightarrow> bool" where
  "test_ignores_not_ready srt now hb \<longleftrightarrow>
     (let s = (good (hb 0) 1)\<lparr>ss_ready := False\<rparr>
      in \<not> is_eligible s now \<and> selects srt (slots_of [(1, 0, s)]) now None)"

definition test_ignores_stale_slot :: "cand_sort \<Rightarrow> int \<Rightarrow> (nat \<Rightarrow> int) \<Rightarrow> bool" where
  "test_ignores_stale_slot srt now hb \<longleftrightarrow>
     (let s = (good (hb 0) 1)\<lparr>ss_last_heartbeat := now - seconds 10\<rparr>
      in \<not> is_eligible s now \<and> selects srt (slots_of [(1, 0, s)]) now None) \<and>
     (let s = (good (hb 0) 1)\<lparr>ss_last_heartbeat := now\<rparr>
      in is_eligible s now \<and> select_best_slot srt (slots_of [(1, 0, s)]) instruct now \<noteq> None)"

definition test_prefers_lower_queue :: "cand_sort \<Rightarrow> int \<Rightarrow> (nat \<Rightarrow> int) \<Rightarrow> bool" where
  "test_prefers_lower_queue srt now hb \<longleftrightarrow>
     (let s1 = make_good_slot (hb 0) 1 0 TASK_INSTRUCT 20 0; s2 = make_good_slot (hb 1) 2 0 TASK_INSTRUCT 5 3
      in flt (score_slot s1) (score_slot s2) \<and> selects srt (slots_of [(1, 0, s1), (2, 0, s2)]) now (Some 1))"

definition test_rejects_when_no_slot_available :: "cand_sort \<Rightarrow> int \<Rightarrow> (nat \<Rightarrow> int) \<Rightarrow> bool" where
  "test_rejects_when_no_slot_available srt now hb \<longleftrightarrow>
     (let e1 = (1, 0, make_good_slot (hb 0) 1 0 TASK_CODE 20 0);
          e2 = (2, 0, (good (hb 1) 2)\<lparr>ss_load := 95\<rparr>);
          e3 = (3, 0, (good (hb 2) 3)\<lparr>ss_queue_depth := 8\<rparr>);
          e4 = (4, 0, (good (hb 3) 4)\<lparr>ss_cooldown_until := now + seconds 60\<rparr>);
          e5 = (5, 0, good (hb 4) 5)
      in selects srt (slots_of []) now None \<and> selects srt (slots_of [e1]) now None \<and>
         selects srt (slots_of [e1, e2]) now None \<and> selects srt (slots_of [e1, e2, e3]) now None \<and>
         selects srt (slots_of [e1, e2, e3, e4]) now None \<and> selects srt (slots_of [e1, e2, e3, e4, e5]) now (Some 5))"

definition test_retries_on_second_worker :: "cand_sort \<Rightarrow> int \<Rightarrow> (nat \<Rightarrow> int) \<Rightarrow> bool" where
  "test_retries_on_second_worker srt now hb \<longleftrightarrow>
     (let w1 = (good (hb 0) 1)\<lparr>ss_timeout_count := 1, ss_cooldown_until := now + seconds 60\<rparr>; w2 = good (hb 1) 2
      in \<not> is_eligible w1 now \<and> is_eligible w2 now \<and> selects srt (slots_of [(1, 0, w1), (2, 0, w2)]) now (Some 2))"

definition test_selects_best_slots_fallback :: "cand_sort \<Rightarrow> int \<Rightarrow> (nat \<Rightarrow> int) \<Rightarrow> bool" where
  "test_selects_best_slots_fallback srt now hb \<longleftrightarrow>
     (let e1 = (10, 0, make_good_slot (hb 0) 10 0 TASK_CODE 10 0); e2 = (20, 0, make_good_slot (hb 1) 20 0 TASK_CODE 20 0);
          o2 = (20, 0, make_good_slot (hb 2) 20 0 TASK_CODE 95 0); o1 = (10, 0, make_good_slot (hb 3) 10 0 TASK_CODE 95 0);
          best = (\<lambda>es. map worker_id (select_best_slots srt (slots_of es) (task_code TASK_CODE) now 3))
      in length (best [e1, e2]) = 2 \<and> best [e1, e2, o2] = [10] \<and> best [e1, e2, o2, o1] = [])"

definition test_selects_best_slots_with_diversity :: "cand_sort \<Rightarrow> int \<Rightarrow> (nat \<Rightarrow> int) \<Rightarrow> bool" where
  "test_selects_best_slots_with_diversity srt now hb \<longleftrightarrow>
     (let es = [(1, 0, make_good_slot (hb 0) 1 0 TASK_INSTRUCT 10 0), (1, 1, make_good_slot (hb 1) 1 1 TASK_INSTRUCT 11 0),
                (2, 0, make_good_slot (hb 2) 2 0 TASK_INSTRUCT 20 0), (3, 0, make_good_slot (hb 3) 3 0 TASK_INSTRUCT 30 0)];
          best3 = select_best_slots srt (slots_of es) instruct now 3
      in length best3 = 3 \<and> worker_id (best3 ! 0) = 1 \<and> slot_id (best3 ! 0) = 0 \<and> worker_id (best3 ! 1) = 2 \<and>
         worker_id (best3 ! 2) = 3 \<and> worker_id (best3 ! 1) \<noteq> worker_id (best3 ! 2))"

definition test_selects_lowest_score :: "cand_sort \<Rightarrow> int \<Rightarrow> (nat \<Rightarrow> int) \<Rightarrow> bool" where
  "test_selects_lowest_score srt now hb \<longleftrightarrow>
     (let es = [(1, 0, make_good_slot (hb 0) 1 0 TASK_INSTRUCT 20 1), (2, 0, make_good_slot (hb 1) 2 0 TASK_INSTRUCT 60 0),
                (3, 0, make_good_slot (hb 2) 3 0 TASK_INSTRUCT 10 4)]
      in select_best_slot srt (slots_of es) instruct now = Some (SlotKey 1 0))"

section \<open>The helper contract\<close>

text \<open>
  \<open>now\<close> is the reading of \<open>warm_age_ms\<close>, \<open>since\<close> the earlier one from which the test subtracts 20 ms.
\<close>

definition helper_contract_tests :: "int \<Rightarrow> int \<Rightarrow> bool" where
  "helper_contract_tests since now \<longleftrightarrow>
     is_helper_success (HelperInferResponse_default\<lparr>hr_status := ''success'', hr_schema_ok := True, hr_missing_fields := []\<rparr>) \<and>
     (let response = HelperInferResponse_default\<lparr>hr_status := ''success'', hr_schema_ok := False,
            hr_missing_fields := [''confidence'', ''task_id'']\<rparr>;
          error = helper_error_message response
      in \<not> is_helper_success response \<and> find_str ''confidence'' error \<noteq> None \<and> find_str ''task_id'' error \<noteq> None) \<and>
     has_required_profiles \<lparr>instruct_ready = True, coder_ready = True\<rparr> \<and>
     \<not> has_required_profiles \<lparr>instruct_ready = True, coder_ready = False\<rparr> \<and>
     route_helper_task_type ''quick_extract'' = TaskType_code Instruct \<and>
     route_helper_task_type ''code_fix'' = TaskType_code Coder \<and>
     has_required_warm_models \<lparr>instruct_warm = True, coder_warm = True\<rparr> \<and>
     \<not> can_serve_without_reload \<lparr>instruct_ready = True, coder_ready = True\<rparr> \<lparr>instruct_warm = True, coder_warm = False\<rparr>
         (TaskType_code Coder) \<and>
     warm_age_ms now \<lparr>warm_since = since - 20000000, reload_count = 0\<rparr> \<ge> 1 \<and>
     reload_count (mark_reload now \<lparr>warm_since = 0, reload_count = 0\<rparr>) = 1"

section \<open>The order of the candidates does not depend on the sorting function\<close>

text \<open>
  When no two elements are equivalent there is one sorted arrangement, so every function that keeps the contract of \<open>std::sort\<close>
  returns the same list.
\<close>

context std_sort
begin

lemma sorted_unique:
  assumes "strict_weak_on lt (set xs)" "mset ys = mset xs" "sorted_wrt lt ys"
  shows "srt lt xs = ys"
proof -
  have "as = bs" if "mset as = mset bs" "sorted_wrt (\<lambda>x y. \<not> lt y x) as" "sorted_wrt lt bs" "set as \<subseteq> set xs" for as bs
    using that
  proof (induction bs arbitrary: as)
    case (Cons b bs)
    then obtain a as' where as: "as = a # as'" by (cases as) auto
    have "a = b"
    proof (rule ccontr)
      assume ne: "a \<noteq> b"
      have "a \<in> set (b # bs)" "b \<in> set as"
        using Cons.prems(1) as by (metis list.set_intros(1) set_mset_mset)+
      with ne have "lt b a" "b \<in> set as'" using Cons.prems(3) as by auto
      then show False using Cons.prems(2) as by auto
    qed
    with Cons as show ?case by simp
  qed simp
  from this [of "srt lt xs" ys] show ?thesis
    using assms perm [of lt xs] in_order [OF assms(1)] set_sorted [of lt xs] by simp
qed

end


lemma sort_choice_free:
  assumes "std_sort srt" "\<forall>c \<in> set xs. cand_wf c" "distinct (map cand_rank xs)"
  shows "srt cand_less xs = insertion_sort cand_less xs"
proof (rule std_sort.sorted_unique [OF assms(1)])
  let ?ys = "insertion_sort cand_less xs"
  show w: "strict_weak_on cand_less (set xs)" using assms(2) by (intro cand_less_strict_weak) simp
  show "mset ?ys = mset xs" by (rule insertion.perm)
  have sorted: "sorted_wrt (\<lambda>x y. \<not> cand_less y x) ?ys" by (rule insertion.in_order [OF w])
  have distinct: "distinct (map cand_rank ?ys)" by (rule insertion.distinct_sorted [OF assms(3)])
  have wf: "cand_wf (?ys ! i)" if "i < length ?ys" for i
    using assms(2) that insertion.set_sorted [of cand_less xs] nth_mem by blast
  show "sorted_wrt cand_less ?ys"
    unfolding sorted_wrt_iff_nth_less
  proof (intro allI impI)
    fix i j assume ij: "i < j" "j < length ?ys"
    then have "\<not> cand_rank (?ys ! j) < cand_rank (?ys ! i)" "cand_rank (?ys ! i) \<noteq> cand_rank (?ys ! j)"
      using sorted distinct wf by (simp_all add: sorted_wrt_iff_nth_less cand_less_rank distinct_conv_nth)
    then show "cand_less (?ys ! i) (?ys ! j)" using ij wf by (simp add: cand_less_rank)
  qed
qed

section \<open>The programs pass\<close>

lemma frame_tests_pass:
  "test_crc" "test_crc_fail_reject" "test_error_frame_handling" "test_heartbeat_compact" "test_register_frame" "test_result_parsing"
  by code_simp+

text \<open>The clock has left zero, and a slot is made after \<open>now\<close> was read.\<close>

definition clock_ok :: "int \<Rightarrow> (nat \<Rightarrow> int) \<Rightarrow> bool" where
  "clock_ok now hb \<longleftrightarrow> 0 < now \<and> (\<forall>i. now \<le> hb i)"

named_theorems slot_eval

lemmas slot_definitions [slot_eval] = SlotState_default_def make_good_slot_def good_def is_eligible_def seconds_def
  HEARTBEAT_TIMEOUT_def cooldown_for_def slots_of_def less_SlotKey_def slot_key_less_def candidates_def select_best_slots_def
  select_best_slot_def selects_def word_le_nat_alt

lemmas candidate_definitions [slot_eval] = cand_wf_def slot_wf_def score_slot_exact exact_score_def cand_rank_def
  insertion_sort_def cand_less_def feq_def is_better_tie_def

lemma clock [slot_eval]:
  assumes "clock_ok now hb"
  shows "hb i \<noteq> 0" "\<not> hb i + 5000000000 < now" "\<not> now < 0" "now \<noteq> 0"
  using assms by (auto simp: clock_ok_def dest: spec [of _ i])

lemma penalty_tests_pass:
  assumes "std_sort srt" "clock_ok now hb"
  shows "test_applies_busy_penalty srt now hb" "test_applies_degraded_penalty srt now hb"
  using assms
  by (simp_all add: test_applies_busy_penalty_def test_applies_degraded_penalty_def slot_eval sort_choice_free [OF assms(1)])

lemma eligibility_tests_pass:
  assumes "std_sort srt" "clock_ok now hb"
  shows "test_ignores_error_slot srt now hb" "test_ignores_not_ready srt now hb" "test_ignores_stale_slot srt now hb"
    "test_retries_on_second_worker srt now hb" "test_cooldown_after_timeout srt now hb"
  using assms
  by (simp_all add: test_ignores_error_slot_def test_ignores_not_ready_def test_ignores_stale_slot_def
      test_retries_on_second_worker_def test_cooldown_after_timeout_def slot_eval sort_choice_free [OF assms(1)])

lemma choice_tests_pass:
  assumes "std_sort srt" "clock_ok now hb"
  shows "test_prefers_lower_queue srt now hb" "test_rejects_when_no_slot_available srt now hb" "test_selects_lowest_score srt now hb"
  using assms
  by (simp_all add: test_prefers_lower_queue_def test_rejects_when_no_slot_available_def test_selects_lowest_score_def
      slot_eval sort_choice_free [OF assms(1)])

lemma several_slots_tests_pass:
  assumes "std_sort srt" "clock_ok now hb"
  shows "test_selects_best_slots_fallback srt now hb" "test_selects_best_slots_with_diversity srt now hb"
  using assms
  by (simp_all add: test_selects_best_slots_fallback_def test_selects_best_slots_with_diversity_def slot_eval
      sort_choice_free [OF assms(1)])

lemma warm_age_positive:
  assumes "since \<le> now" "now - since < 2 ^ 63"
  shows "warm_age_ms now \<lparr>warm_since = since - 20000000, reload_count = n\<rparr> \<ge> 1"
proof -
  define age where "age = (now - since + 20000000) div 1000000"
  have age: "1 \<le> age" "age < 2 ^ 64" using assms by (simp_all add: age_def)
  have "warm_age_ms now \<lparr>warm_since = since - 20000000, reload_count = n\<rparr> = word_of_int age"
    using assms by (simp add: warm_age_ms_def age_def signed_divide_int_def algebra_simps)
  moreover have "take_bit 64 age = age" using age by (intro take_bit_int_eq_self) simp_all
  ultimately show ?thesis using age(1) by (simp add: word_le_nat_alt unsigned_of_int)
qed

lemma helper_response_tests:
  "(let response = HelperInferResponse_default\<lparr>hr_status := ''success'', hr_schema_ok := False,
          hr_missing_fields := [''confidence'', ''task_id'']\<rparr>;
        error = helper_error_message response
    in \<not> is_helper_success response \<and> find_str ''confidence'' error \<noteq> None \<and> find_str ''task_id'' error \<noteq> None)"
  "route_helper_task_type ''quick_extract'' = TaskType_code Instruct"
  "route_helper_task_type ''code_fix'' = TaskType_code Coder"
  by code_simp+

lemma helper_tests_pass:
  assumes "since \<le> now" "now - since < 2 ^ 63"
  shows "helper_contract_tests since now"
  unfolding helper_contract_tests_def using helper_response_tests warm_age_positive [OF assms, of 0]
  by (simp add: is_helper_success_def HelperInferResponse_default_def has_required_profiles_def has_required_warm_models_def
      can_serve_without_reload_def can_serve_task_type_def mark_reload_def)

end
