(* ===== verification/Pal_Socket.thy ===== *)
theory Pal_Socket
  imports Prelude
begin

text \<open>
  The platform abstraction layer of LiNeP (\<open>linep/src/pal\<close>): byte order, clocks and sockets, for
  POSIX and for Windows. The operating system is the environment: the results of its calls and
  its table of open handles are explicit, and a connected TCP socket is a value of \<open>conn\<close>
  that says what will arrive, in which portions, and what happens after it. A call that never
  returns is \<open>None\<close>. The locale \<open>exact_reader\<close> is what the protocol code relies on:
  \<open>tcp_recv_all\<close> delivers exactly the next bytes, however the stream was cut.
\<close>

section \<open>Byte order\<close>

text \<open>\<open>big\<close> is the preprocessor test for a big-endian host.\<close>

definition to_le16 :: "bool \<Rightarrow> u16 \<Rightarrow> u16" where
  "to_le16 big v = (if big then push_bit 8 v OR drop_bit 8 v else v)"

definition to_le32 :: "bool \<Rightarrow> u32 \<Rightarrow> u32" where
  "to_le32 big v =
     (if big
      then drop_bit 24 (v AND 0xFF000000) OR drop_bit 8 (v AND 0x00FF0000)
           OR push_bit 8 (v AND 0x0000FF00) OR push_bit 24 (v AND 0x000000FF)
      else v)"

text \<open>A float is its bit pattern, the \<open>memcpy\<close> of the source.\<close>

definition to_le_float :: "bool \<Rightarrow> u32 \<Rightarrow> u32" where
  "to_le_float big f = (if big then to_le32 big f else f)"

section \<open>Clocks\<close>

record timespec = tv_sec :: u64 tv_nsec :: u64

definition gettime_ns :: "timespec \<Rightarrow> u64" where
  "gettime_ns ts = tv_sec ts * 1000000000 + tv_nsec ts"

definition clock_ms :: "timespec \<Rightarrow> u64" where "clock_ms ts = gettime_ns ts div 1000000"
definition clock_us :: "timespec \<Rightarrow> u64" where "clock_us ts = gettime_ns ts div 1000"

text \<open>The argument of \<open>usleep\<close>, computed in 32 bits.\<close>

definition sleep_ms_us :: "u32 \<Rightarrow> u32" where "sleep_ms_us ms = ms * 1000"

text \<open>Windows: the performance counter and its frequency, as \<open>LONGLONG\<close>s cast to 64 bits.\<close>

definition clock_ms_win :: "u64 \<Rightarrow> u64 \<Rightarrow> u64" where "clock_ms_win qpc qpf = qpc * 1000 div qpf"
definition clock_us_win :: "u64 \<Rightarrow> u64 \<Rightarrow> u64" where "clock_us_win qpc qpf = qpc * 1000000 div qpf"

section \<open>Sockets, POSIX\<close>

text \<open>Results of the system calls, and the set of descriptors the process has open.\<close>

record os_results =
  r_socket :: int
  r_bind :: "u16 \<Rightarrow> int"
  r_listen :: "int \<Rightarrow> int"
  r_connect :: "string \<Rightarrow> u16 \<Rightarrow> int"
  r_accept :: int

type_synonym fds = "int set"

definition INVALID_SOCK :: int where "INVALID_SOCK = -1"

record Socket = fd :: int

definition no_socket :: Socket where "no_socket = \<lparr>fd = INVALID_SOCK\<rparr>"

definition valid :: "Socket \<Rightarrow> bool" where "valid s = (fd s \<noteq> INVALID_SOCK)"

definition os_open :: "int \<Rightarrow> fds \<Rightarrow> fds" where "os_open s open = (if s < 0 then open else insert s open)"

definition udp_open :: "os_results \<Rightarrow> fds \<Rightarrow> Socket \<times> fds" where
  "udp_open os open =
     (let s = r_socket os in
      if s < 0 then (no_socket, open) else (\<lparr>fd = s\<rparr>, os_open s open))"

definition udp_bind :: "os_results \<Rightarrow> Socket \<Rightarrow> u16 \<Rightarrow> bool" where
  "udp_bind os s port = (r_bind os port = 0)"

text \<open>The \<open>timeval\<close> set as \<open>SO_RCVTIMEO\<close>: seconds and microseconds.\<close>

definition udp_set_recv_timeout :: "u32 \<Rightarrow> u32 \<times> u32" where
  "udp_set_recv_timeout ms = (ms div 1000, (ms mod 1000) * 1000)"

definition tcp_connect :: "os_results \<Rightarrow> fds \<Rightarrow> string \<Rightarrow> u16 \<Rightarrow> u32 \<Rightarrow> Socket \<times> fds" where
  "tcp_connect os open host port timeout_ms =
     (let s = r_socket os in
      if s < 0 then (no_socket, open)
      else let open = os_open s open in
        if r_connect os host port \<noteq> 0 then (no_socket, open - {s})
        else (\<lparr>fd = s\<rparr>, open))"

definition tcp_listen :: "os_results \<Rightarrow> fds \<Rightarrow> u16 \<Rightarrow> int \<Rightarrow> Socket \<times> fds" where
  "tcp_listen os open port backlog =
     (let s = r_socket os in
      if s < 0 then (no_socket, open)
      else let open = os_open s open in
        if r_bind os port \<noteq> 0 \<or> r_listen os backlog \<noteq> 0 then (no_socket, open - {s})
        else (\<lparr>fd = s\<rparr>, open))"

definition tcp_accept :: "os_results \<Rightarrow> fds \<Rightarrow> Socket \<Rightarrow> Socket \<times> fds" where
  "tcp_accept os open server =
     (let c = r_accept os in
      if c < 0 then (no_socket, open) else (\<lparr>fd = c\<rparr>, os_open c open))"

definition socket_close :: "fds \<Rightarrow> Socket \<Rightarrow> Socket \<times> fds" where
  "socket_close open s =
     (if valid s then (s\<lparr>fd := INVALID_SOCK\<rparr>, open - {fd s}) else (s, open))"

section \<open>Connected streams\<close>

text \<open>
  \<open>c_in\<close> is what the peer sends, \<open>c_end\<close> what follows it: the peer closes, the
  connection fails, or nothing ever comes. The scripts give the outcome of each \<open>recv\<close> and
  \<open>send\<close> call: a positive number is the largest portion the call moves, another number is the
  value it fails with; beyond the script a call moves all it can.
\<close>

datatype stream_end = Peer_closed | Peer_reset | Peer_silent

record conn =
  c_in :: bytes
  c_end :: stream_end
  c_rscript :: "int list"
  c_out :: bytes
  c_wscript :: "int list"

definition deliver :: "conn \<Rightarrow> nat \<Rightarrow> (int \<times> bytes \<times> conn) option" where
  "deliver c k =
     (if c_in c = [] then
        (case c_end c of
           Peer_closed \<Rightarrow> Some (0, [], c)
         | Peer_reset \<Rightarrow> Some (-1, [], c)
         | Peer_silent \<Rightarrow> None)
      else let n = min k (length (c_in c)) in
        Some (int n, take n (c_in c), c\<lparr>c_in := drop n (c_in c)\<rparr>))"

definition os_recv :: "conn \<Rightarrow> nat \<Rightarrow> (int \<times> bytes \<times> conn) option" where
  "os_recv c k =
     (case c_rscript c of
        [] \<Rightarrow> deliver c k
      | x # xs \<Rightarrow>
          if x \<le> 0 then Some (x, [], c\<lparr>c_rscript := xs\<rparr>)
          else deliver (c\<lparr>c_rscript := xs\<rparr>) (min k (nat x)))"

definition os_send :: "conn \<Rightarrow> bytes \<Rightarrow> int \<times> conn" where
  "os_send c bs =
     (case c_wscript c of
        [] \<Rightarrow> (int (length bs), c\<lparr>c_out := c_out c @ bs\<rparr>)
      | x # xs \<Rightarrow>
          if x \<le> 0 then (x, c\<lparr>c_wscript := xs\<rparr>)
          else let n = min (nat x) (length bs) in
            (int n, c\<lparr>c_wscript := xs, c_out := c_out c @ take n bs\<rparr>))"

text \<open>\<open>buf\<close> is \<open>buf + sent\<close>, the part of the buffer not sent yet.\<close>

function send_loop :: "conn \<Rightarrow> bytes \<Rightarrow> int \<Rightarrow> int \<Rightarrow> int \<times> conn" where
  "send_loop c buf len sent =
     (if sent < len then
        (case os_send c (take (nat (len - sent)) buf) of (r, c') \<Rightarrow>
           if r \<le> 0 then (r, c') else send_loop c' (drop (nat r) buf) len (sent + r))
      else (sent, c))"
  by pat_completeness auto
termination
  by (relation "measure (\<lambda>(c, buf, len, sent). nat (len - sent))") auto

declare send_loop.simps [simp del]

definition tcp_send_all :: "conn \<Rightarrow> bytes \<Rightarrow> int \<Rightarrow> int \<times> conn" where
  "tcp_send_all c buf len = send_loop c buf len 0"

function recv_loop :: "conn \<Rightarrow> int \<Rightarrow> int \<Rightarrow> bytes \<Rightarrow> (int \<times> bytes \<times> conn) option" where
  "recv_loop c len got buf =
     (if got < len then
        (case os_recv c (nat (len - got)) of
           None \<Rightarrow> None
         | Some (r, bs, c') \<Rightarrow>
             if r \<le> 0 then Some (r, buf, c') else recv_loop c' len (got + r) (buf @ bs))
      else Some (got, buf, c))"
  by pat_completeness auto
termination
  by (relation "measure (\<lambda>(c, len, got, buf). nat (len - got))") auto

declare recv_loop.simps [simp del]

definition tcp_recv_all :: "conn \<Rightarrow> int \<Rightarrow> (int \<times> bytes \<times> conn) option" where
  "tcp_recv_all c len = recv_loop c len 0 []"

section \<open>Sockets, Windows\<close>

text \<open>
  A \<open>SOCKET\<close> is unsigned and \<open>INVALID_SOCKET\<close> is the all-ones value; the other calls signal
  failure as on POSIX.
\<close>

record os_results_win =
  w_socket :: u64
  w_bind :: "u16 \<Rightarrow> int"
  w_listen :: "int \<Rightarrow> int"
  w_connect :: "string \<Rightarrow> u16 \<Rightarrow> int"
  w_accept :: u64

record Socket_win = fd_win :: u64

definition INVALID_SOCK_win :: u64 where "INVALID_SOCK_win = NOT 0"

definition valid_win :: "Socket_win \<Rightarrow> bool" where "valid_win s = (fd_win s \<noteq> INVALID_SOCK_win)"

definition no_socket_win :: Socket_win where "no_socket_win = \<lparr>fd_win = INVALID_SOCK_win\<rparr>"

definition udp_open_win :: "os_results_win \<Rightarrow> u64 set \<Rightarrow> Socket_win \<times> u64 set" where
  "udp_open_win os open =
     (let s = w_socket os in
      if s = INVALID_SOCK_win then (no_socket_win, open) else (\<lparr>fd_win = s\<rparr>, insert s open))"

definition udp_bind_win :: "os_results_win \<Rightarrow> Socket_win \<Rightarrow> u16 \<Rightarrow> bool" where
  "udp_bind_win os s port = (w_bind os port = 0)"

definition udp_set_recv_timeout_win :: "u32 \<Rightarrow> u32" where "udp_set_recv_timeout_win ms = ms"

definition tcp_connect_win ::
  "os_results_win \<Rightarrow> u64 set \<Rightarrow> string \<Rightarrow> u16 \<Rightarrow> u32 \<Rightarrow> Socket_win \<times> u64 set" where
  "tcp_connect_win os open host port timeout_ms =
     (let s = w_socket os in
      if s = INVALID_SOCK_win then (no_socket_win, open)
      else let open = insert s open in
        if w_connect os host port \<noteq> 0 then (no_socket_win, open - {s})
        else (\<lparr>fd_win = s\<rparr>, open))"

definition tcp_listen_win ::
  "os_results_win \<Rightarrow> u64 set \<Rightarrow> u16 \<Rightarrow> int \<Rightarrow> Socket_win \<times> u64 set" where
  "tcp_listen_win os open port backlog =
     (let s = w_socket os in
      if s = INVALID_SOCK_win then (no_socket_win, open)
      else let open = insert s open in
        if w_bind os port \<noteq> 0 \<or> w_listen os backlog \<noteq> 0 then (no_socket_win, open - {s})
        else (\<lparr>fd_win = s\<rparr>, open))"

definition tcp_accept_win :: "os_results_win \<Rightarrow> u64 set \<Rightarrow> Socket_win \<Rightarrow> Socket_win \<times> u64 set" where
  "tcp_accept_win os open server =
     (let c = w_accept os in
      if c = INVALID_SOCK_win then (no_socket_win, open) else (\<lparr>fd_win = c\<rparr>, insert c open))"

definition socket_close_win :: "u64 set \<Rightarrow> Socket_win \<Rightarrow> Socket_win \<times> u64 set" where
  "socket_close_win open s =
     (if valid_win s then (s\<lparr>fd_win := INVALID_SOCK_win\<rparr>, open - {fd_win s}) else (s, open))"

section \<open>Exact reading\<close>

text \<open>
  What the protocol code needs from \<open>tcp_recv_all\<close>: a full result is exactly the next bytes;
  when enough bytes are pending and no call fails, the result is full; a call on too short a
  stream never looks full.
\<close>

locale exact_reader =
  fixes recv :: "'c \<Rightarrow> int \<Rightarrow> (int \<times> bytes \<times> 'c) option"
    and pending :: "'c \<Rightarrow> bytes" and healthy :: "'c \<Rightarrow> bool"
  assumes recv_exact:
    "recv c len = Some (len, bs, c') \<Longrightarrow> 0 \<le> len \<Longrightarrow>
       bs = take (nat len) (pending c) \<and> pending c' = drop (nat len) (pending c)
       \<and> nat len \<le> length (pending c)"
  and recv_full:
    "healthy c \<Longrightarrow> 0 \<le> len \<Longrightarrow> nat len \<le> length (pending c) \<Longrightarrow>
       \<exists>c'. recv c len = Some (len, take (nat len) (pending c), c') \<and> healthy c'"
begin

lemma recv_prefix:
  assumes "healthy c" "pending c = bs @ rest" "len = int (length bs)"
  obtains c' where "recv c len = Some (len, bs, c')" "healthy c'" "pending c' = rest"
proof -
  from recv_full [OF assms(1), of len] assms(2,3)
  obtain c' where c': "recv c len = Some (len, bs, c')" "healthy c'" by auto
  moreover have "pending c' = rest"
    using recv_exact [OF c'(1)] assms(2,3) by simp
  ultimately show ?thesis using that by blast
qed

lemma recv_short:
  assumes "recv c len = Some (r, bs, c')" "0 \<le> len" "length (pending c) < nat len"
  shows "r \<noteq> len"
  using recv_exact [of c len bs c'] assms by auto

end

definition io_ok :: "conn \<Rightarrow> bool" where
  "io_ok c \<longleftrightarrow> list_all (\<lambda>x. 0 < x) (c_rscript c) \<and> list_all (\<lambda>x. 0 < x) (c_wscript c)"

lemma os_recv_cases:
  assumes "os_recv c k = Some (r, bs, c')"
  shows "(r \<le> 0 \<and> bs = [] \<and> c_in c' = c_in c \<and> c_out c' = c_out c)
       \<or> (0 < r \<and> r \<le> int k \<and> nat r \<le> length (c_in c) \<and> bs = take (nat r) (c_in c)
          \<and> c_in c' = drop (nat r) (c_in c) \<and> c_out c' = c_out c)
       \<or> (k = 0 \<and> r = 0 \<and> bs = [])"
  using assms
  by (auto simp: os_recv_def deliver_def Let_def min_def split: list.splits if_splits stream_end.splits)

lemma recv_loop_exact:
  assumes "recv_loop c len got buf = Some (r, bs, c')" "0 \<le> got" "got \<le> len"
  shows "c_out c' = c_out c \<and>
    (r = len \<longrightarrow> bs = buf @ take (nat (len - got)) (c_in c)
       \<and> c_in c' = drop (nat (len - got)) (c_in c) \<and> nat (len - got) \<le> length (c_in c) \<or> len \<le> 0)"
  using assms
proof (induction c len got buf rule: recv_loop.induct)
  case (1 c len got buf)
  show ?case
  proof (cases "got < len")
    case False
    with 1(2-) show ?thesis by (subst (asm) recv_loop.simps) auto
  next
    case True
    then obtain r0 b0 c0 where r0: "os_recv c (nat (len - got)) = Some (r0, b0, c0)"
      using 1(2) by (subst (asm) recv_loop.simps) (auto split: option.splits)
    note cs = os_recv_cases [OF r0]
    show ?thesis
    proof (cases "r0 \<le> 0")
      case True
      then have e: "r = r0 \<and> bs = buf \<and> c' = c0"
        using 1(2) r0 \<open>got < len\<close> by (subst (asm) recv_loop.simps) auto
      moreover have "r \<noteq> len" using True e \<open>got < len\<close> 1(3) by auto
      ultimately show ?thesis using cs True \<open>got < len\<close> by auto
    next
      case False
      then have s: "0 < r0" "r0 \<le> len - got" "nat r0 \<le> length (c_in c)"
        "b0 = take (nat r0) (c_in c)" "c_in c0 = drop (nat r0) (c_in c)" "c_out c0 = c_out c"
        using cs \<open>got < len\<close> by auto
      have step: "recv_loop c0 len (got + r0) (buf @ b0) = Some (r, bs, c')"
        using 1(2) r0 False \<open>got < len\<close> by (subst (asm) recv_loop.simps) auto
      have n: "nat (len - got) = nat r0 + nat (len - (got + r0))"
        using s \<open>got < len\<close> by linarith
      from 1(1) [OF \<open>got < len\<close> r0 _ _ False step] s 1(3)
      have "c_out c' = c_out c0 \<and> (r = len \<longrightarrow>
          bs = (buf @ b0) @ take (nat (len - (got + r0))) (c_in c0)
          \<and> c_in c' = drop (nat (len - (got + r0))) (c_in c0)
          \<and> nat (len - (got + r0)) \<le> length (c_in c0) \<or> len \<le> 0)"
        by auto
      then show ?thesis
        unfolding n using s by (auto simp: take_add drop_drop add.commute)
    qed
  qed
qed

lemma recv_loop_full:
  assumes "io_ok c" "0 \<le> got" "got \<le> len" "nat (len - got) \<le> length (c_in c)"
  shows "\<exists>c'. recv_loop c len got buf = Some (len, buf @ take (nat (len - got)) (c_in c), c')
          \<and> io_ok c'"
  using assms
proof (induction c len got buf rule: recv_loop.induct)
  case (1 c len got buf)
  show ?case
  proof (cases "got < len")
    case False
    with 1(2-) show ?thesis by (subst recv_loop.simps) auto
  next
    case True
    let ?k = "nat (len - got)"
    have ne: "c_in c \<noteq> []" using True 1(5) by auto
    obtain r0 b0 c0 where r0: "os_recv c ?k = Some (r0, b0, c0)" and pos: "0 < r0" and ok: "io_ok c0"
    proof (cases "c_rscript c")
      case Nil
      with that ne True 1(2) show ?thesis
        by (auto simp: os_recv_def deliver_def Let_def io_ok_def)
    next
      case (Cons x xs)
      with that ne True 1(2) show ?thesis
        by (auto simp: os_recv_def deliver_def Let_def io_ok_def)
    qed
    have s: "r0 \<le> len - got" "nat r0 \<le> length (c_in c)"
        "b0 = take (nat r0) (c_in c)" "c_in c0 = drop (nat r0) (c_in c)"
      using os_recv_cases [OF r0] pos True by auto
    have n: "?k = nat r0 + nat (len - (got + r0))" using s pos True by linarith
    have "nat (len - (got + r0)) \<le> length (c_in c0)" using 1(5) s n by simp
    then obtain c' where c': "recv_loop c0 len (got + r0) (buf @ b0)
        = Some (len, (buf @ b0) @ take (nat (len - (got + r0))) (c_in c0), c')" "io_ok c'"
      using 1(1) [OF True r0 _ _ _ ok] pos 1(3) s by auto
    have e: "(buf @ b0) @ take (nat (len - (got + r0))) (c_in c0) = buf @ take ?k (c_in c)"
      unfolding n by (simp add: s take_add)
    have "recv_loop c len got buf = recv_loop c0 len (got + r0) (buf @ b0)"
      using r0 pos True by (subst recv_loop.simps) simp
    with c' e show ?thesis by simp
  qed
qed

lemma exact_reader_tcp: "exact_reader tcp_recv_all c_in io_ok"
proof
  fix c len bs and c' :: conn
  assume "tcp_recv_all c len = Some (len, bs, c')" "0 \<le> len"
  then show "bs = take (nat len) (c_in c) \<and> c_in c' = drop (nat len) (c_in c)
       \<and> nat len \<le> length (c_in c)"
    using recv_loop_exact [of c len 0 "[]" len bs c']
    by (cases "len = 0") (auto simp: tcp_recv_all_def recv_loop.simps [of c 0])
next
  fix c :: conn and len :: int
  assume "io_ok c" "0 \<le> len" "nat len \<le> length (c_in c)"
  then show "\<exists>c'. tcp_recv_all c len = Some (len, take (nat len) (c_in c), c') \<and> io_ok c'"
    using recv_loop_full [of c 0 len "[]"] by (simp add: tcp_recv_all_def)
qed

interpretation stream: exact_reader tcp_recv_all c_in io_ok
  by (rule exact_reader_tcp)

section \<open>Sending\<close>

lemma send_loop_full:
  assumes "io_ok c" "0 \<le> sent" "sent \<le> len" "nat (len - sent) = length buf"
  shows "\<exists>c'. send_loop c buf len sent = (len, c') \<and> io_ok c' \<and> c_out c' = c_out c @ buf
          \<and> c_in c' = c_in c \<and> c_end c' = c_end c \<and> c_rscript c' = c_rscript c"
  using assms
proof (induction c buf len sent rule: send_loop.induct)
  case (1 c buf len sent)
  show ?case
  proof (cases "sent < len")
    case False
    with 1(2-) show ?thesis by (subst send_loop.simps) auto
  next
    case True
    have t: "take (nat (len - sent)) buf = buf" using 1(5) by simp
    have ne: "0 < length buf" using 1(5) True by linarith
    obtain r c0 where r: "os_send c (take (nat (len - sent)) buf) = (r, c0)"
      and pos: "0 < r" "nat r \<le> length buf" and ok: "io_ok c0"
      and out: "c_out c0 = c_out c @ take (nat r) buf"
      and keep: "c_in c0 = c_in c" "c_end c0 = c_end c" "c_rscript c0 = c_rscript c"
    proof (cases "c_wscript c")
      case Nil
      with that [of "int (length buf)"] ne 1(2) t show ?thesis
        by (auto simp: os_send_def io_ok_def)
    next
      case (Cons x xs)
      with that [of "int (min (nat x) (length buf))"] ne 1(2) t show ?thesis
        by (auto simp: os_send_def io_ok_def Let_def)
    qed
    have n: "nat (len - (sent + r)) = length (drop (nat r) buf)"
      using 1(5) pos True by simp
    then have "sent + r \<le> len" using pos 1(5) True by linarith
    with 1(1) [OF True r [symmetric] _ ok] n pos 1(3)
    obtain c' where "send_loop c0 (drop (nat r) buf) len (sent + r) = (len, c') \<and> io_ok c'
        \<and> c_out c' = c_out c0 @ drop (nat r) buf \<and> c_in c' = c_in c0 \<and> c_end c' = c_end c0
        \<and> c_rscript c' = c_rscript c0"
      by auto
    moreover have "send_loop c buf len sent = send_loop c0 (drop (nat r) buf) len (sent + r)"
      using r pos True by (subst send_loop.simps) simp
    ultimately show ?thesis using out keep by auto
  qed
qed

lemma tcp_send_all_full:
  assumes "io_ok c" "len = int (length buf)"
  obtains c' where "tcp_send_all c buf len = (len, c')" "io_ok c'" "c_out c' = c_out c @ buf"
    "c_in c' = c_in c" "c_end c' = c_end c" "c_rscript c' = c_rscript c"
  using send_loop_full [OF assms(1), of 0 len buf] assms(2)
  by (auto simp: tcp_send_all_def)

lemma tcp_recv_all_out: "tcp_recv_all c len = Some (r, bs, c') \<Longrightarrow> c_out c' = c_out c"
proof (cases "0 \<le> len")
  case True
  assume "tcp_recv_all c len = Some (r, bs, c')"
  with True recv_loop_exact [of c len 0 "[]"] show ?thesis by (auto simp: tcp_recv_all_def)
qed (auto simp: tcp_recv_all_def recv_loop.simps [of c len])

text \<open>A non-positive length reads nothing and returns 0.\<close>

lemma tcp_recv_all_nonpos: "len \<le> 0 \<Longrightarrow> tcp_recv_all c len = Some (0, [], c)"
  by (simp add: tcp_recv_all_def recv_loop.simps [of c len])

lemma tcp_send_all_nonpos: "len \<le> 0 \<Longrightarrow> tcp_send_all c buf len = (0, c)"
  by (simp add: tcp_send_all_def send_loop.simps [of c buf len])

lemma tcp_recv_step:
  assumes "io_ok c" "c_in c = bs @ rest" "len = int (length bs)"
  obtains c' where "tcp_recv_all c len = Some (len, bs, c')" "io_ok c'" "c_in c' = rest"
    "c_out c' = c_out c"
proof -
  obtain c' where c': "tcp_recv_all c len = Some (len, bs, c')" "io_ok c'" "c_in c' = rest"
    using stream.recv_prefix [OF assms] by blast
  with that tcp_recv_all_out [OF c'(1)] show ?thesis by blast
qed

section \<open>Properties\<close>

lemma os_recv_stuck:
  "io_ok c \<Longrightarrow> os_recv c k = None \<Longrightarrow> c_in c = [] \<and> c_end c = Peer_silent"
  by (auto simp: os_recv_def deliver_def Let_def io_ok_def split: list.splits if_splits
      stream_end.splits)

lemma os_recv_io_ok:
  "io_ok c \<Longrightarrow> os_recv c k = Some (r, bs, c') \<Longrightarrow>
     io_ok c' \<and> c_end c' = c_end c \<and> (r \<le> 0 \<and> 0 < k \<longrightarrow> c_in c = [] \<and> c_end c \<noteq> Peer_silent)"
  by (auto simp: os_recv_def deliver_def Let_def io_ok_def min_def split: list.splits if_splits
      stream_end.splits)

lemma recv_loop_short:
  assumes "io_ok c" "0 \<le> got" "got < len" "length (c_in c) < nat (len - got)"
  shows "case recv_loop c len got buf of
      None \<Rightarrow> c_end c = Peer_silent
    | Some (r, bs, c') \<Rightarrow> r \<le> 0 \<and> c_end c \<noteq> Peer_silent"
  using assms
proof (induction c len got buf rule: recv_loop.induct)
  case (1 c len got buf)
  show ?case
  proof (cases "os_recv c (nat (len - got))")
    case None
    with 1 os_recv_stuck [OF 1(2) None] show ?thesis
      by (subst recv_loop.simps) simp
  next
    case (Some t)
    obtain r0 b0 c0 where t: "t = (r0, b0, c0)" by (cases t)
    note io = os_recv_io_ok [OF 1(2) Some [unfolded t]] and cs = os_recv_cases [OF Some [unfolded t]]
    show ?thesis
    proof (cases "r0 \<le> 0")
      case True
      with 1 Some t io show ?thesis by (subst recv_loop.simps) simp
    next
      case False
      then have s: "r0 \<le> len - got" "nat r0 \<le> length (c_in c)" "c_in c0 = drop (nat r0) (c_in c)"
        using cs 1(4) by auto
      have "got + r0 < len" using s 1(5) False by linarith
      moreover have "length (c_in c0) < nat (len - (got + r0))" using s 1(5) False by simp
      ultimately have "case recv_loop c0 len (got + r0) (buf @ b0) of
          None \<Rightarrow> c_end c0 = Peer_silent
        | Some (r, bs, c') \<Rightarrow> r \<le> 0 \<and> c_end c0 \<noteq> Peer_silent"
        using 1(1) [OF 1(4) Some] t False io 1(3) by auto
      moreover have "recv_loop c len got buf = recv_loop c0 len (got + r0) (buf @ b0)"
        using Some t False 1(4) by (subst recv_loop.simps) simp
      moreover have "c_end c0 = c_end c" using io by blast
      ultimately show ?thesis by (auto split: option.splits)
    qed
  qed
qed

lemma tcp_recv_all_silent:
  "io_ok c \<Longrightarrow> c_end c = Peer_silent \<Longrightarrow> length (c_in c) < nat len \<Longrightarrow> tcp_recv_all c len = None"
proof -
  assume a: "io_ok c" "c_end c = Peer_silent" "length (c_in c) < nat len"
  then have "0 < nat len" by linarith
  then have "0 < len" by simp
  with recv_loop_short [of c 0 len "[]"] a show ?thesis
    by (auto simp: tcp_recv_all_def split: option.splits)
qed



text \<open>
  C38: Connecting, listening and accepting leak no descriptor: on every path either the returned
  socket is valid and its descriptor is the only new one, or the table of open descriptors is
  what it was, provided the system hands out descriptors that are not in use.
\<close>

theorem sockets_do_not_leak:
  assumes "r_socket os \<notin> open" "r_accept os \<notin> open"
  shows "(case tcp_connect os open host port t of (s, open') \<Rightarrow>
            if valid s then open' = insert (fd s) open else open' = open)
       \<and> (case tcp_listen os open port backlog of (s, open') \<Rightarrow>
            if valid s then open' = insert (fd s) open else open' = open)
       \<and> (case tcp_accept os open server of (s, open') \<Rightarrow>
            (if valid s then open' = insert (fd s) open else open' = open)
            \<and> socket_close open' s = (no_socket, open))"
  using assms
  by (auto simp: tcp_connect_def tcp_listen_def tcp_accept_def valid_def no_socket_def
      INVALID_SOCK_def os_open_def socket_close_def Let_def)

theorem sockets_do_not_leak_witness:
  "tcp_connect \<lparr>r_socket = 7, r_bind = (\<lambda>_. 0), r_listen = (\<lambda>_. 0), r_connect = (\<lambda>_ _. -1),
      r_accept = 8\<rparr> {0, 1, 2} ''10.0.0.1'' 19000 5000 = (no_socket, {0, 1, 2})"
  using sockets_do_not_leak [of "\<lparr>r_socket = 7, r_bind = (\<lambda>_. 0), r_listen = (\<lambda>_. 0),
      r_connect = (\<lambda>_ _. -1), r_accept = 8\<rparr>" "{0, 1, 2}" "''10.0.0.1''" 19000 5000]
  by (simp add: tcp_connect_def no_socket_def valid_def INVALID_SOCK_def os_open_def)

text \<open>
  The two back ends compute the same: a POSIX run is turned into a Windows run by reading the
  descriptors as handles, under which \<open>-1\<close> is \<open>INVALID_SOCKET\<close>.
\<close>

definition to_win :: "int \<Rightarrow> u64" where "to_win s = word_of_int s"

definition sock_win :: "Socket \<Rightarrow> Socket_win" where "sock_win s = \<lparr>fd_win = to_win (fd s)\<rparr>"

definition os_win :: "os_results \<Rightarrow> os_results_win" where
  "os_win os = \<lparr>w_socket = to_win (r_socket os), w_bind = r_bind os, w_listen = r_listen os,
                w_connect = r_connect os, w_accept = to_win (r_accept os)\<rparr>"

definition int_fds :: fds where "int_fds = {-1..<2 ^ 31}"

lemma to_win_inj: "inj_on to_win int_fds"
proof (rule inj_onI)
  fix a b assume ab: "a \<in> int_fds" "b \<in> int_fds" "to_win a = to_win b"
  then have "sint (to_win a) = sint (to_win b)" by simp
  moreover have "sint (to_win x) = x" if "x \<in> int_fds" for x
    using that unfolding to_win_def int_fds_def
    by (subst sint_sbintrunc') (simp add: signed_take_bit_int_eq_self)
  ultimately show "a = b" using ab(1,2) by metis
qed

lemma to_win_invalid: "a \<in> int_fds \<Longrightarrow> to_win a = INVALID_SOCK_win \<longleftrightarrow> a = -1"
proof -
  assume a: "a \<in> int_fds"
  have "INVALID_SOCK_win = to_win (-1)"
    by (simp add: INVALID_SOCK_win_def to_win_def)
  moreover have "-1 \<in> int_fds" by (simp add: int_fds_def)
  ultimately show "to_win a = INVALID_SOCK_win \<longleftrightarrow> a = -1"
    using to_win_inj a by (metis inj_onD)
qed

lemma image_diff_to_win:
  "s \<in> int_fds \<Longrightarrow> open \<subseteq> int_fds \<Longrightarrow> to_win ` (open - {s}) = to_win ` open - {to_win s}"
  using to_win_inj inj_on_image_set_diff [of to_win int_fds "open" "{s}"] by auto

text \<open>
  The POSIX and the Windows back end of the socket layer agree: with corresponding results
  of the system calls, connect, listen, accept and close return corresponding sockets and leave
  corresponding tables of open handles.
\<close>

lemma platforms_agree:
  assumes "r_socket os \<in> int_fds" "r_accept os \<in> int_fds" "open \<subseteq> int_fds" "fd s \<in> int_fds"
  shows "tcp_connect_win (os_win os) (to_win ` open) host port t
           = map_prod sock_win ((`) to_win) (tcp_connect os open host port t)
       \<and> tcp_listen_win (os_win os) (to_win ` open) port backlog
           = map_prod sock_win ((`) to_win) (tcp_listen os open port backlog)
       \<and> tcp_accept_win (os_win os) (to_win ` open) (sock_win s)
           = map_prod sock_win ((`) to_win) (tcp_accept os open s)
       \<and> socket_close_win (to_win ` open) (sock_win s)
           = map_prod sock_win ((`) to_win) (socket_close open s)"
proof -
  have inv: "to_win (-1) = INVALID_SOCK_win"
    by (simp add: INVALID_SOCK_win_def to_win_def)
  have neg: "a < 0 \<longleftrightarrow> a = -1" if "a \<in> int_fds" for a
    using that by (auto simp: int_fds_def)
  note i = image_diff_to_win [of "r_socket os" "insert (r_socket os) open"]
    image_diff_to_win [of "fd s" "open"]
  show ?thesis
    using assms i
    by (simp add: tcp_connect_win_def tcp_connect_def tcp_listen_win_def tcp_listen_def
        tcp_accept_win_def tcp_accept_def socket_close_win_def socket_close_def Let_def os_win_def
        sock_win_def no_socket_def no_socket_win_def valid_def valid_win_def INVALID_SOCK_def
        os_open_def to_win_invalid neg inv)
qed

lemma platforms_agree_witness:
  "tcp_accept_win (os_win \<lparr>r_socket = 5, r_bind = (\<lambda>_. 0), r_listen = (\<lambda>_. 0),
       r_connect = (\<lambda>_ _. 0), r_accept = -1\<rparr>) (to_win ` {3}) (sock_win \<lparr>fd = 3\<rparr>)
     = (no_socket_win, to_win ` {3})"
proof -
  let ?os = "\<lparr>r_socket = 5, r_bind = (\<lambda>_. 0), r_listen = (\<lambda>_. 0), r_connect = (\<lambda>_ _. 0),
       r_accept = -1\<rparr>"
  have "sock_win no_socket = no_socket_win"
    by (simp add: sock_win_def no_socket_def no_socket_win_def INVALID_SOCK_def
        INVALID_SOCK_win_def to_win_def)
  then show ?thesis
    using platforms_agree [of ?os "{3}" "\<lparr>fd = 3\<rparr>" "''127.0.0.1''" 1 0 16]
    by (simp add: int_fds_def tcp_accept_def)
qed

text \<open>
  The microsecond clock of the Windows back end is not monotonic: the product of the
  counter and \<open>1000000\<close> is computed in 64 bits, so at counter value 18446744073710 (21.4 days of
  a 10 MHz counter) the clock falls back, for every counter frequency up to 1 THz; the
  millisecond clock is still exact there.
\<close>

lemma windows_clock_us_wraps:
  assumes "0 < f" "f \<le> 1000000000000"
  shows "clock_us_win 18446744073710 f < clock_us_win 18446744073709 f
       \<and> unat (clock_ms_win 18446744073710 f) = 18446744073710 * 1000 div unat f"
proof -
  have f: "0 < unat f" "unat f \<le> 1000000000000"
    using assms by (simp_all add: word_less_nat_alt word_le_nat_alt)
  have a: "unat (clock_us_win 18446744073710 f) = 448384 div unat f"
    by (simp add: clock_us_win_def unat_div)
  have b: "unat (clock_us_win 18446744073709 f) = 18446744073709000000 div unat f"
    by (simp add: clock_us_win_def unat_div)
  have c: "unat (clock_ms_win 18446744073710 f) = 18446744073710000 div unat f"
    by (simp add: clock_ms_win_def unat_div)
  have "(448384 :: nat) div unat f < 18446744073709000000 div unat f"
  proof -
    have "448384 div unat f + 1 = (448384 + unat f) div unat f"
      using f(1) div_add_self2 [of "unat f" 448384] by simp
    also have "\<dots> \<le> 18446744073709000000 div unat f"
      by (rule div_le_mono) (use f in linarith)
    finally show ?thesis by simp
  qed
  then show ?thesis using a b c by (simp add: word_less_nat_alt)
qed

lemma windows_clock_us_wraps_witness:
  "clock_us_win 18446744073710 10000000 < clock_us_win 18446744073709 10000000"
  using windows_clock_us_wraps [of 10000000] by simp

lemma clock_posix_exact:
  assumes "unat (tv_sec ts) < 18446744073" "unat (tv_nsec ts) < 1000000000"
  shows "unat (clock_ms ts) = unat (tv_sec ts) * 1000 + unat (tv_nsec ts) div 1000000
       \<and> unat (clock_us ts) = unat (tv_sec ts) * 1000000 + unat (tv_nsec ts) div 1000"
proof -
  have "unat (gettime_ns ts) = unat (tv_sec ts) * 1000000000 + unat (tv_nsec ts)"
    using assms by (simp add: gettime_ns_def unat_word_ariths)
  then show ?thesis
    by (simp add: clock_ms_def clock_us_def unat_div div_mult_self3 [symmetric]
        div_add1_eq [of "unat (tv_sec ts) * 1000000000"])
qed

lemma to_le_little_endian [simp]:
  "to_le16 False v = v" "to_le32 False w = w" "to_le_float False x = x"
  by (simp_all add: to_le16_def to_le32_def to_le_float_def)

end
