(* ===== verification/Thread_Owner.thy ===== *)
theory Thread_Owner
  imports Prelude
begin

text \<open>
  Objects that own a background \<open>std::thread\<close>: the heartbeat sender and receiver and the task
  receiver. All three guard \<open>start\<close> with an atomic \<open>running_\<close>, clear it in \<open>stop\<close> and join;
  the thread itself clears \<open>running_\<close> when it cannot open its socket. Assigning a
  \<open>std::thread\<close> that is still joinable, and destroying one, calls \<open>std::terminate\<close>. The locale
  states the life cycle once, and what follows from it.
\<close>

datatype thread_status =
    No_thread   \<comment> \<open>default constructed or joined\<close>
  | Live        \<comment> \<open>running, joinable\<close>
  | Exited      \<comment> \<open>its function returned, still joinable\<close>

fun joinable :: "thread_status \<Rightarrow> bool" where
  "joinable No_thread = False"
| "joinable Live = True"
| "joinable Exited = True"

lemma joinable_iff: "joinable t \<longleftrightarrow> t \<noteq> No_thread"
  by (cases t) simp_all

text \<open>The outcome of a member function: it returns a value, or the process is terminated.\<close>

datatype 'a outcome = Ret 'a | Terminated

locale thread_owner =
  fixes start :: "'a \<Rightarrow> 's \<Rightarrow> (bool \<times> 's) outcome" and stop :: "'s \<Rightarrow> 's"
    and thread_fails :: "'s \<Rightarrow> 's" and running :: "'s \<Rightarrow> bool" and thr :: "'s \<Rightarrow> thread_status"
  assumes start_running: "running s \<Longrightarrow> start a s = Ret (False, s)"
    and start_idle: "\<not> running s \<Longrightarrow> \<not> joinable (thr s) \<Longrightarrow>
      \<exists>s'. start a s = Ret (True, s') \<and> running s' \<and> thr s' = Live"
    and start_joinable: "\<not> running s \<Longrightarrow> joinable (thr s) \<Longrightarrow> start a s = Terminated"
    and stop_state: "\<not> running (stop s)" "thr (stop s) = No_thread"
    and fails_state: "\<not> running (thread_fails s)" "thr (thread_fails s) = Exited"
begin

lemma stop_startable: "\<exists>s'. start a (stop s) = Ret (True, s') \<and> running s' \<and> thr s' = Live"
  by (rule start_idle) (simp_all add: stop_state)

lemma restart_after_failure: "start a (thread_fails s) = Terminated"
  by (rule start_joinable) (simp_all add: fails_state)

lemma stop_recovers: "\<exists>s'. start a (stop (thread_fails s)) = Ret (True, s')"
  using stop_startable by blast

lemma start_cases:
  "start a s = Ret (b, s') \<Longrightarrow> (b = (\<not> running s)) \<and> running s'"
  using start_running [of s a] start_idle [of s a] start_joinable [of s a]
  by (cases "running s"; cases "joinable (thr s)") auto

end

end
