(* ===== verification/Tcp_Channel.thy ===== *)
theory Tcp_Channel
  imports Framing Pal_Socket Thread_Owner Cpp_String
begin

text \<open>
  The TCP task channel (\<open>linep/src/tcp/tcp.cpp\<close>): \<open>send_task\<close> of the sender, the connection
  handler of the receiver and the receiver's life cycle. A call over a \<open>conn\<close> that may block
  for ever is an option, \<open>None\<close> being "does not return". Sizes are cast to \<open>int\<close> for the socket
  layer exactly where the code does, so payloads from 2 GiB on show the sign change. The
  callback of the application is a parameter of the handler. Logging only prints; the text it
  prints for a build time is modelled.
\<close>

section \<open>Header logging\<close>

text \<open>The environment variable, \<open>None\<close> when it is not set.\<close>

definition header_log_enabled :: "string option \<Rightarrow> bool" where
  "header_log_enabled v =
     (case v of None \<Rightarrow> False | Some s \<Rightarrow> (case s of [] \<Rightarrow> False | c # _ \<Rightarrow> c \<noteq> CHR ''0''))"

definition two_digits :: "u8 \<Rightarrow> string" where
  "two_digits b = (if b < 10 then ''0'' else '''') @ show_nat (unat b)"

definition format_build_time :: "build_time_ext \<Rightarrow> string" where
  "format_build_time bt =
     ''20'' @ two_digits (bt_year_2d bt) @ ''-'' @ two_digits (bt_month bt) @ ''-''
     @ two_digits (bt_day bt) @ '' '' @ two_digits (bt_hour bt) @ '':''
     @ two_digits (bt_minute bt) @ '':'' @ two_digits (bt_second bt) @ '' UTC''"

fun show_hex :: "nat \<Rightarrow> string" where
  "show_hex n =
     (if n < 16 then [char_of (if n < 10 then 48 + n else 87 + n)]
      else show_hex (n div 16) @ [char_of (if n mod 16 < 10 then 48 + n mod 16 else 87 + n mod 16)])"

declare show_hex.simps [simp del]

text \<open>The line written to the error stream, \<open>None\<close> when logging is off.\<close>

definition log_header ::
  "string option \<Rightarrow> string \<Rightarrow> header \<Rightarrow> bytes option \<Rightarrow> u16 \<Rightarrow> string option" where
  "log_header env scope h ext ext_len =
     (if \<not> header_log_enabled env then None
      else Some (''[linep-hdr] '' @ scope
        @ '' msg_type='' @ show_nat (unat (h_msg_type h))
        @ '' hdr_len='' @ show_nat (unat (h_header_len h))
        @ '' flags=0x'' @ show_hex (unat (h_flags h))
        @ '' payload_len='' @ show_nat (unat (h_payload_len h))
        @ '' seq='' @ show_nat (unat (h_sequence h))
        @ '' corr='' @ show_nat (unat (h_correlation_id h))
        @ '' worker='' @ show_nat (unat (h_worker_id h))
        @ '' slot='' @ show_nat (unat (h_slot_id h))
        @ (if h_flags h AND flag_code FLAG_BUILD_TIME \<noteq> 0
           then (case try_parse_build_time_ext ext ext_len of
                   Some bt \<Rightarrow> '' build_time='' @ format_build_time bt
                 | None \<Rightarrow> '' build_time=<invalid ext_len='' @ show_nat (unat ext_len) @ ''>'')
           else '''')
        @ [CHR 0x0A]))"

section \<open>The sender\<close>

text \<open>\<open>header_len > sizeof(Header) ? header_len - sizeof(Header) : 0\<close>.\<close>

definition ext_len_of :: "header \<Rightarrow> u16" where
  "ext_len_of h = (if h_header_len h > 24 then h_header_len h - 24 else 0)"

text \<open>\<open>static_cast<int>\<close> of a 32-bit length (and of a vector size that came from one).\<close>

definition int_of_len :: "u32 \<Rightarrow> int" where "int_of_len w = sint w"

definition task_header :: "u32 \<Rightarrow> u32 \<Rightarrow> u16 \<Rightarrow> u8 \<Rightarrow> u32 \<Rightarrow> header" where
  "task_header seq corr worker slot payload_len =
     apply_build_time_extension
       (make_header (msg_code TASK) (flag_code FLAG_ACK_REQUIRED) payload_len seq corr worker slot)"

text \<open>The sending half: \<open>Some status\<close> is an early return after closing the socket.\<close>

definition send_task_request ::
  "build_macros \<Rightarrow> conn \<Rightarrow> header \<Rightarrow> bytes \<Rightarrow> u32 \<Rightarrow> u8 option \<times> conn" where
  "send_task_request m s task_hdr payload payload_len =
     (let task_ext = make_build_time_ext_from_build m in
      case tcp_send_all s (header_bytes task_hdr) 24 of (r, s) \<Rightarrow>
      if r \<noteq> 24 then (Some (status_code RESULT_TIMEOUT), s) else
      let task_ext_len = ext_len_of task_hdr in
      case (if task_ext_len > 0
            then tcp_send_all s (build_time_bytes task_ext) (uint task_ext_len)
            else (uint task_ext_len, s)) of (r, s) \<Rightarrow>
      if r \<noteq> uint task_ext_len then (Some (status_code RESULT_TIMEOUT), s) else
      if h_header_len task_hdr < 24 then (Some (status_code RESULT_TIMEOUT), s) else
      if payload_len > 0 then
        (case tcp_send_all s payload (int_of_len payload_len) of (r, s) \<Rightarrow>
           if r \<noteq> int_of_len payload_len then (Some (status_code RESULT_TIMEOUT), s)
           else (None, s))
      else (None, s))"

text \<open>
  The receiving half: the status returned, and the response body when the status is
  \<open>RESULT_OK\<close> and there is one.
\<close>

definition recv_task_result ::
  "conn \<Rightarrow> u32 \<Rightarrow> (u8 \<times> bytes option \<times> conn) option" where
  "recv_task_result s corr =
     (case tcp_recv_all s 24 of
        None \<Rightarrow> None
      | Some (r, buf, s) \<Rightarrow>
      case (if r = 24 then header_of_bytes buf else None) of
        None \<Rightarrow> Some (status_code RESULT_MODEL_ERROR, None, s)
      | Some res_hdr \<Rightarrow>
      if \<not> validate_header res_hdr \<or> h_msg_type res_hdr \<noteq> msg_code RESULT
         \<or> h_correlation_id res_hdr \<noteq> corr
      then Some (status_code RESULT_MODEL_ERROR, None, s) else
      let res_ext_len = ext_len_of res_hdr in
      case (if res_ext_len > 0 then tcp_recv_all s (uint res_ext_len)
            else Some (uint res_ext_len, [], s)) of
        None \<Rightarrow> None
      | Some (r, res_ext, s) \<Rightarrow>
      if r \<noteq> uint res_ext_len then Some (status_code RESULT_TIMEOUT, None, s) else
      if h_payload_len res_hdr = 0 then Some (status_code RESULT_MODEL_ERROR, None, s) else
      case tcp_recv_all s (int_of_len (h_payload_len res_hdr)) of
        None \<Rightarrow> None
      | Some (r, res_payload, s) \<Rightarrow>
      if r \<noteq> int_of_len (h_payload_len res_hdr) then Some (status_code RESULT_TIMEOUT, None, s)
      else let status = res_payload ! 0 in
        Some (status,
              if status = status_code RESULT_OK \<and> length res_payload > 1
              then Some (tl res_payload) else None,
              s))"

text \<open>
  \<open>send_task\<close>: the connection is what \<open>tcp_connect\<close> of host, port and \<open>timeout_ms\<close> gives, the
  result buffer may be null (\<open>has_buf\<close>), \<open>result_len\<close> too. The result holds the status,
  \<open>*result_len\<close>, the bytes written to the buffer, the next sequence number and the connection.
\<close>

record send_out =
  so_status :: u8
  so_len :: "u32 option"
  so_buf :: bytes
  so_seq :: u32
  so_conn :: "conn option"

definition send_task ::
  "build_macros \<Rightarrow> (string \<Rightarrow> u16 \<Rightarrow> u32 \<Rightarrow> conn option) \<Rightarrow> u32 \<Rightarrow> string \<Rightarrow> u16 \<Rightarrow> u8 \<Rightarrow> u32 \<Rightarrow> u16
     \<Rightarrow> u8 \<Rightarrow> bytes \<Rightarrow> u32 \<Rightarrow> bool \<Rightarrow> u32 option \<Rightarrow> u32 \<Rightarrow> send_out option" where
  "send_task m net seq host port task_type corr worker slot payload payload_len has_buf result_len
     timeout_ms =
     (let result_cap = (case result_len of None \<Rightarrow> 0 | Some n \<Rightarrow> n);
          out_len = map_option (\<lambda>_. 0) result_len
      in case net host port timeout_ms of
        None \<Rightarrow> Some \<lparr>so_status = status_code RESULT_TIMEOUT, so_len = out_len, so_buf = [],
                     so_seq = seq, so_conn = None\<rparr>
      | Some s \<Rightarrow>
      case send_task_request m s (task_header seq corr worker slot payload_len) payload payload_len of
        (Some st, s) \<Rightarrow> Some \<lparr>so_status = st, so_len = out_len, so_buf = [], so_seq = seq + 1,
                             so_conn = Some s\<rparr>
      | (None, s) \<Rightarrow>
      case recv_task_result s corr of
        None \<Rightarrow> None
      | Some (status, body, s) \<Rightarrow>
          (case body of
             Some b \<Rightarrow>
               if has_buf \<and> result_len \<noteq> None then
                 let body_len = (word_of_nat (length b) :: u32);
                     copy_len = (if body_len < result_cap then body_len else result_cap)
                 in Some \<lparr>so_status = status, so_len = Some copy_len,
                          so_buf = take (unat copy_len) b, so_seq = seq + 1, so_conn = Some s\<rparr>
               else Some \<lparr>so_status = status, so_len = out_len, so_buf = [], so_seq = seq + 1,
                          so_conn = Some s\<rparr>
           | None \<Rightarrow> Some \<lparr>so_status = status, so_len = out_len, so_buf = [], so_seq = seq + 1,
                          so_conn = Some s\<rparr>))"

section \<open>The connection handler of the receiver\<close>

text \<open>
  A callback gets the message type as its \<open>task_type\<close>, the correlation id, worker, slot, the
  payload (\<open>None\<close> for a null pointer) and the length; it returns the status, \<open>*result_len\<close> and
  the contents of the 65536-byte buffer.
\<close>

type_synonym task_callback =
  "u8 \<Rightarrow> u32 \<Rightarrow> u16 \<Rightarrow> u8 \<Rightarrow> bytes option \<Rightarrow> u32 \<Rightarrow> u8 \<times> u32 \<times> bytes"

text \<open>
  The handler does not return, reads the result buffer beyond its end, or closes the
  connection.
\<close>

datatype handled = Blocked | Out_of_bounds | Done conn

definition result_header :: "header \<Rightarrow> nat \<Rightarrow> header" where
  "result_header in_hdr len =
     apply_build_time_extension
       (make_header (msg_code RESULT) 0 (word_of_nat len) (h_sequence in_hdr + 1)
          (h_correlation_id in_hdr) (h_worker_id in_hdr) (h_slot_id in_hdr))"

definition send_task_result :: "build_macros \<Rightarrow> conn \<Rightarrow> header \<Rightarrow> bytes \<Rightarrow> conn" where
  "send_task_result m cs in_hdr res_payload =
     (let res_hdr = result_header in_hdr (length res_payload);
          res_ext = make_build_time_ext_from_build m;
          (_, cs) = tcp_send_all cs (header_bytes res_hdr) 24;
          res_ext_len = ext_len_of res_hdr;
          cs = (if res_ext_len > 0
                then snd (tcp_send_all cs (build_time_bytes res_ext) (uint res_ext_len)) else cs);
          (_, cs) = tcp_send_all cs res_payload (sint (word_of_nat (length res_payload) :: u32))
      in cs)"

definition handle_connection ::
  "build_macros \<Rightarrow> task_callback option \<Rightarrow> conn \<Rightarrow> handled" where
  "handle_connection m callback cs =
     (case tcp_recv_all cs 24 of
        None \<Rightarrow> Blocked
      | Some (r, buf, cs) \<Rightarrow>
      case (if r = 24 then header_of_bytes buf else None) of
        None \<Rightarrow> Done cs
      | Some in_hdr \<Rightarrow>
      if \<not> validate_header in_hdr \<or> h_msg_type in_hdr \<noteq> msg_code TASK then Done cs else
      let in_ext_len = ext_len_of in_hdr in
      case (if in_ext_len > 0 then tcp_recv_all cs (uint in_ext_len)
            else Some (uint in_ext_len, [], cs)) of
        None \<Rightarrow> Blocked
      | Some (r, in_ext, cs) \<Rightarrow>
      if r \<noteq> uint in_ext_len then Done cs else
      case (if h_payload_len in_hdr \<noteq> 0 then tcp_recv_all cs (int_of_len (h_payload_len in_hdr))
            else Some (int_of_len (h_payload_len in_hdr), [], cs)) of
        None \<Rightarrow> Blocked
      | Some (r, payload, cs) \<Rightarrow>
      if r \<noteq> int_of_len (h_payload_len in_hdr) then Done cs else
      let (status, result_len, result_body) =
            (case callback of
               None \<Rightarrow> (status_code RESULT_MODEL_ERROR, 65536, replicate 65536 0)
             | Some f \<Rightarrow> f (h_msg_type in_hdr) (h_correlation_id in_hdr) (h_worker_id in_hdr)
                           (h_slot_id in_hdr) (if payload = [] then None else Some payload)
                           (h_payload_len in_hdr))
      in if status = status_code RESULT_OK \<and> result_len > 0
         then if unat result_len > length result_body then Out_of_bounds
              else Done (send_task_result m cs in_hdr (status # take (unat result_len) result_body))
         else Done (send_task_result m cs in_hdr [status]))"

section \<open>Life cycle of the receiver\<close>

text \<open>The handler threads are a list of joinable flags; every thread in it is joinable.\<close>

record receiver =
  rc_port :: u16
  rc_callback :: "task_callback option"
  rc_running :: bool
  rc_thread :: thread_status
  rc_handlers :: "thread_status list"

definition receiver_init :: receiver where
  "receiver_init = \<lparr>rc_port = 0, rc_callback = None, rc_running = False, rc_thread = No_thread,
                    rc_handlers = []\<rparr>"

definition receiver_start ::
  "u16 \<times> task_callback option \<Rightarrow> receiver \<Rightarrow> (bool \<times> receiver) outcome" where
  "receiver_start a r =
     (if rc_running r then Ret (False, r)
      else let r = r\<lparr>rc_port := fst a, rc_callback := snd a, rc_running := True\<rparr>
        in if joinable (rc_thread r) then Terminated else Ret (True, r\<lparr>rc_thread := Live\<rparr>))"

definition receiver_stop :: "receiver \<Rightarrow> receiver" where
  "receiver_stop r =
     (let r = r\<lparr>rc_running := False\<rparr>;
          r = (if joinable (rc_thread r) then r\<lparr>rc_thread := No_thread\<rparr> else r)
      in r\<lparr>rc_handlers := []\<rparr>)"

text \<open>\<open>accept_loop\<close> when \<open>tcp_listen\<close> fails, and one accepted connection.\<close>

definition accept_loop_no_listen :: "receiver \<Rightarrow> receiver" where
  "accept_loop_no_listen r = r\<lparr>rc_running := False, rc_thread := Exited\<rparr>"

definition reap_finished_handlers :: "receiver \<Rightarrow> receiver" where
  "reap_finished_handlers r = r\<lparr>rc_handlers := filter joinable (rc_handlers r)\<rparr>"

definition accept_loop_step :: "bool \<Rightarrow> receiver \<Rightarrow> receiver" where
  "accept_loop_step accepted r =
     (if rc_running r \<and> accepted
      then let r = reap_finished_handlers r in r\<lparr>rc_handlers := rc_handlers r @ [Live]\<rparr>
      else r)"

interpretation tcp_receiver: thread_owner receiver_start receiver_stop accept_loop_no_listen
    rc_running rc_thread
  by unfold_locales
    (simp_all add: receiver_start_def receiver_stop_def accept_loop_no_listen_def Let_def
      joinable_iff)

section \<open>Sending and receiving a frame\<close>

lemma ext_len_of_values:
  "h_header_len h = 24 \<Longrightarrow> ext_len_of h = 0" "h_header_len h = 30 \<Longrightarrow> ext_len_of h = 6"
  by (simp_all add: ext_len_of_def)

lemma ext_len_of_built [simp]: "ext_len_of (apply_build_time_extension h) = 6"
  by (rule ext_len_of_values) simp

lemma int_of_len_small: "unat w < 2 ^ 31 \<Longrightarrow> int_of_len w = int (unat w)"
  unfolding int_of_len_def by (rule sint_small_u32)

lemma int_of_len_big: "2 ^ 31 \<le> unat w \<Longrightarrow> int_of_len w < 0"
  unfolding int_of_len_def sint_neg_u32 .

text \<open>What the sender puts on the wire for a task.\<close>

definition task_frame :: "build_macros \<Rightarrow> header \<Rightarrow> bytes \<Rightarrow> bytes" where
  "task_frame m h payload =
     header_bytes h @ build_time_bytes (make_build_time_ext_from_build m) @ payload"

lemma length_task_frame [simp]: "length (task_frame m h p) = 30 + length p"
  by (simp add: task_frame_def)

lemma send_task_request_full:
  assumes "io_ok s" "unat payload_len = length payload" "length payload < 2 ^ 31"
    and "h_header_len h = 30"
  obtains s' where "send_task_request m s h payload payload_len = (None, s')"
    "io_ok s'" "c_out s' = c_out s @ task_frame m h payload" "c_in s' = c_in s"
    "c_end s' = c_end s"
proof -
  let ?e = "build_time_bytes (make_build_time_ext_from_build m)"
  obtain s1 where s1: "tcp_send_all s (header_bytes h) 24 = (24, s1)" "io_ok s1"
      "c_out s1 = c_out s @ header_bytes h" "c_in s1 = c_in s" "c_end s1 = c_end s"
    using tcp_send_all_full [OF assms(1), of 24 "header_bytes h"] by auto
  obtain s2 where s2: "tcp_send_all s1 ?e 6 = (6, s2)" "io_ok s2"
      "c_out s2 = c_out s1 @ ?e" "c_in s2 = c_in s1" "c_end s2 = c_end s1"
    using tcp_send_all_full [OF s1(2), of 6 ?e] by auto
  have x: "ext_len_of h = 6" using assms(4) by (rule ext_len_of_values)
  show ?thesis
  proof (cases "payload_len = 0")
    case True
    with that [of s2] s1 s2 x assms show ?thesis
      by (simp add: send_task_request_def task_frame_def Let_def)
  next
    case False
    then have pos: "0 < payload_len" by (simp add: word_gt_0)
    have len: "int_of_len payload_len = int (length payload)"
      using assms(2,3) by (simp add: int_of_len_small)
    obtain s3 where "tcp_send_all s2 payload (int (length payload)) = (int (length payload), s3)"
        "io_ok s3" "c_out s3 = c_out s2 @ payload" "c_in s3 = c_in s2" "c_end s3 = c_end s2"
      using tcp_send_all_full [OF s2(2) refl] by auto
    with that [of s3] s1 s2 x pos len assms show ?thesis
      by (simp add: send_task_request_def task_frame_def Let_def)
  qed
qed

lemma os_send_in: "os_send c bs = (r, c') \<Longrightarrow> c_in c' = c_in c \<and> c_end c' = c_end c"
  by (auto simp: os_send_def Let_def split: list.splits if_splits)

lemma send_loop_in: "send_loop c buf len sent = (r, c') \<Longrightarrow> c_in c' = c_in c \<and> c_end c' = c_end c"
proof (induction c buf len sent rule: send_loop.induct)
  case (1 c buf len sent)
  then show ?case
    by (subst (asm) (2) send_loop.simps)
      (auto split: if_splits prod.splits dest!: os_send_in)
qed

lemma tcp_send_all_in: "tcp_send_all c buf len = (r, c') \<Longrightarrow> c_in c' = c_in c \<and> c_end c' = c_end c"
  unfolding tcp_send_all_def by (rule send_loop_in)

lemma send_task_request_in:
  "send_task_request m s h p n = (r, s') \<Longrightarrow> c_in s' = c_in s \<and> c_end s' = c_end s"
  by (auto simp: send_task_request_def Let_def split: prod.splits if_splits
      dest!: tcp_send_all_in)

lemma tcp_recv_all_split:
  assumes "tcp_recv_all c len = Some (len, bs, c')" "0 \<le> len"
  shows "c_in c = bs @ c_in c'" "length bs = nat len"
  using stream.recv_exact [OF assms] by auto

text \<open>What a receiver that accepted an extension has read, or nothing was there to read.\<close>

lemma recv_ext_split:
  assumes "(if (n :: u16) > 0 then tcp_recv_all s (uint n) else Some (uint n, [], s))
      = Some (uint n, ext, s')"
  shows "c_in s = ext @ c_in s' \<and> length ext = unat n"
proof (cases "n > 0")
  case True
  with assms have "tcp_recv_all s (uint n) = Some (uint n, ext, s')" by simp
  from tcp_recv_all_split [OF this] show ?thesis by simp
next
  case False
  then have "n = 0" by (simp add: word_gt_0)
  with assms show ?thesis by simp
qed

lemma recv_task_result_parts:
  assumes "recv_task_result s corr = Some (status_code RESULT_OK, body, s')"
  obtains buf s1 h ext s2 p where "tcp_recv_all s 24 = Some (24, buf, s1)"
    "header_of_bytes buf = Some h" "validate_header h" "h_msg_type h = msg_code RESULT"
    "h_correlation_id h = corr"
    "(if ext_len_of h > 0 then tcp_recv_all s1 (uint (ext_len_of h))
      else Some (uint (ext_len_of h), [], s1)) = Some (uint (ext_len_of h), ext, s2)"
    "h_payload_len h \<noteq> 0"
    "tcp_recv_all s2 (int_of_len (h_payload_len h)) = Some (int_of_len (h_payload_len h), p, s')"
    "p ! 0 = status_code RESULT_OK" "body = (if length p > 1 then Some (tl p) else None)"
proof -
  from assms obtain buf s1 h where r1: "tcp_recv_all s 24 = Some (24, buf, s1)"
    and h: "header_of_bytes buf = Some h"
    and ok: "validate_header h" "h_msg_type h = msg_code RESULT" "h_correlation_id h = corr"
    and rest: "(case (if ext_len_of h > 0 then tcp_recv_all s1 (uint (ext_len_of h))
            else Some (uint (ext_len_of h), [], s1)) of
        None \<Rightarrow> None
      | Some (r, res_ext, s) \<Rightarrow>
      if r \<noteq> uint (ext_len_of h) then Some (status_code RESULT_TIMEOUT, None, s) else
      if h_payload_len h = 0 then Some (status_code RESULT_MODEL_ERROR, None, s) else
      case tcp_recv_all s (int_of_len (h_payload_len h)) of
        None \<Rightarrow> None
      | Some (r, res_payload, s) \<Rightarrow>
      if r \<noteq> int_of_len (h_payload_len h) then Some (status_code RESULT_TIMEOUT, None, s)
      else let status = res_payload ! 0 in
        Some (status,
              if status = status_code RESULT_OK \<and> length res_payload > 1
              then Some (tl res_payload) else None, s)) = Some (status_code RESULT_OK, body, s')"
    unfolding recv_task_result_def Let_def
    by (auto split: option.splits prod.splits if_splits)
  from rest obtain ext s2 where
    r2: "(if ext_len_of h > 0 then tcp_recv_all s1 (uint (ext_len_of h))
            else Some (uint (ext_len_of h), [], s1)) = Some (uint (ext_len_of h), ext, s2)"
    and pl: "h_payload_len h \<noteq> 0"
    and rest2: "(case tcp_recv_all s2 (int_of_len (h_payload_len h)) of
        None \<Rightarrow> None
      | Some (r, res_payload, s) \<Rightarrow>
      if r \<noteq> int_of_len (h_payload_len h) then Some (status_code RESULT_TIMEOUT, None, s)
      else let status = res_payload ! 0 in
        Some (status,
              if status = status_code RESULT_OK \<and> length res_payload > 1
              then Some (tl res_payload) else None, s)) = Some (status_code RESULT_OK, body, s')"
    by (auto split: option.splits prod.splits if_splits)
  from rest2 obtain p where
    r3: "tcp_recv_all s2 (int_of_len (h_payload_len h)) = Some (int_of_len (h_payload_len h), p, s')"
    and st: "p ! 0 = status_code RESULT_OK"
    and body: "body = (if length p > 1 then Some (tl p) else None)"
    by (auto simp: Let_def split: option.splits prod.splits if_splits)
  show thesis by (rule that [OF r1 h ok r2 pl r3 st body])
qed

lemma payload_small:
  assumes "tcp_recv_all s (int_of_len n) = Some (int_of_len n, p, s')" "n \<noteq> 0"
  shows "unat n < 2 ^ 31"
proof (rule ccontr)
  assume "\<not> ?thesis"
  then have "int_of_len n < 0" by (intro int_of_len_big) simp
  moreover from this assms(1) have "int_of_len n = 0" by (simp add: tcp_recv_all_nonpos)
  ultimately show False by simp
qed

lemma recv_task_result_ok:
  assumes "recv_task_result s corr = Some (status_code RESULT_OK, body, s')"
  shows "\<exists>h ext b. c_in s = header_bytes h @ ext @ (status_code RESULT_OK # b) @ c_in s'
    \<and> validate_header h \<and> h_msg_type h = msg_code RESULT \<and> h_correlation_id h = corr
    \<and> length ext = unat (ext_len_of h) \<and> unat (h_payload_len h) = Suc (length b)
    \<and> length b < 2 ^ 31 \<and> body = (if b = [] then None else Some b)"
proof -
  obtain buf s1 h ext s2 p where r1: "tcp_recv_all s 24 = Some (24, buf, s1)"
    and h: "header_of_bytes buf = Some h"
    and ok: "validate_header h" "h_msg_type h = msg_code RESULT" "h_correlation_id h = corr"
    and r2: "(if ext_len_of h > 0 then tcp_recv_all s1 (uint (ext_len_of h))
            else Some (uint (ext_len_of h), [], s1)) = Some (uint (ext_len_of h), ext, s2)"
    and pl: "h_payload_len h \<noteq> 0"
    and r3: "tcp_recv_all s2 (int_of_len (h_payload_len h)) = Some (int_of_len (h_payload_len h), p, s')"
    and st: "p ! 0 = status_code RESULT_OK"
    and body: "body = (if length p > 1 then Some (tl p) else None)"
    by (rule recv_task_result_parts [OF assms])
  note small = payload_small [OF r3 pl]
  note len = int_of_len_small [OF small]
  have p: "c_in s2 = p @ c_in s'" "length p = unat (h_payload_len h)"
    using tcp_recv_all_split [OF r3] len by simp_all
  moreover have "p \<noteq> []" using p(2) pl by (auto simp: unat_eq_0)
  ultimately obtain b where b: "p = status_code RESULT_OK # b" using st by (cases p) auto
  have "buf = header_bytes h" using header_bytes_of_bytes [OF h] by simp
  then have "c_in s = header_bytes h @ c_in s1" using tcp_recv_all_split(1) [OF r1] by simp
  moreover have "c_in s1 = ext @ c_in s2" "length ext = unat (ext_len_of h)"
    using recv_ext_split [OF r2] by simp_all
  moreover have "body = (if b = [] then None else Some b)" "unat (h_payload_len h) = Suc (length b)"
    "length b < 2 ^ 31"
    using b body p(2) small by auto
  moreover have "c_in s2 = (status_code RESULT_OK # b) @ c_in s'" using p(1) b by simp
  ultimately show ?thesis using ok by (metis append.assoc)
qed

section \<open>A whole session\<close>

lemma recv_header_step:
  assumes "io_ok c" "c_in c = header_bytes h @ rest"
  obtains c' where "tcp_recv_all c 24 = Some (24, header_bytes h, c')" "io_ok c'" "c_in c' = rest"
    "c_out c' = c_out c"
  using tcp_recv_step [OF assms, of 24] by auto

lemma recv_task_result_frame:
  assumes "io_ok s" "c_in s = task_frame m h (st # b) @ rest"
    and "validate_header h" "h_msg_type h = msg_code RESULT" "h_correlation_id h = corr"
    and "h_header_len h = 30" "unat (h_payload_len h) = Suc (length b)" "length b < 2 ^ 31 - 1"
  obtains s' where
    "recv_task_result s corr
       = Some (st, if st = status_code RESULT_OK \<and> b \<noteq> [] then Some b else None, s')"
    "c_in s' = rest" "c_out s' = c_out s"
proof -
  let ?e = "build_time_bytes (make_build_time_ext_from_build m)"
  obtain s1 where s1: "tcp_recv_all s 24 = Some (24, header_bytes h, s1)" "io_ok s1"
      "c_in s1 = ?e @ (st # b) @ rest" "c_out s1 = c_out s"
    using recv_header_step [OF assms(1), of h "?e @ (st # b) @ rest"] assms(2)
    by (auto simp: task_frame_def)
  obtain s2 where s2: "tcp_recv_all s1 6 = Some (6, ?e, s2)" "io_ok s2"
      "c_in s2 = (st # b) @ rest" "c_out s2 = c_out s1"
    using tcp_recv_step [OF s1(2,3), of 6] by auto
  have len: "int_of_len (h_payload_len h) = int (length (st # b))"
    using assms(7,8) by (simp add: int_of_len_small)
  obtain s3 where s3: "tcp_recv_all s2 (int_of_len (h_payload_len h))
        = Some (int_of_len (h_payload_len h), st # b, s3)" "io_ok s3" "c_in s3 = rest"
      "c_out s3 = c_out s2"
    using tcp_recv_step [OF s2(2,3) len] len by auto
  have x: "ext_len_of h = 6" using assms(6) by (rule ext_len_of_values)
  have nz: "h_payload_len h \<noteq> 0" using assms(7) by auto
  have "recv_task_result s corr
       = Some (st, if st = status_code RESULT_OK \<and> b \<noteq> [] then Some b else None, s3)"
    using s1(1) s2(1) s3(1) assms(3-5) x nz by (simp add: recv_task_result_def Let_def)
  with that [of s3] s1 s2 s3 show ?thesis by simp
qed

lemma send_task_result_frame:
  assumes "io_ok cs" "length p < 2 ^ 31"
  shows "c_out (send_task_result m cs h p) = c_out cs @ task_frame m (result_header h (length p)) p"
proof -
  let ?e = "build_time_bytes (make_build_time_ext_from_build m)"
  let ?h = "result_header h (length p)"
  have len: "sint (word_of_nat (length p) :: u32) = int (length p)"
    using assms(2) by (subst sint_small_u32) (simp_all add: unat_of_nat)
  have x: "ext_len_of ?h = 6" by (simp add: result_header_def)
  obtain s1 where s1: "tcp_send_all cs (header_bytes ?h) 24 = (24, s1)" "io_ok s1"
      "c_out s1 = c_out cs @ header_bytes ?h"
    using tcp_send_all_full [OF assms(1), of 24 "header_bytes ?h"] by auto
  obtain s2 where s2: "tcp_send_all s1 ?e 6 = (6, s2)" "io_ok s2" "c_out s2 = c_out s1 @ ?e"
    using tcp_send_all_full [OF s1(2), of 6 ?e] by auto
  obtain s3 where s3: "tcp_send_all s2 p (int (length p)) = (int (length p), s3)"
      "c_out s3 = c_out s2 @ p"
    using tcp_send_all_full [OF s2(2) refl] by auto
  show ?thesis
    using s1 s2 s3 x len by (simp add: send_task_result_def Let_def task_frame_def)
qed

text \<open>The answer of a callback: the status, and the body when the status is \<open>RESULT_OK\<close>.\<close>

definition answer :: "u8 \<times> u32 \<times> bytes \<Rightarrow> bytes" where
  "answer r = (case r of (st, n, buf) \<Rightarrow>
     st # (if st = status_code RESULT_OK then take (unat n) buf else []))"

lemma recv_ext_step:
  assumes "io_ok s1" "c_in s1 = ext @ rest" "int (length ext) = uint (ext_len_of h)"
  shows "\<exists>s2. (if ext_len_of h > 0 then tcp_recv_all s1 (uint (ext_len_of h))
        else Some (uint (ext_len_of h), [], s1)) = Some (uint (ext_len_of h), ext, s2)
    \<and> io_ok s2 \<and> c_in s2 = rest \<and> c_out s2 = c_out s1"
proof (cases "ext_len_of h > 0")
  case True
  from tcp_recv_step [OF assms(1,2) assms(3) [symmetric]] obtain s' where
    "tcp_recv_all s1 (uint (ext_len_of h)) = Some (uint (ext_len_of h), ext, s')" "io_ok s'"
    "c_in s' = rest" "c_out s' = c_out s1" .
  with True show ?thesis by simp
next
  case False
  then have "ext_len_of h = 0" by (simp add: word_gt_0)
  with assms False show ?thesis by simp
qed

lemma recv_payload_step:
  assumes "io_ok s2" "c_in s2 = payload @ rest"
    and "unat (h_payload_len h) = length payload" "length payload < 2 ^ 31"
  shows "\<exists>s3. (if h_payload_len h \<noteq> 0 then tcp_recv_all s2 (int_of_len (h_payload_len h))
        else Some (int_of_len (h_payload_len h), [], s2))
      = Some (int_of_len (h_payload_len h), payload, s3) \<and> io_ok s3 \<and> c_out s3 = c_out s2"
proof (cases "payload = []")
  case True
  then show ?thesis using assms(1,3) by (simp add: unat_eq_0)
next
  case False
  then have nz: "h_payload_len h \<noteq> 0" using assms(3) by auto
  have len: "int_of_len (h_payload_len h) = int (length payload)"
    using assms(3,4) by (simp add: int_of_len_small)
  from tcp_recv_step [OF assms(1,2) len] obtain s' where
    "tcp_recv_all s2 (int_of_len (h_payload_len h))
      = Some (int_of_len (h_payload_len h), payload, s')" "io_ok s'" "c_out s' = c_out s2" .
  with nz show ?thesis by simp
qed

lemma handle_connection_bytes:
  assumes "io_ok cs" "c_in cs = header_bytes h @ ext @ payload @ rest"
    and "validate_header h" "h_msg_type h = msg_code TASK" "int (length ext) = uint (ext_len_of h)"
    and "unat (h_payload_len h) = length payload" "length payload < 2 ^ 31"
    and r: "r = f (msg_code TASK) (h_correlation_id h) (h_worker_id h) (h_slot_id h)
      (if payload = [] then None else Some payload) (h_payload_len h)"
    and "r = (st, n, buf)" "unat n \<le> length buf" "length buf < 2 ^ 31 - 1"
  shows "\<exists>cs'. handle_connection m (Some f) cs = Done cs'
    \<and> c_out cs' = c_out cs @ task_frame m (result_header h (length (answer r))) (answer r)"
proof -
  obtain s1 where s1: "tcp_recv_all cs 24 = Some (24, header_bytes h, s1)" "io_ok s1"
      "c_in s1 = ext @ payload @ rest" "c_out s1 = c_out cs"
    using recv_header_step [OF assms(1,2)] by auto
  obtain s2 where s2: "(if ext_len_of h > 0 then tcp_recv_all s1 (uint (ext_len_of h))
        else Some (uint (ext_len_of h), [], s1)) = Some (uint (ext_len_of h), ext, s2)" "io_ok s2"
      "c_in s2 = payload @ rest" "c_out s2 = c_out s1"
    using recv_ext_step [OF s1(2,3) assms(5)] by blast
  obtain s3 where s3: "(if h_payload_len h \<noteq> 0 then tcp_recv_all s2 (int_of_len (h_payload_len h))
        else Some (int_of_len (h_payload_len h), [], s2))
      = Some (int_of_len (h_payload_len h), payload, s3)" "io_ok s3" "c_out s3 = c_out s2"
    using recv_payload_step [OF s2(2,3) assms(6,7)] by blast
  let ?p = "answer r"
  have fr: "f (msg_code TASK) (h_correlation_id h) (h_worker_id h) (h_slot_id h)
      (if payload = [] then None else Some payload) (h_payload_len h) = (st, n, buf)"
    using r assms(9) by simp
  have p: "?p = st # (if st = status_code RESULT_OK then take (unat n) buf else [])"
    using assms(9) by (simp add: answer_def)
  have "handle_connection m (Some f) cs = Done (send_task_result m s3 h ?p)"
    using s1(1) s2(1) s3(1) assms(3,10) fr
    by (simp only: handle_connection_def p Let_def assms(4) option.case prod.case if_True if_False
        simp_thms header_of_header_bytes refl)
      (auto simp: word_gt_0)
  moreover have "length ?p < 2 ^ 31"
    using assms(9,11) by (simp add: answer_def min_def)
  ultimately show ?thesis
    using send_task_result_frame [OF s3(2), of ?p m h] s1 s2 s3 by simp
qed

lemma handle_connection_frame:
  assumes "io_ok cs" "c_in cs = task_frame m' h payload @ rest"
    and "validate_header h" "h_msg_type h = msg_code TASK" "h_header_len h = 30"
    and "unat (h_payload_len h) = length payload" "length payload < 2 ^ 31"
    and "r = f (msg_code TASK) (h_correlation_id h) (h_worker_id h) (h_slot_id h)
      (if payload = [] then None else Some payload) (h_payload_len h)"
    and "r = (st, n, buf)" "unat n \<le> length buf" "length buf < 2 ^ 31 - 1"
  shows "\<exists>cs'. handle_connection m (Some f) cs = Done cs'
    \<and> c_out cs' = c_out cs @ task_frame m (result_header h (length (answer r))) (answer r)"
  by (rule handle_connection_bytes [where ext = "build_time_bytes (make_build_time_ext_from_build m')"
        and rest = rest and f = f and payload = payload and st = st and n = n and buf = buf])
    (use assms ext_len_of_values(2) [OF assms(5)] in \<open>simp_all add: task_frame_def\<close>)

section \<open>Properties\<close>

text \<open>
  C29: Whatever the peer does, \<open>send_task\<close> reports \<open>RESULT_OK\<close> only for a valid RESULT frame
  that carries the caller's correlation id and the status byte 0, and what it leaves in the
  caller's buffer is the response body, cut at the capacity the caller gave.
\<close>

theorem send_task_accepts_only_results:
  assumes "send_task m net seq host port tt corr worker slot payload plen has_buf cap t = Some out"
    and "so_status out = status_code RESULT_OK" "net host port t = Some s"
  shows "\<exists>h ext b rest. c_in s = header_bytes h @ ext @ (status_code RESULT_OK # b) @ rest
    \<and> validate_header h \<and> h_msg_type h = msg_code RESULT \<and> h_correlation_id h = corr
    \<and> length ext = unat (ext_len_of h) \<and> unat (h_payload_len h) = Suc (length b)
    \<and> so_buf out = (case cap of None \<Rightarrow> [] | Some c \<Rightarrow> if has_buf then take (unat c) b else [])
    \<and> so_len out = map_option (\<lambda>_. word_of_nat (length (so_buf out))) cap"
proof -
  let ?h = "task_header seq corr worker slot plen"
  obtain r s1 where r: "send_task_request m s ?h payload plen = (r, s1)" by fastforce
  have "r = None"
    using assms r by (cases r) (auto simp: send_task_def send_task_request_def Let_def
        split: prod.splits if_splits)
  obtain st body s2 where rr: "recv_task_result s1 corr = Some (st, body, s2)"
    using assms r \<open>r = None\<close> by (auto simp: send_task_def Let_def split: option.splits)
  have "st = so_status out"
    using assms r \<open>r = None\<close> rr
    by (auto simp: send_task_def Let_def split: option.splits if_splits)
  with assms(2) rr have "recv_task_result s1 corr = Some (status_code RESULT_OK, body, s2)" by simp
  from recv_task_result_ok [OF this] obtain h ext b where
    *: "c_in s1 = header_bytes h @ ext @ (status_code RESULT_OK # b) @ c_in s2"
    "validate_header h" "h_msg_type h = msg_code RESULT" "h_correlation_id h = corr"
    "length ext = unat (ext_len_of h)" "unat (h_payload_len h) = Suc (length b)"
    "length b < 2 ^ 31" "body = (if b = [] then None else Some b)" by auto
  have len: "unat (word_of_nat (length b) :: u32) = length b"
    using *(7) by (simp add: unat_of_nat)
  have "so_buf out = (case cap of None \<Rightarrow> [] | Some c \<Rightarrow> if has_buf then take (unat c) b else [])
    \<and> so_len out = map_option (\<lambda>_. word_of_nat (length (so_buf out))) cap"
    using assms(1,3) r \<open>r = None\<close> rr *(8) len
    by (cases cap; cases "b = []")
      (auto simp: send_task_def Let_def word_less_nat_alt min_def not_less split: if_splits)
  moreover have "c_in s1 = c_in s" using send_task_request_in [OF r] by simp
  ultimately show ?thesis using *(1-6) by metis
qed

definition no_macros :: build_macros where
  "no_macros = \<lparr>LINEP_BUILD_YEAR_2D = None, LINEP_BUILD_MONTH = None, LINEP_BUILD_DAY = None,
     LINEP_BUILD_HOUR = None, LINEP_BUILD_MINUTE = None, LINEP_BUILD_SECOND = None\<rparr>"

definition fresh_conn :: "bytes \<Rightarrow> stream_end \<Rightarrow> conn" where
  "fresh_conn bs e = \<lparr>c_in = bs, c_end = e, c_rscript = [], c_out = [], c_wscript = []\<rparr>"

lemma fresh_conn_simps [simp]:
  "c_in (fresh_conn bs e) = bs" "c_end (fresh_conn bs e) = e" "c_out (fresh_conn bs e) = []"
  "io_ok (fresh_conn bs e)"
  by (simp_all add: fresh_conn_def io_ok_def)

text \<open>An accepted task of the witnesses: the result of \<open>send_task\<close> on a valid answer.\<close>

lemma validate_result_header [simp]: "validate_header (result_header h n)"
  by (simp add: result_header_def)

lemma result_header_fields [simp]:
  "h_msg_type (result_header h n) = msg_code RESULT" "h_header_len (result_header h n) = 30"
  "h_correlation_id (result_header h n) = h_correlation_id h"
  "h_payload_len (result_header h n) = word_of_nat n"
  by (simp_all add: result_header_def)

lemma task_header_fields [simp]:
  "validate_header (task_header seq corr worker slot plen)"
  "h_msg_type (task_header seq corr worker slot plen) = msg_code TASK"
  "h_header_len (task_header seq corr worker slot plen) = 30"
  "h_correlation_id (task_header seq corr worker slot plen) = corr"
  "h_worker_id (task_header seq corr worker slot plen) = worker"
  "h_slot_id (task_header seq corr worker slot plen) = slot"
  "h_payload_len (task_header seq corr worker slot plen) = plen"
  by (simp_all add: task_header_def)

lemma send_task_body:
  assumes "net host port t = Some cl"
    and "send_task_request m cl (task_header seq corr worker slot plen) payload plen = (None, s1)"
    and "recv_task_result s1 corr
      = Some (st, if st = status_code RESULT_OK \<and> body \<noteq> [] then Some body else None, s2)"
    and "st \<noteq> status_code RESULT_OK \<Longrightarrow> body = []" "length body < 2 ^ 32"
  shows "send_task m net seq host port tt corr worker slot payload plen True (Some cap) t
      = Some \<lparr>so_status = st, so_len = Some (word_of_nat (length (take (unat cap) body))),
              so_buf = take (unat cap) body, so_seq = seq + 1, so_conn = Some s2\<rparr>"
proof (cases "st = status_code RESULT_OK \<and> body \<noteq> []")
  case True
  have len: "unat (word_of_nat (length body) :: u32) = length body"
    using assms(5) by (rule unat_of_nat_len32)
  show ?thesis
    using assms(1-3) True len
    by (auto simp: send_task_def Let_def word_less_nat_alt min_def not_less)
next
  case False
  with assms(4) have "body = []" by auto
  with assms(1-3) show ?thesis by (simp add: send_task_def)
qed

theorem send_task_accepts_only_results_witness:
  "\<exists>cl out. c_in cl = task_frame no_macros (result_header (task_header 0 77 30 0 3) 3) [0, 11, 22]
     \<and> send_task no_macros (\<lambda>_ _ _. Some cl) 0 ''10.0.0.1'' 19000 1 77 30 0 [1, 2, 3] 3 True (Some 9) 50
       = Some out
     \<and> so_buf out = [11, 22]
     \<and> (\<exists>h ext b rest. c_in cl = header_bytes h @ ext @ (status_code RESULT_OK # b) @ rest
       \<and> validate_header h \<and> h_msg_type h = msg_code RESULT \<and> h_correlation_id h = 77
       \<and> length ext = unat (ext_len_of h) \<and> unat (h_payload_len h) = Suc (length b))"
proof -
  let ?h = "task_header 0 77 30 0 3"
  let ?cl = "fresh_conn (task_frame no_macros (result_header ?h 3) [0, 11, 22]) Peer_closed"
  let ?net = "\<lambda>(_::string) (_::u16) (_::u32). Some ?cl"
  obtain s1 where s1: "send_task_request no_macros ?cl ?h [1, 2, 3] 3 = (None, s1)" "io_ok s1"
      "c_in s1 = c_in ?cl"
    using send_task_request_full [of ?cl 3 "[1, 2, 3]" ?h no_macros] by auto
  obtain s2 where s2: "recv_task_result s1 77 = Some (0,
      if (0 :: u8) = status_code RESULT_OK \<and> [11, 22 :: u8] \<noteq> [] then Some [11, 22] else None, s2)"
    using recv_task_result_frame [OF s1(2), of no_macros "result_header ?h 3" 0 "[11, 22]" "[]" 77] s1(3)
    by auto
  obtain out where out: "send_task no_macros ?net 0 ''10.0.0.1'' 19000 1 77 30 0 [1, 2, 3] 3 True
      (Some 9) 50 = Some out" "so_status out = status_code RESULT_OK" "so_buf out = [11, 22]"
    using send_task_body [of ?net "''10.0.0.1''" 19000 50 ?cl, OF refl s1(1) s2] by auto
  from send_task_accepts_only_results [OF out(1,2) refl] out(1,3) show ?thesis
    by (intro exI [of _ ?cl] exI [of _ out] conjI) (simp_all, blast)
qed

text \<open>
  C6: A task sent over a working connection reaches the worker's callback and its answer
  reaches the caller: when the worker's handler has answered the very bytes \<open>send_task\<close> emits,
  \<open>send_task\<close> returns the callback's status, and for \<open>RESULT_OK\<close> the buffer holds the callback's
  body up to the caller's capacity, however the two byte streams are cut in transit.
\<close>

theorem tcp_session:
  assumes "unat plen = length payload" "length payload < 2 ^ 31"
    and cb: "f (msg_code TASK) corr worker slot (if payload = [] then None else Some payload) plen
             = (st, n, buf)" "unat n \<le> length buf" "length buf < 2 ^ 31 - 1"
    and srv: "io_ok srv" "c_out srv = []"
      "c_in srv = task_frame mc (task_header seq corr worker slot plen) payload"
      "handle_connection ms (Some f) srv = Done srv'"
    and cl: "net host port t = Some cl" "io_ok cl" "c_out cl = []" "c_in cl = c_out srv'"
  shows "\<exists>cl'. send_task mc net seq host port tt corr worker slot payload plen True (Some cap) t
      = Some \<lparr>so_status = st,
              so_len = Some (word_of_nat (length (take (unat cap) (tl (answer (st, n, buf)))))),
              so_buf = take (unat cap) (tl (answer (st, n, buf))), so_seq = seq + 1,
              so_conn = Some cl'\<rparr>
    \<and> c_out cl' = c_in srv"
proof -
  let ?h = "task_header seq corr worker slot plen"
  let ?p = "answer (st, n, buf)"
  have p: "?p = st # tl ?p" "st \<noteq> status_code RESULT_OK \<Longrightarrow> tl ?p = []" by (auto simp: answer_def)
  have lp: "length (tl ?p) < 2 ^ 31 - 1" using cb(3) by (auto simp: answer_def)
  have "\<exists>cs'. handle_connection ms (Some f) srv = Done cs'
      \<and> c_out cs' = c_out srv @ task_frame ms (result_header ?h (length ?p)) ?p"
    using assms(1,2) cb srv by (intro handle_connection_frame [where rest = "[]" and m' = mc]) auto
  then have resp: "c_in cl = task_frame ms (result_header ?h (length ?p)) (st # tl ?p) @ []"
    using srv cl p(1) by auto
  obtain s1 where s1: "send_task_request mc cl ?h payload plen = (None, s1)" "io_ok s1"
      "c_out s1 = task_frame mc ?h payload" "c_in s1 = c_in cl"
    using send_task_request_full [OF cl(2) assms(1,2), of ?h mc] cl(3) by auto
  have pl: "unat (h_payload_len (result_header ?h (length ?p))) = Suc (length (tl ?p))"
  proof -
    have "length ?p = Suc (length (tl ?p))" using p(1) by (metis length_Cons)
    moreover have "unat (word_of_nat k :: u32) = k" if "k = Suc (length (tl ?p))" for k
      using that lp by (intro unat_of_nat_len32) (simp del: length_tl)
    ultimately show ?thesis unfolding result_header_fields by metis
  qed
  obtain s2 where s2: "recv_task_result s1 corr
       = Some (st, if st = status_code RESULT_OK \<and> tl ?p \<noteq> [] then Some (tl ?p) else None, s2)"
      "c_in s2 = []" "c_out s2 = c_out s1"
    using recv_task_result_frame [OF s1(2), of ms "result_header ?h (length ?p)" st "tl ?p" "[]" corr]
      resp s1(4) pl lp by auto

  have "send_task mc net seq host port tt corr worker slot payload plen True (Some cap) t
      = Some \<lparr>so_status = st, so_len = Some (word_of_nat (length (take (unat cap) (tl ?p)))),
              so_buf = take (unat cap) (tl ?p), so_seq = seq + 1, so_conn = Some s2\<rparr>"
    by (rule send_task_body [where cl = cl and net = net and host = host and port = port and t = t,
          OF cl(1) s1(1) s2(1) p(2)]) (use lp in \<open>simp_all del: length_tl\<close>)
  then show ?thesis using s1(3) s2(3) srv(3) by auto
qed

definition echo :: task_callback where
  "echo tt corr worker slot payload plen =
     (status_code RESULT_OK, plen, (case payload of None \<Rightarrow> [] | Some p \<Rightarrow> p))"

theorem tcp_session_witness:
  "\<exists>srv' cl'. send_task no_macros (\<lambda>_ _ _. Some (fresh_conn (c_out srv') Peer_closed)) 0
        ''10.0.0.1'' 19000 1 77 30 0 [11, 22, 33] 3 True (Some 2) 5000
      = Some \<lparr>so_status = 0, so_len = Some 2, so_buf = [11, 22], so_seq = 1, so_conn = Some cl'\<rparr>
    \<and> handle_connection no_macros (Some echo)
        (fresh_conn (task_frame no_macros (task_header 0 77 30 0 3) [11, 22, 33]) Peer_closed)
      = Done srv'"
proof -
  let ?h = "task_header 0 77 30 0 3"
  let ?srv = "fresh_conn (task_frame no_macros ?h [11, 22, 33]) Peer_closed"
  obtain srv' where srv': "handle_connection no_macros (Some echo) ?srv = Done srv'"
    using handle_connection_frame [of ?srv no_macros ?h "[11, 22, 33]" "[]" "(0, 3, [11, 22, 33])"
        echo 0 3 "[11, 22, 33]" no_macros]
    by (auto simp: echo_def)
  from tcp_session [where payload = "[11, 22, 33]" and f = echo and corr = 77 and worker = 30
      and slot = 0 and plen = 3 and st = 0 and n = 3 and buf = "[11, 22, 33]" and srv = ?srv
      and mc = no_macros and seq = 0 and ms = no_macros and srv' = srv'
      and net = "\<lambda>_ _ _. Some (fresh_conn (c_out srv') Peer_closed)" and host = "''10.0.0.1''"
      and port = 19000 and t = 5000 and cl = "fresh_conn (c_out srv') Peer_closed" and tt = 1
      and cap = 2]
  obtain cl' where "send_task no_macros (\<lambda>_ _ _. Some (fresh_conn (c_out srv') Peer_closed)) 0
        ''10.0.0.1'' 19000 1 77 30 0 [11, 22, 33] 3 True (Some 2) 5000
      = Some \<lparr>so_status = 0, so_len = Some 2, so_buf = [11, 22], so_seq = 1, so_conn = Some cl'\<rparr>"
    using srv' by (auto simp: echo_def answer_def)
  with srv' show ?thesis by blast
qed

lemma send_task_request_header:
  assumes "io_ok s" "h_header_len h = 30" "2 ^ 31 \<le> unat plen"
  obtains s' where "send_task_request m s h payload plen = (Some (status_code RESULT_TIMEOUT), s')"
    "c_out s' = c_out s @ task_frame m h []"
proof -
  let ?e = "build_time_bytes (make_build_time_ext_from_build m)"
  obtain s1 where s1: "tcp_send_all s (header_bytes h) 24 = (24, s1)" "io_ok s1"
      "c_out s1 = c_out s @ header_bytes h"
    using tcp_send_all_full [OF assms(1), of 24 "header_bytes h"] by auto
  obtain s2 where s2: "tcp_send_all s1 ?e 6 = (6, s2)" "io_ok s2" "c_out s2 = c_out s1 @ ?e"
    using tcp_send_all_full [OF s1(2), of 6 ?e] by auto
  have neg: "int_of_len plen < 0" using assms(3) by (rule int_of_len_big)
  then have "tcp_send_all s2 payload (int_of_len plen) = (0, s2)"
    by (intro tcp_send_all_nonpos) simp
  moreover have "0 < plen" using assms(3) by (auto simp: word_gt_0)
  ultimately have "send_task_request m s h payload plen = (Some (status_code RESULT_TIMEOUT), s2)"
    using s1 s2 assms(2) neg ext_len_of_values(2) [OF assms(2)]
    by (simp add: send_task_request_def Let_def)
  with that s1 s2 show ?thesis by (simp add: task_frame_def)
qed

text \<open>
  The sender's length arithmetic is signed: a task of 2 GiB or more is announced in the
  header but none of its payload is sent, and the caller gets \<open>RESULT_TIMEOUT\<close>. And no value of
  \<open>timeout_ms\<close> bounds the wait: against a worker that takes the task and stays silent,
  \<open>send_task\<close> does not return.
\<close>

lemma send_task_limits:
  assumes "net host port t = Some s" "io_ok s" "c_in s = []" "c_end s = Peer_silent"
    and "unat plen = length payload"
  shows "if length payload < 2 ^ 31
     then send_task m net seq host port tt corr worker slot payload plen has_buf cap t = None
     else \<exists>s'. send_task m net seq host port tt corr worker slot payload plen has_buf cap t
       = Some \<lparr>so_status = status_code RESULT_TIMEOUT, so_len = map_option (\<lambda>_. 0) cap, so_buf = [],
               so_seq = seq + 1, so_conn = Some s'\<rparr>
       \<and> c_out s' = c_out s @ task_frame m (task_header seq corr worker slot plen) []"
proof (cases "length payload < 2 ^ 31")
  case True
  let ?h = "task_header seq corr worker slot plen"
  obtain s1 where s1: "send_task_request m s ?h payload plen = (None, s1)" "io_ok s1"
      "c_in s1 = []" "c_end s1 = Peer_silent"
    using send_task_request_full [OF assms(2,5) True, of ?h m] assms(3,4) by auto
  then have "recv_task_result s1 corr = None"
    by (simp add: recv_task_result_def tcp_recv_all_silent)
  then show ?thesis using True assms(1) s1(1) by (simp add: send_task_def)
next
  case False
  then have big: "2 ^ 31 \<le> unat plen" using assms(5) by simp
  obtain s1 where "send_task_request m s (task_header seq corr worker slot plen) payload plen
        = (Some (status_code RESULT_TIMEOUT), s1)"
      "c_out s1 = c_out s @ task_frame m (task_header seq corr worker slot plen) []"
    using send_task_request_header [OF assms(2) task_header_fields(3) big] .
  then show ?thesis using False assms(1) by (auto simp: send_task_def)
qed

lemma send_task_limits_witness:
  "send_task no_macros (\<lambda>_ _ _. Some (fresh_conn [] Peer_silent)) 0 ''10.0.0.1'' 19000 1 77 30 0
     [5, 6] 2 True (Some 10) 100 = None"
  using send_task_limits [where net = "\<lambda>_ _ _. Some (fresh_conn [] Peer_silent)"
      and host = "''10.0.0.1''" and port = 19000 and t = 100 and s = "fresh_conn [] Peer_silent"
      and plen = 2 and payload = "[5, 6]" and m = no_macros and seq = 0 and tt = 1 and corr = 77
      and worker = 30 and slot = 0 and has_buf = True and cap = "Some 10"]
  by simp

lemma reap_joinable: "list_all joinable (rc_handlers r) \<Longrightarrow> reap_finished_handlers r = r"
  by (simp add: reap_finished_handlers_def list_all_iff filter_id_conv)

lemma accept_steps:
  assumes "rc_running r" "list_all joinable (rc_handlers r)"
  shows "rc_running ((accept_loop_step True ^^ n) r)
    \<and> list_all joinable (rc_handlers ((accept_loop_step True ^^ n) r))
    \<and> length (rc_handlers ((accept_loop_step True ^^ n) r)) = length (rc_handlers r) + n"
proof (induction n)
  case (Suc n)
  then show ?case by (simp add: accept_loop_step_def reap_joinable Let_def)
qed (use assms in simp)

text \<open>
  The life cycle of the task receiver: \<open>start\<close> reports success although the port may turn
  out not to be available; after such a failure a second \<open>start\<close> terminates the process unless
  \<open>stop\<close> came first, and after \<open>stop\<close> it works; and the reaper never removes a handler, so a
  running receiver holds one thread for every connection it ever accepted until \<open>stop\<close>.
\<close>

lemma receiver_lifecycle:
  "\<exists>r. receiver_start a receiver_init = Ret (True, r) \<and> rc_running r
     \<and> receiver_start b (accept_loop_no_listen r) = Terminated
     \<and> (\<exists>r'. receiver_start b (receiver_stop (accept_loop_no_listen r)) = Ret (True, r'))
     \<and> length (rc_handlers ((accept_loop_step True ^^ n) r)) = n
     \<and> rc_handlers (receiver_stop ((accept_loop_step True ^^ n) r)) = []"
proof -
  have init: "rc_running receiver_init = False" "joinable (rc_thread receiver_init) = False"
    by (simp_all add: receiver_init_def)
  obtain r where r: "receiver_start a receiver_init = Ret (True, r)" "rc_running r"
    using tcp_receiver.start_idle [of receiver_init a] init by auto
  have h: "rc_handlers r = []"
    using r(1) by (auto simp: receiver_start_def receiver_init_def Let_def)
  from r h accept_steps [of r n] tcp_receiver.restart_after_failure [of b r]
    tcp_receiver.stop_recovers [of b r]
  show ?thesis by (auto simp: receiver_stop_def Let_def)
qed

end
