(* ===== verification/Scheduler.thy ===== *)
theory Scheduler
  imports Score_Engine Tcp_Channel
begin

text \<open>
  The scheduler (\<open>linep/src/scheduler/scheduler.cpp\<close>). Its operations are functions on a state
  record; its concurrency is a step relation whose steps are the sections the code runs under one
  lock or as one atomic operation: a call of the public interface, one step of the loop thread,
  one step of a dispatch thread. A dispatch is the shared state of one attempt together with its
  threads, each at one of the program points of \<open>dispatch_one_slot\<close>. The network is an arbitrary
  connection per attempt, the clock an arbitrary reading per step, \<open>std::sort\<close> a parameter.
  Callback invocations are logged in order.
\<close>

section \<open>Tasks\<close>

record PendingTask =
  pt_correlation_id :: u32
  pt_type :: u8
  pt_payload :: bytes
  pt_timeout_ms :: u32
  pt_max_attempts :: u32
  pt_attempt_count :: u32
  pt_callback :: "nat option"
  pt_user_data :: nat

record PartialResult =
  pr_slot :: SlotKey
  pr_status :: u8
  pr_payload :: bytes

text \<open>The program points of \<open>dispatch_one_slot\<close>.\<close>

datatype phase =
    Unlaunched                \<comment> \<open>the thread is about to be created\<close>
  | Transport                 \<comment> \<open>in \<open>dispatch_transport\<close>\<close>
  | Push PartialResult        \<comment> \<open>before \<open>partial_results.push_back\<close>\<close>
  | Complete PartialResult    \<comment> \<open>before \<open>complete_task_if_first\<close> of an OK result\<close>
  | Finish                    \<comment> \<open>before \<open>remaining.fetch_sub(1)\<close>\<close>
  | Last                      \<comment> \<open>it was the last one\<close>
  | Leaving                   \<comment> \<open>before \<open>active_dispatch_count_.fetch_sub(1)\<close>\<close>
  | Gone

record worker =
  wk_slot :: SlotKey
  wk_phase :: phase

record dispatch =
  ds_task :: PendingTask
  ds_done :: bool
  ds_partial :: "PartialResult list"
  ds_remaining :: int
  ds_workers :: "worker list"

text \<open>A pass of the loop: the time, the tasks of the snapshot still to do, the ids done.\<close>

datatype loop_pc = No_loop | Idle | Passing int "PendingTask list" "u32 list" | Loop_done

type_synonym invocation = "nat \<times> u32 \<times> u8 \<times> bytes \<times> nat"

record scheduler =
  sc_slots :: slots
  sc_pending :: "PendingTask list"
  sc_running :: bool
  sc_active :: int
  sc_corr_gen :: u32
  sc_loop :: loop_pc
  sc_dispatches :: "dispatch list"
  sc_log :: "invocation list"

definition scheduler_init :: scheduler where
  "scheduler_init =
     \<lparr>sc_slots = [], sc_pending = [], sc_running = False, sc_active = 0, sc_corr_gen = 1,
      sc_loop = No_loop, sc_dispatches = [], sc_log = []\<rparr>"

section \<open>The public interface\<close>

text \<open>\<open>strncpy\<close> into the 64-byte field, whose last byte stays 0.\<close>

definition strncpy63 :: "string \<Rightarrow> string" where
  "strncpy63 s = take 63 (takeWhile (\<lambda>c. c \<noteq> CHR 0x00) s)"

definition register_slot ::
  "u16 \<Rightarrow> u8 \<Rightarrow> u8 \<Rightarrow> string \<Rightarrow> u16 \<Rightarrow> scheduler \<Rightarrow> scheduler" where
  "register_slot wid sid t ip tcp_port s =
     s\<lparr>sc_slots := map_at SlotState_default (SlotKey wid sid)
         (\<lambda>slot. slot\<lparr>ss_worker_id := wid, ss_slot_id := sid, ss_type := t,
                      ss_tcp_port := tcp_port, ss_ip := strncpy63 ip\<rparr>) (sc_slots s)\<rparr>"

definition apply_heartbeat :: "int \<Rightarrow> heartbeat_compact \<Rightarrow> scheduler \<Rightarrow> scheduler" where
  "apply_heartbeat now hb s =
     s\<lparr>sc_slots := map_at SlotState_default (SlotKey (hb_worker_id hb) (hb_slot_id hb))
         (\<lambda>slot. apply_heartbeat_slot now hb
                   (slot\<lparr>ss_worker_id := hb_worker_id hb, ss_slot_id := hb_slot_id hb\<rparr>))
         (sc_slots s)\<rparr>"

definition submit ::
  "u8 \<Rightarrow> bytes \<Rightarrow> u32 \<Rightarrow> u32 \<Rightarrow> nat option \<Rightarrow> nat \<Rightarrow> scheduler \<Rightarrow> u32 \<times> scheduler" where
  "submit type payload timeout_ms max_attempts callback user_data s =
     (let corr_id = sc_corr_gen s;
          t = \<lparr>pt_correlation_id = corr_id, pt_type = type, pt_payload = payload,
               pt_timeout_ms = timeout_ms, pt_max_attempts = max_attempts, pt_attempt_count = 0,
               pt_callback = callback, pt_user_data = user_data\<rparr>
      in (corr_id, s\<lparr>sc_corr_gen := corr_id + 1, sc_pending := sc_pending s @ [t]\<rparr>))"

definition sched_start :: "scheduler \<Rightarrow> bool \<times> scheduler" where
  "sched_start s =
     (if sc_running s then (False, s) else (True, s\<lparr>sc_running := True, sc_loop := Idle\<rparr>))"

text \<open>\<open>stop\<close> up to the join; it returns when \<open>stop_returns\<close> holds.\<close>

definition sched_stop_request :: "scheduler \<Rightarrow> scheduler" where
  "sched_stop_request s = s\<lparr>sc_running := False\<rparr>"

definition stop_returns :: "scheduler \<Rightarrow> bool" where
  "stop_returns s \<longleftrightarrow> \<not> sc_running s \<and> sc_loop s \<in> {No_loop, Loop_done} \<and> sc_active s \<le> 0"

section \<open>The transport of one attempt\<close>

definition on_slot_transport_failure :: "int \<Rightarrow> SlotKey \<Rightarrow> slots \<Rightarrow> slots" where
  "on_slot_transport_failure now key slots =
     map_modify key (\<lambda>s. s\<lparr>ss_busy := False, ss_timeout_count := ss_timeout_count s + 1,
         ss_cooldown_until := now + cooldown_for (ss_timeout_count s + 1)\<rparr>) slots"

definition mark_success :: "SlotKey \<Rightarrow> slots \<Rightarrow> slots" where
  "mark_success key slots =
     map_modify key (\<lambda>s. s\<lparr>ss_busy := False, ss_success_count := ss_success_count s + 1\<rparr>) slots"

text \<open>
  The exchange of \<open>dispatch_transport\<close> over the connection \<open>tcp_connect\<close> gave: \<open>None\<close> when it
  blocks for ever, \<open>Some None\<close> when the code returns false, otherwise the status and the
  payload.
\<close>

definition transport_header :: "PendingTask \<Rightarrow> SlotKey \<Rightarrow> header" where
  "transport_header task key =
     make_header (msg_code TASK) 0 (word_of_nat (length (pt_payload task)))
       (pt_correlation_id task) (pt_correlation_id task) (worker_id key) (slot_id key)"

definition transport_io ::
  "conn option \<Rightarrow> PendingTask \<Rightarrow> SlotKey \<Rightarrow> ((u8 \<times> bytes) option) option" where
  "transport_io net task key =
     (case net of
        None \<Rightarrow> Some None
      | Some c \<Rightarrow>
      let h = transport_header task key;
          size = sint (word_of_nat (length (pt_payload task)) :: u32)
      in case tcp_send_all c (header_bytes h) 24 of (r, c) \<Rightarrow>
      if r \<noteq> 24 then Some None else
      case (if pt_payload task \<noteq> [] then tcp_send_all c (pt_payload task) size else (size, c)) of
        (r, c) \<Rightarrow>
      if r \<noteq> size then Some None else
      case tcp_recv_all c 24 of
        None \<Rightarrow> None
      | Some (r, buf, c) \<Rightarrow>
      case (if r = 24 then header_of_bytes buf else None) of
        None \<Rightarrow> Some None
      | Some res_h \<Rightarrow>
      if \<not> validate_header res_h then Some None else
      case (if h_payload_len res_h \<noteq> 0 then tcp_recv_all c (int_of_len (h_payload_len res_h))
            else Some (int_of_len (h_payload_len res_h), [], c)) of
        None \<Rightarrow> None
      | Some (r, res_payload, c) \<Rightarrow>
      if r \<noteq> int_of_len (h_payload_len res_h) then Some None else
      let (status, res_payload) =
            (if res_payload \<noteq> [] then (res_payload ! 0, tl res_payload)
             else (status_code RESULT_OK, res_payload));
          status = (if h_msg_type res_h = msg_code MSG_ERROR then status_code RESULT_MODEL_ERROR
                    else status)
      in Some (Some (status, res_payload)))"

text \<open>
  \<open>dispatch_transport\<close> with the registry: the new registry and the partial result, if any.
\<close>

definition dispatch_transport ::
  "int \<Rightarrow> conn option \<Rightarrow> PendingTask \<Rightarrow> SlotKey \<Rightarrow> slots \<Rightarrow> (PartialResult option \<times> slots) option" where
  "dispatch_transport now net task key slots =
     (case map_find slots key of
        None \<Rightarrow> Some (None, slots)
      | Some _ \<Rightarrow>
          (case transport_io net task key of
             None \<Rightarrow> None
           | Some None \<Rightarrow> Some (None, on_slot_transport_failure now key slots)
           | Some (Some (status, payload)) \<Rightarrow>
               Some (Some \<lparr>pr_slot = key, pr_status = status, pr_payload = payload\<rparr>,
                     mark_success key slots)))"

section \<open>Completing a task\<close>

definition call_back :: "PendingTask \<Rightarrow> u8 \<Rightarrow> bytes \<Rightarrow> invocation list" where
  "call_back t status payload =
     (case pt_callback t of
        None \<Rightarrow> []
      | Some f \<Rightarrow> [(f, pt_correlation_id t, status, payload, pt_user_data t)])"

definition complete_task_if_first ::
  "dispatch \<Rightarrow> u8 \<Rightarrow> bytes \<Rightarrow> bool \<times> dispatch \<times> invocation list" where
  "complete_task_if_first d status payload =
     (if ds_done d then (False, d, [])
      else (True, d\<lparr>ds_done := True\<rparr>, call_back (ds_task d) status payload))"

text \<open>The first OK result, else the first result.\<close>

definition chosen :: "PartialResult list \<Rightarrow> PartialResult" where
  "chosen results =
     (case filter (\<lambda>r. pr_status r = status_code RESULT_OK) results of
        r # _ \<Rightarrow> r | [] \<Rightarrow> hd results)"

text \<open>What the last thread of a dispatch does: tasks put back, and invocations.\<close>

definition last_thread :: "dispatch \<Rightarrow> dispatch \<times> PendingTask list \<times> invocation list" where
  "last_thread d =
     (if ds_done d then (d, [], [])
      else if ds_partial d \<noteq> [] then
        (let c = chosen (ds_partial d);
             (_, d, log) = complete_task_if_first d (pr_status c) (pr_payload c)
         in (d, [], log))
      else if pt_attempt_count (ds_task d) < pt_max_attempts (ds_task d) then (d, [ds_task d], [])
      else (let (_, d, log) = complete_task_if_first d (status_code RESULT_TIMEOUT) []
            in (d, [], log)))"

section \<open>Dispatch threads\<close>

text \<open>
  One step of the thread at position \<open>j\<close> of a dispatch: the new phase, dispatch and
  registry, the tasks pushed to \<open>pending_\<close>, the invocations and the change of
  \<open>active_dispatch_count_\<close>; \<open>None\<close> when it has no step.
\<close>

record effect =
  ef_phase :: phase
  ef_dispatch :: dispatch
  ef_slots :: slots
  ef_push :: "PendingTask list"
  ef_log :: "invocation list"
  ef_active :: int

fun thread_effect ::
  "int \<Rightarrow> conn option \<Rightarrow> slots \<Rightarrow> dispatch \<Rightarrow> worker \<Rightarrow> phase \<Rightarrow> effect option" where
  "thread_effect now net slots d w Unlaunched = None"
| "thread_effect now net slots d w Transport =
     (case dispatch_transport now net (ds_task d) (wk_slot w) slots of
        None \<Rightarrow> None
      | Some (p, slots') \<Rightarrow>
          Some \<lparr>ef_phase = (case p of None \<Rightarrow> Finish | Some r \<Rightarrow> Push r), ef_dispatch = d,
                ef_slots = slots', ef_push = [], ef_log = [], ef_active = 0\<rparr>)"
| "thread_effect now net slots d w (Push r) =
     Some \<lparr>ef_phase = (if pr_status r = status_code RESULT_OK then Complete r else Finish),
           ef_dispatch = d\<lparr>ds_partial := ds_partial d @ [r]\<rparr>, ef_slots = slots, ef_push = [],
           ef_log = [], ef_active = 0\<rparr>"
| "thread_effect now net slots d w (Complete r) =
     (let (_, d', log) = complete_task_if_first d (pr_status r) (pr_payload r)
      in Some \<lparr>ef_phase = Finish, ef_dispatch = d', ef_slots = slots, ef_push = [], ef_log = log,
               ef_active = 0\<rparr>)"
| "thread_effect now net slots d w Finish =
     Some \<lparr>ef_phase = (if ds_remaining d = 1 then Last else Leaving),
           ef_dispatch = d\<lparr>ds_remaining := ds_remaining d - 1\<rparr>, ef_slots = slots, ef_push = [],
           ef_log = [], ef_active = 0\<rparr>"
| "thread_effect now net slots d w Last =
     (let (d', push, log) = last_thread d
      in Some \<lparr>ef_phase = Leaving, ef_dispatch = d', ef_slots = slots, ef_push = push,
               ef_log = log, ef_active = 0\<rparr>)"
| "thread_effect now net slots d w Leaving =
     Some \<lparr>ef_phase = Gone, ef_dispatch = d, ef_slots = slots, ef_push = [], ef_log = [],
           ef_active = -1\<rparr>"
| "thread_effect now net slots d w Gone = None"

definition set_phase :: "nat \<Rightarrow> phase \<Rightarrow> dispatch \<Rightarrow> dispatch" where
  "set_phase j p d = d\<lparr>ds_workers := (ds_workers d)[j := (ds_workers d ! j)\<lparr>wk_phase := p\<rparr>]\<rparr>"

definition dispatch_one_slot :: "int \<Rightarrow> conn option \<Rightarrow> nat \<Rightarrow> nat \<Rightarrow> scheduler \<Rightarrow> scheduler option" where
  "dispatch_one_slot now net i j s =
     (if i < length (sc_dispatches s) \<and> j < length (ds_workers (sc_dispatches s ! i)) then
        (let d = sc_dispatches s ! i; w = ds_workers d ! j in
         case thread_effect now net (sc_slots s) d w (wk_phase w) of
           None \<Rightarrow> None
         | Some e \<Rightarrow> Some (s\<lparr>sc_slots := ef_slots e,
               sc_pending := sc_pending s @ ef_push e,
               sc_active := sc_active s + ef_active e,
               sc_dispatches := (sc_dispatches s)[i := set_phase j (ef_phase e) (ef_dispatch e)],
               sc_log := sc_log s @ ef_log e\<rparr>))
      else None)"

section \<open>The loop thread\<close>

definition expire_stale :: "int \<Rightarrow> slots \<Rightarrow> slots" where
  "expire_stale now slots =
     map_each (\<lambda>key slot.
       if ss_last_heartbeat slot \<noteq> 0 \<and> now > ss_last_heartbeat slot + HEARTBEAT_TIMEOUT
       then expire_slot slot else slot) slots"

text \<open>Marking the selected slots.\<close>

definition mark_selected :: "int \<Rightarrow> SlotKey list \<Rightarrow> slots \<Rightarrow> slots" where
  "mark_selected now selected slots =
     foldl (\<lambda>slots key. map_modify key (\<lambda>s. s\<lparr>ss_busy := True, ss_last_used := now\<rparr>) slots)
       slots selected"

definition new_dispatch :: "PendingTask \<Rightarrow> SlotKey list \<Rightarrow> dispatch" where
  "new_dispatch task selected =
     \<lparr>ds_task = task\<lparr>pt_attempt_count := pt_attempt_count task + 1\<rparr>, ds_done = False,
      ds_partial = [], ds_remaining = int (length selected),
      ds_workers = map (\<lambda>key. \<lparr>wk_slot = key, wk_phase = Unlaunched\<rparr>) selected\<rparr>"

definition erase_dispatched :: "u32 list \<Rightarrow> PendingTask list \<Rightarrow> PendingTask list" where
  "erase_dispatched dispatched pending =
     filter (\<lambda>t. pt_correlation_id t \<notin> set dispatched) pending"

text \<open>The first thread still to be created, as (dispatch, thread) positions.\<close>

definition to_launch :: "dispatch list \<Rightarrow> (nat \<times> nat) option" where
  "to_launch ds =
     (case filter (\<lambda>(i, j). wk_phase (ds_workers (ds ! i) ! j) = Unlaunched)
        (concat (map (\<lambda>i. map (Pair i) [0..<length (ds_workers (ds ! i))]) [0..<length ds])) of
        [] \<Rightarrow> None | p # _ \<Rightarrow> Some p)"

text \<open>
  One step of \<open>run_loop\<close> with \<open>dispatch_pending\<close>: the head of the loop with \<open>expire_stale\<close> and
  the snapshot, the creation of a thread, the treatment of a task of the snapshot, the final
  erase.
\<close>

definition loop_step :: "cand_sort \<Rightarrow> int \<Rightarrow> scheduler \<Rightarrow> scheduler" where
  "loop_step srt now s =
     (case sc_loop s of
        No_loop \<Rightarrow> s
      | Loop_done \<Rightarrow> s
      | Idle \<Rightarrow>
          if \<not> sc_running s then s\<lparr>sc_loop := Loop_done\<rparr>
          else let s = s\<lparr>sc_slots := expire_stale now (sc_slots s)\<rparr> in
            if sc_pending s = [] then s else s\<lparr>sc_loop := Passing now (sc_pending s) []\<rparr>
      | Passing now tasks dispatched \<Rightarrow>
          (case to_launch (sc_dispatches s) of
             Some (i, j) \<Rightarrow>
               s\<lparr>sc_active := sc_active s + 1,
                 sc_dispatches := (sc_dispatches s)[i := set_phase j Transport (sc_dispatches s ! i)]\<rparr>
           | None \<Rightarrow>
               (case tasks of
                  [] \<Rightarrow> s\<lparr>sc_pending := erase_dispatched dispatched (sc_pending s), sc_loop := Idle\<rparr>
                | task # tasks \<Rightarrow>
                    (let selected = select_best_slots srt (sc_slots s) (pt_type task) now 3;
                         s = s\<lparr>sc_slots := mark_selected now selected (sc_slots s),
                               sc_loop := Passing now tasks
                                            (dispatched @ [pt_correlation_id task])\<rparr>
                     in if selected = []
                        then s\<lparr>sc_log := sc_log s @ call_back task (status_code RESULT_REJECTED) []\<rparr>
                        else s\<lparr>sc_dispatches := sc_dispatches s @ [new_dispatch task selected]\<rparr>))))"

section \<open>Executions\<close>

text \<open>
  A call of \<open>submit\<close> is a step as long as the 32-bit id counter has not wrapped, a call of \<open>start\<close>
  when the scheduler runs (it then only returns false) or is idle, new or after a \<open>stop\<close>.
\<close>

inductive sched_step :: "cand_sort \<Rightarrow> scheduler \<Rightarrow> scheduler \<Rightarrow> bool" for srt where
  Step_submit: "sc_corr_gen s \<noteq> 0 \<Longrightarrow>
     sched_step srt s (snd (submit ty payload timeout_ms max_attempts callback user_data s))"
| Step_register: "sched_step srt s (register_slot wid sid t ip port s)"
| Step_heartbeat: "sched_step srt s (apply_heartbeat now hb s)"
| Step_start: "sc_running s \<or> stop_returns s \<Longrightarrow> sched_step srt s (snd (sched_start s))"
| Step_stop: "sched_step srt s (sched_stop_request s)"
| Step_loop: "sched_step srt s (loop_step srt now s)"
| Step_thread: "dispatch_one_slot now net i j s = Some s' \<Longrightarrow> sched_step srt s s'"

inductive reachable :: "cand_sort \<Rightarrow> scheduler \<Rightarrow> scheduler \<Rightarrow> bool" for srt where
  Reach_refl: "reachable srt s s"
| Reach_step: "reachable srt s s' \<Longrightarrow> sched_step srt s' s'' \<Longrightarrow> reachable srt s s''"

inductive_cases sched_stepE: "sched_step srt s s'"

section \<open>The transport against a peer\<close>

lemma transport_header_fields [simp]:
  "validate_header (transport_header task key)" "h_msg_type (transport_header task key) = msg_code TASK"
  "h_header_len (transport_header task key) = 24"
  "h_correlation_id (transport_header task key) = pt_correlation_id task"
  "h_worker_id (transport_header task key) = worker_id key"
  "h_slot_id (transport_header task key) = slot_id key"
  "h_payload_len (transport_header task key) = word_of_nat (length (pt_payload task))"
  by (simp_all add: transport_header_def)

text \<open>The first payload byte is taken as the status, whatever the header says about its length.\<close>

definition transport_result :: "header \<Rightarrow> bytes \<Rightarrow> u8 \<times> bytes" where
  "transport_result h bs =
     (if h_msg_type h = msg_code MSG_ERROR then status_code RESULT_MODEL_ERROR
      else if bs = [] then status_code RESULT_OK else hd bs, tl bs)"

lemma transport_io_reply:
  assumes "io_ok c" "c_in c = header_bytes h @ bs @ rest" "validate_header h"
    and "unat (h_payload_len h) = length bs" "length bs < 2 ^ 31"
    and "length (pt_payload task) < 2 ^ 31"
  shows "transport_io (Some c) task key = Some (Some (transport_result h bs))"
proof -
  let ?p = "pt_payload task"
  have size: "sint (word_of_nat (length ?p) :: u32) = int (length ?p)"
    using assms(6) by (subst sint_small_u32) (simp_all add: unat_of_nat)
  obtain c1 where c1: "tcp_send_all c (header_bytes (transport_header task key)) 24 = (24, c1)"
      "io_ok c1" "c_in c1 = c_in c"
    using tcp_send_all_full [OF assms(1), of 24 "header_bytes (transport_header task key)"] by auto
  obtain c2 where c2: "(if ?p \<noteq> [] then tcp_send_all c1 ?p (int (length ?p)) else (int (length ?p), c1))
      = (int (length ?p), c2)" "io_ok c2" "c_in c2 = c_in c1"
  proof (cases "?p = []")
    case True
    with that c1(2) show ?thesis by simp
  next
    case False
    from tcp_send_all_full [OF c1(2) refl, of ?p] obtain c' where
      "tcp_send_all c1 ?p (int (length ?p)) = (int (length ?p), c')" "io_ok c'" "c_in c' = c_in c1" .
    with that False show ?thesis by simp
  qed
  have "c_in c2 = header_bytes h @ bs @ rest" using assms(2) c1(3) c2(3) by simp
  from recv_header_step [OF c2(2) this] obtain c3 where
    c3: "tcp_recv_all c2 24 = Some (24, header_bytes h, c3)" "io_ok c3" "c_in c3 = bs @ rest" by blast
  have len: "int_of_len (h_payload_len h) = int (length bs)"
    using assms(4,5) by (simp add: int_of_len_small)
  have nz: "h_payload_len h \<noteq> 0 \<longleftrightarrow> bs \<noteq> []" using assms(4) by (metis length_0_conv unat_eq_0)
  obtain c4 where c4: "(if h_payload_len h \<noteq> 0 then tcp_recv_all c3 (int (length bs))
      else Some (int (length bs), [], c3)) = Some (int (length bs), bs, c4)"
  proof (cases "bs = []")
    case True
    with that nz show ?thesis by simp
  next
    case False
    from tcp_recv_step [OF c3(2,3) refl] obtain c' where
      "tcp_recv_all c3 (int (length bs)) = Some (int (length bs), bs, c')" .
    with that False nz show ?thesis by simp
  qed
  show ?thesis
    using c1(1) c2(1) c3(1) c4 assms(3)
    by (cases bs) (auto simp: transport_io_def Let_def size len transport_result_def)
qed

text \<open>
  The transport reads a reply whose header has no extension as its sender wrote it: the
  first byte is the status and the rest the body, whatever the two streams do to the bytes on
  their way; the slot is freed and its success counted. An error frame gives
  \<open>RESULT_MODEL_ERROR\<close>. If the connection is refused the slot is freed, its failures counted, and
  it is not used again before the cooldown ends.
\<close>

lemma transport_outcome:
  assumes "io_ok c" "c_in c = header_bytes h @ (status # body) @ rest" "validate_header h"
    and "h_header_len h = 24" "unat (h_payload_len h) = Suc (length body)" "length body < 2 ^ 31 - 1"
    and "length (pt_payload task) < 2 ^ 31" "map_find slots key = Some slot" "map_ok slots"
  shows "dispatch_transport now (Some c) task key slots
      = Some (Some \<lparr>pr_slot = key,
                     pr_status = (if h_msg_type h = msg_code MSG_ERROR
                                  then status_code RESULT_MODEL_ERROR else status),
                     pr_payload = body\<rparr>,
              map_put key (slot\<lparr>ss_busy := False, ss_success_count := ss_success_count slot + 1\<rparr>) slots)
    \<and> (\<exists>slots'. dispatch_transport now None task key slots = Some (None, slots')
        \<and> map_find slots' key
            = Some (slot\<lparr>ss_busy := False, ss_timeout_count := ss_timeout_count slot + 1,
                         ss_cooldown_until := now + cooldown_for (ss_timeout_count slot + 1)\<rparr>))"
proof -
  have "transport_io (Some c) task key = Some (Some (transport_result h (status # body)))"
    using assms by (intro transport_io_reply [where rest = rest]) auto
  then have 1: "dispatch_transport now (Some c) task key slots
      = Some (Some \<lparr>pr_slot = key,
                     pr_status = (if h_msg_type h = msg_code MSG_ERROR
                                  then status_code RESULT_MODEL_ERROR else status),
                     pr_payload = body\<rparr>,
              map_put key (slot\<lparr>ss_busy := False, ss_success_count := ss_success_count slot + 1\<rparr>) slots)"
    using assms(8)
    by (simp add: dispatch_transport_def transport_result_def mark_success_def map_modify_def)
  have 2: "dispatch_transport now None task key slots
      = Some (None, on_slot_transport_failure now key slots)"
    using assms(8) by (simp add: dispatch_transport_def transport_io_def)
  have 3: "map_find (on_slot_transport_failure now key slots) key
      = Some (slot\<lparr>ss_busy := False, ss_timeout_count := ss_timeout_count slot + 1,
                  ss_cooldown_until := now + cooldown_for (ss_timeout_count slot + 1)\<rparr>)"
    using assms(8,9) by (simp add: on_slot_transport_failure_def find_map_modify)
  show ?thesis using 1 2 3 by blast
qed

lemma transport_outcome_witness:
  "dispatch_transport 0 (Some (fresh_conn (header_bytes (make_header (msg_code RESULT) 0 2 1 1 1 0) @ [0, 9])
       Peer_closed))
     \<lparr>pt_correlation_id = 1, pt_type = 1, pt_payload = [7, 8], pt_timeout_ms = 1000, pt_max_attempts = 2,
      pt_attempt_count = 1, pt_callback = Some 5, pt_user_data = 0\<rparr> (SlotKey 1 0)
     [(SlotKey 1 0, SlotState_default)]
   = Some (Some \<lparr>pr_slot = SlotKey 1 0, pr_status = 0, pr_payload = [9]\<rparr>,
       [(SlotKey 1 0, SlotState_default\<lparr>ss_success_count := 1\<rparr>)])"
  using transport_outcome [where h = "make_header (msg_code RESULT) 0 2 1 1 1 0" and rest = "[]"
      and status = 0 and body = "[9]" and slot = SlotState_default and key = "SlotKey 1 0" and now = 0
      and c = "fresh_conn (header_bytes (make_header (msg_code RESULT) 0 2 1 1 1 0) @ [0, 9]) Peer_closed"
      and slots = "[(SlotKey 1 0, SlotState_default)]"
      and task = "\<lparr>pt_correlation_id = 1, pt_type = 1, pt_payload = [7, 8], pt_timeout_ms = 1000,
        pt_max_attempts = 2, pt_attempt_count = 1, pt_callback = Some 5, pt_user_data = 0\<rparr>"]
  by (simp add: map_find_def map_ok_def SlotState_default_def)

text \<open>
  The transport misreads the reply of this repository's own worker. \<open>TcpTaskReceiver\<close> answers
  with an extended header, the transport does not skip the extension: whatever the callback
  answered, the status it takes is the year of the worker's build, and the body begins with the
  rest of the build time and lacks the last six bytes.
\<close>

lemma transport_misreads_own_worker:
  fixes f :: task_callback and st :: u8
  assumes "length (pt_payload task) < 2 ^ 31"
    and "f (msg_code TASK) (pt_correlation_id task) (worker_id key) (slot_id key)
      (if pt_payload task = [] then None else Some (pt_payload task))
      (word_of_nat (length (pt_payload task))) = (st, n, buf)"
    and "unat n \<le> length buf" "length buf < 2 ^ 31 - 1"
    and "io_ok srv" "c_out srv = []"
      "c_in srv = header_bytes (transport_header task key) @ pt_payload task"
    and "handle_connection m (Some f) srv = Done srv'" "io_ok c" "c_in c = c_out srv'"
  defines "ext \<equiv> build_time_bytes (make_build_time_ext_from_build m)"
    and "reply \<equiv> answer (st, n, buf)"
  shows "transport_io (Some c) task key
    = Some (Some (bt_year_2d (make_build_time_ext_from_build m), tl (take (length reply) (ext @ reply))))"
proof -
  let ?h = "transport_header task key"
  have pl: "unat (word_of_nat (length (pt_payload task)) :: u32) = length (pt_payload task)"
    using assms(1) by (simp add: unat_of_nat)
  have "\<exists>cs'. handle_connection m (Some f) srv = Done cs'
      \<and> c_out cs' = c_out srv @ task_frame m (result_header ?h (length reply)) reply"
    unfolding reply_def
    by (rule handle_connection_bytes [where ext = "[]" and rest = "[]" and f = f and st = st and n = n
          and buf = buf and payload = "pt_payload task"])
      (use assms pl in \<open>simp_all add: ext_len_of_values\<close>)
  then have "c_in c = task_frame m (result_header ?h (length reply)) reply"
    using assms(6,8,10) by auto
  then have "c_in c = header_bytes (result_header ?h (length reply))
      @ take (length reply) (ext @ reply) @ drop (length reply) (ext @ reply)"
    by (simp only: task_frame_def ext_def append_take_drop_id)
  moreover have "length reply < 2 ^ 31" "reply \<noteq> []"
    using assms(4) by (auto simp: reply_def answer_def)
  moreover from this have "unat (word_of_nat (length reply) :: u32) = length reply"
    by (simp add: unat_of_nat)
  ultimately have "transport_io (Some c) task key
      = Some (Some (transport_result (result_header ?h (length reply)) (take (length reply) (ext @ reply))))"
    using assms(1,9) by (intro transport_io_reply) auto
  moreover have "hd (take (length reply) (ext @ reply)) = bt_year_2d (make_build_time_ext_from_build m)"
    "take (length reply) (ext @ reply) \<noteq> []"
    using \<open>reply \<noteq> []\<close> by (auto simp: ext_def build_time_bytes_def)
  ultimately show ?thesis
    unfolding transport_result_def by (simp only: result_header_fields) simp
qed

lemma transport_misreads_own_worker_witness:
  "\<exists>m task srv srv'. handle_connection m (Some echo) srv = Done srv'
     \<and> c_in srv = header_bytes (transport_header task (SlotKey 1 0)) @ [7, 8]
     \<and> answer (status_code RESULT_OK, 2, [7, 8]) = [0, 7, 8]
     \<and> transport_io (Some (fresh_conn (c_out srv') Peer_closed)) task (SlotKey 1 0)
       = Some (Some (26, [6, 1]))"
proof -
  define m where "m = no_macros\<lparr>LINEP_BUILD_YEAR_2D := Some 26, LINEP_BUILD_MONTH := Some 6\<rparr>"
  define task where "task = \<lparr>pt_correlation_id = 1, pt_type = 1, pt_payload = [7, 8],
      pt_timeout_ms = 1000, pt_max_attempts = 2, pt_attempt_count = 1, pt_callback = Some 5,
      pt_user_data = 0\<rparr>"
  let ?key = "SlotKey 1 0"
  let ?srv = "fresh_conn (header_bytes (transport_header task ?key) @ [7, 8]) Peer_closed"
  have a: "answer (status_code RESULT_OK, 2, [7, 8]) = [0, 7, 8]" by (simp add: answer_def)
  have t: "pt_payload task = [7, 8]" by (simp add: task_def)
  have e: "make_build_time_ext_from_build m = \<lparr>bt_year_2d = 26, bt_month = 6, bt_day = 1, bt_hour = 0,
      bt_minute = 0, bt_second = 0\<rparr>"
    by (simp add: m_def no_macros_def make_build_time_ext_from_build_def macro_or_def)
  have "\<exists>cs'. handle_connection m (Some echo) ?srv = Done cs' \<and> c_out cs' = c_out ?srv
      @ task_frame m (result_header (transport_header task ?key)
          (length (answer (0, 2, [7, 8])))) (answer (0, 2, [7, 8]))"
    by (rule handle_connection_bytes [where ext = "[]" and rest = "[]" and f = echo and st = 0 and n = 2
          and buf = "[7, 8]" and payload = "[7, 8]"])
      (simp_all add: t ext_len_of_values echo_def)
  then obtain srv' where "handle_connection m (Some echo) ?srv = Done srv'" by blast
  note this [simp]
  have "transport_io (Some (fresh_conn (c_out srv') Peer_closed)) task ?key = Some (Some (26, [6, 1]))"
    using transport_misreads_own_worker [where task = task and key = ?key and f = echo and st = 0
        and n = 2 and buf = "[7, 8]" and srv = ?srv and srv' = srv' and m = m
        and c = "fresh_conn (c_out srv') Peer_closed"]
    by (simp add: t e echo_def answer_def build_time_bytes_def)
  moreover have "answer (status_code RESULT_OK, 2, [7, 8]) = [0, 7, 8]" using a by simp
  moreover have "c_in ?srv = header_bytes (transport_header task ?key) @ [7, 8]" by simp
  ultimately show ?thesis using \<open>handle_connection m (Some echo) ?srv = Done srv'\<close> by blast
qed

end
