(* ===== verification/Dispatch_Invariants.thy ===== *)
theory Dispatch_Invariants
  imports Scheduler
begin

text \<open>
  What the executions of the scheduler keep. Per dispatch: \<open>remaining\<close> counts the threads that
  have not yet decremented it, and at most one thread is the last one. Per correlation id: the
  invocations made and those still to come, from a dispatch that can call back or from a task
  that waits, never exceed one. For the counter of active threads: it is the number of threads
  created that have not left. The properties at the end rest on these invariants.
\<close>

section \<open>Counting\<close>

definition tally :: "('a \<Rightarrow> bool) \<Rightarrow> 'a list \<Rightarrow> int" where
  "tally P xs = int (length (filter P xs))"

lemma tally_simps [simp]:
  "tally P [] = 0"
  "tally P (x # xs) = of_bool (P x) + tally P xs"
  "tally P (xs @ ys) = tally P xs + tally P ys"
  by (simp_all add: tally_def)

lemma tally_nonneg [simp]: "0 \<le> tally P xs"
  by (simp add: tally_def)

lemma tally_update:
  "i < length xs \<Longrightarrow> tally P (xs[i := y]) = tally P xs - of_bool (P (xs ! i)) + of_bool (P y)"
proof (induction xs arbitrary: i)
  case (Cons x xs) then show ?case by (cases i) auto
qed simp

lemma tally_0_iff: "tally P xs = 0 \<longleftrightarrow> (\<forall>x\<in>set xs. \<not> P x)"
  by (auto simp: tally_def filter_empty_conv)

lemma tally_pos_iff: "0 < tally P xs \<longleftrightarrow> (\<exists>x\<in>set xs. P x)"
  by (auto simp: tally_def filter_empty_conv)

lemma tally_nth: "i < length xs \<Longrightarrow> P (xs ! i) \<Longrightarrow> 1 \<le> tally P xs"
  by (metis nth_mem tally_pos_iff int_one_le_iff_zero_less)

lemma tally_filter_le: "tally P (filter Q xs) \<le> tally P xs"
  by (induction xs) auto

lemma tally_map: "tally P (map f xs) = tally (P \<circ> f) xs"
  by (induction xs) auto

lemma tally_distinct:
  "(\<And>c. tally (\<lambda>x. f x = c) xs \<le> 1) \<Longrightarrow> distinct (map f xs)"
proof (induction xs)
  case (Cons x xs)
  have "tally (\<lambda>y. f y = c) xs \<le> 1" for c
    using Cons.prems [of c] by (cases "f x = c") auto
  then have "distinct (map f xs)" by (rule Cons.IH)
  moreover have "tally (\<lambda>y. f y = f x) xs = 0"
    by (rule order_antisym) (use Cons.prems [of "f x"] in auto)
  ultimately show ?case by (auto simp: tally_0_iff)
qed simp

section \<open>One dispatch\<close>

fun early :: "phase \<Rightarrow> bool" where
  "early Last = False"
| "early Leaving = False"
| "early Gone = False"
| "early _ = True"

abbreviation dispatch_id :: "dispatch \<Rightarrow> u32" where
  "dispatch_id d \<equiv> pt_correlation_id (ds_task d)"

abbreviation early_threads :: "dispatch \<Rightarrow> int" where
  "early_threads d \<equiv> tally (\<lambda>w. early (wk_phase w)) (ds_workers d)"

abbreviation last_threads :: "dispatch \<Rightarrow> int" where
  "last_threads d \<equiv> tally (\<lambda>w. wk_phase w = Last) (ds_workers d)"

definition dispatch_ok :: "dispatch \<Rightarrow> bool" where
  "dispatch_ok d \<longleftrightarrow> ds_remaining d = early_threads d
     \<and> last_threads d \<le> (if early_threads d = 0 then 1 else 0)"

text \<open>A dispatch that may still call back or put its task back.\<close>

definition capable :: "dispatch \<Rightarrow> bool" where
  "capable d \<longleftrightarrow> \<not> ds_done d \<and> 0 < early_threads d + last_threads d"

lemma set_phase_simps [simp]:
  "ds_task (set_phase j p d) = ds_task d"
  "ds_done (set_phase j p d) = ds_done d"
  "ds_partial (set_phase j p d) = ds_partial d"
  "ds_remaining (set_phase j p d) = ds_remaining d"
  "length (ds_workers (set_phase j p d)) = length (ds_workers d)"
  by (simp_all add: set_phase_def)

lemma threads_set_phase:
  assumes "j < length (ds_workers d)" "wk_phase (ds_workers d ! j) = p"
  shows "early_threads (set_phase j q d) = early_threads d - of_bool (early p) + of_bool (early q)"
    "last_threads (set_phase j q d) = last_threads d - of_bool (p = Last) + of_bool (q = Last)"
  using assms by (simp_all add: set_phase_def tally_update)

lemma call_back_ids: "x \<in> set (call_back t st p) \<Longrightarrow> fst (snd x) = pt_correlation_id t"
  by (auto simp: call_back_def split: option.splits)

lemma length_call_back: "length (call_back t st p) \<le> 1"
  by (auto simp: call_back_def split: option.splits)

lemma tally_call_back:
  "tally (\<lambda>x. fst (snd x) = c) (call_back t st p) \<le> of_bool (pt_correlation_id t = c)"
  by (auto simp: call_back_def split: option.splits)

text \<open>The effect of a thread on the shared state of its dispatch.\<close>

lemma last_thread_facts:
  assumes "last_thread d = (d', push, lg)"
  shows "ds_task d' = ds_task d" "ds_workers d' = ds_workers d" "ds_remaining d' = ds_remaining d"
    "tally (\<lambda>x. fst (snd x) = c) lg + tally (\<lambda>t. pt_correlation_id t = c) push
       \<le> of_bool (\<not> ds_done d \<and> dispatch_id d = c)"
  using assms tally_call_back [of c "ds_task d"]
  by (auto simp: last_thread_def complete_task_if_first_def Let_def split: if_splits)

lemma complete_facts:
  assumes "complete_task_if_first d st p = (r, d', lg)"
  shows "ds_task d' = ds_task d" "ds_workers d' = ds_workers d" "ds_remaining d' = ds_remaining d"
    "ds_done d'" "tally (\<lambda>x. fst (snd x) = c) lg \<le> of_bool (\<not> ds_done d \<and> dispatch_id d = c)"
  using assms tally_call_back [of c "ds_task d"]
  by (auto simp: complete_task_if_first_def split: if_splits)

lemma thread_effect_ok:
  assumes "thread_effect now net slots d w p = Some e" "dispatch_ok d"
    "j < length (ds_workers d)" "wk_phase (ds_workers d ! j) = p"
  defines "d' \<equiv> set_phase j (ef_phase e) (ef_dispatch e)"
  shows "ds_task d' = ds_task d" "dispatch_ok d'"
    "tally (\<lambda>x. fst (snd x) = c) (ef_log e) + tally (\<lambda>t. pt_correlation_id t = c) (ef_push e)
       + of_bool (dispatch_id d = c \<and> capable d') \<le> of_bool (dispatch_id d = c \<and> capable d)"
proof -
  define E where "E = early_threads d"
  define L where "L = last_threads d"
  have dok: "ds_remaining d = E" "E = 0 \<or> L = 0" "L \<le> 1" "0 \<le> E" "0 \<le> L"
    using assms(2) tally_nonneg [of "\<lambda>w. wk_phase w = Last" "ds_workers d"]
    by (auto simp: dispatch_ok_def E_def L_def split: if_splits intro: order_antisym)
  have e1: "early p \<Longrightarrow> 1 \<le> E"
    using tally_nth [of j "ds_workers d" "\<lambda>w. early (wk_phase w)"] assms(3,4) by (auto simp: E_def)
  have l1: "p = Last \<Longrightarrow> 1 \<le> L"
    using tally_nth [of j "ds_workers d" "\<lambda>w. wk_phase w = Last"] assms(3,4) by (auto simp: L_def)
  have W: "early_threads (set_phase j q x) = E - of_bool (early p) + of_bool (early q)"
      "last_threads (set_phase j q x) = L - of_bool (p = Last) + of_bool (q = Last)"
    if "ds_workers x = ds_workers d" for q x
    using threads_set_phase [of j x p q] assms(3,4) that by (simp_all add: E_def L_def)
  have CD: "dispatch_ok x \<longleftrightarrow> ds_remaining x = early_threads x
      \<and> last_threads x \<le> (if early_threads x = 0 then 1 else 0)"
    "early_threads d = E" "last_threads d = L" for x
    by (simp_all add: dispatch_ok_def E_def L_def)
  have "ds_task d' = ds_task d \<and> dispatch_ok d'
     \<and> tally (\<lambda>x. fst (snd x) = c) (ef_log e) + tally (\<lambda>t. pt_correlation_id t = c) (ef_push e)
       + of_bool (dispatch_id d = c \<and> capable d') \<le> of_bool (dispatch_id d = c \<and> capable d)"
  proof (cases p)
    case Transport
    then show ?thesis using assms(1) dok e1 unfolding d'_def
      by (auto simp: W CD capable_def split: option.splits)
  next
    case (Push r)
    then show ?thesis using assms(1) dok e1 unfolding d'_def
      by (auto simp: W CD capable_def split: if_splits)
  next
    case (Complete r)
    obtain b d2 lg where D: "complete_task_if_first d (pr_status r) (pr_payload r) = (b, d2, lg)"
      by (cases "complete_task_if_first d (pr_status r) (pr_payload r)")
    have "0 < E + L" using e1 dok Complete by simp
    then show ?thesis
      using assms(1) dok e1 Complete complete_facts(1-4) [OF D] complete_facts(5) [OF D, of c]
      unfolding d'_def by (auto simp: W CD capable_def D)
  next
    case Finish
    then show ?thesis using assms(1) dok e1 unfolding d'_def
      by (auto simp: W CD capable_def split: if_splits)
  next
    case Last
    obtain d2 pu lg where D: "last_thread d = (d2, pu, lg)" by (cases "last_thread d")
    have "E = 0" "L = 1" using l1 dok Last by auto
    then show ?thesis
      using assms(1) dok Last last_thread_facts(1-3) [OF D] last_thread_facts(4) [OF D, of c]
      unfolding d'_def by (auto simp: W CD capable_def D)
  next
    case Leaving
    then show ?thesis using assms(1) dok unfolding d'_def
      by (auto simp: W CD capable_def split: if_splits)
  qed (use assms(1) in auto)
  then show "ds_task d' = ds_task d" "dispatch_ok d'"
    "tally (\<lambda>x. fst (snd x) = c) (ef_log e) + tally (\<lambda>t. pt_correlation_id t = c) (ef_push e)
       + of_bool (dispatch_id d = c \<and> capable d') \<le> of_bool (dispatch_id d = c \<and> capable d)"
    by blast+
qed

section \<open>Correlation ids\<close>

definition made :: "u32 \<Rightarrow> invocation list \<Rightarrow> int" where
  "made c lg = tally (\<lambda>x. fst (snd x) = c) lg"

definition waiting :: "u32 \<Rightarrow> scheduler \<Rightarrow> int" where
  "waiting c s =
     (case sc_loop s of
        Passing _ _ dispatched \<Rightarrow>
          (if c \<in> set dispatched then 0 else tally (\<lambda>t. pt_correlation_id t = c) (sc_pending s))
      | _ \<Rightarrow> tally (\<lambda>t. pt_correlation_id t = c) (sc_pending s))"

definition in_flight :: "u32 \<Rightarrow> scheduler \<Rightarrow> int" where
  "in_flight c s = tally (\<lambda>d. dispatch_id d = c \<and> capable d) (sc_dispatches s)"

text \<open>The invocations made for an id and those that may still come.\<close>

definition claims_of :: "u32 \<Rightarrow> scheduler \<Rightarrow> int" where
  "claims_of c s = made c (sc_log s) + in_flight c s + waiting c s"

definition pass_ok :: "scheduler \<Rightarrow> bool" where
  "pass_ok s \<longleftrightarrow>
     (case sc_loop s of
        Passing _ tasks dispatched \<Rightarrow>
          distinct (map pt_correlation_id tasks)
          \<and> set (map pt_correlation_id tasks) \<subseteq> set (map pt_correlation_id (sc_pending s)) - set dispatched
      | _ \<Rightarrow> True)"

definition sched_inv :: "scheduler \<Rightarrow> bool" where
  "sched_inv s \<longleftrightarrow> (\<forall>d\<in>set (sc_dispatches s). dispatch_ok d) \<and> pass_ok s
     \<and> (\<forall>c. claims_of c s \<le> 1)
     \<and> (sc_corr_gen s \<noteq> 0 \<longrightarrow> (\<forall>c\<ge>sc_corr_gen s. claims_of c s = 0))"

lemma made_simps [simp]: "made c [] = 0" "made c (xs @ ys) = made c xs + made c ys" "0 \<le> made c xs"
  by (simp_all add: made_def)

lemma in_flight_nonneg [simp]: "0 \<le> in_flight c s"
  by (simp add: in_flight_def)

lemma waiting_nonneg [simp]: "0 \<le> waiting c s"
  by (auto simp: waiting_def split: loop_pc.splits)

lemma claims_nonneg: "0 \<le> claims_of c s"
  by (simp add: claims_of_def)

text \<open>A step of a dispatch thread.\<close>

lemma thread_step_claims:
  assumes "dispatch_one_slot now net i j s = Some s'" "sched_inv s"
  shows "claims_of c s' \<le> claims_of c s" "\<forall>d\<in>set (sc_dispatches s'). dispatch_ok d" "pass_ok s'"
    "sc_corr_gen s' = sc_corr_gen s"
proof -
  let ?d = "sc_dispatches s ! i"
  let ?w = "ds_workers ?d ! j"
  obtain e where I: "i < length (sc_dispatches s)" "j < length (ds_workers ?d)"
    and E: "thread_effect now net (sc_slots s) ?d ?w (wk_phase ?w) = Some e"
    and S: "s' = s\<lparr>sc_slots := ef_slots e, sc_pending := sc_pending s @ ef_push e,
               sc_active := sc_active s + ef_active e,
               sc_dispatches := (sc_dispatches s)[i := set_phase j (ef_phase e) (ef_dispatch e)],
               sc_log := sc_log s @ ef_log e\<rparr>"
    using assms(1) by (auto simp: dispatch_one_slot_def Let_def split: if_splits option.splits)
  let ?d' = "set_phase j (ef_phase e) (ef_dispatch e)"
  have ok: "dispatch_ok ?d" using assms(2) I by (auto simp: sched_inv_def)
  note F = thread_effect_ok [OF E ok I(2) refl]
  show "\<forall>d\<in>set (sc_dispatches s'). dispatch_ok d"
    using assms(2) F(2) set_update_subset_insert [of "sc_dispatches s" i ?d'] I
    by (auto simp: S sched_inv_def)
  have "in_flight c s' = in_flight c s - of_bool (dispatch_id ?d = c \<and> capable ?d)
      + of_bool (dispatch_id ?d = c \<and> capable ?d')"
    using I F(1) by (simp add: in_flight_def S tally_update)
  moreover have "waiting c s' \<le> waiting c s + tally (\<lambda>t. pt_correlation_id t = c) (ef_push e)"
    by (auto simp: waiting_def S split: loop_pc.splits)
  moreover have "made c (sc_log s') = made c (sc_log s) + tally (\<lambda>x. fst (snd x) = c) (ef_log e)"
    by (simp add: S made_def)
  ultimately show "claims_of c s' \<le> claims_of c s"
    using F(3) [of c] by (simp add: claims_of_def)
  show "pass_ok s'"
    using assms(2) by (auto simp: S pass_ok_def sched_inv_def split: loop_pc.splits)
  show "sc_corr_gen s' = sc_corr_gen s" by (simp add: S)
qed

text \<open>A step of the loop thread.\<close>

lemma positions_iff:
  "(i, j) \<in> set (concat (map (\<lambda>i. map (Pair i) [0..<length (ds_workers (ds ! i))]) [0..<length ds]))
     \<longleftrightarrow> i < length ds \<and> j < length (ds_workers (ds ! i))"
  by (auto simp: image_iff)

lemma to_launch_Some:
  assumes "to_launch ds = Some (i, j)"
  shows "i < length ds" "j < length (ds_workers (ds ! i))"
    "wk_phase (ds_workers (ds ! i) ! j) = Unlaunched"
proof -
  obtain xs where "filter (\<lambda>(i, j). wk_phase (ds_workers (ds ! i) ! j) = Unlaunched)
      (concat (map (\<lambda>i. map (Pair i) [0..<length (ds_workers (ds ! i))]) [0..<length ds])) = (i, j) # xs"
    using assms unfolding to_launch_def by (auto split: list.splits)
  from arg_cong [OF this, of "\<lambda>l. (i, j) \<in> set l"]
  have "wk_phase (ds_workers (ds ! i) ! j) = Unlaunched \<and> i < length ds
      \<and> j < length (ds_workers (ds ! i))"
    unfolding set_filter mem_Collect_eq positions_iff by simp
  then show "i < length ds" "j < length (ds_workers (ds ! i))"
    "wk_phase (ds_workers (ds ! i) ! j) = Unlaunched" by auto
qed

lemma to_launch_None:
  assumes "to_launch ds = None" "d \<in> set ds" "w \<in> set (ds_workers d)"
  shows "wk_phase w \<noteq> Unlaunched"
proof
  assume U: "wk_phase w = Unlaunched"
  obtain i where i: "i < length ds" "ds ! i = d" using assms(2) by (auto simp: in_set_conv_nth)
  obtain j where j: "j < length (ds_workers d)" "ds_workers d ! j = w"
    using assms(3) by (auto simp: in_set_conv_nth)
  have "filter (\<lambda>(i, j). wk_phase (ds_workers (ds ! i) ! j) = Unlaunched)
      (concat (map (\<lambda>i. map (Pair i) [0..<length (ds_workers (ds ! i))]) [0..<length ds])) = []"
    using assms(1) unfolding to_launch_def by (simp split: list.splits)
  from arg_cong [OF this, of "\<lambda>l. (i, j) \<in> set l"] show False
    unfolding set_filter mem_Collect_eq positions_iff using i j U by simp
qed

lemma new_dispatch_ok [simp]: "dispatch_ok (new_dispatch t sel)"
  by (auto simp: dispatch_ok_def new_dispatch_def tally_map comp_def) (simp_all add: tally_def)

lemma new_dispatch_id [simp]: "dispatch_id (new_dispatch t sel) = pt_correlation_id t"
  by (simp add: new_dispatch_def)

lemma launch_ok:
  assumes "j < length (ds_workers d)" "wk_phase (ds_workers d ! j) = Unlaunched"
  shows "dispatch_ok (set_phase j Transport d) = dispatch_ok d"
    "capable (set_phase j Transport d) = capable d"
  using threads_set_phase [OF assms, of Transport] by (simp_all add: dispatch_ok_def capable_def)

lemma pass_step_claims:
  assumes "sched_inv s" and Passing: "sc_loop s = Passing t0 (t # ts) dispatched"
    and None: "to_launch (sc_dispatches s) = None"
  shows "claims_of c (loop_step srt now s) \<le> claims_of c s
    \<and> (\<forall>d\<in>set (sc_dispatches (loop_step srt now s)). dispatch_ok d)
    \<and> pass_ok (loop_step srt now s) \<and> sc_corr_gen (loop_step srt now s) = sc_corr_gen s"
proof -
  let ?s = "loop_step srt now s"
  have ok: "\<forall>d\<in>set (sc_dispatches s). dispatch_ok d" and ps: "pass_ok s"
    using assms(1) by (auto simp: sched_inv_def)
  let ?c = "pt_correlation_id t"
  let ?sel = "select_best_slots srt (sc_slots s) (pt_type t) t0 3"
  have P: "distinct (map pt_correlation_id ts)" "?c \<notin> set (map pt_correlation_id ts)"
      "set (map pt_correlation_id ts) \<subseteq> set (map pt_correlation_id (sc_pending s)) - set dispatched"
      "?c \<in> set (map pt_correlation_id (sc_pending s))" "?c \<notin> set dispatched"
    using ps by (auto simp: pass_ok_def Passing)
  have w1: "1 \<le> waiting ?c s"
    using P(4,5) tally_pos_iff [of "\<lambda>x. pt_correlation_id x = ?c" "sc_pending s"]
    by (fastforce simp: waiting_def Passing)
  have step: "?s = s\<lparr>sc_slots := mark_selected t0 ?sel (sc_slots s),
      sc_loop := Passing t0 ts (dispatched @ [?c]),
      sc_log := sc_log s @ (if ?sel = [] then call_back t (status_code RESULT_REJECTED) [] else []),
      sc_dispatches := sc_dispatches s @ (if ?sel = [] then [] else [new_dispatch t ?sel])\<rparr>"
    by (simp add: loop_step_def Passing None Let_def)
  have "waiting c ?s = waiting c s - of_bool (?c = c) * waiting c s"
    by (auto simp: step waiting_def Passing)
  moreover have "made c (sc_log ?s) + in_flight c ?s
      \<le> made c (sc_log s) + in_flight c s + of_bool (?c = c)"
    using tally_call_back [of c t] by (simp add: step made_def in_flight_def)
  ultimately have "claims_of c ?s \<le> claims_of c s"
    using w1 by (cases "?c = c") (auto simp: claims_of_def)
  moreover have "set (map pt_correlation_id ts)
      \<subseteq> set (map pt_correlation_id (sc_pending s)) - set (dispatched @ [?c])"
    using P(2,3) by (simp only: set_append list.set) blast
  then have "pass_ok ?s" using P(1) by (simp add: step pass_ok_def)
  moreover have "\<forall>d\<in>set (sc_dispatches ?s). dispatch_ok d" "sc_corr_gen ?s = sc_corr_gen s"
    using ok by (auto simp: step)
  ultimately show ?thesis by blast
qed

lemma loop_step_claims:
  assumes "sched_inv s"
  shows "claims_of c (loop_step srt now s) \<le> claims_of c s"
    "\<forall>d\<in>set (sc_dispatches (loop_step srt now s)). dispatch_ok d"
    "pass_ok (loop_step srt now s)" "sc_corr_gen (loop_step srt now s) = sc_corr_gen s"
proof -
  let ?s = "loop_step srt now s"
  have ok: "\<forall>d\<in>set (sc_dispatches s). dispatch_ok d" and ps: "pass_ok s"
    and cl: "claims_of c s \<le> 1" for c
    using assms by (auto simp: sched_inv_def)
  have "claims_of c ?s \<le> claims_of c s \<and> (\<forall>d\<in>set (sc_dispatches ?s). dispatch_ok d)
      \<and> pass_ok ?s \<and> sc_corr_gen ?s = sc_corr_gen s"
  proof (cases "sc_loop s")
    case Idle
    have "tally (\<lambda>t. pt_correlation_id t = c) (sc_pending s) \<le> 1" for c
    proof -
      have "waiting c s \<le> claims_of c s" by (simp add: claims_of_def)
      then show ?thesis using cl [of c] Idle by (simp add: waiting_def)
    qed
    then have "distinct (map pt_correlation_id (sc_pending s))" by (rule tally_distinct)
    then show ?thesis
      using ok Idle by (auto simp: loop_step_def Let_def pass_ok_def claims_of_def waiting_def in_flight_def)
  next
    case (Passing t0 tasks dispatched)
    show ?thesis
    proof (cases "to_launch (sc_dispatches s)")
      case (Some p)
      obtain i j where p: "p = (i, j)" by (cases p)
      note L = to_launch_Some [OF Some [unfolded p]]
      have "in_flight c ?s = in_flight c s"
        using L by (simp add: in_flight_def loop_step_def Passing Some p tally_update launch_ok)
      moreover have "\<forall>d\<in>set (sc_dispatches ?s). dispatch_ok d"
        using ok L set_update_subset_insert [of "sc_dispatches s" i "set_phase j Transport (sc_dispatches s ! i)"]
        by (auto simp: loop_step_def Passing Some p launch_ok)
      ultimately show ?thesis
        using ps by (simp add: loop_step_def Passing Some p claims_of_def waiting_def pass_ok_def)
    next
      case None
      show ?thesis
      proof (cases tasks)
        case Nil
        have "tally (\<lambda>t. pt_correlation_id t = c) (erase_dispatched dispatched (sc_pending s))
            \<le> waiting c s"
          by (auto simp: waiting_def Passing erase_dispatched_def tally_filter_le)
            (auto simp: tally_def filter_empty_conv)
        then show ?thesis
          using ok by (simp add: loop_step_def Passing None Nil claims_of_def pass_ok_def
              waiting_def in_flight_def)
      next
        case (Cons t ts)
        from pass_step_claims [OF assms Passing [unfolded Cons] None] show ?thesis by blast
      qed
    qed
  qed (use ok ps in \<open>simp_all add: loop_step_def\<close>)
  then show "claims_of c ?s \<le> claims_of c s" "\<forall>d\<in>set (sc_dispatches ?s). dispatch_ok d"
    "pass_ok ?s" "sc_corr_gen ?s = sc_corr_gen s" by blast+
qed

text \<open>All the steps.\<close>

lemma submit_claims:
  "claims_of c (snd (submit ty p tmo m cb ud s))
     \<le> claims_of c s + of_bool (c = sc_corr_gen s)"
  by (auto simp: submit_def Let_def claims_of_def in_flight_def waiting_def split: loop_pc.splits)

lemma claims_frame:
  assumes "sc_log s' = sc_log s" "sc_dispatches s' = sc_dispatches s" "sc_pending s' = sc_pending s"
    "sc_loop s' = sc_loop s \<or> sc_loop s \<in> {No_loop, Idle, Loop_done} \<and> sc_loop s' \<in> {No_loop, Idle, Loop_done}"
  shows "claims_of c s' = claims_of c s" "pass_ok s' = pass_ok s"
  using assms
  by (auto simp: claims_of_def in_flight_def waiting_def pass_ok_def cong: loop_pc.case_cong if_cong)

lemma u32_above_suc: "(g :: u32) + 1 \<noteq> 0 \<Longrightarrow> g + 1 \<le> c \<Longrightarrow> g < c"
  using unatSuc [of g] by (simp add: word_le_nat_alt word_less_nat_alt add.commute)

lemma sched_step_inv:
  assumes "sched_step srt s s'" "sched_inv s"
  shows "sched_inv s'"
    "c \<noteq> sc_corr_gen s \<or> sc_corr_gen s = sc_corr_gen s' \<Longrightarrow> claims_of c s' \<le> claims_of c s"
proof -
  have keep: "sched_inv s' \<and> claims_of c s' \<le> claims_of c s"
    if le: "\<And>c. claims_of c s' \<le> claims_of c s" and "\<forall>d\<in>set (sc_dispatches s'). dispatch_ok d" "pass_ok s'"
      "sc_corr_gen s' = sc_corr_gen s"
  proof -
    have "claims_of c s' \<le> 1" for c
      using le [of c] assms(2) by (meson order_trans sched_inv_def)
    moreover have "claims_of c s' = 0" if g: "sc_corr_gen s \<noteq> 0" "sc_corr_gen s \<le> c" for c
    proof -
      have "claims_of c s = 0" using assms(2) g by (simp add: sched_inv_def)
      then show ?thesis using le [of c] claims_nonneg [of c s'] by simp
    qed
    ultimately show ?thesis using that le by (simp add: sched_inv_def)
  qed
  have "sched_inv s' \<and> (c \<noteq> sc_corr_gen s \<or> sc_corr_gen s = sc_corr_gen s'
      \<longrightarrow> claims_of c s' \<le> claims_of c s)"
    using assms(1)
  proof (cases rule: sched_step.cases)
    case (Step_submit ty p tmo m cb ud)
    let ?g = "sc_corr_gen s"
    note S = Step_submit(1)
    have g: "sc_corr_gen s' = ?g + 1" by (simp add: S submit_def Let_def)
    have le: "claims_of c s' \<le> claims_of c s + of_bool (c = ?g)" for c
      unfolding S by (rule submit_claims)
    have inv: "claims_of c s \<le> 1" "?g \<le> c \<Longrightarrow> claims_of c s = 0" for c
      using assms(2) Step_submit(2) by (auto simp: sched_inv_def)
    have "claims_of c s' \<le> 1" for c
      using le [of c] inv(1) [of c] inv(2) [of ?g] by (cases "c = ?g") auto
    moreover have "claims_of c s' = 0" if "sc_corr_gen s' \<noteq> 0" "sc_corr_gen s' \<le> c" for c
      using that le [of c] inv(2) [of c] u32_above_suc [of ?g c] claims_nonneg [of c s'] g
      by (auto simp: less_le)
    moreover have "(\<forall>d\<in>set (sc_dispatches s'). dispatch_ok d) \<and> pass_ok s'"
      using assms(2) by (auto simp: S submit_def Let_def sched_inv_def pass_ok_def split: loop_pc.splits)
    ultimately show ?thesis
      using le [of c] g by (cases "c = ?g") (simp_all add: sched_inv_def)
  next
    case (Step_thread now net i j)
    show ?thesis using keep thread_step_claims [OF Step_thread assms(2)] by blast
  next
    case (Step_loop now)
    show ?thesis using keep loop_step_claims(1) [OF assms(2), of _ srt now]
      loop_step_claims(2-4) [OF assms(2), of srt now] Step_loop by blast
  next
    case Step_start
    then have "sc_loop s' = sc_loop s
        \<or> sc_loop s \<in> {No_loop, Idle, Loop_done} \<and> sc_loop s' \<in> {No_loop, Idle, Loop_done}"
      "sc_log s' = sc_log s" "sc_dispatches s' = sc_dispatches s" "sc_pending s' = sc_pending s"
      "sc_corr_gen s' = sc_corr_gen s"
      by (auto simp: sched_start_def stop_returns_def)
    then show ?thesis using keep claims_frame [of s' s] assms(2) by (simp add: sched_inv_def)
  qed (use keep claims_frame [of s' s] assms(2) in
      \<open>simp_all add: sched_inv_def register_slot_def apply_heartbeat_def sched_stop_request_def\<close>)
  then show "sched_inv s'"
    "c \<noteq> sc_corr_gen s \<or> sc_corr_gen s = sc_corr_gen s' \<Longrightarrow> claims_of c s' \<le> claims_of c s"
    by blast+
qed

lemma sched_inv_init [simp]: "sched_inv scheduler_init"
  by (simp add: sched_inv_def scheduler_init_def pass_ok_def claims_of_def in_flight_def waiting_def)

lemma sched_inv_reachable: "reachable srt s s' \<Longrightarrow> sched_inv s \<Longrightarrow> sched_inv s'"
  by (induction rule: reachable.induct) (auto dest: sched_step_inv)

text \<open>An id that nothing can call back any more never is.\<close>

definition forgotten :: "u32 \<Rightarrow> scheduler \<Rightarrow> bool" where
  "forgotten c s \<longleftrightarrow> sched_inv s \<and> claims_of c s = 0 \<and> (sc_corr_gen s = 0 \<or> c < sc_corr_gen s)"

lemma corr_gen_step:
  assumes "sched_step srt s s'" "sc_corr_gen s = 0 \<or> c < sc_corr_gen s"
  shows "sc_corr_gen s' = 0 \<or> c < sc_corr_gen s'"
proof -
  have *: "g + 1 = 0 \<or> c < g + 1" if "c < g" for g :: u32
    using that unatSuc [of g] by (simp add: word_less_nat_alt add.commute) (metis less_SucI)
  show ?thesis
    using assms(1)
  proof (cases rule: sched_step.cases)
    case Step_submit
    then show ?thesis using assms(2) * by (auto simp: submit_def Let_def)
  next
    case (Step_thread now net i j)
    then show ?thesis
      using assms(2) by (auto simp: dispatch_one_slot_def Let_def split: if_splits option.splits)
  next
    case (Step_loop now)
    then show ?thesis
      using assms(2) by (auto simp: loop_step_def Let_def split: loop_pc.splits option.splits list.splits)
  qed (use assms(2) in \<open>auto simp: register_slot_def apply_heartbeat_def sched_start_def
      sched_stop_request_def\<close>)
qed

lemma forgotten_step:
  assumes "sched_step srt s s'" "forgotten c s"
  shows "forgotten c s'"
proof -
  have "sc_corr_gen s = 0 \<Longrightarrow> sc_corr_gen s' = 0"
    using assms(1) by (cases rule: sched_step.cases)
      (auto simp: register_slot_def apply_heartbeat_def sched_start_def sched_stop_request_def
        dispatch_one_slot_def loop_step_def Let_def
        split: if_splits loop_pc.splits option.splits list.splits)
  then have "claims_of c s' \<le> claims_of c s"
    using assms by (intro sched_step_inv(2) [OF assms(1)]) (auto simp: forgotten_def)
  then show ?thesis
    using sched_step_inv(1) [OF assms(1)] corr_gen_step [OF assms(1), of c] assms(2)
      claims_nonneg [of c s'] by (auto simp: forgotten_def)
qed

lemma forgotten_reachable: "reachable srt s s' \<Longrightarrow> forgotten c s \<Longrightarrow> forgotten c s'"
  by (induction rule: reachable.induct) (auto dest: forgotten_step)

section \<open>Active threads\<close>

fun created :: "phase \<Rightarrow> bool" where
  "created Unlaunched = False"
| "created Gone = False"
| "created _ = True"

definition threads_of :: "dispatch \<Rightarrow> int" where
  "threads_of d = tally (\<lambda>w. created (wk_phase w)) (ds_workers d)"

definition active_inv :: "scheduler \<Rightarrow> bool" where
  "active_inv s \<longleftrightarrow> sc_active s = (\<Sum>d\<leftarrow>sc_dispatches s. threads_of d)
     \<and> (sc_loop s \<in> {No_loop, Idle, Loop_done} \<longrightarrow> to_launch (sc_dispatches s) = None)"

lemma sum_list_map_update:
  "i < length xs \<Longrightarrow> (\<Sum>x\<leftarrow>xs[i := y]. f x) = (\<Sum>x\<leftarrow>xs. f x) - f (xs ! i) + (f y :: int)"
proof (induction xs arbitrary: i)
  case (Cons x xs) then show ?case by (cases i) auto
qed simp

lemma threads_of_nonneg [simp]: "0 \<le> threads_of d"
  by (simp add: threads_of_def)

lemma thread_effect_active:
  assumes "thread_effect now net slots d w p = Some e" "j < length (ds_workers d)"
    "wk_phase (ds_workers d ! j) = p"
  shows "threads_of (set_phase j (ef_phase e) (ef_dispatch e)) = threads_of d + ef_active e"
    "ef_phase e \<noteq> Unlaunched" "ds_workers (ef_dispatch e) = ds_workers d" "p \<noteq> Unlaunched"
proof -
  have w: "ds_workers (ef_dispatch e) = ds_workers d"
    using assms(1) last_thread_facts(2) complete_facts(2)
    by (cases p) (auto simp: Let_def split: option.splits prod.splits)
  have *: "(created (ef_phase e) \<longleftrightarrow> p \<noteq> Leaving) \<and> created p \<and> ef_active e = - of_bool (p = Leaving)
      \<and> ef_phase e \<noteq> Unlaunched"
    using assms(1)
    by (cases p; simp add: split_beta split: option.splits if_splits) auto
  then show "threads_of (set_phase j (ef_phase e) (ef_dispatch e)) = threads_of d + ef_active e"
    "ef_phase e \<noteq> Unlaunched" "p \<noteq> Unlaunched"
    using assms(2,3) w by (auto simp: threads_of_def set_phase_def tally_update)
  show "ds_workers (ef_dispatch e) = ds_workers d" by (rule w)
qed

lemma to_launch_None_iff:
  "to_launch ds = None \<longleftrightarrow> (\<forall>d\<in>set ds. \<forall>w\<in>set (ds_workers d). wk_phase w \<noteq> Unlaunched)"
proof
  assume R: "\<forall>d\<in>set ds. \<forall>w\<in>set (ds_workers d). wk_phase w \<noteq> Unlaunched"
  show "to_launch ds = None"
  proof (cases "to_launch ds")
    case (Some p)
    obtain i j where "p = (i, j)" by (cases p)
    then show ?thesis using to_launch_Some [of ds i j] Some R by (metis nth_mem)
  qed
qed (use to_launch_None in blast)

lemma active_step:
  assumes "sched_step srt s s'" "active_inv s"
  shows "active_inv s'"
  using assms(1)
proof (cases rule: sched_step.cases)
  case (Step_thread now net i j)
  let ?d = "sc_dispatches s ! i"
  let ?w = "ds_workers ?d ! j"
  obtain e where I: "i < length (sc_dispatches s)" "j < length (ds_workers ?d)"
    and E: "thread_effect now net (sc_slots s) ?d ?w (wk_phase ?w) = Some e"
    and S: "s' = s\<lparr>sc_slots := ef_slots e, sc_pending := sc_pending s @ ef_push e,
               sc_active := sc_active s + ef_active e,
               sc_dispatches := (sc_dispatches s)[i := set_phase j (ef_phase e) (ef_dispatch e)],
               sc_log := sc_log s @ ef_log e\<rparr>"
    using Step_thread by (auto simp: dispatch_one_slot_def Let_def split: if_splits option.splits)
  let ?d' = "set_phase j (ef_phase e) (ef_dispatch e)"
  note F = thread_effect_active [OF E I(2) refl]
  have W: "set (ds_workers ?d') \<subseteq> insert (?w\<lparr>wk_phase := ef_phase e\<rparr>) (set (ds_workers ?d))"
    unfolding set_phase_def F(3) using set_update_subset_insert by simp
  have "to_launch (sc_dispatches s') = None" if "to_launch (sc_dispatches s) = None"
    unfolding to_launch_None_iff
  proof (intro ballI)
    fix d w assume "d \<in> set (sc_dispatches s')" "w \<in> set (ds_workers d)"
    then have "d \<in> set (sc_dispatches s) \<and> w \<in> set (ds_workers d)
        \<or> w = ?w\<lparr>wk_phase := ef_phase e\<rparr> \<or> w \<in> set (ds_workers ?d)"
      using set_update_subset_insert [of "sc_dispatches s" i ?d'] W by (auto simp: S)
    then show "wk_phase w \<noteq> Unlaunched"
      using that F(2) nth_mem [OF I(1)] unfolding to_launch_None_iff by auto
  qed
  moreover have "(\<Sum>d\<leftarrow>sc_dispatches s'. threads_of d) = (\<Sum>d\<leftarrow>sc_dispatches s. threads_of d) + ef_active e"
    using I(1) F(1) by (simp add: S sum_list_map_update)
  ultimately show ?thesis
    using assms(2) by (auto simp: active_inv_def S)
next
  case (Step_loop now)
  show ?thesis
  proof (cases "sc_loop s")
    case (Passing t0 tasks dispatched)
    show ?thesis
    proof (cases "to_launch (sc_dispatches s)")
      case (Some p)
      obtain i j where p: "p = (i, j)" by (cases p)
      note L = to_launch_Some [OF Some [unfolded p]]
      have "threads_of (set_phase j Transport (sc_dispatches s ! i)) = threads_of (sc_dispatches s ! i) + 1"
        using L by (simp add: threads_of_def set_phase_def tally_update)
      then show ?thesis
        using L assms(2)
        by (simp add: Step_loop loop_step_def Passing Some p active_inv_def sum_list_map_update)
    next
      case None
      have "threads_of (new_dispatch t sel) = 0" for t sel
        by (auto simp: threads_of_def new_dispatch_def tally_0_iff)
      then show ?thesis
        using assms(2) None
        by (auto simp: Step_loop loop_step_def Passing active_inv_def Let_def split: list.splits)
    qed
  qed (use assms(2) in \<open>auto simp: Step_loop loop_step_def active_inv_def Let_def\<close>)
qed (use assms(2) in \<open>auto simp: active_inv_def submit_def Let_def register_slot_def
  apply_heartbeat_def sched_start_def sched_stop_request_def stop_returns_def\<close>)

lemma active_reachable: "reachable srt scheduler_init s \<Longrightarrow> active_inv s"
proof (induction "scheduler_init" s rule: reachable.induct)
  case Reach_refl
  then show ?case by (simp add: active_inv_def scheduler_init_def to_launch_None_iff)
qed (rule active_step)

section \<open>Invocations and example executions\<close>

definition invocations_of :: "u32 \<Rightarrow> scheduler \<Rightarrow> invocation list" where
  "invocations_of c s = filter (\<lambda>(f, c', status, payload, user_data). c' = c) (sc_log s)"

lemma made_invocations: "made c (sc_log s) = int (length (invocations_of c s))"
  by (simp add: made_def tally_def invocations_of_def case_prod_unfold)

text \<open>
  The example executions: one slot of one worker, alive and ready, and one submitted task with
  two attempts.
\<close>

definition one_slot :: scheduler where
  "one_slot = snd (sched_start (apply_heartbeat 1000
     \<lparr>hb_magic = 0x4C50, hb_version = 2, hb_msg_type = 1, hb_worker_id = 1, hb_slot_id = 0, hb_slot_flags = 3, hb_load = 0,
      hb_queue_depth = 0, hb_sequence = 1, hb_crc8 = 0\<rparr>
     (register_slot 1 0 1 ''10.0.0.1'' 19000 scheduler_init)))"

definition one_task :: scheduler where
  "one_task = snd (submit 1 [7] 1000 2 (Some 5) 0 one_slot)"

definition slot0 :: SlotState where
  "slot0 = SlotState_default\<lparr>ss_worker_id := 1, ss_slot_id := 0, ss_type := 1, ss_alive := True,
     ss_ready := True, ss_seq := 1, ss_last_heartbeat := 1000, ss_tcp_port := 19000,
     ss_ip := ''10.0.0.1''\<rparr>"

definition task0 :: PendingTask where
  "task0 = \<lparr>pt_correlation_id = 1, pt_type = 1, pt_payload = [7], pt_timeout_ms = 1000,
     pt_max_attempts = 2, pt_attempt_count = 0, pt_callback = Some 5, pt_user_data = 0\<rparr>"

lemma one_task_eq:
  "one_task = \<lparr>sc_slots = [(SlotKey 1 0, slot0)], sc_pending = [task0], sc_running = True,
     sc_active = 0, sc_corr_gen = 2, sc_loop = Idle, sc_dispatches = [], sc_log = []\<rparr>"
  by (simp add: one_task_def one_slot_def scheduler_init_def register_slot_def apply_heartbeat_def
      sched_start_def submit_def map_at_def map_find_def apply_heartbeat_slot_def
      has_flag_def slot_flag_code_def strncpy63_def slot0_def task0_def SlotState_default_def)

definition dispatch0 :: "phase \<Rightarrow> int \<Rightarrow> dispatch" where
  "dispatch0 p n = \<lparr>ds_task = task0\<lparr>pt_attempt_count := 1\<rparr>, ds_done = False, ds_partial = [],
     ds_remaining = n, ds_workers = [\<lparr>wk_slot = SlotKey 1 0, wk_phase = p\<rparr>]\<rparr>"

lemma eligible_slot0: "is_eligible slot0 2000"
  by (simp add: is_eligible_def slot0_def SlotState_default_def HEARTBEAT_TIMEOUT_def seconds_def)

lemma select_slot0: "select_best_slots insertion_sort [(SlotKey 1 0, slot0)] 1 2000 3 = [SlotKey 1 0]"
proof -
  have "ss_type slot0 = 1" by (simp add: slot0_def)
  then show ?thesis
    by (simp add: select_best_slots_def candidates_def insertion_sort_def eligible_slot0)
qed

text \<open>
  The schedule: the pass takes the snapshot, dispatches and creates the thread; then the thread
  runs to its end, the connection refused, while the pass has not yet reached the erase.
\<close>

definition before_erase :: scheduler where
  "before_erase = \<lparr>sc_slots = [(SlotKey 1 0, slot0\<lparr>ss_busy := False, ss_last_used := 2000,
       ss_timeout_count := 1, ss_cooldown_until := 5000002000\<rparr>)],
     sc_pending = [task0, task0\<lparr>pt_attempt_count := 1\<rparr>], sc_running = True, sc_active = 0,
     sc_corr_gen = 2, sc_loop = Passing 2000 [] [1], sc_dispatches = [dispatch0 Gone 0], sc_log = []\<rparr>"

lemma before_erase_reachable: "reachable insertion_sort scheduler_init before_erase"
proof -
  let ?R = "reachable insertion_sort scheduler_init"
  let ?L = "loop_step insertion_sort 2000"
  note step = Reach_step
  have loop: "?R s \<Longrightarrow> ?R (?L s)" for s by (erule step) (rule Step_loop)
  have thread: "?R s \<Longrightarrow> dispatch_one_slot 2000 None 0 0 s = Some s' \<Longrightarrow> ?R s'" for s s'
    by (erule step) (erule Step_thread)
  define sl where "sl = slot0\<lparr>ss_busy := True, ss_last_used := 2000\<rparr>"
  define S where "S = (\<lambda>slot pend act loop ds. \<lparr>sc_slots = [(SlotKey 1 0, slot)], sc_pending = pend,
     sc_running = True, sc_active = act, sc_corr_gen = 2, sc_loop = loop, sc_dispatches = ds,
     sc_log = []\<rparr> :: scheduler)"
  have "?R one_slot"
    unfolding one_slot_def
    by (intro step [OF step [OF step [OF Reach_refl Step_register] Step_heartbeat] Step_start])
      (simp add: register_slot_def apply_heartbeat_def scheduler_init_def stop_returns_def)
  then have "?R one_task"
    unfolding one_task_def by (rule step) (rule Step_submit, simp add: one_slot_def
      sched_start_def register_slot_def apply_heartbeat_def scheduler_init_def)
  then have 1: "?R (S slot0 [task0] 0 Idle [])" by (simp add: one_task_eq S_def)
  have "?L (S slot0 [task0] 0 Idle []) = S slot0 [task0] 0 (Passing 2000 [task0] []) []"
    by (simp add: loop_step_def S_def expire_stale_def map_each_def slot0_def HEARTBEAT_TIMEOUT_def
        seconds_def)
  with loop [OF 1] have 2: "?R (S slot0 [task0] 0 (Passing 2000 [task0] []) [])" by simp
  have "?L (S slot0 [task0] 0 (Passing 2000 [task0] []) [])
      = S sl [task0] 0 (Passing 2000 [] [1]) [dispatch0 Unlaunched 1]"
    by (simp add: loop_step_def S_def to_launch_def Let_def select_slot0 mark_selected_def
        map_modify_def map_find_def new_dispatch_def dispatch0_def sl_def task0_def)
  with loop [OF 2] have 3: "?R (S sl [task0] 0 (Passing 2000 [] [1]) [dispatch0 Unlaunched 1])"
    by simp
  have "?L (S sl [task0] 0 (Passing 2000 [] [1]) [dispatch0 Unlaunched 1])
      = S sl [task0] 1 (Passing 2000 [] [1]) [dispatch0 Transport 1]"
    by (simp add: loop_step_def S_def to_launch_def dispatch0_def set_phase_def)
  with loop [OF 3] have 4: "?R (S sl [task0] 1 (Passing 2000 [] [1]) [dispatch0 Transport 1])" by simp
  define sf where "sf = slot0\<lparr>ss_busy := False, ss_last_used := 2000, ss_timeout_count := 1,
      ss_cooldown_until := 5000002000\<rparr>"
  note D = dispatch_one_slot_def S_def dispatch0_def set_phase_def Let_def
  have 5: "?R (S sf [task0] 1 (Passing 2000 [] [1]) [dispatch0 Finish 1])"
    by (rule thread [OF 4]) (simp add: D dispatch_transport_def map_find_def transport_io_def
        on_slot_transport_failure_def map_modify_def cooldown_for_def seconds_def sl_def sf_def
        slot0_def SlotState_default_def)
  have 6: "?R (S sf [task0] 1 (Passing 2000 [] [1]) [dispatch0 Last 0])"
    by (rule thread [OF 5]) (simp add: D)
  have 7: "?R (S sf [task0, task0\<lparr>pt_attempt_count := 1\<rparr>] 1 (Passing 2000 [] [1]) [dispatch0 Leaving 0])"
    by (rule thread [OF 6]) (simp add: D last_thread_def task0_def)
  have "?R (S sf [task0, task0\<lparr>pt_attempt_count := 1\<rparr>] 0 (Passing 2000 [] [1]) [dispatch0 Gone 0])"
    by (rule thread [OF 7]) (simp add: D)
  then show ?thesis by (simp add: before_erase_def S_def sf_def)
qed

text \<open>
  The state after the erase, and, from there, after \<open>stop\<close>.
\<close>

definition after_erase :: scheduler where
  "after_erase = before_erase\<lparr>sc_pending := [], sc_loop := Idle\<rparr>"

lemma after_erase_reachable: "reachable insertion_sort scheduler_init after_erase"
proof -
  have "loop_step insertion_sort 2000 before_erase = after_erase"
    by (simp add: loop_step_def before_erase_def after_erase_def to_launch_def dispatch0_def
        erase_dispatched_def task0_def)
  then show ?thesis using Reach_step [OF before_erase_reachable Step_loop, of 2000] by simp
qed

definition after_stop :: scheduler where
  "after_stop = after_erase\<lparr>sc_running := False, sc_loop := Loop_done\<rparr>"

lemma after_stop_reachable: "reachable insertion_sort scheduler_init after_stop"
proof -
  have "loop_step insertion_sort 3000 (sched_stop_request after_erase) = after_stop"
    by (simp add: loop_step_def after_erase_def sched_stop_request_def after_stop_def)
  then show ?thesis
    using Reach_step [OF Reach_step [OF after_erase_reachable Step_stop] Step_loop, of 3000] by simp
qed

text \<open>Without any slot the task is rejected.\<close>

definition no_slot :: scheduler where
  "no_slot = snd (submit 1 [7] 1000 2 (Some 5) 0 (snd (sched_start scheduler_init)))"

definition rejected :: scheduler where
  "rejected = no_slot\<lparr>sc_loop := Passing 2000 [] [1], sc_log := [(5, 1, 0x01, [], 0)]\<rparr>"

lemma rejected_reachable: "reachable insertion_sort scheduler_init rejected"
proof -
  have "loop_step insertion_sort 2000 (loop_step insertion_sort 2000 no_slot) = rejected"
    by (simp add: loop_step_def no_slot_def rejected_def submit_def sched_start_def scheduler_init_def
        expire_stale_def map_each_def to_launch_def Let_def select_best_slots_def candidates_def
        insertion_sort_def mark_selected_def call_back_def)
  moreover have "reachable insertion_sort scheduler_init no_slot"
    unfolding no_slot_def
    by (intro Reach_step [OF Reach_step [OF Reach_refl Step_start] Step_submit])
      (simp_all add: stop_returns_def scheduler_init_def sched_start_def)
  ultimately show ?thesis by (metis Reach_step Step_loop)
qed

section \<open>Properties\<close>

text \<open>
  C1: In every execution from the initial state, with any workers, networks, clocks, retries and
  interleaving of the threads, the callback of a task is invoked at most once.
\<close>

theorem at_most_one_callback:
  assumes "reachable srt scheduler_init s"
  shows "length (invocations_of c s) \<le> 1"
proof -
  have "claims_of c s \<le> 1" using sched_inv_reachable [OF assms sched_inv_init] by (simp add: sched_inv_def)
  then show ?thesis
    using in_flight_nonneg [of c s] waiting_nonneg [of c s]
    unfolding claims_of_def made_invocations by linarith
qed


theorem at_most_one_callback_witness:
  "invocations_of 1 rejected = [(5, 1, 0x01, [], 0)] \<and> length (invocations_of 1 rejected) \<le> 1"
  using at_most_one_callback [OF rejected_reachable, of 1]
  by (simp add: invocations_of_def rejected_def)


text \<open>
  A task can be lost. A dispatch whose only attempt fails puts the task back for its second
  attempt; when that happens before the pass that dispatched it reaches its erase, the erase
  removes the retry too. The execution below ends with nothing pending, every thread gone, one of
  two attempts made, and in no continuation is the callback ever invoked.
\<close>

lemma retry_can_be_lost:
  "\<exists>s. reachable insertion_sort scheduler_init s
     \<and> map (\<lambda>d. (pt_correlation_id (ds_task d), pt_attempt_count (ds_task d),
                 pt_max_attempts (ds_task d), pt_callback (ds_task d))) (sc_dispatches s)
         = [(1, 1, 2, Some 5)]
     \<and> sc_running s \<and> sc_pending s = [] \<and> sc_active s = 0
     \<and> {s'. reachable insertion_sort s s'} \<subseteq> {s'. invocations_of 1 s' = []}"
proof (intro exI conjI)
  show "reachable insertion_sort scheduler_init after_erase" by (rule after_erase_reachable)
  have "forgotten 1 after_erase"
    using sched_inv_reachable [OF after_erase_reachable sched_inv_init]
    by (simp add: forgotten_def claims_of_def in_flight_def waiting_def after_erase_def
        before_erase_def dispatch0_def capable_def)
  then have "forgotten 1 s'" if "reachable insertion_sort after_erase s'" for s'
    using that forgotten_reachable by blast
  then have "claims_of 1 s' = 0" if "reachable insertion_sort after_erase s'" for s'
    using that by (simp add: forgotten_def)
  then have "invocations_of 1 s' = []" if "reachable insertion_sort after_erase s'" for s'
    using that made_invocations [of 1 s'] in_flight_nonneg [of 1 s'] waiting_nonneg [of 1 s']
    unfolding claims_of_def by (metis add_nonneg_eq_0_iff length_0_conv made_simps(3) of_nat_eq_0_iff
        add_nonneg_nonneg)
  then show "{s'. reachable insertion_sort after_erase s'} \<subseteq> {s'. invocations_of 1 s' = []}"
    by blast
qed (simp_all add: after_erase_def before_erase_def dispatch0_def task0_def)

end
