(* ===== verification/Config.thy ===== *)
theory Config
  imports Cpp_String
begin

text \<open>
  The configuration of the embedding service: the INI-style reader of \<open>embedding_config.cpp\<close> with
  its conversions, checks and exceptions, and the command line of \<open>embedding_server.cpp\<close>. The
  file system is a function from paths to contents. \<open>std::size_t\<close> has 64 bits; an \<open>int\<close> field is
  an \<open>int\<close> in the 32-bit range, which \<open>std::stoi\<close> enforces.
\<close>

section \<open>Fields\<close>

record EmbeddingConfig =
  ec_host :: string
  ec_port :: int
  ec_model_path :: string
  ec_device :: string
  ec_max_seq_len :: u64
  ec_dims :: u64
  ec_normalize_default :: bool
  ec_cache_dir :: string
  ec_startup_probe :: bool
  ec_allow_cpu_fallback :: bool
  ec_tokenizer_extension_dll :: string
  ec_linep_enabled :: bool
  ec_linep_heartbeat_host :: string
  ec_linep_heartbeat_port :: int
  ec_linep_tcp_port :: int
  ec_linep_heartbeat_interval_ms :: int
  ec_linep_worker_id :: u32
  ec_linep_slot_id :: u32

definition EmbeddingConfig_default :: EmbeddingConfig where
  "EmbeddingConfig_default =
     \<lparr>ec_host = ''127.0.0.1'', ec_port = 8030,
      ec_model_path = ''C:/ai/models/OpenVINO/Qwen3-Embedding-0.6B-fp16-ov'',
      ec_device = ''NPU'', ec_max_seq_len = 512, ec_dims = 0, ec_normalize_default = True,
      ec_cache_dir = ''C:/ai/cache/openvino'', ec_startup_probe = True,
      ec_allow_cpu_fallback = True, ec_tokenizer_extension_dll = '''', ec_linep_enabled = False,
      ec_linep_heartbeat_host = ''127.0.0.1'', ec_linep_heartbeat_port = 8768,
      ec_linep_tcp_port = 8767, ec_linep_heartbeat_interval_ms = 1000, ec_linep_worker_id = 30,
      ec_linep_slot_id = 0\<rparr>"

section \<open>Values\<close>

definition trim :: "string \<Rightarrow> string" where
  "trim value = rev (dropWhile is_space (rev (dropWhile is_space value)))"

definition strip_quotes :: "string \<Rightarrow> string" where
  "strip_quotes value =
     (let value = trim value
      in if length value \<ge> 2 \<and> ((hd value = CHR 0x22 \<and> last value = CHR 0x22)
                                 \<or> (hd value = CHR 0x27 \<and> last value = CHR 0x27))
         then substr value 1 (length value - 2)
         else value)"

definition parse_bool :: "string \<Rightarrow> bool" where
  "parse_bool value =
     (let lower = strip_quotes (trim (map tolower value))
      in lower = ''1'' \<or> lower = ''true'' \<or> lower = ''yes'' \<or> lower = ''on'')"

definition parse_size :: "string \<Rightarrow> u64 result" where
  "parse_size value = stoull (strip_quotes value)"

definition parse_int :: "string \<Rightarrow> int result" where
  "parse_int value = stoi (strip_quotes value)"

section \<open>Lines\<close>

text \<open>\<open>std::getline\<close> until the end of the stream.\<close>

fun getlines :: "string \<Rightarrow> string list" where
  "getlines [] = []"
| "getlines (c # s) =
     (if c = CHR 0x0A then [] # getlines s
      else case getlines s of [] \<Rightarrow> [[c]] | l # ls \<Rightarrow> (c # l) # ls)"

definition set_config :: "string \<Rightarrow> string \<Rightarrow> EmbeddingConfig \<Rightarrow> EmbeddingConfig result" where
  "set_config fq value c =
     (if fq = ''server.host'' then Inr (c\<lparr>ec_host := strip_quotes value\<rparr>)
      else if fq = ''server.port'' then bindR (parse_int value) (\<lambda>v. Inr (c\<lparr>ec_port := v\<rparr>))
      else if fq = ''model.path'' then Inr (c\<lparr>ec_model_path := strip_quotes value\<rparr>)
      else if fq = ''model.device'' then Inr (c\<lparr>ec_device := strip_quotes value\<rparr>)
      else if fq = ''model.max_seq_len''
      then bindR (parse_size value) (\<lambda>v. Inr (c\<lparr>ec_max_seq_len := v\<rparr>))
      else if fq = ''model.dims'' then bindR (parse_size value) (\<lambda>v. Inr (c\<lparr>ec_dims := v\<rparr>))
      else if fq = ''model.normalize_default'' then Inr (c\<lparr>ec_normalize_default := parse_bool value\<rparr>)
      else if fq = ''runtime.cache_dir'' then Inr (c\<lparr>ec_cache_dir := strip_quotes value\<rparr>)
      else if fq = ''runtime.startup_probe'' then Inr (c\<lparr>ec_startup_probe := parse_bool value\<rparr>)
      else if fq = ''runtime.allow_cpu_fallback''
      then Inr (c\<lparr>ec_allow_cpu_fallback := parse_bool value\<rparr>)
      else if fq = ''runtime.tokenizer_extension_dll''
      then Inr (c\<lparr>ec_tokenizer_extension_dll := strip_quotes value\<rparr>)
      else if fq = ''linep.enabled'' then Inr (c\<lparr>ec_linep_enabled := parse_bool value\<rparr>)
      else if fq = ''linep.heartbeat_host''
      then Inr (c\<lparr>ec_linep_heartbeat_host := strip_quotes value\<rparr>)
      else if fq = ''linep.heartbeat_port''
      then bindR (parse_int value) (\<lambda>v. Inr (c\<lparr>ec_linep_heartbeat_port := v\<rparr>))
      else if fq = ''linep.tcp_port''
      then bindR (parse_int value) (\<lambda>v. Inr (c\<lparr>ec_linep_tcp_port := v\<rparr>))
      else if fq = ''linep.heartbeat_interval_ms''
      then bindR (parse_int value) (\<lambda>v. Inr (c\<lparr>ec_linep_heartbeat_interval_ms := v\<rparr>))
      else if fq = ''linep.worker_id''
      then bindR (parse_int value) (\<lambda>v. Inr (c\<lparr>ec_linep_worker_id := word_of_int v\<rparr>))
      else if fq = ''linep.slot_id''
      then bindR (parse_int value) (\<lambda>v. Inr (c\<lparr>ec_linep_slot_id := word_of_int v\<rparr>))
      else Inr c)"

text \<open>One line, with the current section.\<close>

definition config_line ::
  "string \<times> EmbeddingConfig \<Rightarrow> string \<Rightarrow> (string \<times> EmbeddingConfig) result" where
  "config_line st line =
     (case st of (section, config) \<Rightarrow>
      let line = (case find_str ''#'' line of None \<Rightarrow> line | Some comment \<Rightarrow> substr line 0 comment);
          line = trim line
      in if line = [] then Inr (section, config)
         else if hd line = CHR ''['' \<and> last line = CHR '']''
         then Inr (trim (substr line 1 (length line - 2)), config)
         else case find_str ''='' line of
                None \<Rightarrow> Inr (section, config)
              | Some eq \<Rightarrow>
                  (let key = trim (substr line 0 eq);
                       value = trim (substr_end line (eq + 1));
                       fq = (if section = [] then key else section @ ''.'' @ key)
                   in bindR (set_config fq value config) (\<lambda>c. Inr (section, c))))"

fun config_lines ::
  "string \<times> EmbeddingConfig \<Rightarrow> string list \<Rightarrow> (string \<times> EmbeddingConfig) result" where
  "config_lines st [] = Inr st"
| "config_lines st (l # ls) = bindR (config_line st l) (\<lambda>st. config_lines st ls)"

section \<open>Checks\<close>

definition check_config :: "EmbeddingConfig \<Rightarrow> EmbeddingConfig result" where
  "check_config c =
     (if ec_port c < 1 \<or> ec_port c > 65535
      then Inl (Runtime_error ''server.port must be in range 1..65535'')
      else if ec_max_seq_len c < 1
      then Inl (Runtime_error ''model.max_seq_len must be greater than zero'')
      else if ec_model_path c = [] then Inl (Runtime_error ''model.path is required'')
      else if ec_device c = [] then Inl (Runtime_error ''model.device is required'')
      else if ec_linep_enabled c then
        (if ec_linep_heartbeat_port c < 1 \<or> ec_linep_heartbeat_port c > 65535
         then Inl (Runtime_error ''linep.heartbeat_port must be in range 1..65535'')
         else if ec_linep_tcp_port c < 1 \<or> ec_linep_tcp_port c > 65535
         then Inl (Runtime_error ''linep.tcp_port must be in range 1..65535'')
         else if ec_linep_heartbeat_interval_ms c < 50
         then Inl (Runtime_error ''linep.heartbeat_interval_ms must be >= 50'')
         else if ec_linep_worker_id c > 65535
         then Inl (Runtime_error ''linep.worker_id must be <= 65535'')
         else if ec_linep_slot_id c > 255
         then Inl (Runtime_error ''linep.slot_id must be <= 255'')
         else Inr c)
      else Inr c)"

definition load_embedding_config ::
  "(string \<Rightarrow> string option) \<Rightarrow> string \<Rightarrow> EmbeddingConfig result" where
  "load_embedding_config fs path =
     (if path = [] then Inr EmbeddingConfig_default
      else case fs path of
             None \<Rightarrow> Inl (Runtime_error (''Could not open embedding config: '' @ path))
           | Some input \<Rightarrow>
               bindR (config_lines ([], EmbeddingConfig_default) (getlines input))
                 (\<lambda>(_, config). check_config config))"

section \<open>The command line\<close>

text \<open>\<open>parse_args\<close> prints the usage and exits, throws, or returns.\<close>

datatype args_outcome = Usage_exit | Args_throw exn | Args_config EmbeddingConfig

definition value_after :: "string \<Rightarrow> string \<Rightarrow> string" where
  "value_after arg pre = substr_end arg (length pre)"

definition config_path_of :: "string list \<Rightarrow> string" where
  "config_path_of args =
     foldl (\<lambda>p arg. if starts_with ''--config='' arg then value_after arg ''--config='' else p) [] args"

fun apply_args :: "EmbeddingConfig \<Rightarrow> string list \<Rightarrow> args_outcome" where
  "apply_args config [] = Args_config config"
| "apply_args config (arg # args) =
     (if arg = ''--help'' \<or> arg = ''-h'' then Usage_exit
      else if starts_with ''--config='' arg then apply_args config args
      else if starts_with ''--port='' arg then
        (case stoi (value_after arg ''--port='') of
           Inl e \<Rightarrow> Args_throw e | Inr v \<Rightarrow> apply_args (config\<lparr>ec_port := v\<rparr>) args)
      else if starts_with ''--device='' arg
      then apply_args (config\<lparr>ec_device := value_after arg ''--device=''\<rparr>) args
      else if starts_with ''--model='' arg
      then apply_args (config\<lparr>ec_model_path := value_after arg ''--model=''\<rparr>) args
      else if starts_with ''--dims='' arg then
        (case stoull (value_after arg ''--dims='') of
           Inl e \<Rightarrow> Args_throw e | Inr v \<Rightarrow> apply_args (config\<lparr>ec_dims := v\<rparr>) args)
      else if starts_with ''--max-seq-len='' arg then
        (case stoull (value_after arg ''--max-seq-len='') of
           Inl e \<Rightarrow> Args_throw e | Inr v \<Rightarrow> apply_args (config\<lparr>ec_max_seq_len := v\<rparr>) args)
      else Args_throw (Runtime_error (''Unknown argument: '' @ arg)))"

text \<open>The arguments are those after the program name.\<close>

definition parse_args :: "(string \<Rightarrow> string option) \<Rightarrow> string list \<Rightarrow> args_outcome" where
  "parse_args fs args =
     (case load_embedding_config fs (config_path_of args) of
        Inl e \<Rightarrow> Args_throw e
      | Inr config \<Rightarrow> apply_args config args)"

section \<open>Reading back what was written\<close>

lemma find_str_single:
  "find_str [x] s = (if x \<in> set s then Some (length (takeWhile (\<lambda>y. y \<noteq> x) s)) else None)"
proof (induction s)
  case Nil
  then show ?case by (subst find_str.simps) (simp add: starts_with_def)
next
  case (Cons c s)
  then show ?case by (subst find_str.simps) (auto simp: starts_with_def)
qed

lemma trim_id: "s = [] \<or> \<not> is_space (hd s) \<and> \<not> is_space (last s) \<Longrightarrow> trim s = s"
proof (cases "s = []")
  case False
  assume "s = [] \<or> \<not> is_space (hd s) \<and> \<not> is_space (last s)"
  with False have "dropWhile is_space s = s" "dropWhile is_space (rev s) = rev s"
    by (simp_all add: dropWhile_eq_self_iff hd_rev)
  then show ?thesis by (simp add: trim_def)
qed (simp add: trim_def)

lemma trim_space_left [simp]: "trim (CHR '' '' # s) = trim s"
proof -
  have "is_space CHR '' ''" by (simp add: is_space_def code_of_def)
  then show ?thesis by (simp add: trim_def)
qed

lemma trim_space_right: "s \<noteq> [] \<Longrightarrow> \<not> is_space (hd s) \<Longrightarrow> \<not> is_space (last s) \<Longrightarrow> trim (s @ '' '') = s"
proof -
  assume s: "s \<noteq> []" "\<not> is_space (hd s)" "\<not> is_space (last s)"
  have sp: "is_space CHR '' ''" by (simp add: is_space_def code_of_def)
  have "dropWhile is_space (s @ '' '') = s @ '' ''" using s by (cases s) simp_all
  moreover have "dropWhile is_space (rev s) = rev s"
    using s by (auto simp: hd_rev intro!: dropWhile_eq_self_iff [THEN iffD2])
  ultimately show ?thesis by (simp add: trim_def sp)
qed

definition newline :: char where "newline = CHR 0x0A"

definition plain :: "string \<Rightarrow> bool" where
  "plain s \<longleftrightarrow> CHR ''#'' \<notin> set s \<and> newline \<notin> set s"

definition plain_key :: "string \<Rightarrow> bool" where
  "plain_key k \<longleftrightarrow> k \<noteq> [] \<and> list_all (\<lambda>c. \<not> is_space c \<and> c \<notin> set ''=#['') k"

definition plain_value :: "string \<Rightarrow> bool" where
  "plain_value v \<longleftrightarrow> v \<noteq> [] \<and> \<not> is_space (hd v) \<and> \<not> is_space (last v) \<and> CHR ''#'' \<notin> set v"

lemma config_line_entry:
  assumes "plain_key k" "plain_value v"
  shows "config_line (sec, c) (k @ '' = '' @ v)
    = bindR (set_config (if sec = [] then k else sec @ ''.'' @ k) v c) (\<lambda>c. Inr (sec, c))"
proof -
  let ?l = "k @ '' = '' @ v"
  have k: "k \<noteq> []" "\<forall>c\<in>set k. \<not> is_space c \<and> c \<noteq> CHR ''='' \<and> c \<noteq> CHR ''#'' \<and> c \<noteq> CHR ''[''"
    using assms(1) by (auto simp: plain_key_def list_all_iff)
  have v: "v \<noteq> []" "\<not> is_space (hd v)" "\<not> is_space (last v)" "CHR ''#'' \<notin> set v"
    using assms(2) by (auto simp: plain_value_def)
  have 1: "find_str ''#'' ?l = None" using k v by (auto simp: find_str_single)
  have 2: "trim ?l = ?l" using k v by (intro trim_id) auto
  have 3: "hd ?l \<noteq> CHR ''[''" using k by auto
  have "takeWhile (\<lambda>y. y \<noteq> CHR ''='') ?l = k @ '' ''"
    using k by (subst takeWhile_append2) auto
  then have 4: "find_str ''='' ?l = Some (Suc (length k))" by (simp add: find_str_single)
  have 5: "trim (substr ?l 0 (Suc (length k))) = k"
    using trim_space_right [of k] k by (simp add: substr_def)
  have 6: "trim (substr_end ?l (Suc (length k) + 1)) = v"
    using trim_id [of v] v by (simp add: substr_end_def)
  show ?thesis
    unfolding config_line_def prod.case 1 option.case Let_def 2
    using k 3 4 5 6 by simp
qed

lemma config_line_section:
  "plain_key k \<Longrightarrow> config_line (sec, c) (''['' @ k @ '']'') = Inr (k, c)"
proof -
  assume "plain_key k"
  then have k: "k \<noteq> []" "\<forall>c\<in>set k. \<not> is_space c \<and> c \<noteq> CHR ''#''"
    by (auto simp: plain_key_def list_all_iff)
  have b: "\<not> is_space CHR ''[''" "\<not> is_space CHR '']''" by (simp_all add: is_space_def code_of_def)
  have "trim (''['' @ k @ '']'') = ''['' @ k @ '']''" using b by (intro trim_id) auto
  moreover have "find_str ''#'' (''['' @ k @ '']'') = None" using k by (auto simp: find_str_single)
  moreover have "trim k = k" using k by (intro trim_id) auto
  ultimately show ?thesis by (simp add: config_line_def substr_def)
qed

lemma getlines_line: "newline \<notin> set l \<Longrightarrow> getlines (l @ newline # s) = l # getlines s"
  by (induction l) (auto simp: newline_def)

lemma getlines_lines:
  "\<forall>l\<in>set ls. newline \<notin> set l \<Longrightarrow> getlines (concat (map (\<lambda>l. l @ [newline]) ls)) = ls"
  by (induction ls) (auto simp: getlines_line)

definition quoted :: "string \<Rightarrow> string" where
  "quoted s = CHR 0x22 # s @ [CHR 0x22]"

definition show_bool :: "bool \<Rightarrow> string" where
  "show_bool b = (if b then ''true'' else ''false'')"

lemma strip_quotes_quoted [simp]: "strip_quotes (quoted s) = s"
proof -
  have "trim (quoted s) = quoted s"
    by (rule trim_id) (simp add: quoted_def is_space_def code_of_def)
  then show ?thesis by (simp add: strip_quotes_def quoted_def substr_def Let_def)
qed

lemma parse_bool_show [simp]: "parse_bool (show_bool b) = b"
  by (cases b) (simp_all add: parse_bool_def show_bool_def strip_quotes_def trim_def tolower_def
      is_space_def code_of_def Let_def)

lemma number_chars: "\<forall>c\<in>set (show_int i). is_digit c \<or> c = CHR ''-''" "show_int i \<noteq> []"
  "\<forall>c\<in>set (show_nat n). is_digit c" "show_nat n \<noteq> []"
  using show_nat_digits by (auto simp: show_int_def list_all_iff)

lemma number_char_plain:
  "is_digit c \<or> c = CHR ''-'' \<Longrightarrow> \<not> is_space c \<and> c \<noteq> CHR 0x22 \<and> c \<noteq> CHR 0x27 \<and> c \<noteq> CHR ''#''
    \<and> c \<noteq> newline"
  by (auto simp: is_digit_def is_space_def code_of_def newline_def Let_def)

lemma strip_quotes_plain:
  assumes "s \<noteq> []" "\<forall>c\<in>set s. is_digit c \<or> c = CHR ''-''"
  shows "strip_quotes s = s"
proof -
  have "\<not> is_space (hd s)" "\<not> is_space (last s)" "hd s \<noteq> CHR 0x22" "hd s \<noteq> CHR 0x27"
    using assms number_char_plain by (metis hd_in_set last_in_set)+
  then show ?thesis using trim_id [of s] by (simp add: strip_quotes_def Let_def)
qed

lemma stoi_show_int: "- (2 ^ 31) \<le> i \<Longrightarrow> i < 2 ^ 31 \<Longrightarrow> stoi (show_int i) = Inr i"
proof (cases "i < 0")
  case True
  assume r: "- (2 ^ 31) \<le> i"
  have [simp]: "takeWhile is_digit (show_nat (nat (- i))) = show_nat (nat (- i))"
      "show_nat (nat (- i)) \<noteq> []"
    using number_chars(3,4) [of "nat (- i)"] by (simp_all add: takeWhile_eq_all_conv)
  have "\<not> is_space CHR ''-''" by (simp add: is_space_def code_of_def)
  then have "strto (show_int i) = Some (True, nat (- i))"
    using True by (simp add: strto_def show_int_def Let_def)
  with True r show ?thesis by (simp add: stoi_def Let_def)
next
  case False
  assume "i < 2 ^ 31"
  with False show ?thesis using stoi_show [of "nat i"] by (simp add: show_int_def nat_less_iff)
qed

lemma parse_int_show [simp]: "- (2 ^ 31) \<le> i \<Longrightarrow> i < 2 ^ 31 \<Longrightarrow> parse_int (show_int i) = Inr i"
  using strip_quotes_plain [OF number_chars(2,1)] stoi_show_int by (simp add: parse_int_def)

lemma parse_size_show [simp]: "parse_size (show_nat (unat (w :: u64))) = Inr w"
  using strip_quotes_plain [of "show_nat (unat w)"] number_chars(3,4) [of "unat w"]
    stoull_show [of "unat w"] unsigned_less [of w]
  by (simp add: parse_size_def)

section \<open>Configuration files\<close>

text \<open>A file in the layout of \<open>embedding_config.example.toml\<close>, with every key.\<close>

definition entry :: "string \<Rightarrow> string \<Rightarrow> string" where
  "entry k v = k @ '' = '' @ v"

definition config_file :: "EmbeddingConfig \<Rightarrow> string list" where
  "config_file c =
    [''[server]'', entry ''host'' (quoted (ec_host c)), entry ''port'' (show_int (ec_port c)),
     ''[model]'', entry ''path'' (quoted (ec_model_path c)), entry ''device'' (quoted (ec_device c)),
     entry ''max_seq_len'' (show_nat (unat (ec_max_seq_len c))),
     entry ''dims'' (show_nat (unat (ec_dims c))),
     entry ''normalize_default'' (show_bool (ec_normalize_default c)),
     ''[runtime]'', entry ''cache_dir'' (quoted (ec_cache_dir c)),
     entry ''startup_probe'' (show_bool (ec_startup_probe c)),
     entry ''allow_cpu_fallback'' (show_bool (ec_allow_cpu_fallback c)),
     entry ''tokenizer_extension_dll'' (quoted (ec_tokenizer_extension_dll c)),
     ''[linep]'', entry ''enabled'' (show_bool (ec_linep_enabled c)),
     entry ''heartbeat_host'' (quoted (ec_linep_heartbeat_host c)),
     entry ''heartbeat_port'' (show_int (ec_linep_heartbeat_port c)),
     entry ''tcp_port'' (show_int (ec_linep_tcp_port c)),
     entry ''heartbeat_interval_ms'' (show_int (ec_linep_heartbeat_interval_ms c)),
     entry ''worker_id'' (show_int (sint (ec_linep_worker_id c))),
     entry ''slot_id'' (show_int (sint (ec_linep_slot_id c)))]"

definition render_config :: "EmbeddingConfig \<Rightarrow> string" where
  "render_config c = concat (map (\<lambda>l. l @ [newline]) (config_file c))"

definition in_int :: "int \<Rightarrow> bool" where "in_int i \<longleftrightarrow> - (2 ^ 31) \<le> i \<and> i < 2 ^ 31"

text \<open>Fields of their types, strings without \<open>#\<close> and without line breaks.\<close>

definition representable :: "EmbeddingConfig \<Rightarrow> bool" where
  "representable c \<longleftrightarrow>
     list_all in_int [ec_port c, ec_linep_heartbeat_port c, ec_linep_tcp_port c,
                      ec_linep_heartbeat_interval_ms c]
     \<and> list_all plain [ec_host c, ec_model_path c, ec_device c, ec_cache_dir c,
                       ec_tokenizer_extension_dll c, ec_linep_heartbeat_host c]"

text \<open>What the checks promise.\<close>

definition config_ok :: "EmbeddingConfig \<Rightarrow> bool" where
  "config_ok c \<longleftrightarrow>
     ec_port c \<in> {1..65535} \<and> ec_max_seq_len c \<noteq> 0 \<and> ec_model_path c \<noteq> [] \<and> ec_device c \<noteq> []
     \<and> (ec_linep_enabled c \<longrightarrow>
          ec_linep_heartbeat_port c \<in> {1..65535} \<and> ec_linep_tcp_port c \<in> {1..65535}
          \<and> ec_linep_heartbeat_interval_ms c \<ge> 50 \<and> unat (ec_linep_worker_id c) \<le> 65535
          \<and> unat (ec_linep_slot_id c) \<le> 255)"

lemma check_config_iff: "check_config c = Inr c' \<longleftrightarrow> c' = c \<and> config_ok c"
proof -
  have "ec_max_seq_len c < 1 \<longleftrightarrow> ec_max_seq_len c = 0" by (simp add: word_less_1)
  then show ?thesis
    by (auto simp: check_config_def config_ok_def word_less_nat_alt word_le_nat_alt not_less)
qed

lemma plain_value_quoted: "plain s \<Longrightarrow> plain_value (quoted s)"
  by (auto simp: plain_value_def quoted_def plain_def is_space_def code_of_def)

lemma plain_value_number: "plain_value (show_int i)" "plain_value (show_nat n)"
proof -
  have *: "plain_value s" if "s \<noteq> []" "\<forall>c\<in>set s. is_digit c \<or> c = CHR ''-''" for s
    using that number_char_plain unfolding plain_value_def by (metis hd_in_set last_in_set)
  show "plain_value (show_int i)" "plain_value (show_nat n)"
    using * [OF number_chars(2,1)] * [of "show_nat n"] number_chars(3,4) by auto
qed

lemma plain_value_bool: "plain_value (show_bool b)"
  by (auto simp: plain_value_def show_bool_def is_space_def code_of_def)

lemma line_free:
  "plain s \<Longrightarrow> newline \<notin> set (quoted s)" "newline \<notin> set (show_int i)" "newline \<notin> set (show_nat n)"
  "newline \<notin> set (show_bool b)"
  using number_chars(1) [of i] number_chars(3) [of n] number_char_plain
  by (auto simp: plain_def quoted_def show_bool_def newline_def)

lemmas plain_values = plain_value_quoted plain_value_number plain_value_bool

lemma entry_step:
  "plain_key k \<Longrightarrow> plain_value v \<Longrightarrow> sec \<noteq> [] \<Longrightarrow>
     config_lines (sec, c) (entry k v # ls)
       = bindR (set_config (sec @ ''.'' @ k) v c) (\<lambda>c. config_lines (sec, c) ls)"
  using config_line_entry [of k v sec c]
  by (cases "set_config (sec @ ''.'' @ k) v c") (simp_all add: entry_def)

lemma section_step:
  "plain_key k \<Longrightarrow> config_lines (sec, c) ((''['' @ k @ '']'') # ls) = config_lines (k, c) ls"
  by (simp only: config_lines.simps config_line_section bindR_simps)

lemma config_file_read:
  assumes "representable c"
  shows "config_lines ([], EmbeddingConfig_default) (config_file c) = Inr (''linep'', c)"
proof -
  have i: "in_int (ec_port c)" "in_int (ec_linep_heartbeat_port c)" "in_int (ec_linep_tcp_port c)"
      "in_int (ec_linep_heartbeat_interval_ms c)"
    and p: "plain (ec_host c)" "plain (ec_model_path c)" "plain (ec_device c)" "plain (ec_cache_dir c)"
      "plain (ec_tokenizer_extension_dll c)" "plain (ec_linep_heartbeat_host c)"
    using assms by (simp_all add: representable_def)
  have w: "parse_int (show_int (sint w)) = Inr (sint w)" for w :: u32
    using sint_lt [of w] sint_ge [of w] by (intro parse_int_show) simp_all
  have start: "config_file c = (''['' @ ''server'' @ '']'') # tl (config_file c)"
    by (simp add: config_file_def)
  have sections: "config_lines st (''[model]'' # ls) = config_lines (''model'', snd st) ls"
      "config_lines st (''[runtime]'' # ls) = config_lines (''runtime'', snd st) ls"
      "config_lines st (''[linep]'' # ls) = config_lines (''linep'', snd st) ls" for st ls
    using section_step [of "''model''" "fst st" "snd st" ls]
      section_step [of "''runtime''" "fst st" "snd st" ls] section_step [of "''linep''" "fst st" "snd st" ls]
    by (simp_all del: config_lines.simps add: plain_key_def is_space_def code_of_def)
  have "config_lines ([], EmbeddingConfig_default) (config_file c)
      = config_lines (''server'', EmbeddingConfig_default) (tl (config_file c))"
    by (subst start, rule section_step) (simp add: plain_key_def is_space_def code_of_def)
  also have "\<dots> = Inr (''linep'', c)"
    using i p unfolding config_file_def list.sel
    by (simp del: config_lines.simps(2) add: entry_step sections plain_key_def is_space_def code_of_def
        plain_value_quoted plain_value_number plain_value_bool set_config_def w in_int_def)
  finally show ?thesis .
qed

section \<open>Properties\<close>

lemma load_config_ok: "load_embedding_config fs path = Inr c \<Longrightarrow> config_ok c"
  by (auto simp: load_embedding_config_def check_config_iff bindR_eq_Inr config_ok_def
      EmbeddingConfig_default_def split: if_splits option.splits)


definition linep_config :: EmbeddingConfig where
  "linep_config = EmbeddingConfig_default\<lparr>ec_dims := 1024, ec_linep_enabled := True\<rparr>"


text \<open>
  Whatever a configuration file contains, a configuration that \<open>load_embedding_config\<close>
  returns is in range. The command line is not covered by these checks: \<open>--port\<close> may set any
  value of an \<open>int\<close>, valid as a port or not.
\<close>

lemma config_checked_except_args:
  assumes "load_embedding_config fs path = Inr c" "in_int p"
  shows "config_ok c
    \<and> parse_args fs [''--port='' @ show_int p] = Args_config (EmbeddingConfig_default\<lparr>ec_port := p\<rparr>)"
proof -
  have "stoi (show_int p) = Inr p" using assms(2) by (intro stoi_show_int) (simp_all add: in_int_def)
  then have "parse_args fs [''--port='' @ show_int p]
      = Args_config (EmbeddingConfig_default\<lparr>ec_port := p\<rparr>)"
    by (simp add: parse_args_def config_path_of_def starts_with_def load_embedding_config_def
        value_after_def substr_end_def)
  then show ?thesis using load_config_ok [OF assms(1)] by simp
qed

lemma config_checked_except_args_witness:
  "config_ok EmbeddingConfig_default
   \<and> parse_args (\<lambda>_. None) [''--port=-1'']
     = Args_config (EmbeddingConfig_default\<lparr>ec_port := - 1\<rparr>)
   \<and> \<not> config_ok (EmbeddingConfig_default\<lparr>ec_port := - 1\<rparr>)"
proof -
  have "show_int (- 1) = ''-1''" by code_simp
  then show ?thesis
    using config_checked_except_args [of "\<lambda>_. None" "[]" EmbeddingConfig_default "- 1"]
    by (simp add: load_embedding_config_def in_int_def config_ok_def)
qed

end
