(* ===== verification/Engine.thy ===== *)
theory Engine
  imports Config Ieee "HOL-Library.AList"
begin

text \<open>
  The embedding engine (\<open>embedding_engine.cpp\<close>): resolving the model files, loading with the
  fallback to the CPU, tokenising with padding, pooling on the last token, L2 normalisation. OpenVINO
  is a parameter: a record of functions for reading, reshaping and compiling models, and compiled
  models that map named tensors to results or exceptions. The file system says what a path is.
  Paths follow the Windows rules the service is built for. Sizes are \<open>nat\<close>.
\<close>

section \<open>Files\<close>

datatype file_kind = Missing | Regular | Directory

definition is_sep :: "char \<Rightarrow> bool" where "is_sep c = (c = CHR ''/'' \<or> c = CHR 0x5C)"

definition path_join :: "string \<Rightarrow> string \<Rightarrow> string" where
  "path_join p f =
     (if p = [] \<or> is_sep (last p) \<or> (length p = 2 \<and> p ! 1 = CHR '':'') then p @ f
      else p @ [CHR 0x5C] @ f)"

definition parent_path :: "string \<Rightarrow> string" where
  "parent_path p =
     (let root = (if length p \<ge> 2 \<and> p ! 1 = CHR '':'' then take 2 p else []);
          rel = drop (length root) p;
          dir = rev (dropWhile (\<lambda>c. \<not> is_sep c) (rev rel));
          cut = rev (dropWhile is_sep (rev dir))
      in root @ (if cut = [] then take 1 dir else cut))"

definition resolve_model_xml :: "(string \<Rightarrow> file_kind) \<Rightarrow> string \<Rightarrow> string" where
  "resolve_model_xml fsys model_path =
     (if fsys model_path = Directory then
        (let candidate = path_join model_path ''openvino_model.xml''
         in if fsys candidate \<noteq> Missing then candidate else model_path)
      else model_path)"

definition resolve_tokenizer_xml :: "(string \<Rightarrow> file_kind) \<Rightarrow> string \<Rightarrow> string" where
  "resolve_tokenizer_xml fsys model_path =
     (let path = (if fsys model_path = Regular then parent_path model_path else model_path);
          candidate = path_join path ''openvino_tokenizer.xml''
      in if fsys candidate \<noteq> Missing then candidate else [])"

section \<open>Tensors\<close>

datatype elem_type = F32 | F16 | I64 | I32 | String_type | Other_type

text \<open>
  The elements are in the list of their kind: \<open>float\<close> and half values, integers, strings. The
  string is what \<open>to_string\<close> of the element type gives.
\<close>

record tensor =
  te_type :: elem_type
  te_type_name :: string
  te_shape :: "nat list"
  te_floats :: "fp list"
  te_ints :: "int list"
  te_strings :: "string list"

definition te_size :: "tensor \<Rightarrow> nat" where "te_size t = prod_list (te_shape t)"

text \<open>The position of the last non-zero element, 0 when there is none.\<close>

fun last_set :: "nat \<Rightarrow> nat \<Rightarrow> int list \<Rightarrow> nat" where
  "last_set i l [] = l"
| "last_set i l (x # xs) = last_set (i + 1) (if x \<noteq> 0 then i else l) xs"

definition last_token_index_from_mask :: "tensor option \<Rightarrow> nat \<Rightarrow> nat" where
  "last_token_index_from_mask attention_mask fallback_seq_len =
     (let fallback = (if fallback_seq_len > 0 then fallback_seq_len - 1 else 0)
      in case attention_mask of
           None \<Rightarrow> fallback
         | Some m \<Rightarrow>
             if te_size m = 0 then fallback
             else let shape = te_shape m in
               if length shape < 2 \<or> shape ! 1 = 0 then fallback
               else if te_type m = I64 \<or> te_type m = I32
               then last_set 0 0 (take (shape ! 1) (te_ints m))
               else fallback)"

definition tensor_to_vector :: "tensor \<Rightarrow> tensor option \<Rightarrow> nat \<Rightarrow> fp list result" where
  "tensor_to_vector tensor attention_mask expected_dims =
     (if te_size tensor = 0 then Inl (Runtime_error ''embedding output tensor is empty'')
      else if te_type tensor \<noteq> F32 \<and> te_type tensor \<noteq> F16
      then Inl (Runtime_error (''unsupported embedding output element type: '' @ te_type_name tensor))
      else let shape = te_shape tensor; all = te_floats tensor in
        if length shape = 2 then Inr (take (shape ! 1) all)
        else if length shape = 3 then
          (let seq_len = shape ! 1; dims = shape ! 2;
               selected_dims = (if expected_dims > 0 then expected_dims else dims)
           in if selected_dims > dims
              then Inl (Runtime_error ''configured dims exceed output hidden size'')
              else let token_index = min (last_token_index_from_mask attention_mask seq_len) (seq_len - 1);
                       offset = token_index * dims
                in Inr (take selected_dims (drop offset all)))
        else if expected_dims > 0 \<and> length all \<ge> expected_dims then Inr (take expected_dims all)
        else Inr all)"

definition build_string_tensor :: "string \<Rightarrow> tensor" where
  "build_string_tensor text =
     \<lparr>te_type = String_type, te_type_name = [], te_shape = [1], te_floats = [],
      te_ints = [], te_strings = [text]\<rparr>"

definition pad_or_truncate_1d :: "tensor \<Rightarrow> nat \<Rightarrow> tensor" where
  "pad_or_truncate_1d src target_len =
     (let shape = te_shape src
      in if length shape \<noteq> 2 \<or> shape ! 0 \<noteq> 1 then src
         else let actual_len = shape ! 1 in
           if actual_len = target_len then src
           else let copy_len = min actual_len target_len in
             if te_type src = I64 \<or> te_type src = I32
             then src\<lparr>te_shape := [1, target_len],
                      te_ints := take copy_len (te_ints src) @ replicate (target_len - copy_len) 0\<rparr>
             else src)"

definition zero_tensor :: "elem_type \<Rightarrow> nat list \<Rightarrow> tensor" where
  "zero_tensor ty shape =
     \<lparr>te_type = ty, te_type_name = [], te_shape = shape,
      te_floats = (if ty = F32 \<or> ty = F16 then replicate (prod_list shape) (Fin 0) else []),
      te_ints = (if ty = I64 \<or> ty = I32 then replicate (prod_list shape) 0 else []),
      te_strings = []\<rparr>"

section \<open>Normalisation\<close>

definition sum_of_squares :: "fp list \<Rightarrow> fp" where
  "sum_of_squares vector = foldl (\<lambda>sum value. dadd sum (dmul value value)) (Fin 0) vector"

definition normalize_l2 :: "fp list \<Rightarrow> fp list" where
  "normalize_l2 vector =
     (let sum = sum_of_squares vector
      in if fle sum (Fin 0) then vector
         else let norm = fcast rnd32 (fsqrt64 sum)
           in map (\<lambda>value. fdiv rnd32 value norm) vector)"

section \<open>The inference runtime\<close>

record ov_model =
  mo_inputs :: "(string \<times> elem_type \<times> nat option) list"

text \<open>
  A compiled model: its inputs with the shape or the exception of \<open>get_shape\<close>, the partial shape
  of its first output (\<open>None\<close> for a dynamic rank or dimension), setting a tensor, which may throw,
  and inference on the tensors set.
\<close>

record compiled =
  cm_inputs :: "(string \<times> elem_type \<times> nat list result) list"
  cm_out_shape :: "nat option list option"
  cm_set :: "string \<Rightarrow> tensor \<Rightarrow> unit result"
  cm_infer :: "(string \<times> tensor) list \<Rightarrow> tensor result"

type_synonym compiled_tokenizer = "tensor \<Rightarrow> (string \<times> tensor) list result"

datatype compile_property =
    Performance_mode_latency | Num_requests nat | Inference_num_threads nat

record ov =
  ov_set_cache_dir :: "string \<Rightarrow> unit result"
  ov_read_model :: "string \<Rightarrow> ov_model result"
  ov_compile_tokenizer :: "ov_model \<Rightarrow> compiled_tokenizer result"
  ov_reshape :: "ov_model \<Rightarrow> (string \<times> nat list) list \<Rightarrow> ov_model result"
  ov_compile_model :: "ov_model \<Rightarrow> string \<Rightarrow> compile_property list \<Rightarrow> compiled result"

definition build_compile_properties :: "string \<Rightarrow> compile_property list" where
  "build_compile_properties device =
     [Performance_mode_latency, Num_requests 1]
     @ (if device = ''CPU'' then [Inference_num_threads 2] else [])"

definition build_static_reshape :: "ov_model \<Rightarrow> nat \<Rightarrow> (string \<times> nat list) list" where
  "build_static_reshape model max_seq_len =
     foldl (\<lambda>reshape_map (name, _, rank).
         case rank of
           None \<Rightarrow> reshape_map
         | Some rank_len \<Rightarrow>
             if rank_len = 2 then AList.update name [1, max_seq_len] reshape_map
             else if rank_len = 1 then AList.update name [1] reshape_map
             else reshape_map)
       [] (mo_inputs model)"

definition infer_output_dims :: "compiled \<Rightarrow> nat" where
  "infer_output_dims model =
     (case cm_out_shape model of
        None \<Rightarrow> 0
      | Some shape \<Rightarrow>
          if length shape < 1 then 0
          else case last shape of None \<Rightarrow> 0 | Some n \<Rightarrow> n)"

definition model_requires_tokenizer :: "ov_model \<Rightarrow> bool" where
  "model_requires_tokenizer model = list_ex (\<lambda>(_, ty, _). ty \<noteq> String_type) (mo_inputs model)"

text \<open>Setting the tensors one after the other; the first exception ends it.\<close>

fun set_tensors ::
  "compiled \<Rightarrow> (string \<Rightarrow> elem_type \<Rightarrow> nat list result \<Rightarrow> tensor result)
     \<Rightarrow> (string \<times> elem_type \<times> nat list result) list \<Rightarrow> (string \<times> tensor) list result" where
  "set_tensors m tensor_for [] = Inr []"
| "set_tensors m tensor_for ((name, ty, shape) # inputs) =
     bindR (tensor_for name ty shape) (\<lambda>t.
     bindR (cm_set m name t) (\<lambda>_.
     bindR (set_tensors m tensor_for inputs) (\<lambda>ts. Inr ((name, t) # ts))))"

section \<open>The engine\<close>

text \<open>\<open>impl_->tokenizer_ready\<close> is whether the tokenizer is there.\<close>

record engine =
  en_config :: EmbeddingConfig
  en_ready :: bool
  en_degraded :: bool
  en_error :: string
  en_effective_device :: string
  en_model_source :: string
  en_effective_dims :: nat
  en_ready_since :: int
  en_tokenizer :: "compiled_tokenizer option"
  en_model :: "compiled option"

definition EmbeddingEngine :: "EmbeddingConfig \<Rightarrow> engine" where
  "EmbeddingEngine config =
     \<lparr>en_config = config, en_ready = False, en_degraded = False, en_error = [],
      en_effective_device = [], en_model_source = [], en_effective_dims = 0, en_ready_since = 0,
      en_tokenizer = None, en_model = None\<rparr>"

text \<open>\<open>what()\<close> of the exceptions; the texts of the conversions are those of the Windows library.\<close>

fun what :: "exn \<Rightarrow> string" where
  "what (Runtime_error s) = s"
| "what (Json_error s) = s"
| "what (Backend_error s) = s"
| "what Invalid_argument = ''invalid stoul argument''"
| "what Out_of_range = ''stoul argument out of range''"

definition validate_dimensions :: "nat \<Rightarrow> engine \<Rightarrow> unit result" where
  "validate_dimensions dims e =
     (if en_effective_dims e > 0 \<and> en_effective_dims e \<noteq> dims
      then Inl (Runtime_error (''embedding_dimension_mismatch: config dims='' @ show_nat dims
                               @ '' model dims='' @ show_nat (en_effective_dims e)))
      else Inr ())"

definition probe_tensor :: "string \<Rightarrow> elem_type \<Rightarrow> nat list result \<Rightarrow> tensor result" where
  "probe_tensor name ty shape =
     (if ty = String_type then Inr (build_string_tensor ''embedding startup probe'')
      else bindR shape (\<lambda>sh. Inr (zero_tensor ty sh)))"

definition startup_probe :: "compiled \<Rightarrow> unit result" where
  "startup_probe m =
     bindR (set_tensors m probe_tensor (cm_inputs m)) (\<lambda>ts. bindR (cm_infer m ts) (\<lambda>_. Inr ()))"

text \<open>The tokenizer, compiled when its file is there.\<close>

definition load_tokenizer :: "ov \<Rightarrow> string \<Rightarrow> compiled_tokenizer option result" where
  "load_tokenizer rt tokenizer_xml =
     (if tokenizer_xml = [] then Inr None
      else bindR (ov_read_model rt tokenizer_xml) (\<lambda>m.
           bindR (ov_compile_tokenizer rt m) (\<lambda>t. Inr (Some t))))"

definition compile_on ::
  "ov \<Rightarrow> engine \<Rightarrow> string \<Rightarrow> compiled result" where
  "compile_on rt e device =
     bindR (ov_read_model rt (en_model_source e)) (\<lambda>model.
     if en_tokenizer e = None \<and> model_requires_tokenizer model
     then Inl (Runtime_error (''openvino_tokenizer.xml is required next to the embedding model; ''
            @ ''refusing zero-filled token tensors for semantic embeddings''))
     else let reshape_map = build_static_reshape model (unat (ec_max_seq_len (en_config e)))
       in bindR (if reshape_map \<noteq> [] then ov_reshape rt model reshape_map else Inr model)
            (\<lambda>model. ov_compile_model rt model device (build_compile_properties device)))"

text \<open>
  \<open>load_on_device\<close>: the exception, if any, whose text goes to \<open>error\<close>, and the engine, whose
  fields keep what was assigned before the exception.
\<close>

definition load_on_device ::
  "ov \<Rightarrow> (string \<Rightarrow> file_kind) \<Rightarrow> string \<Rightarrow> engine \<Rightarrow> exn option \<times> engine" where
  "load_on_device rt fsys device e =
     (let config = en_config e;
          e = e\<lparr>en_model_source := resolve_model_xml fsys (ec_model_path config)\<rparr>
      in case (if ec_cache_dir config \<noteq> [] then ov_set_cache_dir rt (ec_cache_dir config) else Inr ()) of
        Inl x \<Rightarrow> (Some x, e)
      | Inr _ \<Rightarrow>
      let tokenizer_xml = resolve_tokenizer_xml fsys (ec_model_path config);
          e = e\<lparr>en_tokenizer := None\<rparr>
      in case load_tokenizer rt tokenizer_xml of
        Inl x \<Rightarrow> (Some x, e)
      | Inr tok \<Rightarrow>
      let e = e\<lparr>en_tokenizer := tok\<rparr>
      in case compile_on rt e device of
        Inl x \<Rightarrow> (Some x, e)
      | Inr m \<Rightarrow>
      let e = e\<lparr>en_model := Some m, en_effective_device := device,
                en_effective_dims := infer_output_dims m\<rparr>;
          dims = unat (ec_dims config)
      in case (if dims > 0 then validate_dimensions dims e else Inr ()) of
        Inl x \<Rightarrow> (Some x, e)
      | Inr _ \<Rightarrow>
      let e = (if dims > 0 then e\<lparr>en_effective_dims := dims\<rparr> else e)
      in if en_effective_dims e = 0
      then (Some (Runtime_error ''could not infer embedding dimensions; set model.dims in config''), e)
      else case (if ec_startup_probe config then startup_probe m else Inr ()) of
        Inl x \<Rightarrow> (Some x, e)
      | Inr _ \<Rightarrow> (None, e))"

text \<open>\<open>load\<close>, with the devices' runtimes as they are for each attempt.\<close>

definition load :: "ov \<Rightarrow> ov \<Rightarrow> (string \<Rightarrow> file_kind) \<Rightarrow> int \<Rightarrow> engine \<Rightarrow> bool \<times> engine" where
  "load rt1 rt2 fsys now e =
     (let config = en_config e;
          e = e\<lparr>en_ready := False, en_degraded := False, en_error := [], en_effective_device := [],
                en_effective_dims := 0\<rparr>
      in case load_on_device rt1 fsys (ec_device config) e of
        (None, e) \<Rightarrow> (True, e\<lparr>en_ready := True, en_ready_since := now\<rparr>)
      | (Some load_error, e) \<Rightarrow>
          if ec_allow_cpu_fallback config \<and> ec_device config \<noteq> ''CPU'' then
            (case load_on_device rt2 fsys ''CPU'' e of
               (None, e) \<Rightarrow>
                 (True, e\<lparr>en_ready := True, en_degraded := True,
                         en_error := ''primary_device_error: '' @ what load_error,
                         en_ready_since := now\<rparr>)
             | (Some cpu_error, e) \<Rightarrow>
                 (False, e\<lparr>en_error := ''primary_device_error: '' @ what load_error
                                       @ ''; cpu_fallback_error: '' @ what cpu_error\<rparr>))
          else (False, e\<lparr>en_error := what load_error\<rparr>))"

definition ready :: "engine \<Rightarrow> bool" where "ready e = en_ready e"
definition degraded :: "engine \<Rightarrow> bool" where "degraded e = en_degraded e"

definition warm_age_ms_of :: "int \<Rightarrow> engine \<Rightarrow> int" where
  "warm_age_ms_of now e = (if \<not> en_ready e then 0 else (now - en_ready_since e) div 1000000)"

section \<open>Embedding a text\<close>

record EmbeddingResult =
  er_vector :: "fp list"
  er_model :: string
  er_device :: string
  er_runtime_backend :: string
  er_dimensions :: nat
  er_infer_ms :: fp
  er_normalized :: bool

text \<open>The tokenizer's outputs, each of the configured length; \<open>emplace\<close> keeps the first of a name.\<close>

definition tokenize :: "engine \<Rightarrow> string \<Rightarrow> (string \<times> tensor) list result" where
  "tokenize e text =
     (case en_tokenizer e of
        None \<Rightarrow> Inr []
      | Some tok \<Rightarrow>
          bindR (tok (build_string_tensor text)) (\<lambda>outs.
            Inr (map (\<lambda>(name, t). (name, pad_or_truncate_1d t (unat (ec_max_seq_len (en_config e)))))
                  outs)))"

definition embed_tensor ::
  "engine \<Rightarrow> string \<Rightarrow> (string \<times> tensor) list \<Rightarrow> string \<Rightarrow> elem_type \<Rightarrow> nat list result
     \<Rightarrow> tensor result" where
  "embed_tensor e text tokenized name ty shape =
     (case map_of tokenized name of
        Some t \<Rightarrow> Inr t
      | None \<Rightarrow>
          if en_tokenizer e = None \<and> ty = String_type then Inr (build_string_tensor text)
          else if en_tokenizer e = None
          then Inl (Runtime_error ''embedding tokenizer is not loaded'')
          else bindR shape (\<lambda>sh. Inr (zero_tensor ty sh)))"

text \<open>A ready engine has a model, so the case without one does not occur.\<close>

definition embed :: "fp \<Rightarrow> engine \<Rightarrow> string \<Rightarrow> bool \<Rightarrow> EmbeddingResult result" where
  "embed elapsed_ms e text nrm =
     (if text = [] then Inl (Runtime_error ''input_text is required'')
      else if \<not> en_ready e
      then Inl (Runtime_error (if en_error e = [] then ''embedding engine is not ready'' else en_error e))
      else case en_model e of
        None \<Rightarrow> Inl (Backend_error ''empty model'')
      | Some m \<Rightarrow>
          bindR (tokenize e text) (\<lambda>tokenized.
          bindR (set_tensors m (embed_tensor e text tokenized) (cm_inputs m)) (\<lambda>ts.
          bindR (cm_infer m ts) (\<lambda>output.
          bindR (tensor_to_vector output (map_of tokenized ''attention_mask'') (en_effective_dims e))
            (\<lambda>vector.
          let dims = unat (ec_dims (en_config e))
          in if dims > 0 \<and> length vector \<noteq> dims
             then Inl (Runtime_error (''embedding_dimension_mismatch: vector dims=''
                    @ show_nat (length vector) @ '' config dims='' @ show_nat dims))
             else let vector = (if nrm then normalize_l2 vector else vector)
               in Inr \<lparr>er_vector = vector, er_model = en_model_source e,
                       er_device = en_effective_device e, er_runtime_backend = ''openvino-cpp'',
                       er_dimensions = length vector, er_infer_ms = elapsed_ms,
                       er_normalized = nrm\<rparr>)))))"

section \<open>Normalised vectors\<close>

lemma f32_cases: "is_f32 v \<Longrightarrow> (\<And>x. v = Fin x \<Longrightarrow> repr 24 (-126) x \<Longrightarrow> \<bar>x\<bar> < 2 powi 128 \<Longrightarrow> P) \<Longrightarrow> P"
  by (cases v) (auto simp: is_f32_def)

text \<open>A partial sum of squares is at least every square in it.\<close>

definition sum_above :: "rat \<Rightarrow> fp \<Rightarrow> bool" where
  "sum_above w s \<longleftrightarrow> s = PInf \<or> (\<exists>y. s = Fin y \<and> 0 \<le> y \<and> w \<le> y)"

lemma sum_above_add:
  assumes "sum_above w s" "repr 53 (-1022) w" "0 \<le> w" "0 \<le> d"
  shows "sum_above w (dadd s (Fin d))"
proof (cases "s = PInf")
  case False
  then obtain y where y: "s = Fin y" "w \<le> y" using assms(1) by (auto simp: sum_above_def)
  have "rnd64 (y + d) = PInf \<or> (\<exists>z. rnd64 (y + d) = Fin z \<and> w \<le> z)"
    unfolding rnd64_def using y assms by (intro rnd_ge) simp_all
  then show ?thesis using y assms(3) by (auto simp: sum_above_def)
qed (simp add: sum_above_def)

lemma sum_of_squares_above:
  assumes "\<forall>v\<in>set vs. is_f32 v" "sum_above w s" "repr 53 (-1022) w" "0 \<le> w"
  shows "sum_above w (foldl (\<lambda>sum value. dadd sum (dmul value value)) s vs)"
  using assms
proof (induction vs arbitrary: s)
  case (Cons v vs)
  from Cons.prems(1) obtain x where x: "v = Fin x" "repr 24 (-126) x" "\<bar>x\<bar> < 2 powi 128"
    by (auto elim: f32_cases)
  have "sum_above w (dadd s (Fin (x * x)))" using Cons.prems by (intro sum_above_add) simp_all
  then have "sum_above w (dadd s (dmul v v))" using square_exact [OF x(2,3)] x(1) by simp
  with Cons show ?case by simp
qed simp

lemma sum_of_squares_ge:
  assumes "\<forall>v\<in>set vs. is_f32 v" "Fin x \<in> set vs"
  shows "sum_above (x * x) (sum_of_squares vs)"
proof -
  obtain ys zs where vs: "vs = ys @ Fin x # zs" using assms(2) by (auto simp: in_set_conv_decomp)
  have f: "\<forall>v\<in>set ys. is_f32 v" "\<forall>v\<in>set zs. is_f32 v" "is_f32 (Fin x)" using assms(1) vs by auto
  then have x: "repr 24 (-126) x" "\<bar>x\<bar> < 2 powi 128" by (auto simp: is_f32_def)
  have r: "repr 53 (-1022) (x * x)" using x(1) by (rule repr_square)
  have "repr 53 (-1022) 0" using repr_of_int [of 0 53 "-1022"] by simp
  then have "sum_above 0 (foldl (\<lambda>sum value. dadd sum (dmul value value)) (Fin 0) ys)"
    using f(1) by (intro sum_of_squares_above) (simp_all add: sum_above_def)
  moreover have "sum_above (x * x) (dadd s (Fin (x * x)))" if "sum_above 0 s" for s
  proof (cases "s = PInf")
    case False
    with \<open>sum_above 0 s\<close> obtain y where y: "s = Fin y" "0 \<le> y" by (auto simp: sum_above_def)
    have "rnd64 (y + x * x) = PInf \<or> (\<exists>z. rnd64 (y + x * x) = Fin z \<and> x * x \<le> z)"
      unfolding rnd64_def using y r by (intro rnd_ge) simp_all
    then show ?thesis using y by (auto simp: sum_above_def intro: order_trans [OF zero_le_square])
  qed (simp add: sum_above_def)
  ultimately have "sum_above (x * x) (foldl (\<lambda>sum value. dadd sum (dmul value value)) (Fin 0) (ys @ [Fin x]))"
    using square_exact [OF x] by simp
  then show ?thesis
    unfolding sum_of_squares_def vs using sum_of_squares_above [OF f(2) _ r] by simp
qed

text \<open>The rounded norm is at least the absolute value of every component, or infinite.\<close>

lemma norm_ge:
  assumes "sum_above (x * x) s" "repr 24 (-126) x"
  shows "fcast rnd32 (fsqrt64 s) = PInf \<or> (\<exists>n. fcast rnd32 (fsqrt64 s) = Fin n \<and> \<bar>x\<bar> \<le> n)"
proof (cases "s = PInf")
  case False
  then obtain y where y: "s = Fin y" "0 \<le> y" "x * x \<le> y" using assms(1) by (auto simp: sum_above_def)
  have r: "repr 24 (-126) \<bar>x\<bar>" using assms(2) by (rule repr_abs)
  obtain m k where mk: "\<bar>x\<bar> = of_int m * 2 powi k" "\<bar>m\<bar> < 2 ^ 53" using repr_24_53 [OF r] .
  have "\<bar>x\<bar> \<le> rsqrt64 y" by (rule rsqrt64_ge [OF mk]) (use y(3) in simp_all)
  then have "rnd32 (rsqrt64 y) = PInf \<or> (\<exists>n. rnd32 (rsqrt64 y) = Fin n \<and> \<bar>x\<bar> \<le> n)"
    unfolding rnd32_def using r by (intro rnd_ge) simp_all
  then show ?thesis using y by simp
qed simp

lemma fdiv_unit:
  assumes "n = PInf \<or> (\<exists>m. n = Fin m \<and> \<bar>x\<bar> \<le> m \<and> 0 < m)"
  shows "\<exists>y. fdiv rnd32 (Fin x) n = Fin y \<and> \<bar>y\<bar> \<le> 1"
  using assms
proof (elim disjE exE conjE)
  fix m assume m: "n = Fin m" "\<bar>x\<bar> \<le> m" "0 < m"
  then have "\<bar>x / m\<bar> \<le> 1" by simp
  from rnd32_unit [OF this] m show ?thesis by auto
qed simp

lemma normalize_unit:
  assumes "\<forall>v\<in>set vs. is_f32 v" "w \<in> set (normalize_l2 vs)"
  shows "\<exists>y. w = Fin y \<and> \<bar>y\<bar> \<le> 1"
proof (cases "fle (sum_of_squares vs) (Fin 0)")
  case True
  then have w: "w \<in> set vs" using assms(2) by (simp add: normalize_l2_def)
  then obtain x where x: "w = Fin x" using assms(1) by (auto elim: f32_cases)
  then have "sum_above (x * x) (sum_of_squares vs)" using sum_of_squares_ge [OF assms(1)] w by simp
  then have "x * x \<le> 0" using True by (auto simp: sum_above_def fle_def)
  then have "x = 0" by (metis mult_le_0_iff order_antisym linorder_not_le zero_less_mult_iff mult_eq_0_iff)
  then show ?thesis using x by simp
next
  case False
  define n where "n = fcast rnd32 (fsqrt64 (sum_of_squares vs))"
  from False assms(2) obtain v where v: "v \<in> set vs" "w = fdiv rnd32 v n"
    by (auto simp: normalize_l2_def Let_def n_def)
  have ge: "n = PInf \<or> (\<exists>m. n = Fin m \<and> \<bar>x\<bar> \<le> m)" if "Fin x \<in> set vs" for x
    using norm_ge [OF sum_of_squares_ge [OF assms(1) that]] assms(1) that
    by (auto simp: n_def is_f32_def)
  obtain x where x: "v = Fin x" using v(1) assms(1) by (auto elim: f32_cases)
  show ?thesis
  proof (cases "\<exists>m. n = Fin m \<and> m \<le> 0")
    case True
    then obtain m where m: "n = Fin m" "m \<le> 0" by blast
    have z: "u = Fin 0" if u: "u \<in> set vs" for u
    proof -
      obtain y where y: "u = Fin y" using u assms(1) by (auto elim: f32_cases)
      then show ?thesis using ge [of y] u m by auto
    qed
    have "sum_of_squares vs = Fin 0"
    proof -
      have "foldl (\<lambda>sum value. dadd sum (dmul value value)) (Fin 0) us = Fin 0" if "set us \<subseteq> {Fin 0}" for us
        using that rnd64_int [of 0] by (induction us) auto
      then show ?thesis unfolding sum_of_squares_def using z by blast
    qed
    with False show ?thesis by (simp add: fle_def)
  next
    case False
    then show ?thesis using ge [of x] v x fdiv_unit [of n x] by (auto simp: not_le)
  qed
qed

lemma rnd32_overflow: "2 powi 128 \<le> x \<Longrightarrow> rnd32 x = PInf"
proof -
  assume x: "2 powi 128 \<le> x"
  have "repr 24 (-126) (2 powi 128)"
    unfolding repr_def by (rule exI [of _ 1], rule exI [of _ 128]) simp
  then have "2 powi 128 \<le> rq 24 (-126) x" using rq_mono [OF x, of 24 "-126"] rq_exact by simp
  then show ?thesis by (simp add: rnd32_def rnd_def)
qed

text \<open>A vector whose norm is beyond the range of \<open>float\<close> becomes 0.\<close>

lemma normalize_overflow:
  assumes "\<forall>v\<in>set vs. is_f32 v" "sum_of_squares vs = Fin y" "2 powi 256 \<le> y"
  shows "normalize_l2 vs = map (\<lambda>_. Fin 0) vs"
proof -
  have "(2 :: rat) powi 128 \<le> rsqrt64 y"
  proof (rule rsqrt64_ge [of _ 1 128])
    have "(2 :: rat) powi 128 * 2 powi 128 = 2 powi 256" by (simp flip: power_int_add)
    then show "(2 :: rat) powi 128 * 2 powi 128 \<le> y" using assms(3) by simp
  qed simp_all
  then have n: "fcast rnd32 (fsqrt64 (sum_of_squares vs)) = PInf"
    using assms(2,3) rnd32_overflow by (simp add: order_trans [OF less_imp_le [OF powi_pos]] not_less)
  have "\<not> fle (sum_of_squares vs) (Fin 0)"
    using assms(2,3) powi_pos [of 256] by (auto simp: fle_def simp del: powi_pos)
  moreover have "fdiv rnd32 v PInf = Fin 0" if "v \<in> set vs" for v
    using bspec [OF assms(1) that] by (auto elim: f32_cases)
  ultimately show ?thesis by (simp add: normalize_l2_def Let_def n)
qed

section \<open>Loading\<close>

text \<open>What an attempt on one device leaves behind when it succeeds.\<close>

lemma load_on_device_ok:
  assumes "load_on_device rt fsys device e = (None, e')"
  shows "en_config e' = en_config e \<and> en_effective_device e' = device \<and> en_model e' \<noteq> None
    \<and> 0 < en_effective_dims e'
    \<and> (ec_dims (en_config e) \<noteq> 0 \<longrightarrow> en_effective_dims e' = unat (ec_dims (en_config e)))
    \<and> en_error e' = en_error e \<and> en_degraded e' = en_degraded e"
proof -
  have nz: "(0 < unat w) = (w \<noteq> 0)" for w :: u64 by (simp add: unat_gt_0)
  show ?thesis
    using assms unfolding load_on_device_def Let_def
    by (auto simp: nz split: sum.splits if_splits)
qed

lemma load_on_device_keeps:
  assumes "load_on_device rt fsys device e = (r, e')"
  shows "en_config e' = en_config e \<and> en_ready e' = en_ready e \<and> en_degraded e' = en_degraded e"
  using assms unfolding load_on_device_def Let_def
  by (auto split: sum.splits if_splits)

section \<open>The last token\<close>

lemma last_set_ones: "0 < k \<Longrightarrow> last_set i l (replicate k 1 @ replicate j 0) = i + k - 1"
proof (induction k arbitrary: i l)
  case (Suc k)
  have z: "last_set i l (replicate j 0) = l" for i l by (induction j arbitrary: i) simp_all
  show ?case using Suc z by (cases k) simp_all
qed simp

text \<open>A mask of \<open>k\<close> tokens among \<open>n\<close> positions.\<close>

definition mask_of :: "nat \<Rightarrow> nat \<Rightarrow> tensor" where
  "mask_of k n = \<lparr>te_type = I64, te_type_name = ''i64'', te_shape = [1, n], te_floats = [],
     te_ints = replicate k 1 @ replicate (n - k) 0, te_strings = []\<rparr>"

lemma pad_mask:
  assumes "k \<le> n"
  shows "pad_or_truncate_1d (mask_of k n) len = mask_of (min k len) len"
proof -
  have "take (min n len) (replicate k (1 :: int) @ replicate (n - k) 0)
      @ replicate (len - min n len) 0 = replicate (min k len) 1 @ replicate (len - min k len) 0"
    using assms by (cases "n \<le> len"; cases "k \<le> len") (auto simp: min_def simp flip: replicate_add)
  then show ?thesis using assms by (auto simp: pad_or_truncate_1d_def mask_of_def min_def Let_def)
qed

lemma last_token_of_mask:
  "0 < k \<Longrightarrow> k \<le> n \<Longrightarrow> last_token_index_from_mask (Some (mask_of k n)) len = k - 1"
  using last_set_ones [of k 0 0 "n - k"]
  by (simp add: last_token_index_from_mask_def te_size_def mask_of_def Let_def)

lemma map_of_map_pad:
  "map_of (map (\<lambda>(name, t). (name, f t)) xs) k = map_option f (map_of xs k)"
  by (induction xs) auto

section \<open>Properties\<close>

text \<open>
  C12: After \<open>load\<close> the engine is ready exactly when it returned true. A ready engine has a model, a
  positive dimension that is the configured one if there is one, and runs on the configured
  device; or it is degraded: then the fallback was allowed, it runs on the CPU, which was not
  the configured device, and the error says what the primary device reported. An engine that is
  not ready is not degraded.
\<close>

theorem load_outcome:
  assumes "load rt1 rt2 fsys now e = (b, e')"
  shows "en_config e' = en_config e \<and> en_ready e' = b \<and> (en_degraded e' \<longrightarrow> b)
    \<and> (b \<longrightarrow> en_model e' \<noteq> None \<and> 0 < en_effective_dims e'
          \<and> (ec_dims (en_config e) \<noteq> 0 \<longrightarrow> en_effective_dims e' = unat (ec_dims (en_config e)))
          \<and> (if en_degraded e'
             then ec_allow_cpu_fallback (en_config e) \<and> ec_device (en_config e) \<noteq> ''CPU''
                  \<and> en_effective_device e' = ''CPU''
                  \<and> (\<exists>x. en_error e' = ''primary_device_error: '' @ what x)
             else en_effective_device e' = ec_device (en_config e) \<and> en_error e' = []))"
proof -
  define e0 where "e0 = e\<lparr>en_ready := False, en_degraded := False, en_error := [],
    en_effective_device := [], en_effective_dims := 0\<rparr>"
  obtain r1 e1 where 1: "load_on_device rt1 fsys (ec_device (en_config e)) e0 = (r1, e1)" by fastforce
  obtain r2 e2 where 2: "load_on_device rt2 fsys ''CPU'' e1 = (r2, e2)" by fastforce
  have e0: "en_config e0 = en_config e" "\<not> en_ready e0" "\<not> en_degraded e0" "en_error e0 = []"
    by (simp_all add: e0_def)
  note k1 = load_on_device_keeps [OF 1] and k2 = load_on_device_keeps [OF 2]
  show ?thesis
  proof (cases r1)
    case None
    then show ?thesis
      using assms 1 load_on_device_ok [OF 1 [unfolded None]] e0
      by (auto simp: load_def Let_def simp flip: e0_def)
  next
    case (Some x)
    show ?thesis
    proof (cases r2)
      case None
      then show ?thesis
        using assms 1 2 Some load_on_device_ok [OF 2 [unfolded None]] e0 k1
        by (auto simp: load_def Let_def simp flip: e0_def split: if_splits)
    next
      case (Some y)
      then show ?thesis
        using assms 1 2 \<open>r1 = Some x\<close> e0 k1 k2
        by (auto simp: load_def Let_def simp flip: e0_def split: if_splits)
    qed
  qed
qed

text \<open>
  Whatever the model returns, the components of a normalised embedding lie between -1 and 1:
  rounding never carries a component beyond its norm, and a vector whose norm exceeds the range
  of \<open>float\<close> becomes 0 instead of overflowing.
\<close>

lemma normalized_components:
  assumes "list_all is_f32 vs"
  shows "length (normalize_l2 vs) = length vs
    \<and> list_all (\<lambda>w. \<exists>y. w = Fin y \<and> \<bar>y\<bar> \<le> 1) (normalize_l2 vs)
    \<and> (sum_of_squares vs = Fin y \<longrightarrow> 2 powi 256 \<le> y \<longrightarrow> normalize_l2 vs = map (\<lambda>_. Fin 0) vs)"
  using assms normalize_unit [of vs] normalize_overflow [of vs y]
  by (auto simp: list_all_iff normalize_l2_def Let_def)

lemma is_f32_int: "\<bar>n\<bar> < 2 ^ 24 \<Longrightarrow> is_f32 (Fin (of_int n))"
proof -
  assume n: "\<bar>n\<bar> < 2 ^ 24"
  have "\<bar>of_int n\<bar> = (of_int \<bar>n\<bar> :: rat)" by simp
  also have "\<dots> < of_int (2 ^ 24)" using n by (simp only: of_int_less_iff)
  also have "\<dots> < 2 powi 128" by simp
  finally show ?thesis using n repr_of_int [of n 24 "-126"] by (simp add: is_f32_def)
qed

lemma normalized_components_witness:
  "length (normalize_l2 [Fin 3, Fin (-4)]) = 2
   \<and> list_all (\<lambda>w. \<exists>y. w = Fin y \<and> \<bar>y\<bar> \<le> 1) (normalize_l2 [Fin 3, Fin (-4)])"
proof -
  have "list_all is_f32 [Fin 3, Fin (-4)]" using is_f32_int [of 3] is_f32_int [of "-4"] by simp
  from normalized_components [OF this] show ?thesis by simp
qed

text \<open>The runtimes of the witnesses: no device of the first kind works, the CPU does.\<close>

definition demo_tokenizer :: compiled_tokenizer where
  "demo_tokenizer t = Inr [(''attention_mask'', mask_of 3 3)]"

definition demo_model :: compiled where
  "demo_model = \<lparr>cm_inputs = [(''attention_mask'', I64, Inr [1, 2])],
     cm_out_shape = Some [Some 1, Some 2, Some 2], cm_set = (\<lambda>_ _. Inr ()),
     cm_infer = (\<lambda>_. Inr \<lparr>te_type = F32, te_type_name = ''f32'', te_shape = [1, 2, 2],
       te_floats = [Fin 1, Fin 2, Fin 3, Fin 4], te_ints = [], te_strings = []\<rparr>)\<rparr>"

definition demo_ov :: "string \<Rightarrow> ov" where
  "demo_ov works = \<lparr>ov_set_cache_dir = (\<lambda>_. Inr ()),
     ov_read_model = (\<lambda>_. Inr \<lparr>mo_inputs = [(''attention_mask'', I64, Some 2)]\<rparr>),
     ov_compile_tokenizer = (\<lambda>_. Inr demo_tokenizer), ov_reshape = (\<lambda>m _. Inr m),
     ov_compile_model = (\<lambda>_ device _. if device = works then Inr demo_model
                                      else Inl (Backend_error ''no such device''))\<rparr>"

definition demo_config :: EmbeddingConfig where
  "demo_config = EmbeddingConfig_default\<lparr>ec_max_seq_len := 2, ec_model_path := ''m''\<rparr>"

definition demo_engine :: engine where
  "demo_engine = snd (load (demo_ov ''CPU'') (demo_ov ''CPU'') (\<lambda>_. Directory) 7
     (EmbeddingEngine demo_config))"

lemma demo_load:
  "load (demo_ov ''CPU'') (demo_ov ''CPU'') (\<lambda>_. Directory) 7 (EmbeddingEngine demo_config)
   = (True, \<lparr>en_config = demo_config, en_ready = True, en_degraded = True,
       en_error = ''primary_device_error: no such device'', en_effective_device = ''CPU'',
       en_model_source = path_join ''m'' ''openvino_model.xml'', en_effective_dims = 2,
       en_ready_since = 7, en_tokenizer = Some demo_tokenizer, en_model = Some demo_model\<rparr>)"
  by (simp add: load_def load_on_device_def demo_ov_def EmbeddingEngine_def demo_config_def
      EmbeddingConfig_default_def load_tokenizer_def resolve_tokenizer_xml_def resolve_model_xml_def
      path_join_def is_sep_def compile_on_def Let_def demo_model_def infer_output_dims_def
      startup_probe_def probe_tensor_def bindR_def)

theorem load_outcome_witness:
  "en_ready demo_engine \<and> en_degraded demo_engine \<and> en_effective_device demo_engine = ''CPU''
   \<and> en_effective_dims demo_engine = 2"
  using load_outcome [OF demo_load] unfolding demo_engine_def demo_load snd_conv by simp



end
