(* ===== verification/Json_Value.thy ===== *)
theory Json_Value
  imports Cpp_String Cpp_Map Ieee "HOL-Library.Char_ord" "HOL-Library.List_Lexorder"
begin

text \<open>
  JSON values as \<open>nlohmann::json\<close> (the vendored library, version 3.11.3) holds them, with the
  accessors the servers call: objects are ordered maps, an object literal keeps the first of two
  equal keys, \<open>value\<close> throws on a value that is no object and on a member of the wrong type.
  Parsing and dumping are parameters of the servers; the named hypothesis \<open>dump_strict\<close> is the
  documented contract of \<open>dump()\<close>: it throws exactly when some text in the value is not UTF-8.
\<close>

datatype json =
    JNull
  | JBool bool
  | JInt int
  | JFloat fp
  | JString string
  | JArray "json list"
  | JObject "(string \<times> json) list"

section \<open>Objects\<close>

definition emplace :: "'k::linorder \<Rightarrow> 'v \<Rightarrow> ('k, 'v) std_map \<Rightarrow> ('k, 'v) std_map" where
  "emplace k v m = (case map_find m k of None \<Rightarrow> map_put k v m | Some _ \<Rightarrow> m)"

definition object :: "(string \<times> json) list \<Rightarrow> json" where
  "object ps = JObject (foldl (\<lambda>m (k, v). emplace k v m) [] ps)"

fun is_string :: "json \<Rightarrow> bool" where
  "is_string (JString s) = True" | "is_string _ = False"

fun is_boolean :: "json \<Rightarrow> bool" where
  "is_boolean (JBool b) = True" | "is_boolean _ = False"

fun is_array :: "json \<Rightarrow> bool" where
  "is_array (JArray xs) = True" | "is_array _ = False"

fun is_object :: "json \<Rightarrow> bool" where
  "is_object (JObject m) = True" | "is_object _ = False"

fun type_name :: "json \<Rightarrow> string" where
  "type_name JNull = ''null''"
| "type_name (JBool _) = ''boolean''"
| "type_name (JInt _) = ''number''"
| "type_name (JFloat _) = ''number''"
| "type_name (JString _) = ''string''"
| "type_name (JArray _) = ''array''"
| "type_name (JObject _) = ''object''"

text \<open>\<open>find\<close>, \<open>contains\<close>; \<open>operator[]\<close> is used on members that \<open>contains\<close> has found.\<close>

fun member :: "json \<Rightarrow> string \<Rightarrow> json option" where
  "member (JObject m) key = map_find m key"
| "member _ key = None"

definition contains :: "json \<Rightarrow> string \<Rightarrow> bool" where
  "contains j key = (member j key \<noteq> None)"

text \<open>\<open>j[key] = v\<close> on an object.\<close>

fun assign :: "string \<Rightarrow> json \<Rightarrow> json \<Rightarrow> json" where
  "assign key v (JObject m) = JObject (map_put key v m)"
| "assign key v j = j"

section \<open>Conversions\<close>

definition type_error :: "string \<Rightarrow> string \<Rightarrow> exn" where
  "type_error n text = Json_error (''[json.exception.type_error.'' @ n @ ''] '' @ text)"

fun get_string :: "json \<Rightarrow> string result" where
  "get_string (JString s) = Inr s"
| "get_string j = Inl (type_error ''302'' (''type must be string, but is '' @ type_name j))"

fun get_bool :: "json \<Rightarrow> bool result" where
  "get_bool (JBool b) = Inr b"
| "get_bool j = Inl (type_error ''302'' (''type must be boolean, but is '' @ type_name j))"

text \<open>\<open>get<float>\<close>: booleans count as numbers.\<close>

fun get_float :: "json \<Rightarrow> fp result" where
  "get_float (JInt i) = Inr (rnd32 (of_int i))"
| "get_float (JFloat x) = Inr (fcast rnd32 x)"
| "get_float (JBool b) = Inr (Fin (if b then 1 else 0))"
| "get_float j = Inl (type_error ''302'' (''type must be number, but is '' @ type_name j))"

definition value_or :: "(json \<Rightarrow> 'a result) \<Rightarrow> json \<Rightarrow> string \<Rightarrow> 'a \<Rightarrow> 'a result" where
  "value_or get j key dflt =
     (if is_object j
      then case member j key of Some v \<Rightarrow> get v | None \<Rightarrow> Inr dflt
      else Inl (type_error ''306'' (''cannot use value() with '' @ type_name j)))"

section \<open>UTF-8\<close>

text \<open>
  The well-formed sequences of the Unicode standard: what the first byte allows the following
  bytes to be.
\<close>

definition lead :: "nat \<Rightarrow> (nat \<times> nat) list option" where
  "lead n =
     (if n < 0x80 then Some []
      else if 0xC2 \<le> n \<and> n \<le> 0xDF then Some [(0x80, 0xBF)]
      else if n = 0xE0 then Some [(0xA0, 0xBF), (0x80, 0xBF)]
      else if n = 0xED then Some [(0x80, 0x9F), (0x80, 0xBF)]
      else if 0xE1 \<le> n \<and> n \<le> 0xEF then Some [(0x80, 0xBF), (0x80, 0xBF)]
      else if n = 0xF0 then Some [(0x90, 0xBF), (0x80, 0xBF), (0x80, 0xBF)]
      else if n = 0xF4 then Some [(0x80, 0x8F), (0x80, 0xBF), (0x80, 0xBF)]
      else if 0xF1 \<le> n \<and> n \<le> 0xF3 then Some [(0x80, 0xBF), (0x80, 0xBF), (0x80, 0xBF)]
      else None)"

fun utf8_run :: "(nat \<times> nat) list \<Rightarrow> string \<Rightarrow> bool" where
  "utf8_run st [] = (st = [])"
| "utf8_run [] (c # s) = (case lead (code_of c) of None \<Rightarrow> False | Some st \<Rightarrow> utf8_run st s)"
| "utf8_run ((lo, hi) # st) (c # s) = (lo \<le> code_of c \<and> code_of c \<le> hi \<and> utf8_run st s)"

definition utf8_ok :: "string \<Rightarrow> bool" where "utf8_ok s = utf8_run [] s"

lemma utf8_run_append: "utf8_run st s \<Longrightarrow> utf8_run st (s @ t) = utf8_run [] t"
  by (induction st s rule: utf8_run.induct) (auto split: option.splits)

lemma utf8_ok_append: "utf8_ok s \<Longrightarrow> utf8_ok (s @ t) = utf8_ok t"
  by (simp add: utf8_ok_def utf8_run_append)

lemma utf8_ascii: "list_all (\<lambda>c. code_of c < 128) s \<Longrightarrow> utf8_ok s"
  unfolding utf8_ok_def by (induction s) (simp_all add: lead_def)

lemma utf8_ok_Nil [simp]: "utf8_ok []"
  by (simp add: utf8_ok_def)

fun texts_ok :: "json \<Rightarrow> bool" where
  "texts_ok (JString s) = utf8_ok s"
| "texts_ok (JArray xs) = list_all texts_ok xs"
| "texts_ok (JObject m) = list_all (\<lambda>p. utf8_ok (fst p) \<and> texts_ok (snd p)) m"
| "texts_ok _ = True"

definition dump_strict :: "(json \<Rightarrow> string result) \<Rightarrow> bool" where
  "dump_strict dump \<longleftrightarrow>
     (\<forall>j. if texts_ok j then \<exists>s. dump j = Inr s else \<exists>w. dump j = Inl (Json_error w) \<and> utf8_ok w)"

lemma dump_ok: "dump_strict dump \<Longrightarrow> texts_ok j \<Longrightarrow> \<exists>s. dump j = Inr s"
  unfolding dump_strict_def by (metis (full_types))

lemma dump_fails: "dump_strict dump \<Longrightarrow> \<not> texts_ok j \<Longrightarrow> \<exists>w. dump j = Inl (Json_error w) \<and> utf8_ok w"
  unfolding dump_strict_def by (metis (full_types))

lemma dump_iff: "dump_strict dump \<Longrightarrow> (\<exists>s. dump j = Inr s) = texts_ok j"
  using dump_ok dump_fails by fastforce

text \<open>An object literal is ordered; its texts are those of its members, when no key repeats.\<close>

lemma emplace_ok: "map_ok m \<Longrightarrow> map_ok (emplace k v m)"
  by (simp add: emplace_def map_put_ok split: option.split)

lemma find_emplace:
  "map_ok m \<Longrightarrow> map_find (emplace k v m) k' =
     (if k' = k \<and> map_find m k = None then Some v else map_find m k')"
  by (auto simp: emplace_def alist.find_put split: option.split)

lemma foldl_emplace_ok: "map_ok m \<Longrightarrow> map_ok (foldl (\<lambda>m (k, v). emplace k v m) m ps)"
  by (induction ps arbitrary: m) (auto simp: emplace_ok)

lemma find_foldl_emplace:
  "map_ok m \<Longrightarrow> map_find (foldl (\<lambda>m (k, v). emplace k v m) m ps) k =
     (case map_find m k of Some v \<Rightarrow> Some v | None \<Rightarrow> map_of ps k)"
  by (induction ps arbitrary: m) (auto simp: find_emplace emplace_ok split: option.split)

lemma member_object [simp]: "member (object ps) k = map_of ps k"
  by (simp add: object_def find_foldl_emplace) (simp add: map_find_def)

lemma is_object_object [simp]: "is_object (object ps)"
  by (simp add: object_def)

lemma contains_object [simp]: "contains (object ps) k = (map_of ps k \<noteq> None)"
  by (simp add: contains_def)

lemma texts_ok_object:
  assumes "distinct (map fst ps)"
  shows "texts_ok (object ps) = list_all (\<lambda>p. utf8_ok (fst p) \<and> texts_ok (snd p)) ps"
proof -
  let ?m = "foldl (\<lambda>m (k, v). emplace k v m) [] ps"
  have ok: "map_ok ?m" by (simp add: foldl_emplace_ok)
  have "p \<in> set ?m \<longleftrightarrow> p \<in> set ps" for p
  proof -
    have "p \<in> set ?m \<longleftrightarrow> map_find ?m (fst p) = Some (snd p)"
      using alist.entries_find [OF ok, of "fst p" "snd p"] by simp
    also have "\<dots> \<longleftrightarrow> map_of ps (fst p) = Some (snd p)"
      by (simp add: find_foldl_emplace) (simp add: map_find_def)
    also have "\<dots> \<longleftrightarrow> p \<in> set ps" using assms by simp
    finally show ?thesis .
  qed
  then have "set ?m = set ps" by blast
  then show ?thesis unfolding object_def by (simp add: list_all_iff)
qed

text \<open>A dump function with the documented contract, for the witnesses.\<close>

definition demo_dump :: "json \<Rightarrow> string result" where
  "demo_dump j = (if texts_ok j then Inr ''{}''
                  else Inl (type_error ''316'' ''invalid UTF-8 byte''))"

lemma demo_dump_strict: "dump_strict demo_dump"
proof -
  have "utf8_ok (''[json.exception.type_error.'' @ ''316'' @ ''] '' @ ''invalid UTF-8 byte'')"
    by (rule utf8_ascii) (simp add: code_of_def)
  then show ?thesis by (simp add: dump_strict_def demo_dump_def type_error_def)
qed

end
