(* ===== verification/Consensus.thy ===== *)
theory Consensus
  imports Engine Json_Value Linep_Types
begin

text \<open>
  The consensus computation of the LiNeP endpoint (\<open>embedding_linep.cpp\<close>): cosine similarity in
  \<open>double\<close>, the grounded score of every candidate in \<open>float\<close>, the choice of the best one and the
  consensus level, and the JSON document that reports them. Every rounding is the one of the
  source. The lemmas bound each intermediate value, so no score is NaN and none leaves its range.
\<close>

section \<open>Arithmetic\<close>

abbreviation sadd :: "fp \<Rightarrow> fp \<Rightarrow> fp" where "sadd \<equiv> fadd rnd32"
abbreviation ssub :: "fp \<Rightarrow> fp \<Rightarrow> fp" where "ssub \<equiv> fsub rnd32"
abbreviation smul :: "fp \<Rightarrow> fp \<Rightarrow> fp" where "smul \<equiv> fmul rnd32"
abbreviation sdiv :: "fp \<Rightarrow> fp \<Rightarrow> fp" where "sdiv \<equiv> fdiv rnd32"

text \<open>\<open>std::numeric_limits<T>::epsilon()\<close>.\<close>

definition epsilon32 :: fp where "epsilon32 = Fin (2 powi -23)"
definition epsilon64 :: fp where "epsilon64 = Fin (2 powi -52)"

definition clamp01 :: "fp \<Rightarrow> fp" where
  "clamp01 value = (if flt value (Fin 0) then Fin 0 else if flt (Fin 1) value then Fin 1 else value)"

text \<open>The three sums of the loop.\<close>

definition cosine_sums :: "fp list \<Rightarrow> fp list \<Rightarrow> fp \<times> fp \<times> fp" where
  "cosine_sums a b =
     foldl (\<lambda>(dot, norm_a, norm_b) (da, db).
              (dadd dot (dmul da db), dadd norm_a (dmul da da), dadd norm_b (dmul db db)))
       (Fin 0, Fin 0, Fin 0) (zip a b)"

definition cosine_similarity :: "fp list \<Rightarrow> fp list \<Rightarrow> fp" where
  "cosine_similarity a b =
     (if a = [] \<or> b = [] \<or> length a \<noteq> length b then Fin 0
      else let (dot, norm_a, norm_b) = cosine_sums a b
        in if fle norm_a epsilon64 \<or> fle norm_b epsilon64 then Fin 0
           else let sim = fdiv rnd64 dot (dmul (fsqrt64 norm_a) (fsqrt64 norm_b))
             in fcast rnd32 (fclamp sim (Fin (-1)) (Fin 1)))"

definition compose_grounding_context :: "string \<Rightarrow> string \<Rightarrow> string" where
  "compose_grounding_context task_type source_text =
     (if task_type = [] then source_text
      else ''task_type: '' @ task_type @ [CHR 0x0A] @ ''source_text: '' @ source_text)"

section \<open>Scores\<close>

definition pair_avg :: "fp list list \<Rightarrow> nat \<Rightarrow> fp" where
  "pair_avg candidate_embeddings i =
     (if length candidate_embeddings > 1 then
        let (sum, cnt) =
          foldl (\<lambda>(sum, cnt) j.
                   if i = j then (sum, cnt)
                   else (sadd sum (cosine_similarity (candidate_embeddings ! i) (candidate_embeddings ! j)),
                         cnt + 1))
            (Fin 0, 0) [0..<length candidate_embeddings]
        in if cnt > 0 then sdiv sum (rnd32 (of_nat cnt)) else Fin 0
      else Fin 0)"

record consensus_params =
  cp_threshold :: fp
  cp_context_weight :: fp
  cp_consensus_weight :: fp
  cp_context_min_similarity :: fp

record candidate_score =
  sc_context_similarity :: fp
  sc_pair_avg :: fp
  sc_grounded_consensus :: fp
  sc_disagreement_penalty :: fp
  sc_final_score :: fp
  sc_accepted :: bool

definition score_candidate :: "consensus_params \<Rightarrow> fp \<Rightarrow> fp \<Rightarrow> candidate_score" where
  "score_candidate p context_similarity avg =
     (let denominator = fmax (ssub (Fin 1) (cp_context_min_similarity p)) (rnd32 (5 / 100));
          context_gate =
            clamp01 (sdiv (ssub context_similarity (cp_context_min_similarity p)) denominator);
          grounded_consensus = smul avg context_gate;
          disagreement_penalty =
            smul (fmax (Fin 0) (ssub avg context_similarity)) (rnd32 (35 / 100));
          final_score =
            clamp01 (ssub (sadd (smul (cp_context_weight p) context_similarity)
                                (smul (cp_consensus_weight p) grounded_consensus))
                          disagreement_penalty)
      in \<lparr>sc_context_similarity = context_similarity, sc_pair_avg = avg,
          sc_grounded_consensus = grounded_consensus,
          sc_disagreement_penalty = disagreement_penalty, sc_final_score = final_score,
          sc_accepted = fle (cp_threshold p) final_score
                        \<and> fle (cp_context_min_similarity p) context_similarity\<rparr>)"

definition scores_of :: "consensus_params \<Rightarrow> fp list \<Rightarrow> fp list list \<Rightarrow> candidate_score list" where
  "scores_of p context_embedding candidate_embeddings =
     map (\<lambda>i. score_candidate p (cosine_similarity context_embedding (candidate_embeddings ! i))
                (pair_avg candidate_embeddings i))
       [0..<length candidate_embeddings]"

text \<open>\<open>best_index\<close> and \<open>best_score\<close> over the candidates in order, from index \<open>i\<close> on.\<close>

fun best_of :: "nat \<Rightarrow> nat \<times> fp \<Rightarrow> candidate_score list \<Rightarrow> nat \<times> fp" where
  "best_of i best [] = best"
| "best_of i (best_index, best_score) (s # ss) =
     best_of (i + 1)
       (if flt best_score (sc_final_score s) then (i, sc_final_score s) else (best_index, best_score)) ss"

record consensus =
  co_scores :: "candidate_score list"
  co_best_index :: nat
  co_best_score :: fp
  co_accepted_count :: nat
  co_level :: consensus_level
  co_accepted :: bool

definition consensus_of :: "consensus_params \<Rightarrow> fp list \<Rightarrow> fp list list \<Rightarrow> consensus" where
  "consensus_of p context_embedding candidate_embeddings =
     (let scores = scores_of p context_embedding candidate_embeddings;
          (best_index, best_score) = best_of 0 (0, Fin (-1)) scores;
          accepted_count = length (filter sc_accepted scores);
          consensus_level = (if accepted_count \<ge> 3 then CONSENSUS_STRONG
                             else if accepted_count \<ge> 2 then CONSENSUS_PARTIAL
                             else CONSENSUS_FAILED);
          accepted = (accepted_count \<ge> 2 \<and> fle (cp_threshold p) best_score)
      in \<lparr>co_scores = scores, co_best_index = best_index, co_best_score = best_score,
          co_accepted_count = accepted_count, co_level = consensus_level, co_accepted = accepted\<rparr>)"

section \<open>Documents\<close>

definition score_item :: "nat \<Rightarrow> candidate_score \<Rightarrow> string \<Rightarrow> json" where
  "score_item i s candidate = object
     [(''index'', JInt (int i)),
      (''context_similarity'', JFloat (sc_context_similarity s)),
      (''pair_avg_similarity'', JFloat (sc_pair_avg s)),
      (''grounded_consensus'', JFloat (sc_grounded_consensus s)),
      (''disagreement_penalty'', JFloat (sc_disagreement_penalty s)),
      (''final_score'', JFloat (sc_final_score s)),
      (''accepted'', JBool (sc_accepted s)),
      (''candidate_preview'', JString (substr candidate 0 240))]"

definition consensus_json ::
  "engine \<Rightarrow> string \<Rightarrow> string \<Rightarrow> string list \<Rightarrow> consensus_params \<Rightarrow> consensus \<Rightarrow> json" where
  "consensus_json e task_type source_text candidates p r = object
     [(''task_type'', JString task_type),
      (''source_text'', JString source_text),
      (''context_text'', JString (compose_grounding_context task_type source_text)),
      (''candidate_count'', JInt (int (length candidates))),
      (''threshold'', JFloat (cp_threshold p)),
      (''context_min_similarity'', JFloat (cp_context_min_similarity p)),
      (''weights'', object [(''context'', JFloat (cp_context_weight p)),
                            (''consensus'', JFloat (cp_consensus_weight p))]),
      (''consensus_level'', JInt (uint (level_code (co_level r)))),
      (''best_index'', JInt (int (co_best_index r))),
      (''best_score'', JFloat (fmax (Fin 0) (co_best_score r))),
      (''accepted'', JBool (co_accepted r)),
      (''accepted_count'', JInt (int (co_accepted_count r))),
      (''scores'', JArray (map (\<lambda>(i, s). score_item i s (candidates ! i))
                             (zip [0..<length candidates] (co_scores r)))),
      (''status'', object
         [(''status'', JString (if co_accepted r then ''success'' else ''partial'')),
          (''backend'', JString ''embedding_consensus''),
          (''degraded'', JBool (degraded e)),
          (''error'', JString (if degraded e then en_error e else ''''))])]"

text \<open>The embeddings of the candidates, in order; the first exception ends it.\<close>

fun embed_all :: "fp \<Rightarrow> engine \<Rightarrow> string list \<Rightarrow> fp list list result" where
  "embed_all ms e [] = Inr []"
| "embed_all ms e (c # cs) =
     bindR (embed ms e c True) (\<lambda>r. bindR (embed_all ms e cs) (\<lambda>vs. Inr (er_vector r # vs)))"

definition build_consensus_payload ::
  "(json \<Rightarrow> string result) \<Rightarrow> fp \<Rightarrow> engine \<Rightarrow> string \<Rightarrow> string \<Rightarrow> string list
     \<Rightarrow> consensus_params \<Rightarrow> string result" where
  "build_consensus_payload dump ms e task_type source_text candidates p =
     bindR (embed ms e (compose_grounding_context task_type source_text) True) (\<lambda>context.
     bindR (embed_all ms e candidates) (\<lambda>candidate_embeddings.
     dump (consensus_json e task_type source_text candidates p
             (consensus_of p (er_vector context) candidate_embeddings))))"

section \<open>Bounds of the arithmetic\<close>

text \<open>\<open>bnd n v\<close>: a finite value between \<open>- n\<close> and \<open>n\<close>.\<close>

definition bnd :: "nat \<Rightarrow> fp \<Rightarrow> bool" where
  "bnd n v \<longleftrightarrow> (\<exists>y. v = Fin y \<and> \<bar>y\<bar> \<le> of_nat n)"

lemma bndI: "\<bar>y\<bar> \<le> of_nat n \<Longrightarrow> bnd n (Fin y)"
  by (simp add: bnd_def)

lemma bnd_mono: "bnd m v \<Longrightarrow> m \<le> n \<Longrightarrow> bnd n v"
  unfolding bnd_def using order_trans of_nat_le_iff by blast

lemma rnd_bnd:
  assumes "\<bar>x\<bar> \<le> of_nat n" "n < 2 ^ p" "1 \<le> p" "emin \<le> int p - 1" "int p \<le> emax"
  shows "bnd n (rnd p emin emax x)"
proof -
  have r: "repr p emin (of_int (int n))" using assms by (intro repr_of_int) simp_all
  have "(of_nat n :: rat) < of_nat (2 ^ p)" using assms(2) by (simp only: of_nat_less_iff)
  also have "\<dots> = 2 powi (int p)" by simp
  also have "\<dots> < 2 powi (emax + 1)" using assms(5) by (simp only: powi_less_iff)
  finally have "(of_int (int n) :: rat) < 2 powi (emax + 1)" by simp
  with rnd_bounded [OF _ r assms(3)] assms(1) show ?thesis by (fastforce simp: bnd_def)
qed

lemma rnd32_bnd: "\<bar>x\<bar> \<le> of_nat n \<Longrightarrow> n < 2 ^ 24 \<Longrightarrow> bnd n (rnd32 x)"
  unfolding rnd32_def by (rule rnd_bnd) simp_all

lemma rnd64_bnd: "\<bar>x\<bar> \<le> of_nat n \<Longrightarrow> n < 2 ^ 53 \<Longrightarrow> bnd n (rnd64 x)"
  unfolding rnd64_def by (rule rnd_bnd) simp_all

lemma bnd_sadd: "bnd m a \<Longrightarrow> bnd n b \<Longrightarrow> m + n < 2 ^ 24 \<Longrightarrow> bnd (m + n) (sadd a b)"
  by (auto simp: bnd_def [of _ a] bnd_def [of _ b] intro!: rnd32_bnd)

lemma bnd_ssub: "bnd m a \<Longrightarrow> bnd n b \<Longrightarrow> m + n < 2 ^ 24 \<Longrightarrow> bnd (m + n) (ssub a b)"
  by (auto simp: fsub_def bnd_def [of _ a] bnd_def [of _ b] intro!: rnd32_bnd)

lemma bnd_smul: "bnd m a \<Longrightarrow> bnd n b \<Longrightarrow> m * n < 2 ^ 24 \<Longrightarrow> bnd (m * n) (smul a b)"
  by (auto simp: bnd_def [of _ a] bnd_def [of _ b] abs_mult intro!: rnd32_bnd mult_mono)

lemma bnd_dadd: "bnd m a \<Longrightarrow> bnd n b \<Longrightarrow> m + n < 2 ^ 53 \<Longrightarrow> bnd (m + n) (dadd a b)"
  by (auto simp: bnd_def [of _ a] bnd_def [of _ b] intro!: rnd64_bnd)

lemma bnd_dmul: "bnd m a \<Longrightarrow> bnd n b \<Longrightarrow> m * n < 2 ^ 53 \<Longrightarrow> bnd (m * n) (dmul a b)"
  by (auto simp: bnd_def [of _ a] bnd_def [of _ b] abs_mult intro!: rnd64_bnd mult_mono)

text \<open>\<open>unit01 v\<close>: a finite value between 0 and 1, what \<open>clamp01\<close> makes of any number.\<close>

definition unit01 :: "fp \<Rightarrow> bool" where
  "unit01 v \<longleftrightarrow> (\<exists>y. v = Fin y \<and> 0 \<le> y \<and> y \<le> 1)"

lemma unit01_bnd: "unit01 v \<Longrightarrow> bnd 1 v"
  by (auto simp: unit01_def bnd_def)

lemma clamp01_unit: "v \<noteq> NaN \<Longrightarrow> unit01 (clamp01 v)"
  by (cases v) (auto simp: clamp01_def unit01_def)

lemma clamp01_id: "unit01 v \<Longrightarrow> clamp01 v = v"
  by (auto simp: clamp01_def unit01_def)

lemma bnd_not_NaN: "bnd n v \<Longrightarrow> v \<noteq> NaN"
  by (auto simp: bnd_def)

section \<open>The cosine\<close>

abbreviation unit_vec :: "fp list \<Rightarrow> bool" where "unit_vec \<equiv> list_all (bnd 1)"

lemma cosine_sums_bnd:
  assumes "unit_vec a" "unit_vec b" "length a = length b" "length a < 2 ^ 53"
  obtains d x y where "cosine_sums a b = (Fin d, Fin x, Fin y)"
proof -
  let ?step = "\<lambda>(dot, norm_a, norm_b) (da, db).
    (dadd dot (dmul da db), dadd norm_a (dmul da da), dadd norm_b (dmul db db))"
  have inv: "\<exists>d' x' y'. foldl ?step (d, x, y) ps = (d', x', y')
      \<and> bnd (k + length ps) d' \<and> bnd (k + length ps) x' \<and> bnd (k + length ps) y'"
    if "\<forall>(u, v) \<in> set ps. bnd 1 u \<and> bnd 1 v" "bnd k d" "bnd k x" "bnd k y"
      "k + length ps < 2 ^ 53" for ps :: "(fp \<times> fp) list" and k d x y
    using that
  proof (induction ps arbitrary: k d x y)
    case (Cons p ps)
    obtain u v where p: "p = (u, v)" by fastforce
    have u: "bnd 1 u" "bnd 1 v" using Cons.prems(1) p by auto
    have m: "bnd 1 (dmul u v)" "bnd 1 (dmul u u)" "bnd 1 (dmul v v)"
      using bnd_dmul [OF u] bnd_dmul [OF u(1) u(1)] bnd_dmul [OF u(2) u(2)] by simp_all
    have k: "k + 1 < 2 ^ 53" using Cons.prems(5) by simp
    have "bnd (k + 1) (dadd d (dmul u v))" "bnd (k + 1) (dadd x (dmul u u))"
      "bnd (k + 1) (dadd y (dmul v v))"
      using bnd_dadd [OF Cons.prems(2) m(1) k] bnd_dadd [OF Cons.prems(3) m(2) k]
        bnd_dadd [OF Cons.prems(4) m(3) k] by simp_all
    from Cons.IH [OF _ this] Cons.prems(1,5) p show ?case by simp
  qed simp
  have z: "\<forall>(u, v) \<in> set (zip a b). bnd 1 u \<and> bnd 1 v"
    using assms(1,2) by (auto simp: list_all_iff dest: set_zip_leftD set_zip_rightD)
  have 0: "bnd 0 (Fin 0)" by (simp add: bndI)
  from inv [OF z 0 0 0] assms(3,4) show ?thesis
    unfolding cosine_sums_def [symmetric] by (auto simp: bnd_def intro: that)
qed

lemma sqrt_above: "Fin (2 powi -52) = Fin e \<Longrightarrow> e < x \<Longrightarrow> 2 powi -26 \<le> rsqrt64 x"
proof (rule rsqrt64_ge [of _ 1 "-26"])
  assume a: "Fin (2 powi -52) = Fin e" "e < x"
  have "(2 :: rat) powi -26 * 2 powi -26 = 2 powi -52" by (simp flip: power_int_add)
  then show "(2 :: rat) powi -26 * 2 powi -26 \<le> x" using a by simp
qed simp_all

lemma quotient_not_NaN:
  assumes "epsilon64 = Fin e" "e < x" "e < y"
  shows "fdiv rnd64 (Fin d) (dmul (fsqrt64 (Fin x)) (fsqrt64 (Fin y))) \<noteq> NaN"
proof -
  have e: "e = 2 powi -52" using assms(1) by (simp add: epsilon64_def)
  have pos: "0 < e" by (simp add: e)
  have s: "2 powi -26 \<le> rsqrt64 x" "2 powi -26 \<le> rsqrt64 y"
    using sqrt_above [of e] assms e by auto
  have "(2 :: rat) powi -52 = 2 powi -26 * 2 powi -26" by (simp flip: power_int_add)
  also have "\<dots> \<le> rsqrt64 x * rsqrt64 y" using s by (intro mult_mono) simp_all
  finally have ge: "2 powi -52 \<le> rsqrt64 x * rsqrt64 y" .
  have "repr 53 (-1022) (2 powi -52)"
    unfolding repr_def by (rule exI [of _ 1], rule exI [of _ "-52"]) simp
  then have "rnd64 (rsqrt64 x * rsqrt64 y) = PInf
      \<or> (\<exists>q. rnd64 (rsqrt64 x * rsqrt64 y) = Fin q \<and> 2 powi -52 \<le> q)"
    unfolding rnd64_def using ge by (intro rnd_ge) simp_all
  moreover have "0 < q" if "2 powi -52 \<le> q" for q :: rat using pos that e by simp
  moreover have "rnd64 z \<noteq> NaN" for z by (simp add: rnd64_def rnd_def Let_def)
  ultimately show ?thesis using assms(2,3) pos by fastforce
qed

lemma cosine_unit:
  assumes "unit_vec a" "unit_vec b" "length a < 2 ^ 53"
  shows "bnd 1 (cosine_similarity a b)"
proof (cases "a = [] \<or> b = [] \<or> length a \<noteq> length b")
  case True
  then show ?thesis by (auto simp: cosine_similarity_def intro: bndI)
next
  case False
  then obtain d x y where sums: "cosine_sums a b = (Fin d, Fin x, Fin y)"
    using cosine_sums_bnd assms by blast
  define e :: rat where "e = 2 powi -52"
  have e: "epsilon64 = Fin e" by (simp only: epsilon64_def e_def)
  show ?thesis
  proof (cases "x \<le> e \<or> y \<le> e")
    case True
    then have "fle (Fin x) epsilon64 \<or> fle (Fin y) epsilon64" by (auto simp: e fle_def)
    then have "cosine_similarity a b = Fin 0"
      using False sums by (simp add: cosine_similarity_def)
    then show ?thesis by (simp add: bndI)
  next
    case nz: False
    define sim where "sim = fdiv rnd64 (Fin d) (dmul (fsqrt64 (Fin x)) (fsqrt64 (Fin y)))"
    have "sim \<noteq> NaN" unfolding sim_def using nz e by (intro quotient_not_NaN) auto
    then have "\<exists>z. fclamp sim (Fin (-1)) (Fin 1) = Fin z \<and> \<bar>z\<bar> \<le> of_nat 1"
      by (cases sim) (auto simp: fclamp_def)
    then obtain z where z: "fclamp sim (Fin (-1)) (Fin 1) = Fin z" "\<bar>z\<bar> \<le> of_nat 1" by blast
    have "\<not> (fle (Fin x) epsilon64 \<or> fle (Fin y) epsilon64)" using nz by (auto simp: e fle_def)
    then have "cosine_similarity a b = fcast rnd32 (fclamp sim (Fin (-1)) (Fin 1))"
      using False unfolding cosine_similarity_def sums sim_def by (simp only: Let_def prod.case if_False)
    then have "cosine_similarity a b = rnd32 z" by (simp add: z(1))
    then show ?thesis using z(2) by (simp add: rnd32_bnd)
  qed
qed

section \<open>Scores in range\<close>

lemma rnd32_of_nat: "n < 2 ^ 24 \<Longrightarrow> rnd32 (of_nat n) = Fin (of_nat n)"
proof -
  assume n: "n < 2 ^ 24"
  then have "repr 24 (-126) (of_int (int n))" by (intro repr_of_int) simp_all
  moreover obtain y where "rnd32 (of_nat n) = Fin y" "\<bar>y\<bar> \<le> of_nat n"
    using rnd32_bnd [of "of_nat n" n] n by (auto simp: bnd_def)
  ultimately show ?thesis by (auto simp: rnd32_def rnd_def Let_def rq_exact split: if_splits)
qed

lemma pair_avg_unit:
  assumes "list_all unit_vec embs" "list_all (\<lambda>v. length v < 2 ^ 53) embs" "i < length embs"
    and "length embs < 2 ^ 24"
  shows "bnd 1 (pair_avg embs i)"
proof -
  let ?step = "\<lambda>(sum, cnt :: nat) j. if i = j then (sum, cnt)
                   else (sadd sum (cosine_similarity (embs ! i) (embs ! j)), cnt + 1)"
  have inv: "case foldl ?step (s, c) js of (s', c') \<Rightarrow> bnd c' s' \<and> c' \<le> c + length js"
    if "bnd c s" "set js \<subseteq> {..<length embs}" "c + length js < 2 ^ 24" for s and c :: nat and js
    using that
  proof (induction js arbitrary: s c)
    case (Cons j js)
    have cos: "bnd 1 (cosine_similarity (embs ! i) (embs ! j))"
      using assms Cons.prems(2) by (intro cosine_unit) (simp_all add: list_all_length)
    have c: "c + 1 < 2 ^ 24" using Cons.prems(3) by simp
    have "bnd (c + 1) (sadd s (cosine_similarity (embs ! i) (embs ! j)))"
      by (rule bnd_sadd [OF Cons.prems(1) cos c])
    from Cons.IH [OF this] Cons.IH [OF Cons.prems(1)] Cons.prems(2,3)
    show ?case by (auto split: prod.splits)
  qed simp
  obtain s c where sc: "foldl ?step (Fin 0, 0) [0..<length embs] = (s, c)" by fastforce
  have 0: "bnd 0 (Fin 0)" by (simp add: bndI)
  have s: "bnd c s" "c < 2 ^ 24"
    using inv [OF 0, of "[0..<length embs]"] assms(4) sc by (auto simp: lessThan_atLeast0)
  then obtain y where y: "s = Fin y" "\<bar>y\<bar> \<le> of_nat c" by (auto simp: bnd_def)
  have "bnd 1 (sdiv s (rnd32 (of_nat c)))" if "0 < c"
  proof -
    have "\<bar>y / of_nat c\<bar> \<le> of_nat 1" using y(2) that by (simp add: abs_divide divide_le_eq)
    then show ?thesis using y(1) s(2) that by (simp add: rnd32_of_nat rnd32_bnd)
  qed
  then show ?thesis unfolding pair_avg_def sc by (simp add: bndI)
qed

definition params_ok :: "consensus_params \<Rightarrow> bool" where
  "params_ok p \<longleftrightarrow> unit01 (cp_threshold p) \<and> unit01 (cp_context_weight p)
     \<and> unit01 (cp_consensus_weight p) \<and> unit01 (cp_context_min_similarity p)"

lemma rnd32_5_100: "\<exists>y. rnd32 (5 / 100) = Fin y \<and> 0 < y"
proof -
  have r: "repr 24 (-126) (2 powi -5)"
    unfolding repr_def by (rule exI [of _ 1], rule exI [of _ "-5"]) simp
  have le: "(2 :: rat) powi -5 \<le> 5 / 100" by (simp add: power_int_minus)
  have "bnd 1 (rnd32 (5 / 100))" by (rule rnd32_bnd) simp_all
  then obtain y where y: "rnd32 (5 / 100) = Fin y" by (auto simp: bnd_def)
  have "rnd32 (5 / 100) = PInf \<or> (\<exists>y. rnd32 (5 / 100) = Fin y \<and> 2 powi -5 \<le> y)"
    unfolding rnd32_def by (rule rnd_ge [OF le r]) simp_all
  then have "2 powi -5 \<le> y" using y by simp
  then have "0 < y" using powi_pos [of "-5"] by linarith
  then show ?thesis using y by blast
qed

lemma denominator_pos:
  assumes "bnd n v"
  shows "\<exists>y. fmax v (rnd32 (5 / 100)) = Fin y \<and> 0 < y"
  using assms rnd32_5_100 by (auto simp: bnd_def fmax_def)

lemma score_candidate_range:
  assumes "params_ok p" "bnd 1 sim" "bnd 1 avg"
  shows "unit01 (sc_final_score (score_candidate p sim avg))
    \<and> bnd 1 (sc_grounded_consensus (score_candidate p sim avg))
    \<and> bnd 2 (sc_disagreement_penalty (score_candidate p sim avg))"
proof -
  have u: "bnd 1 (cp_context_min_similarity p)" "bnd 1 (cp_context_weight p)" "bnd 1 (cp_consensus_weight p)"
    using assms(1) unfolding params_ok_def by (blast intro: unit01_bnd)+
  have 1: "bnd 1 (Fin 1)" by (simp add: bndI)
  define den where "den = fmax (ssub (Fin 1) (cp_context_min_similarity p)) (rnd32 (5 / 100))"
  obtain q where q: "den = Fin q" "0 < q"
    unfolding den_def using denominator_pos [OF bnd_ssub [OF 1 u(1)]] by auto
  have "bnd (1 + 1) (ssub sim (cp_context_min_similarity p))"
    by (rule bnd_ssub [OF assms(2) u(1)]) simp
  then obtain y where "ssub sim (cp_context_min_similarity p) = Fin y" by (auto simp: bnd_def)
  then have "sdiv (ssub sim (cp_context_min_similarity p)) den \<noteq> NaN"
    using q by (simp add: rnd32_def rnd_def Let_def)
  then have gate: "bnd 1 (clamp01 (sdiv (ssub sim (cp_context_min_similarity p)) den))"
    by (intro unit01_bnd clamp01_unit)
  define g where "g = smul avg (clamp01 (sdiv (ssub sim (cp_context_min_similarity p)) den))"
  have g: "bnd 1 g" unfolding g_def using bnd_smul [OF assms(3) gate] by simp
  have "bnd (1 + 1) (ssub avg sim)" by (rule bnd_ssub [OF assms(3,2)]) simp
  then have "bnd 2 (ssub avg sim)" by (simp only: one_add_one)
  then have "bnd 2 (fmax (Fin 0) (ssub avg sim))" using bndI [of 0 2] by (simp add: fmax_def)
  moreover have "bnd 1 (rnd32 (35 / 100))" by (rule rnd32_bnd) simp_all
  ultimately have pen: "bnd 2 (smul (fmax (Fin 0) (ssub avg sim)) (rnd32 (35 / 100)))"
    using bnd_smul [of 2 _ 1] by fastforce
  have "bnd (1 + 1) (sadd (smul (cp_context_weight p) sim) (smul (cp_consensus_weight p) g))"
    by (rule bnd_sadd) (use bnd_smul [OF u(2) assms(2)] bnd_smul [OF u(3) g] in simp_all)
  from bnd_ssub [OF this pen] have "unit01 (clamp01 (ssub (sadd (smul (cp_context_weight p) sim)
      (smul (cp_consensus_weight p) g)) (smul (fmax (Fin 0) (ssub avg sim)) (rnd32 (35 / 100)))))"
    by (intro clamp01_unit bnd_not_NaN) simp
  then show ?thesis
    using g pen by (simp add: score_candidate_def Let_def g_def den_def)
qed

section \<open>The best candidate\<close>

lemma fle_trans: "fle a b \<Longrightarrow> fle b c \<Longrightarrow> fle a c"
  by (cases a; cases b; cases c) (auto simp: fle_def)

lemma fle_flt_trans: "fle a b \<Longrightarrow> flt b c \<Longrightarrow> flt a c"
  by (cases a; cases b; cases c) (auto simp: fle_def)

lemma best_of_max:
  assumes "\<forall>s \<in> set ss. unit01 (sc_final_score s)" "best_of i (bi, bs) ss = (bi', bs')"
    and "bs = Fin (-1) \<or> unit01 bs"
  shows "(\<forall>s \<in> set ss. fle (sc_final_score s) bs') \<and> fle bs bs'
    \<and> (bi' = bi \<and> bs' = bs \<or>
       (\<exists>j < length ss. bi' = i + j \<and> bs' = sc_final_score (ss ! j) \<and> flt bs bs'
          \<and> (\<forall>k < j. flt (sc_final_score (ss ! k)) bs')))"
  using assms
proof (induction ss arbitrary: i bi bs)
  case Nil
  then show ?case by (auto simp: fle_def unit01_def)
next
  case (Cons s ss)
  define new where "new = (if flt bs (sc_final_score s) then (i, sc_final_score s) else (bi, bs))"
  obtain ni ns where n: "new = (ni, ns)" by fastforce
  have s: "unit01 (sc_final_score s)" using Cons.prems(1) by simp
  have ns: "ns = Fin (-1) \<or> unit01 ns" "fle bs ns" "fle (sc_final_score s) ns"
    using n s Cons.prems(3) by (auto simp: new_def fle_def unit01_def split: if_splits)
  have step: "best_of (i + 1) (ni, ns) ss = (bi', bs')"
    using Cons.prems(2) n by (simp add: new_def)
  note IH = Cons.IH [OF _ step ns(1)]
  from IH Cons.prems(1) have all: "\<forall>s \<in> set ss. fle (sc_final_score s) bs'" and nb: "fle ns bs'"
    by auto
  from IH Cons.prems(1) consider "bi' = ni" "bs' = ns"
    | j where "j < length ss" "bi' = i + 1 + j" "bs' = sc_final_score (ss ! j)" "flt ns bs'"
        "\<forall>k < j. flt (sc_final_score (ss ! k)) bs'" by auto
  then show ?case
  proof cases
    case 1
    then show ?thesis
      using all nb n ns fle_trans [of bs ns bs'] by (auto simp: new_def fle_def split: if_splits)
  next
    case 2
    have "\<forall>k < Suc j. flt (sc_final_score ((s # ss) ! k)) bs'"
      using 2(5) fle_flt_trans [OF ns(3) 2(4)] by (auto simp: less_Suc_eq_0_disj)
    moreover have "flt bs bs'" using fle_flt_trans [OF ns(2) 2(4)] .
    ultimately show ?thesis
      using 2 all fle_trans [OF ns(3) nb] fle_trans [OF ns(2) nb] by (intro conjI disjI2 exI [of _ "Suc j"]) auto
  qed
qed

section \<open>What a consensus says\<close>

lemma scores_range:
  assumes "params_ok p" "unit_vec context" "length context < 2 ^ 53"
    and "list_all (\<lambda>v. unit_vec v \<and> length v < 2 ^ 53) embs" "length embs < 2 ^ 24"
  shows "\<forall>s \<in> set (scores_of p context embs). unit01 (sc_final_score s)
           \<and> bnd 1 (sc_context_similarity s) \<and> bnd 1 (sc_pair_avg s)"
proof
  fix s assume "s \<in> set (scores_of p context embs)"
  then obtain i where i: "i < length embs"
      "s = score_candidate p (cosine_similarity context (embs ! i)) (pair_avg embs i)"
    by (auto simp: scores_of_def)
  have u: "list_all unit_vec embs" "list_all (\<lambda>v. length v < 2 ^ 53) embs"
    using assms(4) by (auto simp: list_all_iff)
  have c: "bnd 1 (cosine_similarity context (embs ! i))"
    using assms(2,3) u(1) i(1) by (intro cosine_unit) (simp_all add: list_all_length)
  have a: "bnd 1 (pair_avg embs i)" using u i(1) assms(5) by (intro pair_avg_unit)
  have "sc_context_similarity s = cosine_similarity context (embs ! i)" "sc_pair_avg s = pair_avg embs i"
    by (simp_all add: i(2) score_candidate_def Let_def)
  then show "unit01 (sc_final_score s) \<and> bnd 1 (sc_context_similarity s) \<and> bnd 1 (sc_pair_avg s)"
    using score_candidate_range [OF assms(1) c a] c a i(2) by metis
qed

lemma consensus_facts:
  assumes "params_ok p" "unit_vec context" "length context < 2 ^ 53"
    and "list_all (\<lambda>v. unit_vec v \<and> length v < 2 ^ 53) embs" "embs \<noteq> []" "length embs < 2 ^ 24"
    and r: "r = consensus_of p context embs"
  shows "length (co_scores r) = length embs"
    and "\<forall>s \<in> set (co_scores r). unit01 (sc_final_score s) \<and> bnd 1 (sc_context_similarity s)
           \<and> bnd 1 (sc_pair_avg s)"
    and "co_best_index r < length embs"
    and "co_best_score r = sc_final_score (co_scores r ! co_best_index r)"
    and "\<forall>s \<in> set (co_scores r). fle (sc_final_score s) (co_best_score r)"
    and "\<forall>j < co_best_index r. flt (sc_final_score (co_scores r ! j)) (co_best_score r)"
    and "co_accepted_count r = length (filter sc_accepted (co_scores r))"
    and "co_level r = (if co_accepted_count r \<ge> 3 then CONSENSUS_STRONG
           else if co_accepted_count r \<ge> 2 then CONSENSUS_PARTIAL else CONSENSUS_FAILED)"
    and "co_accepted r \<longleftrightarrow> co_accepted_count r \<ge> 2"
proof -
  define ss where "ss = scores_of p context embs"
  obtain bi bs where best: "best_of 0 (0, Fin (-1)) ss = (bi, bs)" by fastforce
  have rr: "co_scores r = ss" "co_best_index r = bi" "co_best_score r = bs"
    "co_accepted_count r = length (filter sc_accepted ss)"
    "co_accepted r \<longleftrightarrow> co_accepted_count r \<ge> 2 \<and> fle (cp_threshold p) bs"
    "co_level r = (if co_accepted_count r \<ge> 3 then CONSENSUS_STRONG
           else if co_accepted_count r \<ge> 2 then CONSENSUS_PARTIAL else CONSENSUS_FAILED)"
    by (simp_all add: r consensus_of_def best ss_def [symmetric] Let_def)
  show len: "length (co_scores r) = length embs" by (simp add: rr ss_def scores_of_def)
  from scores_range [OF assms(1-4,6)]
  show range: "\<forall>s \<in> set (co_scores r). unit01 (sc_final_score s)
      \<and> bnd 1 (sc_context_similarity s) \<and> bnd 1 (sc_pair_avg s)" by (simp add: rr ss_def)
  then have fin: "\<forall>s \<in> set ss. unit01 (sc_final_score s)" using rr by simp
  note m = best_of_max [OF fin best disjI1 [OF refl]]
  show le: "\<forall>s \<in> set (co_scores r). fle (sc_final_score s) (co_best_score r)" using m rr by simp
  have "0 < length ss" using assms(5) len rr by simp
  then have hd: "ss ! 0 \<in> set ss" by simp
  have "bs \<noteq> Fin (-1)"
    using bspec [OF fin hd] bspec [OF conjunct1 [OF m] hd] by (auto simp: unit01_def fle_def)
  then obtain j where j: "j < length ss" "bi = j" "bs = sc_final_score (ss ! j)"
      "\<forall>k < j. flt (sc_final_score (ss ! k)) bs" using m by auto
  show "co_best_index r < length embs" "co_best_score r = sc_final_score (co_scores r ! co_best_index r)"
    "\<forall>j < co_best_index r. flt (sc_final_score (co_scores r ! j)) (co_best_score r)"
    using j rr len by simp_all
  show "co_accepted_count r = length (filter sc_accepted (co_scores r))" by (simp add: rr)
  show "co_level r = (if co_accepted_count r \<ge> 3 then CONSENSUS_STRONG
           else if co_accepted_count r \<ge> 2 then CONSENSUS_PARTIAL else CONSENSUS_FAILED)" by (rule rr)
  have "fle (cp_threshold p) bs" if "co_accepted_count r \<ge> 2"
  proof -
    have "filter sc_accepted ss \<noteq> []" using that rr(4) by auto
    then obtain s where s: "s \<in> set ss" "sc_accepted s" by (auto simp: filter_empty_conv)
    have "fle (cp_threshold p) (sc_final_score s)"
      using s by (auto simp: ss_def scores_of_def score_candidate_def Let_def)
    moreover have "fle (sc_final_score s) bs" using le s(1) rr by simp
    ultimately show ?thesis by (rule fle_trans)
  qed
  then show "co_accepted r \<longleftrightarrow> co_accepted_count r \<ge> 2" using rr by auto
qed

end
