(* ===== verification/Udp_Heartbeat.thy ===== *)
theory Udp_Heartbeat
  imports Framing Pal_Socket Thread_Owner
begin

text \<open>
  The heartbeat channel (\<open>linep/src/udp/heartbeat.cpp\<close>): the sender object with its atomic status
  fields, its loop body and its 50 ms sleep ticks, and the receiver that hands every valid
  12-byte datagram to a callback. Both own a thread and interpret \<open>thread_owner\<close>. The sleep loop
  counts in 32 bits and need not end, so it is a partial function.
\<close>

section \<open>The sender\<close>

record hb_sender =
  hs_worker_id :: u16
  hs_slot_id :: u8
  hs_target_ip :: string
  hs_target_port :: u16
  hs_interval_ms :: u32
  hs_slot_flags :: u8
  hs_load :: u8
  hs_queue_depth :: u8
  hs_seq :: u8
  hs_running :: bool
  hs_thread :: thread_status

definition create_heartbeat_sender :: "u16 \<Rightarrow> u8 \<Rightarrow> hb_sender" where
  "create_heartbeat_sender worker_id slot_id =
     \<lparr>hs_worker_id = worker_id, hs_slot_id = slot_id, hs_target_ip = '''', hs_target_port = 0,
      hs_interval_ms = 1000, hs_slot_flags = 0, hs_load = 0, hs_queue_depth = 0, hs_seq = 0,
      hs_running = False, hs_thread = No_thread\<rparr>"

definition sender_start ::
  "string \<times> u16 \<times> u32 \<Rightarrow> hb_sender \<Rightarrow> (bool \<times> hb_sender) outcome" where
  "sender_start a s =
     (case a of (target_ip, target_port, interval_ms) \<Rightarrow>
        if hs_running s then Ret (False, s)
        else let s = s\<lparr>hs_target_ip := target_ip, hs_target_port := target_port,
                       hs_interval_ms := interval_ms, hs_running := True\<rparr>
          in if joinable (hs_thread s) then Terminated else Ret (True, s\<lparr>hs_thread := Live\<rparr>))"

definition sender_stop :: "hb_sender \<Rightarrow> hb_sender" where
  "sender_stop s =
     (let s = s\<lparr>hs_running := False\<rparr>
      in if joinable (hs_thread s) then s\<lparr>hs_thread := No_thread\<rparr> else s)"

definition set_status :: "u8 \<Rightarrow> u8 \<Rightarrow> u8 \<Rightarrow> hb_sender \<Rightarrow> hb_sender" where
  "set_status slot_flags load queue_depth s =
     s\<lparr>hs_slot_flags := slot_flags, hs_load := load, hs_queue_depth := queue_depth\<rparr>"

text \<open>\<open>run\<close> when \<open>udp_open\<close> fails, and the part of one iteration before the sleep.\<close>

definition sender_no_socket :: "hb_sender \<Rightarrow> hb_sender" where
  "sender_no_socket s = s\<lparr>hs_running := False, hs_thread := Exited\<rparr>"

definition sender_beat :: "hb_sender \<Rightarrow> bytes \<times> hb_sender" where
  "sender_beat s =
     (let frame = make_heartbeat_compact (hs_worker_id s) (hs_slot_id s) (hs_slot_flags s)
                    (hs_load s) (hs_queue_depth s) (hs_seq s)
      in (heartbeat_bytes frame, s\<lparr>hs_seq := hs_seq s + 1\<rparr>))"

text \<open>The datagrams of \<open>n\<close> iterations of a running sender.\<close>

fun sender_run :: "nat \<Rightarrow> hb_sender \<Rightarrow> bytes list \<times> hb_sender" where
  "sender_run 0 s = ([], s)"
| "sender_run (Suc n) s =
     (if hs_running s
      then let (d, s) = sender_beat s; (ds, s) = sender_run n s in (d # ds, s)
      else ([], s))"

text \<open>
  The sleep loop while nobody calls \<open>stop\<close>: the number of 50 ms ticks, \<open>None\<close> when it never
  ends.
\<close>

partial_function (option) sleep_ticks :: "u32 \<Rightarrow> u32 \<Rightarrow> nat \<Rightarrow> nat option" where
  "sleep_ticks interval slept ticks =
     (if slept < interval then sleep_ticks interval (slept + 50) (Suc ticks) else Some ticks)"

declare sleep_ticks.simps [code]

interpretation udp_sender: thread_owner sender_start sender_stop sender_no_socket
    hs_running hs_thread
  by unfold_locales
    (auto simp: sender_start_def sender_stop_def sender_no_socket_def Let_def joinable_iff
      split: prod.splits)

section \<open>The receiver\<close>

type_synonym hb_callback = "heartbeat_compact \<times> string \<times> u16"

record hb_receiver =
  hr_port :: u16
  hr_has_callback :: bool
  hr_running :: bool
  hr_thread :: thread_status

definition hb_receiver_init :: hb_receiver where
  "hb_receiver_init = \<lparr>hr_port = 0, hr_has_callback = False, hr_running = False,
                       hr_thread = No_thread\<rparr>"

definition hb_receiver_start :: "u16 \<times> bool \<Rightarrow> hb_receiver \<Rightarrow> (bool \<times> hb_receiver) outcome" where
  "hb_receiver_start a r =
     (if hr_running r then Ret (False, r)
      else let r = r\<lparr>hr_port := fst a, hr_has_callback := snd a, hr_running := True\<rparr>
        in if joinable (hr_thread r) then Terminated else Ret (True, r\<lparr>hr_thread := Live\<rparr>))"

definition hb_receiver_stop :: "hb_receiver \<Rightarrow> hb_receiver" where
  "hb_receiver_stop r =
     (let r = r\<lparr>hr_running := False\<rparr>
      in if joinable (hr_thread r) then r\<lparr>hr_thread := No_thread\<rparr> else r)"

definition hb_receiver_no_socket :: "hb_receiver \<Rightarrow> hb_receiver" where
  "hb_receiver_no_socket r = r\<lparr>hr_running := False, hr_thread := Exited\<rparr>"

interpretation udp_receiver: thread_owner hb_receiver_start hb_receiver_stop hb_receiver_no_socket
    hr_running hr_thread
  by unfold_locales
    (simp_all add: hb_receiver_start_def hb_receiver_stop_def hb_receiver_no_socket_def Let_def
      joinable_iff)

text \<open>
  \<open>recvfrom\<close> into a buffer of \<open>len\<close> bytes: POSIX cuts a longer datagram silently, Winsock
  reports an error for it.
\<close>

definition udp_recvfrom :: "bool \<Rightarrow> bytes \<Rightarrow> nat \<Rightarrow> int \<times> bytes" where
  "udp_recvfrom windows datagram len =
     (if length datagram \<le> len then (int (length datagram), datagram)
      else if windows then (-1, take len datagram) else (int len, take len datagram))"

text \<open>
  One iteration of the receive loop: the event is a datagram with its source, or a timeout; the
  result is the call of the callback, if there is one.
\<close>

definition receive_one ::
  "bool \<Rightarrow> hb_receiver \<Rightarrow> (bytes \<times> string \<times> u16) option \<Rightarrow> hb_callback list" where
  "receive_one windows r event =
     (case event of
        None \<Rightarrow> []
      | Some (datagram, src_ip, src_port) \<Rightarrow>
          (case udp_recvfrom windows datagram 12 of (n, buf) \<Rightarrow>
             if n = 12 then
               (case heartbeat_of_bytes buf of
                  None \<Rightarrow> []
                | Some frame \<Rightarrow>
                    if validate_heartbeat_compact frame \<and> hr_has_callback r
                    then [(frame, src_ip, src_port)] else [])
             else []))"

fun receive_loop ::
  "bool \<Rightarrow> hb_receiver \<Rightarrow> (bytes \<times> string \<times> u16) option list \<Rightarrow> hb_callback list" where
  "receive_loop windows r [] = []"
| "receive_loop windows r (e # es) =
     (if hr_running r then receive_one windows r e @ receive_loop windows r es else [])"

section \<open>Properties\<close>

lemma make_heartbeat_fields [simp]:
  "hb_worker_id (make_heartbeat_compact w s fl l q sq) = w"
  "hb_slot_id (make_heartbeat_compact w s fl l q sq) = s"
  "hb_slot_flags (make_heartbeat_compact w s fl l q sq) = fl"
  "hb_load (make_heartbeat_compact w s fl l q sq) = l"
  "hb_queue_depth (make_heartbeat_compact w s fl l q sq) = q"
  "hb_sequence (make_heartbeat_compact w s fl l q sq) = sq"
  by (simp_all add: make_heartbeat_compact_def Let_def)

text \<open>The frames a sender puts into its datagrams.\<close>

definition beat_frame :: "hb_sender \<Rightarrow> nat \<Rightarrow> heartbeat_compact" where
  "beat_frame s i =
     make_heartbeat_compact (hs_worker_id s) (hs_slot_id s) (hs_slot_flags s) (hs_load s)
       (hs_queue_depth s) (hs_seq s + word_of_nat i)"

lemma beat_frame_next: "beat_frame (s\<lparr>hs_seq := hs_seq s + 1\<rparr>) i = beat_frame s (Suc i)"
  by (simp add: beat_frame_def ac_simps)

lemma sender_run_frames:
  assumes "hs_running s"
  shows "fst (sender_run n s) = map (\<lambda>i. heartbeat_bytes (beat_frame s i)) [0..<n]"
  using assms
proof (induction n arbitrary: s)
  case (Suc n)
  let ?s = "s\<lparr>hs_seq := hs_seq s + 1\<rparr>"
  have "fst (sender_run (Suc n) s) = heartbeat_bytes (beat_frame s 0) # fst (sender_run n ?s)"
    using Suc.prems by (simp add: sender_beat_def Let_def beat_frame_def split: prod.splits)
  also have "fst (sender_run n ?s) = map (\<lambda>i. heartbeat_bytes (beat_frame s (Suc i))) [0..<n]"
    using Suc by (simp add: beat_frame_next)
  finally show ?case by (simp add: upt_conv_Cons map_Suc_upt [symmetric] del: upt_Suc)
qed simp

lemma receive_one_beat:
  assumes "hr_running r" "hr_has_callback r"
  shows "receive_one windows r (Some (heartbeat_bytes (beat_frame s i), ip, port))
    = [(beat_frame s i, ip, port)]"
  using assms by (simp add: receive_one_def udp_recvfrom_def beat_frame_def)

lemma receive_one_None [simp]: "receive_one windows r None = []"
  by (simp add: receive_one_def)

lemma receive_loop_running:
  assumes "hr_running r"
  shows "receive_loop windows r es
    = concat (map (receive_one windows r) (filter (\<lambda>e. e \<noteq> None) es))"
proof (induction es)
  case (Cons e es)
  then show ?case using assms by (cases e) auto
qed simp


definition sender_30 :: hb_sender where
  "sender_30 = (create_heartbeat_sender 30 0)\<lparr>hs_running := True, hs_slot_flags := 3, hs_seq := 255\<rparr>"


text \<open>
  The receiver's callback sees only frames that pass validation, each the first twelve
  bytes of a datagram that arrived; on POSIX a longer datagram is accepted by its first twelve
  bytes, on Windows it is dropped.
\<close>

lemma receiver_callback_valid:
  assumes "(f, ip, port) \<in> set (receive_loop windows r events)"
  shows "validate_heartbeat_compact f
    \<and> (\<exists>d. Some (d, ip, port) \<in> set events \<and> take 12 d = heartbeat_bytes f
         \<and> (length d = 12 \<or> 12 < length d \<and> \<not> windows))"
  using assms
proof (induction events)
  case (Cons e es)
  have one: "validate_heartbeat_compact f \<and> (\<exists>d. e = Some (d, ip, port)
      \<and> take 12 d = heartbeat_bytes f \<and> (length d = 12 \<or> 12 < length d \<and> \<not> windows))"
    if m: "(f, ip, port) \<in> set (receive_one windows r e)"
  proof -
    from m obtain d i p where e': "e = Some (d, i, p)" by (cases e) auto
    obtain n buf where nb: "udp_recvfrom windows d 12 = (n, buf)" by fastforce
    have n: "n = 12" using m e' nb by (cases "n = 12") (simp_all add: receive_one_def)
    then obtain g where g: "heartbeat_of_bytes buf = Some g"
      using m e' nb by (cases "heartbeat_of_bytes buf") (simp_all add: receive_one_def)
    then have fg: "f = g \<and> i = ip \<and> p = port \<and> validate_heartbeat_compact g"
      using m e' nb n
      by (cases "validate_heartbeat_compact g \<and> hr_has_callback r") (simp_all add: receive_one_def)
    then have f: "heartbeat_of_bytes buf = Some f" and v: "validate_heartbeat_compact f"
      and e: "e = Some (d, ip, port)"
      using g e' by simp_all
    from nb n have "buf = take 12 d" "length d = 12 \<or> 12 < length d \<and> \<not> windows"
      by (auto simp: udp_recvfrom_def split: if_splits)
    with heartbeat_bytes_of_bytes [OF f] e v show ?thesis by simp
  qed
  from Cons.prems have "(f, ip, port) \<in> set (receive_one windows r e)
      \<or> (f, ip, port) \<in> set (receive_loop windows r es)"
    by (auto split: if_splits)
  then show ?case
  proof
    assume "(f, ip, port) \<in> set (receive_one windows r e)"
    from one [OF this] show ?thesis by auto
  next
    assume "(f, ip, port) \<in> set (receive_loop windows r es)"
    from Cons.IH [OF this] show ?thesis by auto
  qed
qed simp

lemma receiver_callback_valid_witness:
  "\<exists>f. (f, ''10.0.0.2'', 5000) \<in> set (receive_loop False
          \<lparr>hr_port = 8768, hr_has_callback = True, hr_running = True, hr_thread = Live\<rparr>
          [Some (heartbeat_bytes (beat_frame sender_30 0) @ [9, 9], ''10.0.0.2'', 5000)])
     \<and> validate_heartbeat_compact f"
proof -
  let ?r = "\<lparr>hr_port = 8768, hr_has_callback = True, hr_running = True, hr_thread = Live\<rparr>"
  let ?f = "beat_frame sender_30 0"
  have in_set: "(?f, ''10.0.0.2'', 5000) \<in> set (receive_loop False ?r
      [Some (heartbeat_bytes ?f @ [9, 9], ''10.0.0.2'', 5000)])"
    by (simp add: receive_one_def udp_recvfrom_def) (simp add: beat_frame_def)
  with receiver_callback_valid [OF in_set] show ?thesis by blast
qed

lemma sleep_ticks_bounded:
  assumes "unat interval \<le> 4294967250" "unat slept mod 50 = 0"
  shows "sleep_ticks interval slept k
    = Some (k + (unat interval - unat slept + 49) div 50)"
  using assms(2)
proof (induction "unat interval - unat slept" arbitrary: slept k rule: less_induct)
  case less
  show ?case
  proof (cases "slept < interval")
    case False
    then show ?thesis
      by (subst sleep_ticks.simps) (simp add: word_less_nat_alt not_less)
  next
    case True
    then have lt: "unat slept < unat interval" by (simp add: word_less_nat_alt)
    have "unat slept + 50 \<le> 4294967250"
    proof -
      obtain q where q: "unat slept = 50 * q" using less.prems by auto
      have "50 * q < 50 * 85899345" using lt assms(1) q by simp
      then show ?thesis using q by simp
    qed
    then have s: "unat (slept + 50) = unat slept + 50" by (simp add: unat_word_ariths)
    have "sleep_ticks interval (slept + 50) (Suc k)
        = Some (Suc k + (unat interval - unat (slept + 50) + 49) div 50)"
      using less.hyps [of "slept + 50" "Suc k"] s lt less.prems by simp
    moreover have "Suc k + (unat interval - (unat slept + 50) + 49) div 50
        = k + (unat interval - unat slept + 49) div 50"
    proof (cases "unat slept + 50 \<le> unat interval")
      case True
      define d where "d = unat interval - (unat slept + 50)"
      have "unat interval - unat slept + 49 = d + 49 + 50" using True by (simp add: d_def)
      then show ?thesis unfolding d_def [symmetric] by simp
    next
      case False
      then have "unat interval - unat slept + 49 = (unat interval - unat slept - 1) + 50"
        "unat interval - unat slept - 1 < 50" using lt by simp_all
      then show ?thesis using False by simp
    qed
    ultimately show ?thesis using True s by (subst sleep_ticks.simps) simp
  qed
qed

lemma even_add_50: "even (unat (slept :: u32)) \<Longrightarrow> even (unat (slept + 50))"
  by (simp add: unat_word_ariths dvd_mod_iff)

lemma sleep_ticks_stuck:
  "sleep_ticks interval slept k = Some n \<Longrightarrow> interval = 4294967295 \<longrightarrow> odd (unat slept)"
proof (rule sleep_ticks.raw_induct
    [where P = "\<lambda>interval slept k n. interval = 4294967295 \<longrightarrow> odd (unat slept)"], intro impI)
  fix rec interval slept k n
  assume IH: "\<And>i s t y. rec i s t = Some y \<Longrightarrow> i = 4294967295 \<longrightarrow> odd (unat s)"
    and step: "(if slept < interval then rec interval (slept + 50) (Suc k) else Some k)
      = Some (n :: nat)"
    and i: "interval = (4294967295 :: u32)"
  show "odd (unat slept)"
  proof (rule ccontr)
    assume ev: "\<not> odd (unat slept)"
    have "slept \<noteq> 4294967295" using ev by auto
    moreover have "slept \<le> 4294967295"
      using unat_u32_less [of slept] by (simp add: word_le_nat_alt)
    ultimately have "slept < interval" using i by simp
    with step IH i have "odd (unat (slept + 50))" by auto
    with even_add_50 ev show False by blast
  qed
qed



end
