(* ===== verification/Linep_Endpoint.thy ===== *)
theory Linep_Endpoint
  imports Consensus Tcp_Channel Udp_Heartbeat
begin

text \<open>
  The LiNeP endpoint of the embedding service (\<open>embedding_linep.cpp\<close>): its life cycle with the
  heartbeat sender and the accept thread, the status it reports, and the handler of a connection
  from the first byte received to the last byte sent. The JSON library is a parameter (\<open>parse\<close>,
  \<open>dump\<close>), the allocator is one too (\<open>alloc\<close>: whether a string of this size can be had). An
  exception that leaves the handler ends the process, because the handler is the function of a
  detached thread.
\<close>

section \<open>State and life cycle\<close>

record endpoint =
  ep_config :: EmbeddingConfig
  ep_running :: bool
  ep_queue_depth :: u32
  ep_thread :: thread_status
  ep_sender :: "hb_sender option"
  ep_status :: string

definition LinepEmbeddingEndpoint :: "EmbeddingConfig \<Rightarrow> endpoint" where
  "LinepEmbeddingEndpoint config =
     \<lparr>ep_config = config, ep_running = False, ep_queue_depth = 0, ep_thread = No_thread,
      ep_sender = None, ep_status = ''stopped''\<rparr>"

definition clamp_byte :: "u32 \<Rightarrow> u8" where
  "clamp_byte value = ucast (min value 254)"

definition heartbeat_flags :: "engine \<Rightarrow> bool \<Rightarrow> u8" where
  "heartbeat_flags e busy =
     slot_flag_code SLOT_ALIVE
     OR (if ready e then slot_flag_code SLOT_READY else 0)
     OR (if busy then slot_flag_code SLOT_BUSY else 0)
     OR (if degraded e then slot_flag_code SLOT_DEGRADED else 0)
     OR (if \<not> ready e then slot_flag_code SLOT_ERROR else 0)"

definition update_heartbeat :: "engine \<Rightarrow> bool \<Rightarrow> endpoint \<Rightarrow> endpoint" where
  "update_heartbeat e busy ep =
     (case ep_sender ep of
        None \<Rightarrow> ep
      | Some s \<Rightarrow>
          let load = (if busy then 60 else if ready e then 5 else 0)
          in ep\<lparr>ep_sender := Some (set_status (heartbeat_flags e busy) (clamp_byte load)
                                     (clamp_byte (ep_queue_depth ep)) s)\<rparr>)"

definition endpoint_start :: "engine \<Rightarrow> endpoint \<Rightarrow> (bool \<times> endpoint) outcome" where
  "endpoint_start e ep =
     (if \<not> ec_linep_enabled (ep_config ep) then Ret (False, ep\<lparr>ep_status := ''disabled''\<rparr>)
      else if ep_running ep then Ret (False, ep)
      else
        let config = ep_config ep;
            sender = create_heartbeat_sender (ucast (ec_linep_worker_id config))
                       (ucast (ec_linep_slot_id config));
            ep = update_heartbeat e False (ep\<lparr>ep_running := True, ep_sender := Some sender\<rparr>)
        in case sender_start (ec_linep_heartbeat_host config,
                              word_of_int (ec_linep_heartbeat_port config),
                              word_of_int (ec_linep_heartbeat_interval_ms config))
                             (the (ep_sender ep)) of
             Terminated \<Rightarrow> Terminated
           | Ret (_, s) \<Rightarrow>
               if joinable (ep_thread ep) then Terminated
               else Ret (True, ep\<lparr>ep_sender := Some s, ep_thread := Live, ep_status := ''running''\<rparr>))"

definition endpoint_stop :: "endpoint \<Rightarrow> endpoint" where
  "endpoint_stop ep =
     (if \<not> ep_running ep then ep
      else let ep = ep\<lparr>ep_running := False, ep_sender := None\<rparr>;
               ep = (if joinable (ep_thread ep) then ep\<lparr>ep_thread := No_thread\<rparr> else ep)
        in ep\<lparr>ep_status := ''stopped''\<rparr>)"

text \<open>The destructor: \<open>stop\<close>, then the members; a joinable thread ends the process.\<close>

definition endpoint_destroy :: "endpoint \<Rightarrow> unit outcome" where
  "endpoint_destroy ep = (if joinable (ep_thread (endpoint_stop ep)) then Terminated else Ret ())"

text \<open>\<open>run_tcp_loop\<close> when \<open>tcp_listen\<close> fails.\<close>

definition tcp_loop_no_listen :: "endpoint \<Rightarrow> endpoint" where
  "tcp_loop_no_listen ep =
     ep\<lparr>ep_status := ''tcp_listen_failed'', ep_running := False, ep_thread := Exited\<rparr>"

section \<open>Frames\<close>

text \<open>\<open>recv_header\<close>: its return value and the header when 24 bytes came.\<close>

definition recv_header :: "conn \<Rightarrow> (int \<times> header option \<times> conn) option" where
  "recv_header client =
     (case tcp_recv_all client 24 of
        None \<Rightarrow> None
      | Some (r, buf, client) \<Rightarrow> Some (r, if r = 24 then header_of_bytes buf else None, client))"

definition recv_header_extensions :: "conn \<Rightarrow> header \<Rightarrow> (bool \<times> conn) option" where
  "recv_header_extensions client header =
     (if h_header_len header \<le> 24 then Some (True, client)
      else let extension_len = h_header_len header - 24
        in case tcp_recv_all client (uint extension_len) of
             None \<Rightarrow> None
           | Some (r, _, client) \<Rightarrow> Some (r = uint extension_len, client))"

type_synonym reply = "u8 \<times> u16 \<times> string"

definition reply_header :: "EmbeddingConfig \<Rightarrow> header \<Rightarrow> reply \<Rightarrow> header" where
  "reply_header config header rep =
     (case rep of (msg_type, flags, payload) \<Rightarrow>
        make_header msg_type flags (word_of_nat (length payload)) (h_sequence header)
          (h_correlation_id header) (ucast (ec_linep_worker_id config))
          (ucast (ec_linep_slot_id config)))"

definition send_frame :: "EmbeddingConfig \<Rightarrow> conn \<Rightarrow> header \<Rightarrow> reply \<Rightarrow> bool \<times> conn" where
  "send_frame config client request rep =
     (let payload = snd (snd rep);
          size = sint (word_of_nat (length payload) :: u32)
      in case tcp_send_all client (header_bytes (reply_header config request rep)) 24 of
           (r, client) \<Rightarrow>
             if r \<noteq> 24 then (False, client)
             else if payload \<noteq> [] then
               (case tcp_send_all client (bytes_of_string payload) size of
                  (r, client) \<Rightarrow> (r = size, client))
             else (True, client))"

section \<open>Payloads\<close>

definition build_error_payload ::
  "(json \<Rightarrow> string result) \<Rightarrow> string \<Rightarrow> bool \<Rightarrow> string result" where
  "build_error_payload dump err degr =
     dump (object [(''status'', JString ''failed''), (''error'', JString err),
                   (''degraded'', JBool degr), (''runtime'', JString ''openvino-cpp''),
                   (''slot_type'', JString ''embedding'')])"

text \<open>\<open>std::round(x * 1000.0) / 1000.0\<close>: halves away from zero.\<close>

fun fround :: "fp \<Rightarrow> fp" where
  "fround (Fin x) = Fin (of_int (if x < 0 then - \<lfloor>- x + 1 / 2\<rfloor> else \<lfloor>x + 1 / 2\<rfloor>))"
| "fround v = v"

definition round3 :: "fp \<Rightarrow> fp" where
  "round3 ms = fdiv rnd64 (fround (dmul ms (Fin 1000))) (Fin 1000)"

definition embedding_json :: "engine \<Rightarrow> EmbeddingResult \<Rightarrow> json" where
  "embedding_json e r = object
     [(''item'', object
        [(''model'', JString (er_model r)), (''dimensions'', JInt (int (er_dimensions r))),
         (''vector'', JArray (map JFloat (er_vector r))),
         (''metadata'', object
            [(''runtime'', JString (er_runtime_backend r)), (''transport'', JString ''linep''),
             (''device'', JString (er_device r)), (''normalized'', JBool (er_normalized r)),
             (''embedding_latency_ms'', JFloat (round3 (er_infer_ms r))),
             (''slot_type'', JString ''embedding'')])]),
      (''status'', object
        [(''status'', JString (if degraded e then ''partial'' else ''success'')),
         (''backend'', JString ''embedding''), (''degraded'', JBool (degraded e)),
         (''error'', JString (if degraded e then en_error e else ''''))])]"

definition build_embedding_payload ::
  "(json \<Rightarrow> string result) \<Rightarrow> engine \<Rightarrow> EmbeddingResult \<Rightarrow> string result" where
  "build_embedding_payload dump e r = dump (embedding_json e r)"

section \<open>Requests\<close>

definition error_reply :: "(json \<Rightarrow> string result) \<Rightarrow> string \<Rightarrow> bool \<Rightarrow> reply result" where
  "error_reply dump err degr =
     bindR (build_error_payload dump err degr)
       (\<lambda>p. Inr (msg_code MSG_ERROR, flag_code FLAG_ERROR, p))"

definition ok_flags :: "engine \<Rightarrow> u16" where
  "ok_flags e = (if degraded e then flag_code FLAG_DEGRADED else 0)"

definition embed_request ::
  "(json \<Rightarrow> string result) \<Rightarrow> fp \<Rightarrow> engine \<Rightarrow> json \<Rightarrow> reply result" where
  "embed_request dump ms e body =
     bindR (value_or get_string body ''input_text'' '''') (\<lambda>input_text.
     if input_text = [] then error_reply dump ''empty_input_text'' False
     else
     bindR (value_or get_bool body ''normalize'' (ec_normalize_default (en_config e))) (\<lambda>nrm.
     bindR (embed ms e input_text nrm) (\<lambda>r.
     bindR (build_embedding_payload dump e r) (\<lambda>response.
     Inr (msg_code EMBED_RESPONSE, ok_flags e, response)))))"

fun nonempty_strings :: "json list \<Rightarrow> string list" where
  "nonempty_strings [] = []"
| "nonempty_strings (JString s # items) =
     (if s = [] then nonempty_strings items else s # nonempty_strings items)"
| "nonempty_strings (_ # items) = nonempty_strings items"

definition array_of :: "json \<Rightarrow> string \<Rightarrow> json list option" where
  "array_of body key = (case member body key of Some (JArray items) \<Rightarrow> Some items | _ \<Rightarrow> None)"

definition candidates_of :: "json \<Rightarrow> string list" where
  "candidates_of body =
     (case array_of body ''candidates'' of
        Some items \<Rightarrow> nonempty_strings items
      | None \<Rightarrow> (case array_of body ''answers'' of
          Some items \<Rightarrow> nonempty_strings items
        | None \<Rightarrow> []))"

definition params_of :: "json \<Rightarrow> consensus_params result" where
  "params_of body =
     bindR (value_or get_float body ''threshold'' (rnd32 (65 / 100))) (\<lambda>threshold.
     bindR (value_or get_float body ''context_weight'' (rnd32 (80 / 100))) (\<lambda>context_weight.
     bindR (value_or get_float body ''consensus_weight'' (rnd32 (20 / 100))) (\<lambda>consensus_weight.
     bindR (value_or get_float body ''context_min_similarity'' (rnd32 (40 / 100)))
       (\<lambda>context_min_similarity.
     let context_weight = clamp01 context_weight; consensus_weight = clamp01 consensus_weight;
         weight_sum = sadd context_weight consensus_weight;
         (context_weight, consensus_weight) =
           (if fle weight_sum epsilon32 then (rnd32 (80 / 100), rnd32 (20 / 100))
            else (sdiv context_weight weight_sum, sdiv consensus_weight weight_sum))
     in Inr \<lparr>cp_threshold = clamp01 threshold, cp_context_weight = context_weight,
             cp_consensus_weight = consensus_weight,
             cp_context_min_similarity = clamp01 context_min_similarity\<rparr>))))"

definition consensus_request ::
  "(json \<Rightarrow> string result) \<Rightarrow> fp \<Rightarrow> engine \<Rightarrow> json \<Rightarrow> reply result" where
  "consensus_request dump ms e body =
     bindR (value_or get_string body ''task_type'' '''') (\<lambda>task_type.
     bindR (value_or get_string body ''source_text'' '''') (\<lambda>source_text.
     bindR (if source_text = [] then value_or get_string body ''context_text'' '''' else Inr source_text)
       (\<lambda>source_text.
     if source_text = [] then error_reply dump ''empty_source_text'' False
     else let candidates = candidates_of body in
     if candidates = [] then error_reply dump ''empty_candidates'' False
     else
     bindR (params_of body) (\<lambda>p.
     bindR (build_consensus_payload dump ms e task_type source_text candidates p) (\<lambda>response.
     Inr (msg_code CONSENSUS_RESPONSE, ok_flags e, response))))))"

text \<open>The body of the \<open>try\<close>, and the answer of the handler; \<open>Inl\<close> is an exception that leaves it.\<close>

definition process ::
  "(string \<Rightarrow> json result) \<Rightarrow> (json \<Rightarrow> string result) \<Rightarrow> fp \<Rightarrow> engine \<Rightarrow> u8 \<Rightarrow> string \<Rightarrow> reply result" where
  "process parse dump ms e msg_type payload =
     bindR (parse payload) (\<lambda>body.
       if msg_type = msg_code EMBED_REQUEST then embed_request dump ms e body
       else consensus_request dump ms e body)"

definition respond ::
  "(string \<Rightarrow> json result) \<Rightarrow> (json \<Rightarrow> string result) \<Rightarrow> fp \<Rightarrow> engine \<Rightarrow> u8 \<Rightarrow> string \<Rightarrow> reply result" where
  "respond parse dump ms e msg_type payload =
     (if msg_type \<noteq> msg_code EMBED_REQUEST \<and> msg_type \<noteq> msg_code CONSENSUS_REQUEST
      then error_reply dump ''unsupported_msg_type'' True
      else case process parse dump ms e msg_type payload of
        Inr rep \<Rightarrow> Inr rep
      | Inl ex \<Rightarrow> error_reply dump (what ex) True)"

section \<open>The handler\<close>

datatype served = Stuck | Killed | Served conn

definition client_begin :: "engine \<Rightarrow> endpoint \<Rightarrow> endpoint" where
  "client_begin e ep = update_heartbeat e True (ep\<lparr>ep_queue_depth := ep_queue_depth ep + 1\<rparr>)"

definition client_end :: "engine \<Rightarrow> endpoint \<Rightarrow> endpoint" where
  "client_end e ep = update_heartbeat e False (ep\<lparr>ep_queue_depth := ep_queue_depth ep - 1\<rparr>)"

definition serve ::
  "(string \<Rightarrow> json result) \<Rightarrow> (json \<Rightarrow> string result) \<Rightarrow> (nat \<Rightarrow> bool) \<Rightarrow> fp \<Rightarrow> engine
     \<Rightarrow> EmbeddingConfig \<Rightarrow> conn \<Rightarrow> served" where
  "serve parse dump alloc ms e config client =
     (case recv_header client of
        None \<Rightarrow> Stuck
      | Some (r, None, client) \<Rightarrow> Served client
      | Some (r, Some header, client) \<Rightarrow>
          if \<not> validate_header header then Served client else
          case recv_header_extensions client header of
            None \<Rightarrow> Stuck
          | Some (ok, client) \<Rightarrow>
              if \<not> ok then Served client
              else if \<not> alloc (unat (h_payload_len header)) then Killed
              else
              case (if h_payload_len header > 0
                    then tcp_recv_all client (int_of_len (h_payload_len header))
                    else Some (int_of_len (h_payload_len header), [], client)) of
                None \<Rightarrow> Stuck
              | Some (r, payload, client) \<Rightarrow>
                  if r \<noteq> int_of_len (h_payload_len header) then Served client
                  else case respond parse dump ms e (h_msg_type header) (string_of_bytes payload) of
                    Inl _ \<Rightarrow> Killed
                  | Inr rep \<Rightarrow> Served (snd (send_frame config client header rep)))"

definition handle_client ::
  "(string \<Rightarrow> json result) \<Rightarrow> (json \<Rightarrow> string result) \<Rightarrow> (nat \<Rightarrow> bool) \<Rightarrow> fp \<Rightarrow> engine
     \<Rightarrow> endpoint \<Rightarrow> conn \<Rightarrow> served \<times> endpoint" where
  "handle_client parse dump alloc ms e ep client =
     (let ep = client_begin e ep;
          s = serve parse dump alloc ms e (ep_config ep) client
      in (s, case s of Served _ \<Rightarrow> client_end e ep | _ \<Rightarrow> ep))"

section \<open>The parameters of a consensus\<close>

text \<open>A parsed document holds no NaN.\<close>

definition numbers_ok :: "json \<Rightarrow> bool" where
  "numbers_ok body \<longleftrightarrow> (\<forall>k v. member body k = Some (JFloat v) \<longrightarrow> v \<noteq> NaN)"

text \<open>\<open>float01 v\<close>: a \<open>float\<close> between 0 and 1.\<close>

definition float01 :: "fp \<Rightarrow> bool" where "float01 v \<longleftrightarrow> unit01 v \<and> is_f32 v"

lemma is_f32_01: "is_f32 (Fin 0)" "is_f32 (Fin 1)"
  using is_f32_int [of 0] is_f32_int [of 1] by simp_all

lemma clamp01_float:
  assumes "v \<noteq> NaN" "\<And>y. v = Fin y \<Longrightarrow> is_f32 v"
  shows "float01 (clamp01 v)"
proof -
  have "clamp01 v = Fin 0 \<or> clamp01 v = Fin 1 \<or> (\<exists>y. v = Fin y \<and> clamp01 v = v)"
    using assms(1) by (cases v) (auto simp: clamp01_def)
  then have "is_f32 (clamp01 v)" using is_f32_01 assms(2) by auto
  then show ?thesis using clamp01_unit [OF assms(1)] by (simp add: float01_def)
qed

lemma rnd32_not_NaN [simp]: "rnd32 x \<noteq> NaN"
  by (simp add: rnd32_def rnd_def Let_def)

lemma get_float_ok:
  assumes "value_or get_float body key (rnd32 d) = Inr v" "numbers_ok body"
  shows "v \<noteq> NaN \<and> (\<forall>y. v = Fin y \<longrightarrow> is_f32 v)"
proof (cases "member body key")
  case None
  then have "v = rnd32 d" using assms(1) by (simp add: value_or_def split: if_splits)
  then show ?thesis by (auto dest: is_f32_rnd32)
next
  case (Some j)
  then have v: "get_float j = Inr v" using assms(1) by (simp add: value_or_def split: if_splits)
  show ?thesis
  proof (cases j)
    case (JFloat x)
    then have "x \<noteq> NaN" using assms(2) Some by (auto simp: numbers_ok_def)
    then show ?thesis using v JFloat fcast_f32 [of x] by (cases x) auto
  next
    case (JInt i)
    then show ?thesis using v by (auto dest: is_f32_rnd32)
  qed (use v is_f32_01 in auto)
qed

lemma weight_unit:
  assumes "float01 a" "unit01 b" "\<not> fle (sadd a b) epsilon32"
  shows "unit01 (sdiv a (sadd a b))"
proof -
  obtain x y where x: "a = Fin x" "0 \<le> x" "x \<le> 1" "repr 24 (-126) x" and y: "b = Fin y" "0 \<le> y" "y \<le> 1"
    using assms(1,2) by (auto simp: float01_def unit01_def is_f32_def)
  have "bnd (1 + 1) (sadd a b)"
    by (rule bnd_sadd) (use assms(1,2) in \<open>simp_all add: float01_def unit01_bnd del: One_nat_def\<close>)
  then obtain s where s: "sadd a b = Fin s" by (auto simp: bnd_def)
  have "rnd32 (x + y) = PInf \<or> (\<exists>z. rnd32 (x + y) = Fin z \<and> x \<le> z)"
    unfolding rnd32_def using x y by (intro rnd_ge) simp_all
  then have xs: "x \<le> s" using s x y by simp
  have "0 < s"
  proof -
    have "2 powi -23 < s" using assms(3) s by (auto simp: epsilon32_def fle_def)
    then show ?thesis using powi_pos [of "-23"] by linarith
  qed
  then have "\<bar>x / s\<bar> \<le> 1" "0 \<le> x / s" using x xs by (simp_all add: abs_divide)
  from rnd32_unit [OF this(1)] this(2) obtain z where "rnd32 (x / s) = Fin z" "0 \<le> z" "z \<le> 1"
    by (auto simp: abs_le_iff)
  then show ?thesis using s x \<open>0 < s\<close> by (simp add: unit01_def)
qed

lemma unit01_const: "0 \<le> d \<Longrightarrow> d \<le> 1 \<Longrightarrow> unit01 (rnd32 d)"
  using rnd32_unit [of d] by (auto simp: unit01_def abs_le_iff)

lemma sadd_commute: "sadd a b = sadd b a"
  by (cases a; cases b) (simp_all add: add.commute)

lemma params_of_ok:
  assumes "params_of body = Inr p" "numbers_ok body"
  shows "params_ok p"
proof -
  obtain th cw kw cm where v:
    "value_or get_float body ''threshold'' (rnd32 (65 / 100)) = Inr th"
    "value_or get_float body ''context_weight'' (rnd32 (80 / 100)) = Inr cw"
    "value_or get_float body ''consensus_weight'' (rnd32 (20 / 100)) = Inr kw"
    "value_or get_float body ''context_min_similarity'' (rnd32 (40 / 100)) = Inr cm"
    using assms(1) unfolding params_of_def by (auto simp: bindR_eq_Inr)
  have f: "float01 (clamp01 th)" "float01 (clamp01 cw)" "float01 (clamp01 kw)" "float01 (clamp01 cm)"
    using get_float_ok [OF v(1) assms(2)] get_float_ok [OF v(2) assms(2)]
      get_float_ok [OF v(3) assms(2)] get_float_ok [OF v(4) assms(2)]
    by (auto intro!: clamp01_float)
  then have u: "unit01 (clamp01 th)" "unit01 (clamp01 cw)" "unit01 (clamp01 kw)" "unit01 (clamp01 cm)"
    by (simp_all add: float01_def)
  let ?s = "sadd (clamp01 cw) (clamp01 kw)"
  have w: "unit01 (sdiv (clamp01 cw) ?s)" "unit01 (sdiv (clamp01 kw) ?s)" if "\<not> fle ?s epsilon32"
    using weight_unit [OF f(2) u(3) that] weight_unit [OF f(3) u(2)] that
    by (simp_all add: sadd_commute [of "clamp01 kw"])
  have p: "p = \<lparr>cp_threshold = clamp01 th,
      cp_context_weight = (if fle ?s epsilon32 then rnd32 (80 / 100) else sdiv (clamp01 cw) ?s),
      cp_consensus_weight = (if fle ?s epsilon32 then rnd32 (20 / 100) else sdiv (clamp01 kw) ?s),
      cp_context_min_similarity = clamp01 cm\<rparr>"
    using assms(1) unfolding params_of_def v bindR_simps Let_def by (auto split: if_splits)
  show ?thesis
    unfolding params_ok_def p using u w unit01_const [of "80 / 100"] unit01_const [of "20 / 100"]
    by simp
qed

section \<open>Embeddings of a loaded engine\<close>

text \<open>The model answers with finite numbers.\<close>

definition outputs_ok :: "engine \<Rightarrow> bool" where
  "outputs_ok e \<longleftrightarrow> (\<forall>m ts out. en_model e = Some m \<longrightarrow> cm_infer m ts = Inr out \<longrightarrow>
     list_all is_f32 (te_floats out) \<and> length (te_floats out) < 2 ^ 53)"

lemma tensor_to_vector_part:
  "tensor_to_vector t msk dims = Inr v \<Longrightarrow> set v \<subseteq> set (te_floats t) \<and> length v \<le> length (te_floats t)"
  unfolding tensor_to_vector_def Let_def
  by (auto split: if_splits dest: in_set_takeD in_set_dropD)

lemma embed_normalized_unit:
  assumes "embed ms e t True = Inr r" "outputs_ok e"
  shows "unit_vec (er_vector r) \<and> length (er_vector r) < 2 ^ 53"
proof -
  obtain m ts out v where m: "en_model e = Some m" "cm_infer m ts = Inr out"
      "set v \<subseteq> set (te_floats out)" "length v \<le> length (te_floats out)" "er_vector r = normalize_l2 v"
    using assms(1) unfolding embed_def
    by (fastforce simp: bindR_eq_Inr Let_def split: if_splits option.splits dest: tensor_to_vector_part)
  then have f: "\<forall>w \<in> set v. is_f32 w" "length v < 2 ^ 53"
    using assms(2) by (fastforce simp: outputs_ok_def list_all_iff)+
  have "bnd 1 w" if "w \<in> set (normalize_l2 v)" for w
    using normalize_unit [OF f(1) that] by (auto simp: bnd_def)
  then show ?thesis using f(2) by (auto simp: m(5) list_all_iff normalize_l2_def Let_def)
qed

lemma embed_all_unit:
  assumes "embed_all ms e cs = Inr vs" "outputs_ok e"
  shows "length vs = length cs \<and> list_all (\<lambda>v. unit_vec v \<and> length v < 2 ^ 53) vs"
  using assms(1)
proof (induction cs arbitrary: vs)
  case (Cons c cs)
  then show ?case using embed_normalized_unit [OF _ assms(2)] by (auto simp: bindR_eq_Inr)
qed simp

lemma error_reply_type: "error_reply dump err degr = Inr (t, f, p) \<Longrightarrow> t = msg_code MSG_ERROR"
  by (auto simp: error_reply_def bindR_eq_Inr)

lemma consensus_request_response:
  assumes "consensus_request dump ms e body = Inr (msg_code CONSENSUS_RESPONSE, flags, payload)"
  obtains p task_type source_text ctx embs where
    "params_of body = Inr p" "candidates_of body \<noteq> []"
    "embed ms e (compose_grounding_context task_type source_text) True = Inr ctx"
    "embed_all ms e (candidates_of body) = Inr embs"
    "dump (consensus_json e task_type source_text (candidates_of body) p
       (consensus_of p (er_vector ctx) embs)) = Inr payload"
  using assms that unfolding consensus_request_def build_consensus_payload_def Let_def
  by (auto simp: bindR_eq_Inr split: if_splits dest!: error_reply_type)

text \<open>
  C4: What a consensus response reports. When the model answers with finite numbers, the weights
  and thresholds used are between 0 and 1 whatever the request asked for, every similarity lies
  in [-1, 1] and every final score in [0, 1], the best index names the first candidate of
  highest score, and the consensus is accepted exactly when at least two candidates pass both
  thresholds (strong from three on); the test of the best score against the threshold never
  changes the outcome.
\<close>

theorem consensus_sound:
  assumes "consensus_request dump ms e body = Inr (msg_code CONSENSUS_RESPONSE, flags, payload)"
    and "outputs_ok e" "numbers_ok body" "length (candidates_of body) < 2 ^ 24"
  shows "\<exists>task_type source_text p r n. n = length (candidates_of body) \<and> params_ok p
    \<and> dump (consensus_json e task_type source_text (candidates_of body) p r) = Inr payload
    \<and> length (co_scores r) = n
    \<and> (\<forall>s \<in> set (co_scores r). unit01 (sc_final_score s) \<and> bnd 1 (sc_context_similarity s)
         \<and> bnd 1 (sc_pair_avg s) \<and> fle (sc_final_score s) (co_best_score r))
    \<and> co_best_index r < n \<and> co_best_score r = sc_final_score (co_scores r ! co_best_index r)
    \<and> (\<forall>j < co_best_index r. flt (sc_final_score (co_scores r ! j)) (co_best_score r))
    \<and> co_accepted_count r = length (filter sc_accepted (co_scores r))
    \<and> co_accepted r = (co_accepted_count r \<ge> 2)
    \<and> co_level r = (if co_accepted_count r \<ge> 3 then CONSENSUS_STRONG
           else if co_accepted_count r \<ge> 2 then CONSENSUS_PARTIAL else CONSENSUS_FAILED)"
proof -
  obtain p task_type source_text ctx embs where q:
    "params_of body = Inr p" "candidates_of body \<noteq> []"
    "embed ms e (compose_grounding_context task_type source_text) True = Inr ctx"
    "embed_all ms e (candidates_of body) = Inr embs"
    "dump (consensus_json e task_type source_text (candidates_of body) p
       (consensus_of p (er_vector ctx) embs)) = Inr payload"
    by (rule consensus_request_response [OF assms(1)])
  have p: "params_ok p" using q(1) assms(3) by (rule params_of_ok)
  have c: "unit_vec (er_vector ctx)" "length (er_vector ctx) < 2 ^ 53"
    using embed_normalized_unit [OF q(3) assms(2)] by auto
  have v: "length embs = length (candidates_of body)"
    "list_all (\<lambda>v. unit_vec v \<and> length v < 2 ^ 53) embs"
    using embed_all_unit [OF q(4) assms(2)] by auto
  have n: "embs \<noteq> []" "length embs < 2 ^ 24" using q(2) v(1) assms(4) by auto
  note f = consensus_facts [OF p c v(2) n refl]
  show ?thesis
    using p q(5) f v(1)
    by (intro exI [of _ task_type] exI [of _ source_text] exI [of _ p]
        exI [of _ "consensus_of p (er_vector ctx) embs"]
        exI [of _ "length (candidates_of body)"]) auto
qed

text \<open>A request of two candidates to the engine of the example.\<close>

definition demo_request :: json where
  "demo_request = object [(''source_text'', JString ''s''),
     (''candidates'', JArray [JString ''a'', JString ''b''])]"

lemma demo_engine_fields:
  "en_tokenizer demo_engine = Some demo_tokenizer" "en_model demo_engine = Some demo_model"
  "en_config demo_engine = demo_config" "en_effective_dims demo_engine = 2" "en_ready demo_engine"
  "en_degraded demo_engine" "en_error demo_engine = ''primary_device_error: no such device''"
  "en_model_source demo_engine = path_join ''m'' ''openvino_model.xml''"
  "en_effective_device demo_engine = ''CPU''"
  unfolding demo_engine_def demo_load by simp_all

lemma demo_embed:
  "t \<noteq> [] \<Longrightarrow> embed ms demo_engine t nrm = Inr \<lparr>er_vector =
       (if nrm then normalize_l2 [Fin 3, Fin 4] else [Fin 3, Fin 4]),
     er_model = path_join ''m'' ''openvino_model.xml'', er_device = ''CPU'',
     er_runtime_backend = ''openvino-cpp'', er_dimensions = 2, er_infer_ms = ms, er_normalized = nrm\<rparr>"
  by (simp add: embed_def demo_engine_fields tokenize_def demo_tokenizer_def pad_mask demo_model_def
      embed_tensor_def tensor_to_vector_def te_size_def Let_def demo_config_def
      EmbeddingConfig_default_def last_token_of_mask normalize_l2_def)

lemma demo_outputs_ok: "outputs_ok demo_engine"
  using is_f32_int [of 1] is_f32_int [of 2] is_f32_int [of 3] is_f32_int [of 4]
  by (auto simp: outputs_ok_def demo_engine_fields demo_model_def)

lemma params_of_total:
  assumes "value_or get_float body ''threshold'' (rnd32 (65 / 100)) = Inr th"
    "value_or get_float body ''context_weight'' (rnd32 (80 / 100)) = Inr cw"
    "value_or get_float body ''consensus_weight'' (rnd32 (20 / 100)) = Inr kw"
    "value_or get_float body ''context_min_similarity'' (rnd32 (40 / 100)) = Inr cm"
  shows "\<exists>p. params_of body = Inr p"
  unfolding params_of_def assms bindR_simps Let_def by (auto split: prod.splits)

lemma ascii_simps [simp]: "list_all (\<lambda>c. code_of c < 128) s \<Longrightarrow> utf8_ok s"
  by (rule utf8_ascii)

lemma texts_ok_score_item:
  "texts_ok (score_item i s c) \<longleftrightarrow> utf8_ok (substr c 0 240)"
  unfolding score_item_def by (subst texts_ok_object) (simp_all add: code_of_def)

lemma utf8_compose:
  "utf8_ok tt \<Longrightarrow> utf8_ok src \<Longrightarrow> utf8_ok (compose_grounding_context tt src)"
proof -
  assume a: "utf8_ok tt" "utf8_ok src"
  have p: "utf8_ok ''task_type: ''" "utf8_ok [CHR 0x0A]" "utf8_ok ''source_text: ''"
    by (simp_all add: code_of_def)
  have "utf8_ok (''task_type: '' @ (tt @ ([CHR 0x0A] @ (''source_text: '' @ src))))"
    using a by (simp only: p utf8_ok_append)
  then show ?thesis using a by (simp only: compose_grounding_context_def append_assoc if_split simp_thms)
qed

lemma texts_ok_consensus_json:
  assumes "length (co_scores r) = length cs"
  shows "texts_ok (consensus_json e tt src cs p r) \<longleftrightarrow>
    utf8_ok tt \<and> utf8_ok src \<and> (\<forall>c \<in> set cs. utf8_ok (substr c 0 240))
    \<and> (degraded e \<longrightarrow> utf8_ok (en_error e))"
proof -
  have items: "list_all texts_ok (map (\<lambda>(i, s). score_item i s (cs ! i)) (zip [0..<length cs] (co_scores r)))
      \<longleftrightarrow> (\<forall>c \<in> set cs. utf8_ok (substr c 0 240))"
    using assms by (auto simp: list_all_length texts_ok_score_item all_set_conv_all_nth)
  have st: "texts_ok (object
         [(''status'', JString (if b then ''success'' else ''partial'')),
          (''backend'', JString ''embedding_consensus''),
          (''degraded'', JBool (degraded e)),
          (''error'', JString (if degraded e then en_error e else ''''))])
      \<longleftrightarrow> (degraded e \<longrightarrow> utf8_ok (en_error e))" for b
    by (subst texts_ok_object) (simp_all add: code_of_def)
  have w: "texts_ok (object [(''context'', JFloat x), (''consensus'', JFloat y)])" for x y
    by (subst texts_ok_object) (simp_all add: code_of_def)
  show ?thesis
    unfolding consensus_json_def
    by (subst texts_ok_object) (auto simp: code_of_def items st w utf8_compose)
qed

lemma demo_consensus:
  "\<exists>payload. consensus_request demo_dump (Fin 1) demo_engine demo_request
     = Inr (msg_code CONSENSUS_RESPONSE, ok_flags demo_engine, payload)"
proof -
  have c: "candidates_of demo_request = [''a'', ''b'']"
    by (simp add: candidates_of_def array_of_def demo_request_def)
  have v: "value_or get_float demo_request k d = Inr d" if "k \<noteq> ''source_text''" "k \<noteq> ''candidates''" for k d
    using that by (simp add: demo_request_def value_or_def)
  obtain p where p: "params_of demo_request = Inr p"
    using params_of_total [OF v v v v] by auto
  have s: "value_or get_string demo_request ''task_type'' [] = Inr []"
    "value_or get_string demo_request ''source_text'' [] = Inr ''s''"
    by (simp_all add: demo_request_def value_or_def)
  have "texts_ok (consensus_json demo_engine [] ''s'' [''a'', ''b''] p (consensus_of p ctx [v, w]))" for ctx v w
    by (subst texts_ok_consensus_json)
      (simp_all add: consensus_of_def scores_of_def Let_def split_beta demo_engine_fields code_of_def substr_def)
  then have d: "\<exists>t. demo_dump (consensus_json demo_engine [] ''s'' [''a'', ''b''] p (consensus_of p ctx [v, w])) = Inr t"
    for ctx v w by (simp add: demo_dump_def)
  then obtain t where "demo_dump (consensus_json demo_engine [] ''s'' [''a'', ''b''] p
      (consensus_of p (normalize_l2 [Fin 3, Fin 4])
         [normalize_l2 [Fin 3, Fin 4], normalize_l2 [Fin 3, Fin 4]])) = Inr t" by blast
  then show ?thesis
    by (simp add: consensus_request_def s c p build_consensus_payload_def compose_grounding_context_def demo_embed)
qed

theorem consensus_sound_witness:
  "\<exists>(r :: consensus) payload flags. consensus_request demo_dump (Fin 1) demo_engine demo_request
       = Inr (msg_code CONSENSUS_RESPONSE, flags, payload)
     \<and> length (co_scores r) = 2 \<and> co_best_index r < 2
     \<and> co_accepted r = (co_accepted_count r \<ge> 2)"
proof -
  obtain payload where p: "consensus_request demo_dump (Fin 1) demo_engine demo_request
      = Inr (msg_code CONSENSUS_RESPONSE, ok_flags demo_engine, payload)"
    using demo_consensus by blast
  have n: "numbers_ok demo_request" by (simp add: numbers_ok_def demo_request_def)
  have c: "candidates_of demo_request = [''a'', ''b'']"
    by (simp add: candidates_of_def array_of_def demo_request_def)
  have l: "length (candidates_of demo_request) < 2 ^ 24" by (simp add: c)
  obtain m and r :: consensus where m: "m = length (candidates_of demo_request)"
      "length (co_scores r) = m" "co_best_index r < m" "co_accepted r = (co_accepted_count r \<ge> 2)"
    using consensus_sound [OF p demo_outputs_ok n l] by (elim exE conjE) (rule that, assumption+)
  have "m = 2" using m(1) by (simp add: c)
  with m p show ?thesis
    by (intro exI [of _ r] exI [of _ payload] exI [of _ "ok_flags demo_engine"]) simp
qed

section \<open>A session\<close>

lemma send_frame_full:
  assumes "io_ok c" "length (snd (snd rep)) < 2 ^ 31"
  obtains c' where "send_frame config c h rep = (True, c')"
    "c_out c' = c_out c @ header_bytes (reply_header config h rep) @ bytes_of_string (snd (snd rep))"
proof -
  let ?p = "snd (snd rep)"
  have len: "sint (word_of_nat (length ?p) :: u32) = int (length ?p)"
    using assms(2) by (subst sint_small_u32) (simp_all add: unat_of_nat)
  obtain s1 where s1: "tcp_send_all c (header_bytes (reply_header config h rep)) 24 = (24, s1)" "io_ok s1"
      "c_out s1 = c_out c @ header_bytes (reply_header config h rep)"
    using tcp_send_all_full [OF assms(1), of 24 "header_bytes (reply_header config h rep)"] by auto
  obtain s2 where s2: "tcp_send_all s1 (bytes_of_string ?p) (int (length ?p)) = (int (length ?p), s2)"
      "c_out s2 = c_out s1 @ bytes_of_string ?p"
    using tcp_send_all_full [OF s1(2), of "int (length ?p)" "bytes_of_string ?p"] by auto
  show ?thesis
    using that s1 s2 len
    by (cases "?p = []") (auto simp: send_frame_def Let_def bytes_of_string_def)
qed

lemma recv_header_extensions_full:
  assumes "io_ok c" "c_in c = ext @ rest" "length ext = unat (ext_len_of h)"
  obtains c' where "recv_header_extensions c h = Some (True, c')" "io_ok c'" "c_in c' = rest"
    "c_out c' = c_out c"
proof (cases "h_header_len h \<le> 24")
  case True
  then have "ext_len_of h = 0" by (simp add: ext_len_of_def leD)
  with assms that [of c] True show ?thesis by (simp add: recv_header_extensions_def)
next
  case False
  then have e: "ext_len_of h = h_header_len h - 24" by (simp add: ext_len_of_def not_le)
  have l: "uint (h_header_len h - 24) = int (length ext)" using assms(3) e by simp
  obtain c' where "tcp_recv_all c (uint (h_header_len h - 24)) = Some (uint (h_header_len h - 24), ext, c')"
      "io_ok c'" "c_in c' = rest" "c_out c' = c_out c"
    using tcp_recv_step [OF assms(1,2) l] by blast
  with that [of c'] False show ?thesis by (simp add: recv_header_extensions_def Let_def)
qed

lemma serve_frame:
  assumes "io_ok c" "c_in c = header_bytes h @ ext @ bytes_of_string payload @ rest"
    and "validate_header h" "length ext = unat (ext_len_of h)"
    and "unat (h_payload_len h) = length payload" "length payload < 2 ^ 31" "alloc (length payload)"
  obtains c' where "io_ok c'" "c_out c' = c_out c"
    "serve parse dump alloc ms e config c =
       (case respond parse dump ms e (h_msg_type h) payload of
          Inl _ \<Rightarrow> Killed | Inr rep \<Rightarrow> Served (snd (send_frame config c' h rep)))"
proof -
  obtain s1 where s1: "tcp_recv_all c 24 = Some (24, header_bytes h, s1)" "io_ok s1"
      "c_in s1 = ext @ bytes_of_string payload @ rest" "c_out s1 = c_out c"
    using recv_header_step [OF assms(1,2)] by auto
  obtain s2 where s2: "recv_header_extensions s1 h = Some (True, s2)" "io_ok s2"
      "c_in s2 = bytes_of_string payload @ rest" "c_out s2 = c_out s1"
    using recv_header_extensions_full [OF s1(2,3) assms(4)] by blast
  have len: "int_of_len (h_payload_len h) = int (length (bytes_of_string payload))"
    using assms(5,6) by (simp add: int_of_len_small)
  obtain s3 where s3: "(if h_payload_len h > 0 then tcp_recv_all s2 (int_of_len (h_payload_len h))
        else Some (int_of_len (h_payload_len h), [], s2))
      = Some (int_of_len (h_payload_len h), bytes_of_string payload, s3)" "io_ok s3" "c_out s3 = c_out s2"
  proof (cases "h_payload_len h > 0")
    case True
    with that tcp_recv_step [OF s2(2,3) len] show ?thesis by (metis)
  next
    case False
    then have "h_payload_len h = 0" by (simp add: word_gt_0)
    with that [of s2] s2(2) assms(5) show ?thesis by (simp add: bytes_of_string_def)
  qed
  have "serve parse dump alloc ms e config c =
       (case respond parse dump ms e (h_msg_type h) payload of
          Inl _ \<Rightarrow> Killed | Inr rep \<Rightarrow> Served (snd (send_frame config s3 h rep)))"
    using s1(1) s2(1) s3(1) assms(3,5,7) unfolding serve_def recv_header_def by simp
  with that s1 s2 s3 show ?thesis by simp
qed

lemma word_min_le: "unat (min a (b :: u32)) \<le> unat b"
  by (simp add: min_def word_le_nat_alt)

text \<open>The bookkeeping around a connection.\<close>

lemma client_end_begin:
  "ep_queue_depth (client_end e (client_begin e ep)) = ep_queue_depth ep"
  "ep_config (client_end e ep) = ep_config ep" "ep_config (client_begin e ep) = ep_config ep"
  by (simp_all add: client_end_def client_begin_def update_heartbeat_def Let_def split: option.split)

lemma not_busy_after_end:
  "ep_sender (client_end e ep) = Some s \<Longrightarrow> hs_slot_flags s = heartbeat_flags e False"
  by (auto simp: client_end_def update_heartbeat_def set_status_def Let_def split: option.splits)


text \<open>A session with the example's engine: an unknown message type is answered by an error.\<close>

definition ping_request :: header where
  "ping_request = make_header (msg_code PING) 0 0 7 9 1 0"


section \<open>Texts that are not UTF-8\<close>

lemma error_reply_iff:
  assumes "dump_strict dump"
  shows "(\<exists>x. error_reply dump err degr = Inl x) \<longleftrightarrow> \<not> utf8_ok err"
proof -
  have "texts_ok (object [(''status'', JString ''failed''), (''error'', JString err),
                   (''degraded'', JBool degr), (''runtime'', JString ''openvino-cpp''),
                   (''slot_type'', JString ''embedding'')]) = utf8_ok err"
    by (subst texts_ok_object) (simp_all add: code_of_def)
  then show ?thesis
    using dump_iff [OF assms, of "object [(''status'', JString ''failed''), (''error'', JString err),
        (''degraded'', JBool degr), (''runtime'', JString ''openvino-cpp''),
        (''slot_type'', JString ''embedding'')]"]
    unfolding error_reply_def build_error_payload_def bindR_def by (auto split: sum.split)
qed

lemma respond_Inl:
  assumes "dump_strict dump"
  shows "(\<exists>x. respond parse dump ms e t payload = Inl x) \<longleftrightarrow>
    (t = msg_code EMBED_REQUEST \<or> t = msg_code CONSENSUS_REQUEST)
    \<and> (\<exists>ex. process parse dump ms e t payload = Inl ex \<and> \<not> utf8_ok (what ex))"
proof -
  have "utf8_ok ''unsupported_msg_type''" by (simp add: code_of_def)
  then show ?thesis
    using error_reply_iff [OF assms, of _ True] unfolding respond_def
    by (auto split: sum.split)
qed

lemma preview_cut:
  assumes "dump_strict dump" "c \<in> set (candidates_of body)" "\<not> utf8_ok (substr c 0 240)"
  shows "consensus_request dump ms e body \<noteq> Inr (msg_code CONSENSUS_RESPONSE, f, p)"
proof
  assume "consensus_request dump ms e body = Inr (msg_code CONSENSUS_RESPONSE, f, p)"
  then obtain q task_type source_text ctx embs where
    "params_of body = Inr q" "candidates_of body \<noteq> []"
    "embed ms e (compose_grounding_context task_type source_text) True = Inr ctx"
    and v: "embed_all ms e (candidates_of body) = Inr embs"
    and d: "dump (consensus_json e task_type source_text (candidates_of body) q
       (consensus_of q (er_vector ctx) embs)) = Inr p"
    by (rule consensus_request_response)
  have "length vs = length cs" if "embed_all ms e cs = Inr vs" for cs vs
    using that by (induction cs arbitrary: vs) (auto simp: bindR_eq_Inr)
  from this [OF v] have "length (co_scores (consensus_of q (er_vector ctx) embs)) = length (candidates_of body)"
    by (simp add: consensus_of_def scores_of_def Let_def split_beta)
  then show False
    using texts_ok_consensus_json assms(2,3) dump_iff [OF assms(1)] d by metis
qed

text \<open>
  C39: Texts that are not UTF-8. When handling a request throws, the process survives exactly when
  the exception's text is UTF-8: the text is put into the error document outside any handler, and
  the parser quotes the bytes it read, so one stray byte in a request ends the service. And a
  candidate whose first 240 bytes end inside a character never gets a consensus, although the
  candidate itself is valid.
\<close>

theorem linep_text_errors:
  assumes "dump_strict dump" "io_ok c" "c_in c = header_bytes h @ ext @ bytes_of_string payload @ rest"
    and "validate_header h" "length ext = unat (ext_len_of h)" "unat (h_payload_len h) = length payload"
    and "length payload < 2 ^ 31" "alloc (length payload)"
    and "h_msg_type h = msg_code EMBED_REQUEST \<or> h_msg_type h = msg_code CONSENSUS_REQUEST"
    and "process parse dump ms e (h_msg_type h) payload = Inl ex"
    and "cand \<in> set (candidates_of body)" "\<not> utf8_ok (substr cand 0 240)"
  shows "(fst (handle_client parse dump alloc ms e ep c) = Killed \<longleftrightarrow> \<not> utf8_ok (what ex))
    \<and> (\<forall>f p. consensus_request dump ms e body \<noteq> Inr (msg_code CONSENSUS_RESPONSE, f, p))"
proof
  obtain c1 where "serve parse dump alloc ms e (ep_config (client_begin e ep)) c =
       (case respond parse dump ms e (h_msg_type h) payload of
          Inl _ \<Rightarrow> Killed | Inr rep \<Rightarrow> Served (snd (send_frame (ep_config (client_begin e ep)) c1 h rep)))"
    by (rule serve_frame [where alloc = alloc, OF assms(2-8)])
  then show "fst (handle_client parse dump alloc ms e ep c) = Killed \<longleftrightarrow> \<not> utf8_ok (what ex)"
    using respond_Inl [OF assms(1), of parse ms e "h_msg_type h" payload] assms(9,10)
    by (auto simp: handle_client_def Let_def split: sum.splits)
  show "\<forall>f p. consensus_request dump ms e body \<noteq> Inr (msg_code CONSENSUS_RESPONSE, f, p)"
    using preview_cut [OF assms(1,11,12)] by blast
qed

text \<open>The library rejects a stray byte and quotes it, as the vendored one does.\<close>

definition quoting_parse :: "string \<Rightarrow> json result" where
  "quoting_parse s = (if utf8_ok s then Inr demo_request
                      else Inl (Json_error (''invalid string: ill-formed UTF-8 byte; last read: '' @ s)))"

definition stray_request :: header where
  "stray_request = make_header (msg_code EMBED_REQUEST) 0 1 7 9 1 0"

text \<open>239 letters and an e with an acute accent: 241 bytes.\<close>

definition long_candidate :: string where
  "long_candidate = replicate 239 CHR ''a'' @ [CHR 0xC3, CHR 0xA9]"

lemma utf8_letters: "utf8_ok (replicate n CHR ''a'')"
  by (rule utf8_ascii) (simp add: list_all_length code_of_def)

theorem linep_text_errors_witness:
  "fst (handle_client quoting_parse demo_dump (\<lambda>_. True) (Fin 1) demo_engine
          (LinepEmbeddingEndpoint EmbeddingConfig_default)
          (fresh_conn (header_bytes stray_request @ [0xFF]) Peer_closed)) = Killed
   \<and> utf8_ok long_candidate
   \<and> (\<forall>f p. consensus_request demo_dump (Fin 1) demo_engine
          (object [(''source_text'', JString ''s''), (''candidates'', JArray [JString long_candidate])])
        \<noteq> Inr (msg_code CONSENSUS_RESPONSE, f, p))"
proof -
  let ?c = "fresh_conn (header_bytes stray_request @ [0xFF]) Peer_closed"
  let ?b = "object [(''source_text'', JString ''s''), (''candidates'', JArray [JString long_candidate])]"
  have b: "bytes_of_string [CHR 0xFF] = [0xFF]"
    by (simp add: bytes_of_string_def byte_of_char_def)
  have i: "c_in ?c = header_bytes stray_request @ [] @ bytes_of_string [CHR 0xFF] @ []"
    by (simp add: b)
  have h: "io_ok ?c" "validate_header stray_request" "length ([] :: bytes) = unat (ext_len_of stray_request)"
    "unat (h_payload_len stray_request) = length [CHR 0xFF]" "length [CHR 0xFF] < 2 ^ 31"
    "h_msg_type stray_request = msg_code EMBED_REQUEST"
    by (simp_all add: stray_request_def ext_len_of_def)
  have stray: "\<not> utf8_ok [CHR 0xFF]" by (simp add: utf8_ok_def lead_def code_of_def)
  have p: "process quoting_parse demo_dump (Fin 1) demo_engine (h_msg_type stray_request) [CHR 0xFF]
      = Inl (Json_error (''invalid string: ill-formed UTF-8 byte; last read: '' @ [CHR 0xFF]))"
    using stray by (simp add: process_def quoting_parse_def)
  have w: "\<not> utf8_ok (what (Json_error (''invalid string: ill-formed UTF-8 byte; last read: '' @ [CHR 0xFF])))"
  proof -
    have "utf8_ok ''invalid string: ill-formed UTF-8 byte; last read: ''" by (simp add: code_of_def)
    then show ?thesis using stray by (simp only: what.simps utf8_ok_append not_False_eq_True)
  qed
  have cut: "substr long_candidate 0 240 = replicate 239 CHR ''a'' @ [CHR 0xC3]"
    by (simp add: substr_def long_candidate_def)
  have "\<not> utf8_ok (substr long_candidate 0 240)"
    unfolding cut utf8_ok_append [OF utf8_letters] by (simp add: utf8_ok_def lead_def code_of_def)
  moreover have "long_candidate \<in> set (candidates_of ?b)"
    by (simp add: candidates_of_def array_of_def long_candidate_def)
  moreover have "utf8_ok long_candidate"
    unfolding long_candidate_def utf8_ok_append [OF utf8_letters]
    by (simp add: utf8_ok_def lead_def code_of_def)
  ultimately show ?thesis
    using linep_text_errors [where alloc = "\<lambda>_. True", OF demo_dump_strict h(1) i h(2-5) TrueI disjI1 [OF h(6)] p]
      w by blast
qed

section \<open>Life cycle\<close>



end
