(* ===== verification/Http_Server.thy ===== *)
theory Http_Server
  imports Linep_Endpoint
begin

text \<open>
  The HTTP front end of the embedding service (\<open>embedding_server.cpp\<close>): reading a request from the
  socket until its announced length has come, splitting it, the two routes and their documents,
  the answer on every error path, and the start-up sequence of \<open>main\<close>. The connection is the one of
  the socket layer: \<open>recv\<close> and \<open>send\<close> may move any part of what they are asked for. The JSON library is
  a parameter as in the LiNeP endpoint.
\<close>

section \<open>Responses\<close>

definition crlf :: string where "crlf = [CHR 0x0D, CHR 0x0A]"

definition status_msg :: "int \<Rightarrow> string" where
  "status_msg code =
     (if code = 200 then ''OK''
      else if code = 400 then ''Bad Request''
      else if code = 404 then ''Not Found''
      else if code = 500 then ''Internal Server Error''
      else if code = 503 then ''Service Unavailable''
      else ''Unknown'')"

definition raw_response :: "int \<Rightarrow> string \<Rightarrow> string" where
  "raw_response code body =
     ''HTTP/1.1 '' @ show_int code @ '' '' @ status_msg code @ crlf
     @ ''Content-Type: application/json'' @ crlf
     @ ''Content-Length: '' @ show_nat (length body) @ crlf
     @ ''Connection: close'' @ crlf
     @ crlf
     @ body"

text \<open>The \<open>send\<close> loop: \<open>cursor\<close> is what is left of the response.\<close>

function send_rest :: "conn \<Rightarrow> bytes \<Rightarrow> int \<Rightarrow> conn" where
  "send_rest sock cursor remaining =
     (if remaining > 0 then
        (case os_send sock (take (nat remaining) cursor) of (sent, sock) \<Rightarrow>
           if sent \<le> 0 then sock else send_rest sock (drop (nat sent) cursor) (remaining - sent))
      else sock)"
  by pat_completeness auto
termination
  by (relation "measure (\<lambda>(sock, cursor, remaining). nat remaining)") auto

declare send_rest.simps [simp del]

definition send_response :: "conn \<Rightarrow> int \<Rightarrow> string \<Rightarrow> conn" where
  "send_response sock code body =
     (let raw = raw_response code body
      in send_rest sock (bytes_of_string raw) (sint (word_of_nat (length raw) :: u32)))"

section \<open>Requests\<close>

record HttpRequest =
  http_method :: string
  http_path :: string
  http_body :: string

text \<open>\<open>stream >> word\<close>: skip white space, take up to the next.\<close>

definition next_word :: "string \<Rightarrow> string \<times> string" where
  "next_word s = (let s = dropWhile is_space s
     in (takeWhile (\<lambda>c. \<not> is_space c) s, dropWhile (\<lambda>c. \<not> is_space c) s))"

definition parse_request :: "string \<Rightarrow> HttpRequest" where
  "parse_request raw =
     (let (method, stream) = next_word raw;
          (path, _) = next_word stream
      in \<lparr>http_method = method, http_path = path,
          http_body = (case find_str (crlf @ crlf) raw of
                         None \<Rightarrow> [] | Some header_end \<Rightarrow> substr_end raw (header_end + 4))\<rparr>)"

text \<open>The announced length, once the header is complete; the conversion may throw.\<close>

definition content_length_of :: "string \<Rightarrow> nat result" where
  "content_length_of raw =
     (case (case find_str ''Content-Length:'' raw of
              None \<Rightarrow> find_str ''content-length:'' raw | Some p \<Rightarrow> Some p) of
        None \<Rightarrow> Inr 0
      | Some cl_pos \<Rightarrow>
          let num = (case find_from crlf raw cl_pos of
                       None \<Rightarrow> substr_end raw (cl_pos + 15)
                     | Some line_end \<Rightarrow> substr raw (cl_pos + 15) (line_end - cl_pos - 15))
          in bindR (stoul num) (\<lambda>n. Inr (unat n)))"

text \<open>The loop of \<open>read_http_request\<close>; \<open>headers_done\<close> carries the length it has set.\<close>

lemma os_recv_progress:
  assumes "os_recv c k = Some (n, bs, c')" "0 < n"
  shows "length (c_in c') < length (c_in c)"
  using os_recv_cases [OF assms(1)] assms(2) by auto

function read_loop :: "conn \<Rightarrow> string \<Rightarrow> nat option \<Rightarrow> (string result \<times> conn) option" where
  "read_loop client raw headers_done =
     (case os_recv client 4096 of
        None \<Rightarrow> None
      | Some (n, buffer, client') \<Rightarrow>
          if n \<le> 0 then Some (Inr raw, client')
          else
            let raw' = raw @ string_of_bytes buffer;
                header_end = find_str (crlf @ crlf) raw'
            in case (case headers_done of
                       Some len \<Rightarrow> Inr (Some len)
                     | None \<Rightarrow>
                         if header_end = None then Inr None
                         else bindR (content_length_of raw') (\<lambda>len. Inr (Some len))) of
                 Inl ex \<Rightarrow> Some (Inl ex, client')
               | Inr None \<Rightarrow> read_loop client' raw' None
               | Inr (Some content_length) \<Rightarrow>
                   if length raw' - (the header_end + 4) \<ge> content_length
                   then Some (Inr raw', client')
                   else read_loop client' raw' (Some content_length))"
  by pat_completeness auto
termination
  by (relation "measure (\<lambda>(client, raw, headers_done). length (c_in client))")
    (auto dest: os_recv_progress)

declare read_loop.simps [simp del]

definition read_http_request :: "conn \<Rightarrow> (string result \<times> conn) option" where
  "read_http_request client = read_loop client [] None"

section \<open>Documents\<close>

definition failed_json :: "json \<Rightarrow> json" where
  "failed_json err = object
     [(''item'', JNull),
      (''status'', object
         [(''status'', JString ''failed''), (''backend'', JString ''embedding''),
          (''degraded'', JBool True), (''error'', err)])]"

definition error_or_null :: "engine \<Rightarrow> json" where
  "error_or_null e = (if degraded e then JString (en_error e) else JNull)"

definition success_json ::
  "engine \<Rightarrow> string \<Rightarrow> EmbeddingResult \<Rightarrow> json \<Rightarrow> json" where
  "success_json e requested_model r response_metadata = object
     [(''item'', object
         [(''model'', JString requested_model), (''dimensions'', JInt (int (er_dimensions r))),
          (''vector'', JArray (map JFloat (er_vector r))), (''metadata'', response_metadata)]),
      (''status'', object
         [(''status'', JString (if degraded e then ''partial'' else ''success'')),
          (''backend'', JString ''embedding''), (''degraded'', JBool (degraded e)),
          (''error'', error_or_null e),
          (''metadata'', object
             [(''runtime'', JString (er_runtime_backend r)), (''device'', JString (er_device r)),
              (''embedding_latency_ms'', JFloat (round3 (er_infer_ms r)))])])]"

definition response_metadata :: "engine \<Rightarrow> EmbeddingResult \<Rightarrow> json \<Rightarrow> json" where
  "response_metadata e r metadata =
     assign ''max_seq_len'' (JInt (uint (ec_max_seq_len (en_config e))))
     (assign ''configured_dims'' (JInt (uint (ec_dims (en_config e))))
     (assign ''embedding_latency_ms'' (JFloat (round3 (er_infer_ms r)))
     (assign ''normalized'' (JBool (er_normalized r))
     (assign ''device'' (JString (er_device r))
     (assign ''runtime'' (JString (er_runtime_backend r)) metadata)))))"

text \<open>
  What \<open>health_payload\<close> reads besides the engine: the endpoint, if LiNeP is enabled, the time since
  the start in seconds and the warm age.
\<close>

record health_env =
  he_linep :: "endpoint option"
  he_uptime_s :: fp
  he_warm_age_ms :: int

definition linep_json :: "EmbeddingConfig \<Rightarrow> endpoint option \<Rightarrow> json" where
  "linep_json cfg ep = object
     [(''enabled'', JBool (ec_linep_enabled cfg)),
      (''status'', JString (case ep of Some p \<Rightarrow> ep_status p
                            | None \<Rightarrow> if ec_linep_enabled cfg then ''not_started'' else ''disabled'')),
      (''running'', JBool (case ep of Some p \<Rightarrow> ep_running p | None \<Rightarrow> False)),
      (''heartbeat_host'', JString (ec_linep_heartbeat_host cfg)),
      (''heartbeat_port'', JInt (ec_linep_heartbeat_port cfg)),
      (''tcp_port'', JInt (ec_linep_tcp_port cfg)),
      (''worker_id'', JInt (uint (ec_linep_worker_id cfg))),
      (''slot_id'', JInt (uint (ec_linep_slot_id cfg)))]"

definition runtime_stats_json :: json where
  "runtime_stats_json = object
     [(''request_count'', JInt 0), (''failed_count'', JInt 0), (''failure_rate'', JFloat (Fin 0)),
      (''cache_hit_count'', JInt 0), (''cache_hit_rate'', JFloat (Fin 0)),
      (''degraded_request_count'', JInt 0), (''fallback_rate'', JFloat (Fin 0)),
      (''truncation_count'', JInt 0), (''truncation_rate'', JFloat (Fin 0)),
      (''runtime_backend_switch_count'', JInt 0), (''last_runtime_backend'', JString ''openvino-cpp''),
      (''avg_latency_ms'', JFloat (Fin 0)), (''max_latency_ms'', JFloat (Fin 0))]"

definition current_device :: "engine \<Rightarrow> string" where
  "current_device e = (if en_effective_device e = [] then ec_device (en_config e)
                       else en_effective_device e)"

definition current_model :: "engine \<Rightarrow> string" where
  "current_model e = (if en_model_source e = [] then ec_model_path (en_config e)
                      else en_model_source e)"

definition health_status_json :: "engine \<Rightarrow> json" where
  "health_status_json e = (let cfg = en_config e in object
     [(''status'', JString (if ready e then if degraded e then ''partial'' else ''success'' else ''failed'')),
      (''backend'', JString ''embedding''),
      (''degraded'', JBool (\<not> ready e \<or> degraded e)),
      (''error'', if \<not> ready e \<or> degraded e then JString (en_error e) else JNull),
      (''metadata'', object
         [(''runtime_backend'', JString ''openvino-cpp''),
          (''device'', JString (current_device e)),
          (''configured_device'', JString (ec_device cfg)),
          (''model'', JString (current_model e)),
          (''configured_model_id'', JString (ec_model_path cfg)),
          (''configured_model_dir'', JString (ec_model_path cfg)),
          (''cache'', object [(''enabled'', JBool False), (''items'', JInt 0), (''max_items'', JInt 0),
                              (''ttl_seconds'', JInt 0)]),
          (''runtime_stats'', runtime_stats_json),
          (''alerts'', object [(''active'', JArray []), (''thresholds'', JObject [])])])])"

definition health_payload :: "engine \<Rightarrow> health_env \<Rightarrow> json" where
  "health_payload e env = (let cfg = en_config e in object
     [(''status'', health_status_json e),
      (''backend_health'', object
         [(''embedding'', JString (if ready e then if degraded e then ''degraded'' else ''healthy''
                                   else ''unavailable''))]),
      (''device'', JString (current_device e)),
      (''execution_devices'', JArray [JString (current_device e)]),
      (''model'', JString (current_model e)),
      (''dimensions'', JInt (if en_effective_dims e > 0 then int (en_effective_dims e)
                             else uint (ec_dims cfg))),
      (''runtime_backend'', JString ''openvino-cpp''),
      (''effective_max_length'', JInt (uint (ec_max_seq_len cfg))),
      (''configured_model_id'', JString (ec_model_path cfg)),
      (''configured_model_dir'', JString (ec_model_path cfg)),
      (''ready'', JBool (ready e)),
      (''degraded'', JBool (degraded e)),
      (''error'', JString (en_error e)),
      (''runtime'', JString ''openvino-cpp''),
      (''device'', JString (current_device e)),
      (''configured_device'', JString (ec_device cfg)),
      (''model'', JString (current_model e)),
      (''configured_model'', JString (ec_model_path cfg)),
      (''dims'', JInt (int (en_effective_dims e))),
      (''configured_dims'', JInt (uint (ec_dims cfg))),
      (''max_seq_len'', JInt (uint (ec_max_seq_len cfg))),
      (''normalize_default'', JBool (ec_normalize_default cfg)),
      (''warm_age_ms'', JInt (he_warm_age_ms env)),
      (''linep'', linep_json cfg (he_linep env)),
      (''uptime_s'', JFloat (fdiv rnd64 (fround (dmul (he_uptime_s env) (Fin 10))) (Fin 10)))])"

section \<open>Routes\<close>

text \<open>An answer is a status code and a body; \<open>Inl\<close> is an exception that leaves the function.\<close>

type_synonym answered = "(int \<times> string) result"

definition answer_json :: "(json \<Rightarrow> string result) \<Rightarrow> int \<Rightarrow> json \<Rightarrow> answered" where
  "answer_json dump code payload = bindR (dump payload) (\<lambda>body. Inr (code, body))"

definition handle_embedding ::
  "(string \<Rightarrow> json result) \<Rightarrow> (json \<Rightarrow> string result) \<Rightarrow> fp \<Rightarrow> engine option \<Rightarrow> string \<Rightarrow> answered" where
  "handle_embedding parse dump ms engine body_text =
     (case engine of
        None \<Rightarrow> answer_json dump 503 (failed_json (JString ''engine_not_initialized''))
      | Some e \<Rightarrow>
        if \<not> ready e then answer_json dump 503 (failed_json (JString (en_error e)))
        else case parse body_text of
          Inl _ \<Rightarrow> answer_json dump 400 (failed_json (JString ''invalid_json_body''))
        | Inr body \<Rightarrow>
          let input_text = (case member body ''input_text'' of Some (JString s) \<Rightarrow> s | _ \<Rightarrow> []);
              requested_model = (case member body ''model'' of Some (JString s) \<Rightarrow> s
                                 | _ \<Rightarrow> current_model e);
              nrm = (case member body ''normalize'' of Some (JBool b) \<Rightarrow> b
                     | _ \<Rightarrow> ec_normalize_default (en_config e));
              metadata = (case member body ''metadata'' of Some (JObject m) \<Rightarrow> JObject m
                          | _ \<Rightarrow> JObject [])
          in case bindR (embed ms e input_text nrm)
                    (\<lambda>r. answer_json dump 200
                           (success_json e requested_model r (response_metadata e r metadata))) of
               Inr a \<Rightarrow> Inr a
             | Inl ex \<Rightarrow> answer_json dump 500 (failed_json (JString (what ex))))"

definition route ::
  "(string \<Rightarrow> json result) \<Rightarrow> (json \<Rightarrow> string result) \<Rightarrow> fp \<Rightarrow> engine \<Rightarrow> health_env \<Rightarrow> HttpRequest \<Rightarrow> answered" where
  "route parse dump ms e env request =
     (if http_method request = ''GET'' \<and> http_path request = ''/health''
      then answer_json dump (if ready e then 200 else 503) (health_payload e env)
      else if http_method request = ''POST'' \<and> http_path request = ''/embedding/generate''
      then handle_embedding parse dump ms (Some e) (http_body request)
      else answer_json dump 404 (object [(''status'', JString ''not_found'')]))"

text \<open>
  \<open>handle_client\<close>, the function of a detached thread: it waits for ever, ends the process with an
  exception of its own handlers, or answers and closes the connection.
\<close>

datatype http_outcome = Hung | Crashed | Answered int string conn

definition http_answer ::
  "(string \<Rightarrow> json result) \<Rightarrow> (json \<Rightarrow> string result) \<Rightarrow> fp \<Rightarrow> engine \<Rightarrow> health_env \<Rightarrow> string result \<Rightarrow> answered" where
  "http_answer parse dump ms e env raw =
     (case bindR raw (\<lambda>raw. route parse dump ms e env (parse_request raw)) of
        Inr a \<Rightarrow> Inr a
      | Inl ex \<Rightarrow> answer_json dump 500 (failed_json (JString (what ex))))"

definition http_handle_client ::
  "(string \<Rightarrow> json result) \<Rightarrow> (json \<Rightarrow> string result) \<Rightarrow> fp \<Rightarrow> engine \<Rightarrow> health_env \<Rightarrow> conn \<Rightarrow> http_outcome" where
  "http_handle_client parse dump ms e env client =
     (case read_http_request client of
        None \<Rightarrow> Hung
      | Some (raw, client) \<Rightarrow>
          (case http_answer parse dump ms e env raw of
             Inl _ \<Rightarrow> Crashed
           | Inr (code, body) \<Rightarrow> Answered code body (send_response client code body)))"

section \<open>Searching in a growing text\<close>

lemma starts_with_append: "starts_with p s \<Longrightarrow> starts_with p (s @ t)"
  by (auto simp: starts_with_iff)

lemma starts_with_length: "starts_with p s \<Longrightarrow> length p \<le> length s"
  by (auto simp: starts_with_iff)

lemma starts_with_cut: "starts_with p (s @ t) \<Longrightarrow> length p \<le> length s \<Longrightarrow> starts_with p s"
  by (simp add: starts_with_def)

lemma find_str_prefix:
  assumes "find_str p s = Some i"
  shows "find_str p (s @ t) = Some i"
proof -
  note f = find_str_Some [OF assms]
  have le: "length p \<le> length s - i" using f starts_with_length by fastforce
  have "\<not> starts_with p (drop j (s @ t))" if "j < i" for j
  proof
    assume "starts_with p (drop j (s @ t))"
    then have "starts_with p (drop j s @ t)" using that f by simp
    moreover have "length p \<le> length (drop j s)" using le that by simp
    ultimately have "starts_with p (drop j s)" by (rule starts_with_cut)
    with f that show False by blast
  qed
  then show ?thesis using f by (simp add: find_str_eq_Some_iff starts_with_append)
qed

lemma find_str_not_yet:
  assumes "find_str p (s @ t) = Some i" "length s < i + length p"
  shows "find_str p s = None"
proof (cases "find_str p s")
  case (Some j)
  then have "j = i" using find_str_prefix [OF Some, of t] assms(1) by simp
  moreover have "length p \<le> length s - j" "j \<le> length s"
    using find_str_Some [OF Some] starts_with_length by fastforce+
  ultimately show ?thesis using assms(2) by simp
qed

lemma find_from_prefix: "find_from p s k = Some i \<Longrightarrow> find_from p (s @ t) k = Some i"
  by (auto simp: find_from_def find_str_prefix split: if_splits)

text \<open>The announced length does not depend on how much of the body has come.\<close>

lemma content_length_prefix:
  assumes "find_str ''Content-Length:'' s = Some p" "find_from crlf s p = Some q"
  shows "content_length_of (s @ t) = content_length_of s"
proof -
  have "p + 15 \<le> length s"
    using find_str_Some [OF assms(1)] starts_with_length by fastforce
  moreover have "q \<le> length s"
    using assms(2) by (auto simp: find_from_def dest: find_str_Some split: if_splits)
  ultimately have "substr (s @ t) (p + 15) (q - p - 15) = substr s (p + 15) (q - p - 15)"
    by (simp add: substr_def)
  then show ?thesis
    using find_str_prefix [OF assms(1)] find_from_prefix [OF assms(2)] assms
    by (simp add: content_length_of_def)
qed

section \<open>Reading a whole request\<close>

lemma recv_some:
  assumes "io_ok c" "c_in c \<noteq> []"
  obtains n bs c' where "os_recv c 4096 = Some (n, bs, c')" "0 < n" "io_ok c'" "c_in c = bs @ c_in c'"
    "bs \<noteq> []"
proof -
  have "\<exists>n bs c'. os_recv c 4096 = Some (n, bs, c') \<and> 0 < n \<and> io_ok c'"
    using assms by (cases "c_rscript c") (auto simp: os_recv_def deliver_def Let_def io_ok_def)
  then obtain n bs c' where o: "os_recv c 4096 = Some (n, bs, c')" "0 < n" "io_ok c'" by blast
  then have "bs = take (nat n) (c_in c)" "c_in c' = drop (nat n) (c_in c)"
    using os_recv_cases [OF o(1)] by auto
  then show ?thesis using that o assms(2) by (metis append_take_drop_id take_eq_Nil zero_less_nat_eq less_numeral_extra(3))
qed

text \<open>Once the blank line has come, the text received is the header and a part of the body.\<close>

lemma header_received:
  assumes "raw @ rest = head @ (crlf @ crlf) @ body"
    and "find_str (crlf @ crlf) (raw @ rest) = Some (length head)" "length head + 4 \<le> length raw"
  shows "\<exists>x. raw = head @ (crlf @ crlf) @ x \<and> x @ rest = body
    \<and> find_str (crlf @ crlf) raw = Some (length head)"
proof -
  have four: "length (crlf @ crlf) = 4" by (simp add: crlf_def)
  have "take (length head + 4) raw = take (length head + 4) (raw @ rest)" using assms(3) by simp
  also have "\<dots> = head @ (crlf @ crlf)" unfolding assms(1) using four by simp
  finally have "raw = head @ (crlf @ crlf) @ drop (length head + 4) raw"
    by (metis append_assoc append_take_drop_id)
  then obtain x where x: "raw = head @ (crlf @ crlf) @ x" by blast
  moreover have "find_str (crlf @ crlf) raw = Some (length head)"
  proof (cases "find_str (crlf @ crlf) raw")
    case None
    then have "\<not> starts_with (crlf @ crlf) (drop (length head) raw)"
      using find_str_None [OF None, of "length head"] x by simp
    then show ?thesis unfolding x by (auto simp: starts_with_iff)
  next
    case (Some j)
    then show ?thesis using find_str_prefix [OF Some, of rest] assms(2) by simp
  qed
  ultimately show ?thesis using assms(1) by simp
qed

lemma read_loop_all:
  assumes "req = head @ (crlf @ crlf) @ body" "find_str (crlf @ crlf) req = Some (length head)"
    and "\<And>t. content_length_of (head @ (crlf @ crlf) @ t) = Inr (length body)"
    and "io_ok c" "raw @ string_of_bytes (c_in c) = req" "c_in c \<noteq> []"
    and "done_len = None \<and> length raw < length head + 4
         \<or> done_len = Some (length body) \<and> length head + 4 \<le> length raw"
  shows "\<exists>c'. read_loop c raw done_len = Some (Inr req, c')"
  using assms(4-)
proof (induction "length (c_in c)" arbitrary: c raw done_len rule: less_induct)
  case less
  obtain n bs c' where r: "os_recv c 4096 = Some (n, bs, c')" "0 < n" "io_ok c'" "c_in c = bs @ c_in c'"
    "bs \<noteq> []" by (rule recv_some [OF less.prems(1,3)])
  define raw' where "raw' = raw @ string_of_bytes bs"
  have split: "raw' @ string_of_bytes (c_in c') = req"
    using less.prems(2) r(4) by (simp add: raw'_def string_of_bytes_def)
  have dec: "length (c_in c') < length (c_in c)" using r(4,5) by simp
  have four: "length (crlf @ crlf) = 4" by (simp add: crlf_def)
  have long: "length raw < length raw'" using r(5) by (simp add: raw'_def)
  show ?case
  proof (cases "length raw' < length head + 4")
    case True
    then have h: "done_len = None" using less.prems(4) long by auto
    have nf: "find_str (crlf @ crlf) raw' = None"
      using find_str_not_yet [of "crlf @ crlf" raw' "string_of_bytes (c_in c')"] assms(2) split True four by simp
    have "c_in c' \<noteq> []"
    proof
      assume "c_in c' = []"
      then have "raw' = req" using split by (simp add: string_of_bytes_def)
      then show False using True assms(1) four by simp
    qed
    from less.hyps [OF dec r(3) split this, of None] True
    obtain c'' where "read_loop c' raw' None = Some (Inr req, c'')" by auto
    moreover have "read_loop c raw done_len = read_loop c' raw' None"
      using r(1,2) h nf by (subst read_loop.simps) (simp add: Let_def flip: raw'_def)
    ultimately show ?thesis by auto
  next
    case False
    obtain x where x: "raw' = head @ (crlf @ crlf) @ x" "x @ string_of_bytes (c_in c') = body"
      and f: "find_str (crlf @ crlf) raw' = Some (length head)"
      using header_received [of raw' "string_of_bytes (c_in c')" head body] split assms(1,2) False by auto
    have len: "content_length_of raw' = Inr (length body)" unfolding x(1) by (rule assms(3))
    have recvd: "length raw' - (length head + 4) = length x" using x(1) four by simp
    have step: "read_loop c raw done_len = (if length x \<ge> length body then Some (Inr raw', c')
        else read_loop c' raw' (Some (length body)))"
      using r(1,2) less.prems(4) f len recvd
      by (subst read_loop.simps) (auto simp: Let_def simp flip: raw'_def)
    show ?thesis
    proof (cases "c_in c' = []")
      case True
      then have "x = body" "raw' = req" using x split by (simp_all add: string_of_bytes_def)
      then show ?thesis using step by simp
    next
      case ne: False
      then have "length x < length body" using x(2) by (auto simp flip: x(2))
      moreover obtain c'' where "read_loop c' raw' (Some (length body)) = Some (Inr req, c'')"
        using less.hyps [OF dec r(3) split ne, of "Some (length body)"] False by auto
      ultimately show ?thesis using step by simp
    qed
  qed
qed

text \<open>A request as a client writes it; the other header lines are \<open>lines\<close>.\<close>

definition http_head :: "string \<Rightarrow> string \<Rightarrow> string \<Rightarrow> string \<Rightarrow> string" where
  "http_head method path lines body =
     (method @ '' '' @ path @ '' HTTP/1.1'' @ crlf @ lines) @ ''Content-Length: '' @ show_nat (length body)"

definition http_text :: "string \<Rightarrow> string \<Rightarrow> string \<Rightarrow> string \<Rightarrow> string" where
  "http_text method path lines body = http_head method path lines body @ (crlf @ crlf) @ body"

lemma next_word_space:
  assumes "w \<noteq> []" "list_all (\<lambda>c. \<not> is_space c) w" "is_space s"
  shows "next_word (w @ s # rest) = (w, s # rest)"
proof -
  have "dropWhile is_space (w @ s # rest) = w @ s # rest" using assms(1,2) by (cases w) auto
  then show ?thesis
    using assms(2,3) by (simp add: next_word_def list_all_iff takeWhile_append2 dropWhile_append2)
qed

lemma next_word_skip: "is_space s \<Longrightarrow> next_word (s # rest) = next_word rest"
  by (simp add: next_word_def)

lemma is_space_blank [simp]: "is_space CHR '' ''"
  by (simp add: is_space_def code_of_def Let_def)

lemma parse_http_text:
  assumes "method \<noteq> []" "list_all (\<lambda>c. \<not> is_space c) method"
    and "path \<noteq> []" "list_all (\<lambda>c. \<not> is_space c) path"
    and "find_str (crlf @ crlf) (http_text method path lines body)
           = Some (length (http_head method path lines body))"
  shows "parse_request (http_text method path lines body)
    = \<lparr>http_method = method, http_path = path, http_body = body\<rparr>"
proof -
  obtain rest where t: "http_text method path lines body = method @ CHR '' '' # path @ CHR '' '' # rest"
    by (simp add: http_text_def http_head_def)
  have w: "next_word (http_text method path lines body) = (method, CHR '' '' # path @ CHR '' '' # rest)"
    "next_word (CHR '' '' # path @ CHR '' '' # rest) = (path, CHR '' '' # rest)"
    unfolding t using assms(1-4) by (simp_all add: next_word_space next_word_skip)
  have "substr_end (http_text method path lines body) (length (http_head method path lines body) + 4) = body"
    by (simp add: substr_end_def http_text_def crlf_def)
  then show ?thesis using assms(5) by (simp add: parse_request_def w)
qed

lemma find_crlf_after:
  assumes "\<forall>c \<in> set w. c \<noteq> CHR 0x0D"
  shows "find_str crlf (w @ crlf @ t) = Some (length w)"
  unfolding find_str_eq_Some_iff
proof (intro conjI allI impI)
  fix j assume j: "j < length w"
  have "hd (drop j (w @ crlf @ t)) = w ! j" using j by (simp add: hd_drop_conv_nth nth_append)
  moreover have "w ! j \<noteq> CHR 0x0D" using assms j by simp
  moreover have "starts_with crlf s \<Longrightarrow> hd s = CHR 0x0D" for s
    by (cases s) (auto simp: starts_with_def crlf_def)
  ultimately show "\<not> starts_with crlf (drop j (w @ crlf @ t))" by metis
qed (simp_all add: starts_with_iff)

lemma find_crlf_after_number:
  "find_from crlf (a @ (''Content-Length: '' @ show_nat n) @ crlf @ t) (length a)
     = Some (length a + 16 + length (show_nat n))"
proof -
  have "\<forall>c \<in> set (''Content-Length: '' @ show_nat n). c \<noteq> CHR 0x0D"
    using show_nat_digits [of n] by (auto simp: list_all_iff is_digit_def code_of_def Let_def)
  from find_crlf_after [OF this] show ?thesis unfolding find_from_def by simp
qed

lemma substr_after_name:
  "substr (a @ (''Content-Length: '' @ m) @ r) (length a + 15) (length a + 16 + length m - length a - 15)
     = '' '' @ m"
  by (simp add: substr_def)

lemma content_length_http:
  assumes "find_str ''Content-Length:'' (http_head method path lines body)
             = Some (length (method @ '' '' @ path @ '' HTTP/1.1'' @ crlf @ lines))"
    and "length body < 2 ^ 32"
  shows "content_length_of (http_head method path lines body @ (crlf @ crlf) @ t) = Inr (length body)"
proof -
  let ?a = "method @ '' '' @ path @ '' HTTP/1.1'' @ crlf @ lines"
  let ?s = "http_head method path lines body @ (crlf @ crlf) @ t"
  have f: "find_str ''Content-Length:'' ?s = Some (length ?a)"
    using find_str_prefix [OF assms(1)] by simp
  have s: "?s = ?a @ (''Content-Length: '' @ show_nat (length body)) @ crlf @ crlf @ t"
    by (simp add: http_head_def)
  have g: "find_from crlf ?s (length ?a) = Some (length ?a + 16 + length (show_nat (length body)))"
    unfolding s by (rule find_crlf_after_number)
  have num: "substr ?s (length ?a + 15)
      (length ?a + 16 + length (show_nat (length body)) - length ?a - 15) = '' '' @ show_nat (length body)"
    unfolding s by (rule substr_after_name)
  have "stoul ('' '' @ show_nat (length body)) = Inr (word_of_nat (length body))"
    using strto_show [of "'' ''" "[]" "length body"] assms(2) by (simp add: stoul_def)
  then show ?thesis
    using assms(2) unfolding content_length_of_def f option.case g Let_def num
    by (simp add: unat_of_nat)
qed



section \<open>Every request is answered\<close>

lemma answer_json_cases:
  assumes "dump_strict dump"
  shows "(\<exists>b. answer_json dump code j = Inr (code, b))
    \<or> (\<exists>w. answer_json dump code j = Inl (Json_error w) \<and> utf8_ok w)"
  using dump_ok [OF assms, of j] dump_fails [OF assms, of j]
  by (cases "texts_ok j") (auto simp: answer_json_def)

lemma texts_ok_failed: "texts_ok (failed_json (JString s)) = utf8_ok s"
proof -
  have "texts_ok (object [(''status'', JString ''failed''), (''backend'', JString ''embedding''),
          (''degraded'', JBool True), (''error'', JString s)]) = utf8_ok s"
    by (subst texts_ok_object) (simp_all add: code_of_def)
  then show ?thesis
    unfolding failed_json_def by (subst texts_ok_object) (simp_all add: code_of_def)
qed

text \<open>An exception that leaves a route has a text of the library, which is UTF-8.\<close>

definition library_text :: "exn \<Rightarrow> bool" where "library_text ex = utf8_ok (what ex)"

lemma failed_answer:
  assumes "dump_strict dump" "library_text ex"
  shows "\<exists>b. answer_json dump code (failed_json (JString (what ex))) = Inr (code, b)"
  using dump_ok [OF assms(1), of "failed_json (JString (what ex))"] assms(2)
  by (auto simp: answer_json_def texts_ok_failed library_text_def)

lemma content_length_library:
  "content_length_of raw = Inl ex \<Longrightarrow> library_text ex"
proof -
  have "library_text x" if "stoul num = Inl x" for num x
    using that unfolding stoul_def
    by (auto simp: library_text_def code_of_def split: option.splits if_splits prod.splits)
  then show "content_length_of raw = Inl ex \<Longrightarrow> library_text ex"
    unfolding content_length_of_def by (auto simp: Let_def bindR_eq_Inl split: option.splits)
qed

lemma read_loop_cases:
  assumes "read_loop c raw d = Some (x, c')"
  obtains n bs c1 where "os_recv c 4096 = Some (n, bs, c1)"
    "n \<le> 0 \<and> x = Inr raw \<and> c' = c1
     \<or> 0 < n \<and> c' = c1 \<and> (x = Inr (raw @ string_of_bytes bs)
          \<or> (\<exists>ex. x = Inl ex \<and> content_length_of (raw @ string_of_bytes bs) = Inl ex))
     \<or> 0 < n \<and> (\<exists>d'. read_loop c1 (raw @ string_of_bytes bs) d' = Some (x, c'))"
proof -
  obtain n bs c1 where r: "os_recv c 4096 = Some (n, bs, c1)"
    using assms by (subst (asm) read_loop.simps) (auto split: option.splits)
  define raw' where "raw' = raw @ string_of_bytes bs"
  define next_len where "next_len = (case d of Some len \<Rightarrow> Inr (Some len)
    | None \<Rightarrow> if find_str (crlf @ crlf) raw' = None then Inr None
              else bindR (content_length_of raw') (\<lambda>len. Inr (Some len)))"
  have eq: "read_loop c raw d = (if n \<le> 0 then Some (Inr raw, c1) else case next_len of
        Inl ex \<Rightarrow> Some (Inl ex, c1)
      | Inr None \<Rightarrow> read_loop c1 raw' None
      | Inr (Some len) \<Rightarrow>
          if length raw' - (the (find_str (crlf @ crlf) raw') + 4) \<ge> len then Some (Inr raw', c1)
          else read_loop c1 raw' (Some len))"
    using r unfolding next_len_def raw'_def
    by (subst read_loop.simps) (cases d; simp add: Let_def)
  have "next_len = Inl ex \<Longrightarrow> content_length_of raw' = Inl ex" for ex
    by (auto simp: next_len_def bindR_eq_Inl split: option.splits if_splits)
  then show ?thesis
    using that [OF r] assms eq unfolding raw'_def [symmetric]
    by (auto split: sum.splits option.splits if_splits)
qed

lemma read_loop_facts:
  assumes "read_loop c raw d = Some (x, c')"
  shows "(\<forall>ex. x = Inl ex \<longrightarrow> library_text ex) \<and> c_out c' = c_out c \<and> (io_ok c \<longrightarrow> io_ok c')"
  using assms
proof (induction "length (c_in c)" arbitrary: c raw d rule: less_induct)
  case less
  obtain n bs c1 where r: "os_recv c 4096 = Some (n, bs, c1)"
    "n \<le> 0 \<and> x = Inr raw \<and> c' = c1
     \<or> 0 < n \<and> c' = c1 \<and> (x = Inr (raw @ string_of_bytes bs)
          \<or> (\<exists>ex. x = Inl ex \<and> content_length_of (raw @ string_of_bytes bs) = Inl ex))
     \<or> 0 < n \<and> (\<exists>d'. read_loop c1 (raw @ string_of_bytes bs) d' = Some (x, c'))"
    by (rule read_loop_cases [OF less.prems])
  have c1: "c_out c1 = c_out c" "io_ok c \<longrightarrow> io_ok c1"
    using os_recv_cases [OF r(1)] os_recv_io_ok [OF _ r(1)]
    by (auto simp: os_recv_def deliver_def Let_def split: list.splits if_splits stream_end.splits)
  from r(2) show ?case
    using c1 less.hyps [OF os_recv_progress [OF r(1)]] content_length_library by fastforce
qed

lemma send_rest_eq: "send_rest c buf len = snd (send_loop c buf (len + k) k)"
proof (induction c buf len arbitrary: k rule: send_rest.induct)
  case (1 c buf len)
  show ?case
  proof (cases "0 < len")
    case True
    obtain r c1 where r: "os_send c (take (nat len) buf) = (r, c1)" by fastforce
    have IH: "send_rest c1 (drop (nat r) buf) (len - r) = snd (send_loop c1 (drop (nat r) buf) (len + k) (k + r))"
      if "\<not> r \<le> 0" using "1.IH" [OF True r [symmetric] that, of "k + r"] by (simp add: algebra_simps)
    show ?thesis
      using True r IH by (subst send_rest.simps, subst send_loop.simps) (simp add: algebra_simps)
  qed (simp add: send_rest.simps send_loop.simps)
qed

lemma send_response_full:
  assumes "io_ok c" "length (raw_response code body) < 2 ^ 31"
  shows "c_out (send_response c code body) = c_out c @ bytes_of_string (raw_response code body)"
proof -
  let ?raw = "raw_response code body"
  have len: "sint (word_of_nat (length ?raw) :: u32) = int (length (bytes_of_string ?raw))"
    using assms(2) by (subst sint_small_u32) (simp_all add: unat_of_nat)
  obtain c' where "tcp_send_all c (bytes_of_string ?raw) (int (length (bytes_of_string ?raw)))
      = (int (length (bytes_of_string ?raw)), c')" "c_out c' = c_out c @ bytes_of_string ?raw"
    using tcp_send_all_full [OF assms(1) refl] by blast
  then show ?thesis
    unfolding send_response_def Let_def len
    using send_rest_eq [of c "bytes_of_string ?raw" _ 0] by (simp add: tcp_send_all_def)
qed

lemma answer_json_Inl: "dump_strict dump \<Longrightarrow> answer_json dump code j = Inl ex \<Longrightarrow> library_text ex"
  using answer_json_cases [of dump code j] by (auto simp: library_text_def)

lemma answer_json_Inr: "answer_json dump code j = Inr (c, b) \<Longrightarrow> c = code"
  by (auto simp: answer_json_def bindR_eq_Inr)

definition good_answer :: "engine \<Rightarrow> answered \<Rightarrow> bool" where
  "good_answer e a = (case a of Inl ex \<Rightarrow> library_text ex
     | Inr (code, _) \<Rightarrow> code \<in> {200, 400, 404, 500, 503} \<and> (code = 200 \<longrightarrow> ready e))"

lemma good_answer_json:
  assumes "dump_strict dump" "code \<in> {200, 400, 404, 500, 503}" "code = 200 \<Longrightarrow> ready e"
  shows "good_answer e (answer_json dump code j)"
  using answer_json_cases [OF assms(1), of code j] assms(2,3)
  by (auto simp: good_answer_def library_text_def)

lemma handle_embedding_good:
  assumes "dump_strict dump"
  shows "good_answer e (handle_embedding parse dump ms (Some e) t)"
proof (cases "ready e")
  case False
  then show ?thesis using assms by (simp add: handle_embedding_def good_answer_json)
next
  case True
  have ok: "good_answer e (case bindR m (\<lambda>r. answer_json dump 200 (f r)) of Inr a \<Rightarrow> Inr a
      | Inl ex \<Rightarrow> answer_json dump 500 (g ex))" for m :: "EmbeddingResult result" and f g
  proof (cases "bindR m (\<lambda>r. answer_json dump 200 (f r))")
    case (Inl ex)
    then show ?thesis using assms by (simp add: good_answer_json)
  next
    case (Inr a)
    then show ?thesis
      using True by (cases a) (auto simp: good_answer_def bindR_eq_Inr dest: answer_json_Inr)
  qed
  show ?thesis
    unfolding handle_embedding_def Let_def using True assms ok
    by (simp add: good_answer_json split: sum.split)
qed

lemma route_good:
  assumes "dump_strict dump"
  shows "good_answer e (route parse dump ms e env req)"
  unfolding route_def using assms by (simp add: good_answer_json handle_embedding_good)

lemma http_answer_cases:
  assumes "dump_strict dump" "\<forall>ex. raw = Inl ex \<longrightarrow> library_text ex"
  shows "\<exists>code b. http_answer parse dump ms e env raw = Inr (code, b)
    \<and> code \<in> {200, 400, 404, 500, 503} \<and> (code = 200 \<longrightarrow> ready e)"
proof -
  define r where "r = bindR raw (\<lambda>raw. route parse dump ms e env (parse_request raw))"
  have g: "good_answer e r"
    using assms route_good [OF assms(1)] unfolding r_def
    by (cases raw) (auto simp: good_answer_def)
  show ?thesis
  proof (cases r)
    case (Inl ex)
    then have "library_text ex" using g by (simp add: good_answer_def)
    from failed_answer [OF assms(1) this, of 500] Inl show ?thesis
      by (auto simp: http_answer_def simp flip: r_def)
  next
    case (Inr a)
    then show ?thesis using g by (cases a) (simp add: http_answer_def good_answer_def flip: r_def)
  qed
qed

text \<open>
  C30: Every request that ends is answered. Whatever a client sends and whatever the engine or the
  library throws, the handler never lets an exception escape (the process survives): it answers
  once, with 200, 400, 404, 500 or 503, and 200 only when the engine is ready; the whole response
  is written when the connection takes it. A POST to the embedding route of a ready engine gets
  400 for a body that is not JSON, and a body without \<open>input_text\<close> gets 500, not 400.
\<close>

theorem http_always_answers:
  assumes "dump_strict dump"
  shows "(case http_handle_client parse dump ms e env c of
        Hung \<Rightarrow> read_http_request c = None
      | Crashed \<Rightarrow> False
      | Answered code body c' \<Rightarrow> code \<in> {200, 400, 404, 500, 503} \<and> (code = 200 \<longrightarrow> ready e)
          \<and> (io_ok c \<and> length (raw_response code body) < 2 ^ 31 \<longrightarrow>
               c_out c' = c_out c @ bytes_of_string (raw_response code body)))
    \<and> (ready e \<longrightarrow> (\<forall>j b.
         (parse b = Inl j \<longrightarrow>
            handle_embedding parse dump ms (Some e) b
              = answer_json dump 400 (failed_json (JString ''invalid_json_body'')))))
    \<and> (ready e \<longrightarrow> (\<forall>j b. parse b = Inr j \<and> member j ''input_text'' = None \<longrightarrow>
            handle_embedding parse dump ms (Some e) b
              = answer_json dump 500 (failed_json (JString ''input_text is required''))))"
proof (intro conjI impI allI)
  show "case http_handle_client parse dump ms e env c of
        Hung \<Rightarrow> read_http_request c = None
      | Crashed \<Rightarrow> False
      | Answered code body c' \<Rightarrow> code \<in> {200, 400, 404, 500, 503} \<and> (code = 200 \<longrightarrow> ready e)
          \<and> (io_ok c \<and> length (raw_response code body) < 2 ^ 31 \<longrightarrow>
               c_out c' = c_out c @ bytes_of_string (raw_response code body))"
  proof (cases "read_http_request c")
    case None
    then show ?thesis by (simp add: http_handle_client_def)
  next
    case (Some x)
    obtain raw c1 where x: "x = (raw, c1)" by fastforce
    note f = read_loop_facts [of c "[]" None raw c1]
    have f: "\<forall>ex. raw = Inl ex \<longrightarrow> library_text ex" "c_out c1 = c_out c" "io_ok c \<longrightarrow> io_ok c1"
      using f Some x by (auto simp: read_http_request_def)
    obtain code b where a: "http_answer parse dump ms e env raw = Inr (code, b)"
        "code \<in> {200, 400, 404, 500, 503}" "code = 200 \<longrightarrow> ready e"
      using http_answer_cases [OF assms f(1)] by blast
    have "http_handle_client parse dump ms e env c = Answered code b (send_response c1 code b)"
      using Some x a(1) by (simp add: http_handle_client_def)
    then show ?thesis using a(2,3) f(2,3) send_response_full [of c1 code b] by simp
  qed
next
  fix j b assume "ready e" "parse b = Inl j"
  then show "handle_embedding parse dump ms (Some e) b
      = answer_json dump 400 (failed_json (JString ''invalid_json_body''))"
    by (simp add: handle_embedding_def)
next
  fix j b assume "ready e" "parse b = Inr j \<and> member j ''input_text'' = None"
  then show "handle_embedding parse dump ms (Some e) b
      = answer_json dump 500 (failed_json (JString ''input_text is required''))"
    by (simp add: handle_embedding_def embed_def Let_def)
qed

theorem http_always_answers_witness:
  "\<exists>code body c'. http_handle_client quoting_parse demo_dump (Fin 1) demo_engine
       \<lparr>he_linep = None, he_uptime_s = Fin 0, he_warm_age_ms = 0\<rparr>
       (fresh_conn [] Peer_closed) = Answered code body c'
     \<and> code \<in> {200, 400, 404, 500, 503}"
proof -
  let ?c = "fresh_conn [] Peer_closed"
  let ?o = "http_handle_client quoting_parse demo_dump (Fin 1) demo_engine
       \<lparr>he_linep = None, he_uptime_s = Fin 0, he_warm_age_ms = 0\<rparr> ?c"
  have "read_http_request ?c \<noteq> None"
    by (simp add: read_http_request_def read_loop.simps os_recv_def deliver_def fresh_conn_def)
  then show ?thesis
    using conjunct1 [OF http_always_answers [where parse = quoting_parse and ms = "Fin 1" and
      e = demo_engine and env = "\<lparr>he_linep = None, he_uptime_s = Fin 0, he_warm_age_ms = 0\<rparr>" and
      c = ?c, OF demo_dump_strict]]
    by (cases ?o) auto
qed

section \<open>Start-up\<close>

text \<open>
  \<open>main\<close>: the results of the socket calls are given, \<open>threads\<close> is what the endpoint's threads have
  done to it by then. The service listens, or ends with an exit code after the destructors of the
  global objects, which may end the process themselves.
\<close>

record net_results =
  nr_wsa_startup :: bool
  nr_socket :: bool
  nr_bind :: "string \<Rightarrow> u16 \<Rightarrow> bool"
  nr_listen :: bool

datatype server_state = Server_exit "int outcome" | Server_listening engine "endpoint option"

definition server_exit :: "int \<Rightarrow> endpoint option \<Rightarrow> server_state" where
  "server_exit code ep =
     Server_exit (case ep of
        None \<Rightarrow> Ret code
      | Some p \<Rightarrow> (case endpoint_destroy p of Terminated \<Rightarrow> Terminated | Ret _ \<Rightarrow> Ret code))"

definition start_linep :: "engine \<Rightarrow> EmbeddingConfig \<Rightarrow> endpoint option outcome" where
  "start_linep e config =
     (if ec_linep_enabled config
      then case endpoint_start e (LinepEmbeddingEndpoint config) of
             Terminated \<Rightarrow> Terminated | Ret (_, ep) \<Rightarrow> Ret (Some ep)
      else Ret None)"

definition open_http :: "net_results \<Rightarrow> EmbeddingConfig \<Rightarrow> engine \<Rightarrow> endpoint option \<Rightarrow> server_state" where
  "open_http net config e ep =
     (if \<not> nr_wsa_startup net then server_exit 1 ep
      else if \<not> nr_socket net then server_exit 1 ep
      else if \<not> nr_bind net (ec_host config) (word_of_int (ec_port config)) then server_exit 1 ep
      else if \<not> nr_listen net then server_exit 1 ep
      else Server_listening e ep)"

definition server_main ::
  "(string \<Rightarrow> string option) \<Rightarrow> string list \<Rightarrow> ov \<Rightarrow> ov \<Rightarrow> (string \<Rightarrow> file_kind) \<Rightarrow> int
     \<Rightarrow> (endpoint \<Rightarrow> endpoint) \<Rightarrow> net_results \<Rightarrow> server_state" where
  "server_main fs args rt1 rt2 fsys now threads net =
     (case parse_args fs args of
        Usage_exit \<Rightarrow> Server_exit (Ret 0)
      | Args_throw _ \<Rightarrow> Server_exit (Ret 1)
      | Args_config config \<Rightarrow>
          let (_, e) = load rt1 rt2 fsys now (EmbeddingEngine config)
          in case start_linep e config of
               Terminated \<Rightarrow> Server_exit Terminated
             | Ret ep \<Rightarrow> open_http net config e (map_option threads ep))"

text \<open>
  The service listens even when no model could be loaded; when both the LiNeP port and the HTTP port
  are taken, \<open>main\<close> does not exit with code 1 as written but dies in the endpoint's destructor.
\<close>

lemma server_main_both_ports_taken:
  assumes "parse_args fs args = Args_config config" "ec_linep_enabled config"
    and "\<not> nr_bind net (ec_host config) (word_of_int (ec_port config))"
  shows "server_main fs args rt1 rt2 fsys now tcp_loop_no_listen net = Server_exit Terminated"
  using assms
  by (auto simp: server_main_def start_linep_def open_http_def server_exit_def endpoint_destroy_def
      endpoint_stop_def tcp_loop_no_listen_def endpoint_start_def LinepEmbeddingEndpoint_def
      update_heartbeat_def sender_start_def create_heartbeat_sender_def set_status_def Let_def
      split: prod.split)

lemma server_listens_without_model:
  assumes "parse_args fs args = Args_config config" "\<not> ec_linep_enabled config"
    and "nr_wsa_startup net" "nr_socket net" "nr_listen net"
    and "nr_bind net (ec_host config) (word_of_int (ec_port config))"
  shows "\<exists>e. server_main fs args rt1 rt2 fsys now threads net = Server_listening e None"
  using assms by (simp add: server_main_def start_linep_def open_http_def split: prod.split)

end
