(* ===== verification/Json_Extract.thy ===== *)
theory Json_Extract
  imports Json_Value
begin

text \<open>
  The search for a JSON object in the output of a language model (\<open>extract_json\<close> of
  \<open>liara-inference/templates/generic_infer_server.cpp\<close>), compared with a grammar of brace-balanced
  texts: the scanner accepts a block of the grammar and stops exactly at its end. The JSON parser is
  a parameter.
\<close>

section \<open>The scanner\<close>

definition ltrim :: "string \<Rightarrow> string" where "ltrim s = dropWhile is_space s"

definition rtrim :: "string \<Rightarrow> string" where "rtrim s = rev (dropWhile is_space (rev s))"

text \<open>The loop from position \<open>i\<close>; the result is the position of the brace that closes the first.\<close>

fun scan :: "string \<Rightarrow> nat \<Rightarrow> int \<Rightarrow> bool \<Rightarrow> bool \<Rightarrow> nat option" where
  "scan [] i depth in_str escape = None"
| "scan (c # t) i depth in_str escape =
     (if escape then scan t (Suc i) depth in_str False
      else if c = CHR 0x5C \<and> in_str then scan t (Suc i) depth in_str True
      else if c = CHR 0x22 then scan t (Suc i) depth (\<not> in_str) False
      else if in_str then scan t (Suc i) depth in_str False
      else if c = CHR ''{'' then scan t (Suc i) (depth + 1) in_str False
      else if c = CHR ''}''
      then (if depth - 1 = 0 then Some i else scan t (Suc i) (depth - 1) in_str False)
      else scan t (Suc i) depth in_str False)"

definition extract_json :: "(string \<Rightarrow> json result) \<Rightarrow> string \<Rightarrow> json option" where
  "extract_json parse text =
     (let t = rtrim (ltrim text) in
      case parse t of
        Inr j \<Rightarrow> Some j
      | Inl _ \<Rightarrow>
          (case find_str ''{'' t of
             None \<Rightarrow> None
           | Some start \<Rightarrow>
               (case scan (drop start t) start 0 False False of
                  None \<Rightarrow> None
                | Some i \<Rightarrow>
                    (case parse (substr t start (i - start + 1)) of
                       Inr j \<Rightarrow> Some j | Inl _ \<Rightarrow> None))))"

section \<open>The grammar\<close>

text \<open>
  The inside of a string literal, and texts in which quotes and braces are balanced: plain
  characters, string literals and blocks in braces.
\<close>

inductive literal :: "string \<Rightarrow> bool" where
  literal_Nil [intro]: "literal []"
| literal_char [intro]: "c \<noteq> CHR 0x22 \<Longrightarrow> c \<noteq> CHR 0x5C \<Longrightarrow> literal q \<Longrightarrow> literal (c # q)"
| literal_escape [intro]: "literal q \<Longrightarrow> literal (CHR 0x5C # c # q)"

inductive balanced :: "string \<Rightarrow> bool" where
  balanced_Nil [intro]: "balanced []"
| balanced_char [intro]:
    "c \<noteq> CHR 0x22 \<Longrightarrow> c \<noteq> CHR ''{'' \<Longrightarrow> c \<noteq> CHR ''}'' \<Longrightarrow> balanced s \<Longrightarrow> balanced (c # s)"
| balanced_literal [intro]:
    "literal q \<Longrightarrow> balanced s \<Longrightarrow> balanced (CHR 0x22 # q @ CHR 0x22 # s)"
| balanced_block [intro]:
    "balanced a \<Longrightarrow> balanced s \<Longrightarrow> balanced (CHR ''{'' # a @ CHR ''}'' # s)"

definition block :: "string \<Rightarrow> string" where
  "block a = CHR ''{'' # a @ [CHR ''}'']"

lemma scan_literal:
  "literal q \<Longrightarrow> scan (q @ CHR 0x22 # s) i d True False = scan s (i + length q + 1) d False False"
  by (induction arbitrary: i rule: literal.induct) simp_all

lemma scan_balanced:
  "balanced a \<Longrightarrow> 0 < d \<Longrightarrow> scan (a @ s) i d False False = scan s (i + length a) d False False"
proof (induction arbitrary: i d s rule: balanced.induct)
  case (balanced_literal q a)
  then show ?case by (simp add: scan_literal add.assoc)
next
  case (balanced_block a b)
  have "scan (a @ CHR ''}'' # b @ s) (Suc i) (d + 1) False False
      = scan (CHR ''}'' # b @ s) (Suc i + length a) (d + 1) False False"
    using balanced_block.prems by (intro balanced_block.IH(1)) simp
  also have "\<dots> = scan (b @ s) (Suc (Suc i + length a)) d False False"
    using balanced_block.prems by simp
  also have "\<dots> = scan s (Suc (Suc i + length a) + length b) d False False"
    using balanced_block.prems by (rule balanced_block.IH(2))
  finally show ?case by (simp add: add.assoc)
qed simp_all

lemma scan_block: "balanced a \<Longrightarrow> scan (block a @ s) i 0 False False = Some (i + length a + 1)"
  by (simp add: block_def scan_balanced)

section \<open>What the scanner accepts is a block\<close>

lemma scan_in_literal:
  "scan s i d True False = Some j \<Longrightarrow>
     \<exists>q rest. literal q \<and> s = q @ CHR 0x22 # rest \<and> scan rest (i + length q + 1) d False False = Some j"
proof (induction "length s" arbitrary: s i rule: less_induct)
  case less
  from less.prems obtain c t where s: "s = c # t" by (cases s) auto
  consider "c = CHR 0x22" | "c = CHR 0x5C" | "c \<noteq> CHR 0x22" "c \<noteq> CHR 0x5C" by blast
  then show ?case
  proof cases
    case 1
    then show ?thesis
      using less.prems s literal_Nil by (intro exI [of _ "[]"] exI [of _ t]) simp
  next
    case 2
    with less.prems s obtain x u where t: "t = x # u" "scan u (Suc (Suc i)) d True False = Some j"
      by (cases t) auto
    obtain q rest where "literal q" "u = q @ CHR 0x22 # rest"
        "scan rest (Suc (Suc i) + length q + 1) d False False = Some j"
      using less.hyps [of u, OF _ t(2)] s t(1) by auto
    then show ?thesis
      using 2 s t(1) literal_escape by (intro exI [of _ "c # x # q"] exI [of _ rest]) simp
  next
    case 3
    with less.prems s have "scan t (Suc i) d True False = Some j" by simp
    then obtain q rest where "literal q" "t = q @ CHR 0x22 # rest"
        "scan rest (Suc i + length q + 1) d False False = Some j"
      using less.hyps [of t "Suc i"] s by auto
    then show ?thesis
      using 3 s literal_char by (intro exI [of _ "c # q"] exI [of _ rest]) simp
  qed
qed

text \<open>Inside \<open>d\<close> braces the text goes on with a balanced part and the brace that closes the innermost.\<close>

definition closes :: "string \<Rightarrow> nat \<Rightarrow> int \<Rightarrow> nat \<Rightarrow> string \<Rightarrow> string \<Rightarrow> bool" where
  "closes s i d j a rest \<longleftrightarrow> balanced a \<and> s = a @ CHR ''}'' # rest
     \<and> (if d = 1 then j = i + length a else scan rest (i + length a + 1) (d - 1) False False = Some j)"

lemma closes_append:
  "closes s (i + length p) d j a rest \<Longrightarrow> balanced (p @ a) \<Longrightarrow> closes (p @ s) i d j (p @ a) rest"
  by (auto simp: closes_def algebra_simps split: if_splits)

lemma scan_accepts:
  "scan s i d False False = Some j \<Longrightarrow> 0 < d \<Longrightarrow> \<exists>a rest. closes s i d j a rest"
proof (induction "length s" arbitrary: s i d rule: less_induct)
  case less
  from less.prems obtain c t where s: "s = c # t" by (cases s) auto
  have step: "\<exists>a rest. closes (p @ u) i d j a rest"
    if "length u < length s" "scan u (i + length p) d False False = Some j"
      "\<And>b. balanced b \<Longrightarrow> balanced (p @ b)" for p u
    using less.hyps [OF that(1,2) less.prems(2)] closes_append [of u i p d j] that(3)
    unfolding closes_def by blast
  consider "c = CHR 0x22" | "c = CHR ''{''" | "c = CHR ''}''"
    | "c \<noteq> CHR 0x22" "c \<noteq> CHR ''{''" "c \<noteq> CHR ''}''" by blast
  then show ?case
  proof cases
    case 1
    with less.prems s obtain q rest where q: "literal q" "t = q @ CHR 0x22 # rest"
        "scan rest (Suc i + length q + 1) d False False = Some j"
      using scan_in_literal [of t "Suc i" d j] by auto
    then show ?thesis using step [of rest "CHR 0x22 # q @ [CHR 0x22]"] 1 s by auto
  next
    case 2
    with less.prems s have "scan t (Suc i) (d + 1) False False = Some j" by simp
    then obtain a rest where "closes t (Suc i) (d + 1) j a rest"
      using less.hyps [of t] less.prems(2) s by force
    then have a: "balanced a" "t = a @ CHR ''}'' # rest"
        "scan rest (Suc i + length a + 1) d False False = Some j"
      using less.prems(2) by (auto simp: closes_def)
    then show ?thesis using step [of rest "block a"] 2 s by (auto simp: block_def)
  next
    case 3
    then have "closes s i d j [] t" using less.prems s by (auto simp: closes_def)
    then show ?thesis by blast
  next
    case 4
    with less.prems s have "scan t (Suc i) d False False = Some j" by simp
    then show ?thesis using step [of t "[c]"] 4 s by auto
  qed
qed

lemma scan_block_iff:
  "scan (CHR ''{'' # s) i 0 False False = Some j
     \<longleftrightarrow> (\<exists>a rest. balanced a \<and> CHR ''{'' # s = block a @ rest \<and> j = i + length a + 1)"
proof
  assume "scan (CHR ''{'' # s) i 0 False False = Some j"
  then obtain a rest where "closes s (Suc i) 1 j a rest"
    using scan_accepts [of s "Suc i" 1 j] by auto
  then show "\<exists>a rest. balanced a \<and> CHR ''{'' # s = block a @ rest \<and> j = i + length a + 1"
    by (intro exI [of _ a] exI [of _ rest]) (simp add: closes_def block_def)
next
  assume "\<exists>a rest. balanced a \<and> CHR ''{'' # s = block a @ rest \<and> j = i + length a + 1"
  then obtain a rest where a: "balanced a" "CHR ''{'' # s = block a @ rest" "j = i + length a + 1"
    by blast
  show "scan (CHR ''{'' # s) i 0 False False = Some j"
    unfolding a(2) a(3) by (rule scan_block [OF a(1)])
qed

section \<open>The object found\<close>

lemma find_brace:
  "CHR ''{'' \<notin> set pre \<Longrightarrow> find_str ''{'' (pre @ CHR ''{'' # s) = Some (length pre)"
  by (auto simp: find_str_eq_Some_iff starts_with_def nth_append in_set_conv_nth
      simp flip: Cons_nth_drop_Suc)

lemma find_brace_split:
  assumes "find_str ''{'' t = Some i"
  shows "\<exists>pre s. t = pre @ CHR ''{'' # s \<and> length pre = i \<and> CHR ''{'' \<notin> set pre"
proof -
  note f = find_str_Some [OF assms]
  then obtain s where s: "drop i t = CHR ''{'' # s" by (auto simp: starts_with_iff)
  have "CHR ''{'' \<notin> set (take i t)"
  proof
    assume "CHR ''{'' \<in> set (take i t)"
    then obtain j where j: "j < i" "j < length t" "t ! j = CHR ''{''" by (auto simp: in_set_conv_nth)
    then have "starts_with ''{'' (drop j t)" by (simp add: starts_with_def flip: Cons_nth_drop_Suc)
    with f j show False by blast
  qed
  moreover have "t = take i t @ CHR ''{'' # s" using append_take_drop_id [of i t] s by simp
  moreover have "length (take i t) = i" using f by simp
  ultimately show ?thesis by blast
qed

lemma extract_json_block:
  assumes "parse (rtrim (ltrim text)) = Inl e" "rtrim (ltrim text) = pre @ block a @ post"
    and "CHR ''{'' \<notin> set pre" "balanced a"
  shows "extract_json parse text = (case parse (block a) of Inr j \<Rightarrow> Some j | Inl _ \<Rightarrow> None)"
proof -
  have f: "find_str ''{'' (rtrim (ltrim text)) = Some (length pre)"
    using find_brace [OF assms(3)] assms(2) by (simp add: block_def)
  have s: "scan (drop (length pre) (rtrim (ltrim text))) (length pre) 0 False False
      = Some (length pre + length a + 1)"
    using scan_block [OF assms(4)] assms(2) by simp
  have "substr (rtrim (ltrim text)) (length pre) (length pre + length a + 1 - length pre + 1) = block a"
    using assms(2) by (simp add: substr_def block_def)
  then show ?thesis unfolding extract_json_def Let_def using assms(1) f s by simp
qed

text \<open>
  C17: What \<open>extract_json\<close> finds. A text that parses once trimmed is its own answer. Of any other
  text the answer is the first block of the brace grammar that starts at the first opening brace,
  when that block parses, and nothing else: prose without a brace before it and anything after it
  are skipped, braces and escaped quotes inside string literals do not count, and there is no answer
  when the first block does not parse, even if a later one would.
\<close>

theorem extract_json_first_block:
  "extract_json parse text = Some j \<longleftrightarrow>
     parse (rtrim (ltrim text)) = Inr j
     \<or> (\<exists>e. parse (rtrim (ltrim text)) = Inl e)
       \<and> (\<exists>pre a post. rtrim (ltrim text) = pre @ block a @ post \<and> CHR ''{'' \<notin> set pre
             \<and> balanced a \<and> parse (block a) = Inr j)"
proof (cases "parse (rtrim (ltrim text))")
  case (Inr j')
  then show ?thesis by (auto simp: extract_json_def)
next
  case (Inl e)
  let ?t = "rtrim (ltrim text)"
  have "\<exists>pre a post. ?t = pre @ block a @ post \<and> CHR ''{'' \<notin> set pre \<and> balanced a"
    if found: "extract_json parse text = Some j"
  proof -
    obtain i k where i: "find_str ''{'' ?t = Some i" "scan (drop i ?t) i 0 False False = Some k"
      using found Inl by (auto simp: extract_json_def Let_def split: option.splits)
    obtain pre s where p: "?t = pre @ CHR ''{'' # s" "length pre = i" "CHR ''{'' \<notin> set pre"
      using find_brace_split [OF i(1)] by blast
    obtain a rest where "balanced a" "CHR ''{'' # s = block a @ rest"
      using i(2) p(1,2) scan_block_iff [of s i k] by auto
    with p show ?thesis by metis
  qed
  moreover have "extract_json parse text = Some j \<longleftrightarrow> parse (block a) = Inr j"
    if "?t = pre @ block a @ post" "CHR ''{'' \<notin> set pre" "balanced a" for pre a post
    using extract_json_block [where parse = parse, OF Inl that] by (simp split: sum.split)
  ultimately have "extract_json parse text = Some j
      \<longleftrightarrow> (\<exists>pre a post. ?t = pre @ block a @ post \<and> CHR ''{'' \<notin> set pre
            \<and> balanced a \<and> parse (block a) = Inr j)"
    by blast
  then show ?thesis by (simp add: Inl)
qed

end
