(* ===== verification/Infer_Server.thy ===== *)
theory Infer_Server
  imports Http_Server Json_Extract
begin

text \<open>
  The inference server of \<open>liara-inference/templates/generic_infer_server.cpp\<close>: the handler of
  \<open>POST /infer\<close>, the function of the detached thread that serves a connection, the command line and
  the start-up sequence of \<open>main\<close>. The response text is built as in the HTTP front end of the
  embedding service. The pipeline of OpenVINO GenAI, the JSON parser and the serialiser are parameters, and so is
  the value of a conversion of a number outside the range of \<open>int\<close>, which the standard leaves
  undefined.
\<close>

section \<open>The handler of \<open>POST /infer\<close>\<close>

text \<open>
  What \<open>generate\<close> of the pipeline does: a text, an exception derived from \<open>std::exception\<close>, or
  another one. It takes the prompt, \<open>max_new_tokens\<close> (a \<open>size_t\<close>) and the temperature.
\<close>

datatype generated = Generated string | Throws exn | Throws_other

type_synonym pipeline = "string \<Rightarrow> u64 \<Rightarrow> fp \<Rightarrow> generated"

record infer_state =
  is_pipeline :: "pipeline option"
  is_model_label :: string
  is_ready :: bool

text \<open>\<open>get<int>\<close>: a number is converted as by \<open>static_cast\<close>; \<open>undef\<close> is used out of range.\<close>

definition int_of_fp :: "(fp \<Rightarrow> u32) \<Rightarrow> fp \<Rightarrow> u32" where
  "int_of_fp undef x =
     (case x of
        Fin q \<Rightarrow>
          let n = (if q \<ge> 0 then \<lfloor>q\<rfloor> else \<lceil>q\<rceil>)
          in if - (2 ^ 31) \<le> n \<and> n < 2 ^ 31 then word_of_int n else undef x
      | _ \<Rightarrow> undef x)"

fun get_int :: "(fp \<Rightarrow> u32) \<Rightarrow> json \<Rightarrow> u32 result" where
  "get_int undef (JInt i) = Inr (word_of_int i)"
| "get_int undef (JFloat x) = Inr (int_of_fp undef x)"
| "get_int undef (JBool b) = Inr (if b then 1 else 0)"
| "get_int undef j = Inl (type_error ''302'' (''type must be number, but is '' @ type_name j))"

text \<open>
  \<open>send_json\<close> serialises before it sends: nothing is sent when \<open>dump\<close> throws. The functions below
  return the answer they send, or the exception that leaves them; \<open>None\<close> in the place of an
  exception is one that is not derived from \<open>std::exception\<close>.
\<close>

type_synonym infer_answer = "exn option + int \<times> string"

definition infer_send_json :: "(json \<Rightarrow> string result) \<Rightarrow> int \<Rightarrow> json \<Rightarrow> infer_answer" where
  "infer_send_json dump code payload =
     (case dump payload of Inl ex \<Rightarrow> Inl (Some ex) | Inr body \<Rightarrow> Inr (code, body))"

definition infer_failed :: "string \<Rightarrow> json" where
  "infer_failed err = object [(''status'', JString ''failed''), (''error'', JString err)]"

definition temperature :: fp where "temperature = rnd32 (7 / 10)"

definition infer_generate ::
  "(json \<Rightarrow> string result) \<Rightarrow> fp \<Rightarrow> infer_state \<Rightarrow> pipeline \<Rightarrow> string \<Rightarrow> u32 \<Rightarrow> infer_answer" where
  "infer_generate dump gen_ms g generate prompt max_tokens =
     (case (case generate prompt (scast max_tokens) temperature of
              Throws ex \<Rightarrow> Inl (Some ex)
            | Throws_other \<Rightarrow> Inl None
            | Generated raw_content \<Rightarrow>
                infer_send_json dump 200 (object
                  [(''status'', JString ''success''), (''model'', JString (is_model_label g)),
                   (''raw_content'', JString raw_content), (''inference_time_ms'', JFloat gen_ms)])) of
        Inr a \<Rightarrow> Inr a
      | Inl None \<Rightarrow> Inl None
      | Inl (Some ex) \<Rightarrow> infer_send_json dump 500 (infer_failed (what ex)))"

definition handle_infer ::
  "(json \<Rightarrow> string result) \<Rightarrow> (fp \<Rightarrow> u32) \<Rightarrow> fp \<Rightarrow> infer_state \<Rightarrow> json \<Rightarrow> infer_answer" where
  "handle_infer dump undef gen_ms g body =
     (if \<not> contains body ''prompt''
      then infer_send_json dump 400 (infer_failed ''missing 'prompt' field'')
      else case get_string (the (member body ''prompt'')) of
        Inl ex \<Rightarrow> Inl (Some ex)
      | Inr prompt \<Rightarrow>
          (case value_or (get_int undef) body ''max_tokens'' 256 of
             Inl ex \<Rightarrow> Inl (Some ex)
           | Inr max_tokens \<Rightarrow>
               (case is_pipeline g of
                  None \<Rightarrow> infer_send_json dump 503 (infer_failed ''pipeline not ready'')
                | Some generate \<Rightarrow> infer_generate dump gen_ms g generate prompt max_tokens)))"

section \<open>The thread of a connection\<close>

text \<open>The buffer holds zeros behind the 4095 bytes at most that one \<open>recv\<close> returns.\<close>

definition c_string :: "string \<Rightarrow> string" where "c_string buffer = takeWhile (\<lambda>c. code_of c \<noteq> 0) buffer"

definition request_line :: "string \<Rightarrow> string \<times> string" where
  "request_line request =
     (case find_str '' '' request of
        None \<Rightarrow> ([], [])
      | Some space1 \<Rightarrow>
          (case find_from '' '' request (space1 + 1) of
             None \<Rightarrow> ([], [])
           | Some space2 \<Rightarrow>
               (substr request 0 space1, substr request (space1 + 1) (space2 - space1 - 1))))"

text \<open>
  What the thread does once it has the request: it sends a response and closes the socket, returns
  without either, or ends the process with an exception that nothing catches.
\<close>

datatype infer_reply = Reply int string | No_reply | Uncaught

definition reply_or_die :: "infer_answer \<Rightarrow> infer_reply" where
  "reply_or_die a = (case a of Inr (code, body) \<Rightarrow> Reply code body | Inl _ \<Rightarrow> Uncaught)"

definition infer_route ::
  "(string \<Rightarrow> json result) \<Rightarrow> (json \<Rightarrow> string result) \<Rightarrow> (fp \<Rightarrow> u32) \<Rightarrow> fp \<Rightarrow> infer_state \<Rightarrow> string
     \<Rightarrow> infer_reply" where
  "infer_route parse dump undef gen_ms g request =
     (let (method, path) = request_line request in
      if path = ''/infer'' \<and> method = ''POST'' then
        (case find_str (crlf @ crlf) request of
           None \<Rightarrow> No_reply
         | Some body_start \<Rightarrow>
             (case (case parse (substr_end request (body_start + 4)) of
                      Inl ex \<Rightarrow> Inl (Some ex)
                    | Inr body \<Rightarrow> handle_infer dump undef gen_ms g body) of
                Inr (code, body) \<Rightarrow> Reply code body
              | Inl _ \<Rightarrow> reply_or_die (infer_send_json dump 400 (infer_failed ''invalid JSON''))))
      else if path = ''/health'' \<and> method = ''GET'' then
        reply_or_die (infer_send_json dump 200
          (object [(''status'', JString ''ok''), (''model'', JString (is_model_label g))]))
      else reply_or_die (infer_send_json dump 404 (object [(''error'', JString ''not found'')])))"

text \<open>
  One \<open>send\<close> for the whole response; what it does not take is not sent. The length is cast to
  \<open>int\<close>; a negative one fails.
\<close>

definition send_once :: "conn \<Rightarrow> int \<Rightarrow> string \<Rightarrow> conn" where
  "send_once client code body =
     (let raw = raw_response code body; n = sint (word_of_nat (length raw) :: u32) in
      if n < 0 then client else snd (os_send client (take (nat n) (bytes_of_string raw))))"

datatype infer_outcome =
    Waiting                \<comment> \<open>\<open>recv\<close> never returns\<close>
  | Closed conn            \<comment> \<open>the socket is closed\<close>
  | Left_open conn         \<comment> \<open>the thread ends and the socket stays open\<close>
  | Died                   \<comment> \<open>\<open>std::terminate\<close>\<close>

definition infer_client ::
  "(string \<Rightarrow> json result) \<Rightarrow> (json \<Rightarrow> string result) \<Rightarrow> (fp \<Rightarrow> u32) \<Rightarrow> fp \<Rightarrow> infer_state \<Rightarrow> conn
     \<Rightarrow> infer_outcome" where
  "infer_client parse dump undef gen_ms g client =
     (case os_recv client 4095 of
        None \<Rightarrow> Waiting
      | Some (received, buffer, client) \<Rightarrow>
          if received \<le> 0 then Closed client
          else case infer_route parse dump undef gen_ms g (c_string (string_of_bytes buffer)) of
                 Reply code body \<Rightarrow> Closed (send_once client code body)
               | No_reply \<Rightarrow> Left_open client
               | Uncaught \<Rightarrow> Died)"

section \<open>Start-up\<close>

record ModelConfig =
  mc_model_path :: string
  mc_device :: string
  mc_max_tokens :: u32
  mc_temperature :: fp

text \<open>The arguments after the program name; an option without a value is skipped.\<close>

fun infer_args :: "int \<Rightarrow> ModelConfig \<Rightarrow> string list \<Rightarrow> (int \<times> ModelConfig) result" where
  "infer_args port cfg [] = Inr (port, cfg)"
| "infer_args port cfg [arg] = Inr (port, cfg)"
| "infer_args port cfg (arg # val # args) =
     (if arg = ''--port'' then bindR (stoi val) (\<lambda>p. infer_args p cfg args)
      else if arg = ''--device'' then infer_args port (cfg\<lparr>mc_device := val\<rparr>) args
      else if arg = ''--model'' then infer_args port (cfg\<lparr>mc_model_path := val\<rparr>) args
      else infer_args port cfg (val # args))"

definition infer_defaults :: ModelConfig where
  "infer_defaults = \<lparr>mc_model_path = ''.'', mc_device = ''NPU'', mc_max_tokens = 256,
     mc_temperature = rnd32 (7 / 10)\<rparr>"

text \<open>
  \<open>main\<close> up to its accept loop. \<open>make_pipeline\<close> is the constructor of the pipeline, the results of
  the Winsock calls are given; \<open>winsock\<close> is what the process holds of it: whether it is
  initialised, and the number of open sockets.
\<close>

record winsock =
  ws_started :: bool
  ws_sockets :: nat

definition closesocket :: "winsock \<Rightarrow> winsock" where
  "closesocket w = w\<lparr>ws_sockets := ws_sockets w - 1\<rparr>"

definition WSACleanup :: "winsock \<Rightarrow> winsock" where "WSACleanup w = w\<lparr>ws_started := False\<rparr>"

datatype infer_start =
    Start_throws exn
  | Returns int winsock
  | Accepting u16 winsock infer_state

definition infer_listen :: "net_results \<Rightarrow> int \<Rightarrow> infer_state \<Rightarrow> infer_start" where
  "infer_listen net port g =
     (let w = \<lparr>ws_started = False, ws_sockets = 0\<rparr> in
      if \<not> nr_wsa_startup net then Returns 1 w
      else let w = w\<lparr>ws_started := True\<rparr> in
        if \<not> nr_socket net then Returns 1 (WSACleanup w)
        else let w = w\<lparr>ws_sockets := ws_sockets w + 1\<rparr> in
          if \<not> nr_bind net ''127.0.0.1'' (word_of_int port)
          then Returns 1 (WSACleanup (closesocket w))
          else if \<not> nr_listen net then Returns 1 (WSACleanup (closesocket w))
          else Accepting (word_of_int port) w g)"

definition infer_main ::
  "(string \<Rightarrow> string \<Rightarrow> pipeline result) \<Rightarrow> net_results \<Rightarrow> string list \<Rightarrow> infer_start" where
  "infer_main make_pipeline net args =
     (case infer_args 8766 infer_defaults args of
        Inl ex \<Rightarrow> Start_throws ex
      | Inr (port, cfg) \<Rightarrow>
          (case make_pipeline (mc_model_path cfg) (mc_device cfg) of
             Inl _ \<Rightarrow> Returns 1 \<lparr>ws_started = False, ws_sockets = 0\<rparr>
           | Inr p \<Rightarrow>
               infer_listen net port
                 \<lparr>is_pipeline = Some p, is_model_label = mc_model_path cfg, is_ready = True\<rparr>))"

text \<open>Every return leaves Winsock as it was; the server accepts connections only with a pipeline.\<close>

lemma infer_main_releases:
  "infer_main make_pipeline net args = Returns code w \<Longrightarrow>
     code = 1 \<and> \<not> ws_started w \<and> ws_sockets w = 0"
  by (auto simp: infer_main_def infer_listen_def WSACleanup_def closesocket_def Let_def
      split: sum.splits prod.splits if_splits)

lemma infer_main_accepting:
  "infer_main make_pipeline net args = Accepting port w g \<Longrightarrow>
     ws_started w \<and> ws_sockets w = 1 \<and> is_ready g
     \<and> (\<exists>p. is_pipeline g = Some p \<and> (\<exists>dev. make_pipeline (is_model_label g) dev = Inr p))"
  by (auto simp: infer_main_def infer_listen_def Let_def split: sum.splits prod.splits if_splits)

section \<open>The answers\<close>

lemma infer_send_json_cases:
  "dump_strict dump \<Longrightarrow> texts_ok j \<Longrightarrow> \<exists>b. infer_send_json dump code j = Inr (code, b)"
  using dump_ok [of dump j] by (auto simp: infer_send_json_def)

lemma infer_send_json_code: "infer_send_json dump code j = Inr (c, b) \<Longrightarrow> c = code"
  by (auto simp: infer_send_json_def split: sum.splits)

lemma infer_send_json_fails:
  "dump_strict dump \<Longrightarrow> \<not> texts_ok j \<Longrightarrow> \<exists>ex. infer_send_json dump code j = Inl ex"
  using dump_fails [of dump j] by (auto simp: infer_send_json_def)

lemma texts_ok_infer_failed: "texts_ok (infer_failed s) = utf8_ok s"
  unfolding infer_failed_def by (subst texts_ok_object) (simp_all add: code_of_def)

lemma infer_generate_code:
  "infer_generate dump gen_ms g generate prompt n = Inr (c, b) \<Longrightarrow> c = 200 \<or> c = 500"
  by (auto simp: infer_generate_def dest: infer_send_json_code
      split: sum.splits generated.splits option.splits)

lemma handle_infer_code:
  "handle_infer dump undef gen_ms g body = Inr (c, b) \<Longrightarrow>
     c \<in> {200, 400, 500, 503} \<and> (c = 503 \<longrightarrow> is_pipeline g = None)"
  by (auto simp: handle_infer_def dest: infer_send_json_code infer_generate_code
      split: sum.splits option.splits if_splits)

lemma texts_ok_infer_health:
  "texts_ok (object [(''status'', JString ''ok''), (''model'', JString s)]) = utf8_ok s"
  by (subst texts_ok_object) (simp_all add: code_of_def)

lemma texts_ok_infer_404: "texts_ok (object [(''error'', JString ''not found'')])"
  by (subst texts_ok_object) (simp_all add: code_of_def)

lemma infer_invalid_json:
  assumes "dump_strict dump"
  shows "\<exists>b. infer_send_json dump 400 (infer_failed ''invalid JSON'') = Inr (400, b)"
  by (intro infer_send_json_cases assms) (simp add: texts_ok_infer_failed code_of_def)

definition infer_headless :: "string \<Rightarrow> bool" where
  "infer_headless request \<longleftrightarrow>
     request_line request = (''POST'', ''/infer'') \<and> find_str (crlf @ crlf) request = None"

definition infer_mute :: "infer_state \<Rightarrow> string \<Rightarrow> bool" where
  "infer_mute g request \<longleftrightarrow>
     request_line request = (''GET'', ''/health'') \<and> \<not> utf8_ok (is_model_label g)"

lemma reply_or_die_ok:
  assumes "dump_strict dump" "texts_ok j"
  shows "\<exists>b. reply_or_die (infer_send_json dump code j) = Reply code b"
  using infer_send_json_cases [OF assms, of code] by (auto simp: reply_or_die_def)

lemma reply_or_die_fails:
  assumes "dump_strict dump" "\<not> texts_ok j"
  shows "reply_or_die (infer_send_json dump code j) = Uncaught"
  using infer_send_json_fails [OF assms, of code] by (auto simp: reply_or_die_def)

lemma infer_route_replies:
  assumes "dump_strict dump" "\<not> infer_headless request" "\<not> infer_mute g request"
  shows "\<exists>code b. infer_route parse dump undef gen_ms g request = Reply code b
    \<and> code \<in> {200, 400, 404, 500, 503} \<and> (code = 503 \<longrightarrow> is_pipeline g = None)"
proof -
  obtain m p where l: "request_line request = (m, p)" by fastforce
  consider "m = ''POST''" "p = ''/infer''" | "m = ''GET''" "p = ''/health''"
    | "\<not> (m = ''POST'' \<and> p = ''/infer'')" "\<not> (m = ''GET'' \<and> p = ''/health'')" by blast
  then show ?thesis
  proof cases
    case 1
    then obtain i where i: "find_str (crlf @ crlf) request = Some i"
      using assms(2) l by (auto simp: infer_headless_def)
    define r where "r = (case parse (substr_end request (i + 4)) of
      Inl ex \<Rightarrow> Inl (Some ex) | Inr body \<Rightarrow> handle_infer dump undef gen_ms g body)"
    have r: "infer_route parse dump undef gen_ms g request = (case r of Inr (c, b) \<Rightarrow> Reply c b
        | Inl _ \<Rightarrow> reply_or_die (infer_send_json dump 400 (infer_failed ''invalid JSON'')))"
      using 1 l i by (simp add: infer_route_def r_def)
    show ?thesis
    proof (cases r)
      case (Inl ex)
      have "utf8_ok ''invalid JSON''" by (rule utf8_ascii) (simp add: code_of_def)
      with reply_or_die_ok [OF assms(1), of "infer_failed ''invalid JSON''" 400] r Inl
      show ?thesis by (auto simp: texts_ok_infer_failed)
    next
      case (Inr a)
      then show ?thesis
        using r handle_infer_code [of dump undef gen_ms g _ "fst a" "snd a"]
        by (cases a) (auto simp: r_def split: sum.splits)
    qed
  next
    case 2
    then have "utf8_ok (is_model_label g)" using assms(3) l by (simp add: infer_mute_def)
    then show ?thesis
      using reply_or_die_ok [OF assms(1), of "object [(''status'', JString ''ok''),
        (''model'', JString (is_model_label g))]" 200] 2 l
      by (auto simp: infer_route_def texts_ok_infer_health)
  next
    case 3
    then show ?thesis
      using reply_or_die_ok [OF assms(1) texts_ok_infer_404, of 404] l
      by (auto simp: infer_route_def)
  qed
qed

lemma infer_route_headless:
  "infer_headless request \<Longrightarrow> infer_route parse dump undef gen_ms g request = No_reply"
  by (simp add: infer_headless_def infer_route_def)

lemma infer_route_mute:
  assumes "dump_strict dump" "infer_mute g request"
  shows "infer_route parse dump undef gen_ms g request = Uncaught"
proof -
  have "\<not> texts_ok (object [(''status'', JString ''ok''), (''model'', JString (is_model_label g))])"
    using assms(2) by (simp add: infer_mute_def texts_ok_infer_health)
  then show ?thesis
    using reply_or_die_fails [OF assms(1)] assms(2) by (simp add: infer_mute_def infer_route_def)
qed

text \<open>
  C36: How the thread of a connection ends, decided by the text of the one \<open>recv\<close> it makes. It
  leaves the socket open and silent exactly for a \<open>POST /infer\<close> whose header is not complete in
  that text; it ends the process exactly for a \<open>GET /health\<close> while the model path is not UTF-8;
  otherwise it sends one response with 200, 400, 404, 500 or 503 and closes the socket, 503
  never while there is a pipeline. No exception of the handler, of the parser or of the pipeline
  ends the process.
\<close>

theorem infer_thread_ends:
  assumes "dump_strict dump" "os_recv c 4095 = Some (n, bs, c1)" "0 < n"
  shows "(let request = c_string (string_of_bytes bs);
           r = infer_client parse dump undef gen_ms g c
    in (infer_headless request \<longleftrightarrow> r = Left_open c1)
     \<and> (infer_mute g request \<longleftrightarrow> r = Died)
     \<and> (\<not> infer_headless request \<and> \<not> infer_mute g request \<longrightarrow>
          (\<exists>code b. r = Closed (send_once c1 code b) \<and> code \<in> {200, 400, 404, 500, 503}
             \<and> (code = 503 \<longrightarrow> is_pipeline g = None))))"
proof -
  let ?q = "c_string (string_of_bytes bs)"
  have r: "infer_client parse dump undef gen_ms g c
      = (case infer_route parse dump undef gen_ms g ?q of
           Reply code b \<Rightarrow> Closed (send_once c1 code b) | No_reply \<Rightarrow> Left_open c1 | Uncaught \<Rightarrow> Died)"
    using assms(2,3) by (simp add: infer_client_def)
  have "\<not> (infer_headless ?q \<and> infer_mute g ?q)" by (auto simp: infer_headless_def infer_mute_def)
  then consider "infer_headless ?q" "\<not> infer_mute g ?q" | "infer_mute g ?q" "\<not> infer_headless ?q"
    | "\<not> infer_headless ?q" "\<not> infer_mute g ?q" by blast
  then show ?thesis
  proof cases
    case 1
    then show ?thesis by (simp add: r infer_route_headless)
  next
    case 2
    then show ?thesis by (simp add: r infer_route_mute [OF assms(1)])
  next
    case 3
    from infer_route_replies [OF assms(1) this, of parse undef gen_ms]
    obtain code b where "infer_route parse dump undef gen_ms g ?q = Reply code b"
      "code \<in> {200, 400, 404, 500, 503}" "code = 503 \<longrightarrow> is_pipeline g = None" by blast
    then show ?thesis unfolding Let_def r using 3 by (intro conjI) (simp_all, blast)
  qed
qed

theorem infer_thread_ends_witness:
  "infer_client quoting_parse demo_dump (\<lambda>_. 0) (Fin 1)
     \<lparr>is_pipeline = None, is_model_label = ''m'', is_ready = False\<rparr>
     (fresh_conn (bytes_of_string ''POST /infer HTTP/1.1'') Peer_silent)
   = Left_open (fresh_conn [] Peer_silent)"
proof -
  let ?t = "''POST /infer HTTP/1.1''"
  have len: "length (bytes_of_string ?t) = 20" by simp
  have o: "os_recv (fresh_conn (bytes_of_string ?t) Peer_silent) 4095
      = Some (20, bytes_of_string ?t, fresh_conn [] Peer_silent)"
    using len by (simp add: os_recv_def deliver_def fresh_conn_def flip: length_greater_0_conv)
  have "infer_headless (c_string ?t)" by code_simp
  then show ?thesis
    using infer_thread_ends [where parse = quoting_parse and undef = "\<lambda>_. 0" and gen_ms = "Fin 1" and
      g = "\<lparr>is_pipeline = None, is_model_label = ''m'', is_ready = False\<rparr>", OF demo_dump_strict o]
    by (simp add: Let_def)
qed

section \<open>Requests in more than one piece\<close>

lemma send_once_full:
  assumes "c_wscript c = []" "length (raw_response code b) < 2 ^ 31"
  shows "c_out (send_once c code b) = c_out c @ bytes_of_string (raw_response code b)"
proof -
  have "sint (word_of_nat (length (raw_response code b)) :: u32) = int (length (raw_response code b))"
    using assms(2) by (subst sint_small_u32) (simp_all add: unat_of_nat)
  then show ?thesis using assms(1) by (simp add: send_once_def os_send_def Let_def)
qed

definition infer_text :: "string \<Rightarrow> string \<Rightarrow> string" where
  "infer_text rest body = ''POST /infer '' @ rest @ (crlf @ crlf) @ body"

lemma find_str_Cons:
  "find_str pat (c # s) = (if starts_with pat (c # s) then Some 0 else map_option Suc (find_str pat s))"
  by (subst find_str.simps) simp

lemma request_line_infer: "request_line (infer_text rest body) = (''POST'', ''/infer'')"
  by (simp add: request_line_def infer_text_def find_str_Cons find_from_def starts_with_def substr_def)

lemma c_string_id: "list_all (\<lambda>c. code_of c \<noteq> 0) s \<Longrightarrow> c_string s = s"
  by (simp add: c_string_def takeWhile_eq_all_conv list_all_iff)

lemma c_string_infer_text:
  "list_all (\<lambda>c. code_of c \<noteq> 0) rest \<Longrightarrow> list_all (\<lambda>c. code_of c \<noteq> 0) body \<Longrightarrow>
     c_string (infer_text rest body) = infer_text rest body"
  by (rule c_string_id) (simp add: infer_text_def crlf_def code_of_def)

lemma infer_route_text:
  assumes "find_str (crlf @ crlf) (infer_text rest body) = Some (length (''POST /infer '' @ rest))"
  shows "infer_route parse dump undef gen_ms g (infer_text rest body) =
    (case (case parse body of Inl ex \<Rightarrow> Inl (Some ex) | Inr j \<Rightarrow> handle_infer dump undef gen_ms g j) of
       Inr (code, b) \<Rightarrow> Reply code b
     | Inl _ \<Rightarrow> reply_or_die (infer_send_json dump 400 (infer_failed ''invalid JSON'')))"
proof -
  have "infer_text rest body = (''POST /infer '' @ rest @ crlf @ crlf) @ body"
    "length (''POST /infer '' @ rest) + 4 = length (''POST /infer '' @ rest @ crlf @ crlf)"
    by (simp_all add: infer_text_def crlf_def)
  then have "substr_end (infer_text rest body) (length (''POST /infer '' @ rest) + 4) = body"
    by (simp only: substr_end_def drop_length_append)
  then show ?thesis using assms by (simp add: infer_route_def request_line_infer)
qed

lemma infer_text_cut:
  assumes "find_str (crlf @ crlf) (infer_text rest body) = Some (length (''POST /infer '' @ rest))"
  shows "find_str (crlf @ crlf) (infer_text rest []) = Some (length (''POST /infer '' @ rest))"
proof -
  have t: "infer_text rest body = infer_text rest [] @ body" by (simp add: infer_text_def)
  show ?thesis
  proof (cases "find_str (crlf @ crlf) (infer_text rest [])")
    case (Some i)
    then show ?thesis using find_str_prefix [OF Some, of body] assms t by simp
  next
    case None
    have "starts_with (crlf @ crlf) (drop (length (''POST /infer '' @ rest)) (infer_text rest []))"
      by (simp add: infer_text_def starts_with_def)
    then show ?thesis using find_str_None [OF None, of "length (''POST /infer '' @ rest)"]
      by (simp add: infer_text_def)
  qed
qed

text \<open>
  Only the first piece of a request is read. A well-formed request of at most 4095 bytes whose
  JSON the handler answers with 200 gets this answer when it comes in one piece; the same bytes,
  delivered with the header first and the body in a second piece, get 400 \<open>invalid JSON\<close>, for any
  parser that rejects the empty text.
\<close>

lemma infer_needs_one_piece:
  assumes "dump_strict dump" "parse [] = Inl e" "parse body = Inr j"
    and "handle_infer dump undef gen_ms g j = Inr (200, b)"
    and "list_all (\<lambda>c. code_of c \<noteq> 0) rest" "list_all (\<lambda>c. code_of c \<noteq> 0) body"
    and "find_str (crlf @ crlf) (infer_text rest body) = Some (length (''POST /infer '' @ rest))"
    and "length (infer_text rest body) \<le> 4095" "body \<noteq> []"
    and "length (raw_response 200 b) < 2 ^ 31"
    and "\<And>b'. dump (infer_failed ''invalid JSON'') = Inr b' \<Longrightarrow> length (raw_response 400 b') < 2 ^ 31"
  shows "let whole = fresh_conn (bytes_of_string (infer_text rest body)) fin;
             pieces = whole\<lparr>c_rscript := [int (length (infer_text rest []))]\<rparr>
    in (\<exists>c'. infer_client parse dump undef gen_ms g whole = Closed c'
            \<and> string_of_bytes (c_out c') = raw_response 200 b)
     \<and> (\<exists>c' b'. infer_client parse dump undef gen_ms g pieces = Closed c'
            \<and> dump (infer_failed ''invalid JSON'') = Inr b'
            \<and> string_of_bytes (c_out c') = raw_response 400 b')"
proof -
  let ?t = "infer_text rest body" and ?h = "infer_text rest []"
  let ?w = "fresh_conn (bytes_of_string ?t) fin"
  have t: "?t = ?h @ body" by (simp add: infer_text_def)
  have hl: "length ?h \<le> 4095" "length ?h \<le> length ?t" "0 < length ?h" "?t \<noteq> []"
    using assms(8) t by (simp_all add: infer_text_def)
  have o1: "os_recv ?w 4095 = Some (int (length ?t), bytes_of_string ?t, ?w\<lparr>c_in := []\<rparr>)"
    using hl assms(8) by (simp add: os_recv_def deliver_def fresh_conn_def bytes_of_string_def)
  have o2: "os_recv (?w\<lparr>c_rscript := [int (length ?h)]\<rparr>) 4095
      = Some (int (length ?h), bytes_of_string ?h, ?w\<lparr>c_in := bytes_of_string body\<rparr>)"
    using hl t by (simp add: os_recv_def deliver_def fresh_conn_def bytes_of_string_def)
  have r1: "infer_route parse dump undef gen_ms g ?t = Reply 200 b"
    by (simp add: infer_route_text [OF assms(7)] assms(3,4))
  obtain b' where b': "infer_send_json dump 400 (infer_failed ''invalid JSON'') = Inr (400, b')"
    using infer_invalid_json [OF assms(1)] by blast
  have r2: "infer_route parse dump undef gen_ms g ?h = Reply 400 b'"
    by (simp add: infer_route_text [OF infer_text_cut [OF assms(7)]] assms(2) b' reply_or_die_def)
  have d: "dump (infer_failed ''invalid JSON'') = Inr b'"
    using b' by (auto simp: infer_send_json_def split: sum.splits)
  have out: "string_of_bytes (c_out (send_once (?w\<lparr>c_in := x\<rparr>) code bd)) = raw_response code bd"
    if "length (raw_response code bd) < 2 ^ 31" for x code bd
    using send_once_full [OF _ that, of "?w\<lparr>c_in := x\<rparr>"] by (simp add: fresh_conn_def)
  show ?thesis
    unfolding Let_def
    using hl o1 o2 r1 r2 d out [OF assms(10)] out [OF assms(11) [OF d]] c_string_infer_text [OF assms(5,6)]
      c_string_infer_text [OF assms(5), of "[]"]
    by (simp add: infer_client_def)
qed

definition demo_infer_body :: json where
  "demo_infer_body = JObject [(''prompt'', JString ''hi'')]"

definition demo_infer_parse :: "string \<Rightarrow> json result" where
  "demo_infer_parse s = (if s = ''x'' then Inr demo_infer_body else Inl (Json_error ''syntax error''))"

definition demo_infer_state :: infer_state where
  "demo_infer_state = \<lparr>is_pipeline = Some (\<lambda>prompt n t. Generated prompt),
     is_model_label = ''m'', is_ready = True\<rparr>"

lemma demo_infer_answer:
  "handle_infer demo_dump (\<lambda>_. 0) (Fin 1) demo_infer_state demo_infer_body = Inr (200, ''{}'')"
proof -
  have "texts_ok (object [(''status'', JString ''success''), (''model'', JString ''m''),
      (''raw_content'', JString ''hi''), (''inference_time_ms'', JFloat (Fin 1))])"
    by (subst texts_ok_object) (simp_all add: code_of_def)
  then show ?thesis
    by (simp add: handle_infer_def demo_infer_body_def demo_infer_state_def contains_def map_find_def
        value_or_def infer_generate_def infer_send_json_def demo_dump_def)
qed

lemma infer_needs_one_piece_witness:
  "let whole = fresh_conn (bytes_of_string (infer_text ''HTTP/1.1'' ''x'')) Peer_closed;
       pieces = whole\<lparr>c_rscript := [int (length (infer_text ''HTTP/1.1'' []))]\<rparr>
    in (\<exists>c'. infer_client demo_infer_parse demo_dump (\<lambda>_. 0) (Fin 1) demo_infer_state whole = Closed c'
            \<and> string_of_bytes (c_out c') = raw_response 200 ''{}'')
     \<and> (\<exists>c' b'. infer_client demo_infer_parse demo_dump (\<lambda>_. 0) (Fin 1) demo_infer_state pieces = Closed c'
            \<and> demo_dump (infer_failed ''invalid JSON'') = Inr b'
            \<and> string_of_bytes (c_out c') = raw_response 400 b')"
proof (rule infer_needs_one_piece [OF demo_dump_strict _ _ demo_infer_answer])
  show "demo_infer_parse [] = Inl (Json_error ''syntax error'')" "demo_infer_parse ''x'' = Inr demo_infer_body"
    by (simp_all add: demo_infer_parse_def)
  show "find_str (crlf @ crlf) (infer_text ''HTTP/1.1'' ''x'') = Some (length (''POST /infer '' @ ''HTTP/1.1''))"
    by code_simp
  have n: "show_int 200 = ''200''" "show_int 400 = ''400''" "show_nat (Suc (Suc 0)) = ''2''" by code_simp+
  show "length (raw_response 200 ''{}'') < 2 ^ 31"
    by (simp add: raw_response_def status_msg_def crlf_def n del: One_nat_def)
  show "length (raw_response 400 b') < 2 ^ 31" if "demo_dump (infer_failed ''invalid JSON'') = Inr b'" for b'
  proof -
    have "b' = ''{}''" using that by (simp add: demo_dump_def split: if_splits)
    then show ?thesis by (simp add: raw_response_def status_msg_def crlf_def n del: One_nat_def)
  qed
qed (simp_all add: code_of_def infer_text_def crlf_def)

end
