(* ===== verification/Pipeline_Plugin.thy ===== *)
theory Pipeline_Plugin
  imports Cpp_String
begin

text \<open>
  The loader of pipeline DLLs (\<open>liara-inference/common/pipeline_plugin.hpp\<close>, \<open>PipelinePlugin\<close>):
  loading with its failure paths, unloading, generation through a fixed buffer and the label. What
  Windows and the DLLs do is a parameter; the world counts the references to each module and
  holds the pipelines that exist. A call through a null pointer or into a module that is no longer
  loaded has no result (\<open>None\<close>).
\<close>

section \<open>The environment\<close>

text \<open>
  \<open>LoadLibraryA\<close> by path, the names a module exports, and the four functions of a module. \<open>create\<close>
  sees the pipelines that exist; \<open>generate\<close> returns its code and what it writes into the
  buffer.
\<close>

record plugin_env =
  pe_library :: "string \<Rightarrow> nat option"
  pe_exports :: "nat \<Rightarrow> string \<Rightarrow> bool"
  pe_create :: "nat \<Rightarrow> string \<Rightarrow> string \<Rightarrow> nat set \<Rightarrow> nat option"
  pe_generate :: "nat \<Rightarrow> nat option \<Rightarrow> string \<Rightarrow> u32 \<Rightarrow> int \<times> string"
  pe_label :: "nat \<Rightarrow> nat \<Rightarrow> string"

record world =
  w_refs :: "nat \<Rightarrow> nat"
  w_pipelines :: "nat set"

definition LoadLibrary :: "nat \<Rightarrow> world \<Rightarrow> world" where
  "LoadLibrary m w = w\<lparr>w_refs := (w_refs w)(m := w_refs w m + 1)\<rparr>"

definition FreeLibrary :: "nat \<Rightarrow> world \<Rightarrow> world" where
  "FreeLibrary m w = w\<lparr>w_refs := (w_refs w)(m := w_refs w m - 1)\<rparr>"

definition loaded :: "nat \<Rightarrow> world \<Rightarrow> bool" where "loaded m w = (w_refs w m > 0)"

section \<open>The plugin\<close>

text \<open>A function pointer is the module it points into.\<close>

record plugin =
  pp_dll :: "nat option"
  pp_handle :: "nat option"
  fn_create :: "nat option"
  fn_destroy :: "nat option"
  fn_generate :: "nat option"
  fn_label :: "nat option"

definition PipelinePlugin :: plugin where
  "PipelinePlugin = \<lparr>pp_dll = None, pp_handle = None, fn_create = None, fn_destroy = None,
     fn_generate = None, fn_label = None\<rparr>"

definition GetProcAddress :: "plugin_env \<Rightarrow> nat \<Rightarrow> string \<Rightarrow> nat option" where
  "GetProcAddress env m name = (if pe_exports env m name then Some m else None)"

definition plugin_load ::
  "plugin_env \<Rightarrow> string \<Rightarrow> string \<Rightarrow> string \<Rightarrow> world \<Rightarrow> plugin \<Rightarrow> bool \<times> world \<times> plugin" where
  "plugin_load env dll_path model_dir device w p =
     (let p = p\<lparr>pp_dll := pe_library env dll_path\<rparr> in
      case pp_dll p of
        None \<Rightarrow> (False, w, p)
      | Some m \<Rightarrow>
          let w = LoadLibrary m w;
              p = p\<lparr>fn_create := GetProcAddress env m ''liara_pipeline_create'',
                    fn_destroy := GetProcAddress env m ''liara_pipeline_destroy'',
                    fn_generate := GetProcAddress env m ''liara_pipeline_generate'',
                    fn_label := GetProcAddress env m ''liara_pipeline_label''\<rparr>
          in if fn_create p = None \<or> fn_destroy p = None \<or> fn_generate p = None \<or> fn_label p = None
             then (False, FreeLibrary m w, p\<lparr>pp_dll := None\<rparr>)
             else let p = p\<lparr>pp_handle := pe_create env m model_dir device (w_pipelines w)\<rparr> in
               (case pp_handle p of
                  None \<Rightarrow> (False, FreeLibrary m w, p\<lparr>pp_dll := None\<rparr>)
                | Some h \<Rightarrow> (True, w\<lparr>w_pipelines := insert h (w_pipelines w)\<rparr>, p)))"

definition unload_handle :: "world \<Rightarrow> plugin \<Rightarrow> (world \<times> plugin) option" where
  "unload_handle w p =
     (case (pp_handle p, fn_destroy p) of
        (Some h, Some m) \<Rightarrow>
          if loaded m w
          then Some (w\<lparr>w_pipelines := w_pipelines w - {h}\<rparr>, p\<lparr>pp_handle := None\<rparr>) else None
      | _ \<Rightarrow> Some (w, p))"

definition plugin_unload :: "world \<Rightarrow> plugin \<Rightarrow> (world \<times> plugin) option" where
  "plugin_unload w p =
     (case unload_handle w p of
        None \<Rightarrow> None
      | Some (w, p) \<Rightarrow>
          (case pp_dll p of
             None \<Rightarrow> Some (w, p)
           | Some m \<Rightarrow> Some (FreeLibrary m w, p\<lparr>pp_dll := None\<rparr>)))"

definition plugin_ready :: "plugin \<Rightarrow> bool" where "plugin_ready p = (pp_handle p \<noteq> None)"

text \<open>The buffer is full of zeros before the call; \<open>strlen\<close> ends at the first one, or at its end.\<close>

definition buffer_text :: "string \<Rightarrow> string" where
  "buffer_text written =
     takeWhile (\<lambda>c. code_of c \<noteq> 0)
       (take 65536 written @ replicate (65536 - length written) (char_of (0 :: nat)))"

definition plugin_generate ::
  "plugin_env \<Rightarrow> world \<Rightarrow> plugin \<Rightarrow> string \<Rightarrow> u32 \<Rightarrow> string result option" where
  "plugin_generate env w p prompt max_tokens =
     (case fn_generate p of
        None \<Rightarrow> None
      | Some m \<Rightarrow>
          if \<not> loaded m w then None
          else let (rc, written) = pe_generate env m (pp_handle p) prompt max_tokens in
            Some (if rc \<noteq> 0
                  then Inl (Runtime_error (''pipeline_generate failed (rc='' @ show_int rc @ '')''))
                  else Inr (buffer_text written)))"

definition plugin_label :: "plugin_env \<Rightarrow> world \<Rightarrow> plugin \<Rightarrow> string option" where
  "plugin_label env w p =
     (case (fn_label p, pp_handle p) of
        (Some m, Some h) \<Rightarrow> if loaded m w then Some (pe_label env m h) else None
      | _ \<Rightarrow> Some [])"

section \<open>Use with a load per unload\<close>

text \<open>The uses in which \<open>load\<close> is called only on a plugin that holds nothing.\<close>

inductive plugin_run :: "plugin_env \<Rightarrow> world \<Rightarrow> world \<Rightarrow> plugin \<Rightarrow> bool" for env w0 where
  run_fresh [intro]: "plugin_run env w0 w0 PipelinePlugin"
| run_load: "plugin_run env w0 w p \<Longrightarrow> pp_dll p = None \<Longrightarrow> pp_handle p = None \<Longrightarrow>
     plugin_load env dll_path model_dir device w p = (ok, w', p') \<Longrightarrow> plugin_run env w0 w' p'"
| run_unload: "plugin_run env w0 w p \<Longrightarrow> plugin_unload w p = Some (w', p') \<Longrightarrow> plugin_run env w0 w' p'"

definition holds_nothing :: "world \<Rightarrow> world \<Rightarrow> plugin \<Rightarrow> bool" where
  "holds_nothing w0 w p \<longleftrightarrow> w = w0 \<and> pp_dll p = None \<and> pp_handle p = None"

definition holds :: "world \<Rightarrow> nat \<Rightarrow> nat \<Rightarrow> world \<Rightarrow> plugin \<Rightarrow> bool" where
  "holds w0 m h w p \<longleftrightarrow>
     w = (LoadLibrary m w0)\<lparr>w_pipelines := insert h (w_pipelines w0)\<rparr> \<and> h \<notin> w_pipelines w0
     \<and> pp_dll p = Some m \<and> pp_handle p = Some h \<and> fn_destroy p = Some m
     \<and> fn_generate p = Some m \<and> fn_label p = Some m"

definition creates_fresh :: "plugin_env \<Rightarrow> bool" where
  "creates_fresh env \<longleftrightarrow> (\<forall>m dir dev hs h. pe_create env m dir dev hs = Some h \<longrightarrow> h \<notin> hs)"

lemma free_load [simp]: "FreeLibrary m (LoadLibrary m w) = w"
  by (simp add: FreeLibrary_def LoadLibrary_def)

lemma loaded_load [simp]: "loaded m (LoadLibrary m w)"
  by (simp add: loaded_def LoadLibrary_def)

lemma loaded_pipelines [simp]: "loaded m (w\<lparr>w_pipelines := hs\<rparr>) = loaded m w"
  by (simp add: loaded_def)

lemma holds_loaded: "holds w0 m h w p \<Longrightarrow> loaded m w"
  by (simp add: holds_def)

lemma load_holds:
  assumes "creates_fresh env" "holds_nothing w0 w p"
    and "plugin_load env dll_path model_dir device w p = (ok, w', p')"
  shows "if ok then \<exists>m h. holds w0 m h w' p' else holds_nothing w0 w' p'"
  using assms
  by (auto simp: plugin_load_def Let_def holds_def holds_nothing_def GetProcAddress_def
      creates_fresh_def LoadLibrary_def FreeLibrary_def split: option.splits if_splits)

lemma unload_holds:
  assumes "holds w0 m h w p"
  shows "\<exists>p'. plugin_unload w p = Some (w0, p') \<and> holds_nothing w0 w0 p'"
proof -
  have "FreeLibrary m ((LoadLibrary m w0)\<lparr>w_pipelines := w_pipelines w0\<rparr>) = w0"
    by (simp add: FreeLibrary_def LoadLibrary_def)
  then show ?thesis
    using assms by (simp add: plugin_unload_def unload_handle_def holds_def holds_nothing_def)
qed

lemma unload_nothing: "holds_nothing w0 w p \<Longrightarrow> plugin_unload w p = Some (w, p)"
  by (simp add: plugin_unload_def unload_handle_def holds_nothing_def)

lemma plugin_run_holds:
  assumes "plugin_run env w0 w p" "creates_fresh env"
  shows "holds_nothing w0 w p \<or> (\<exists>m h. holds w0 m h w p)"
  using assms
proof (induction rule: plugin_run.induct)
  case run_fresh
  then show ?case by (simp add: holds_nothing_def PipelinePlugin_def)
next
  case (run_load w p dll_path model_dir device ok w' p')
  then have "holds_nothing w0 w p" by (auto simp: holds_def holds_nothing_def)
  from load_holds [OF run_load.prems this run_load.hyps(4)] show ?case by (auto split: if_splits)
next
  case (run_unload w p w' p')
  then consider "holds_nothing w0 w p" | m h where "holds w0 m h w p" by blast
  then show ?case
  proof cases
    case 1
    then show ?thesis using unload_nothing run_unload.hyps(2) by fastforce
  next
    case 2
    then show ?thesis using unload_holds run_unload.hyps(2) by fastforce
  qed
qed

section \<open>The life cycle\<close>

lemma generate_holds: "holds w0 m h w p \<Longrightarrow> \<exists>r. plugin_generate env w p prompt n = Some r"
  using holds_loaded by (fastforce simp: plugin_generate_def holds_def split: prod.split)

lemma ready_holds: "holds w0 m h w p \<Longrightarrow> plugin_ready p" "holds_nothing w0 w p \<Longrightarrow> \<not> plugin_ready p"
  by (simp_all add: holds_def holds_nothing_def plugin_ready_def)

lemma reload_without_generate:
  assumes "holds w0 m h w p" "pe_library env path = Some m'"
    and "\<not> pe_exports env m' ''liara_pipeline_generate''"
  shows "\<exists>p'. plugin_load env path dir dev w p = (False, w, p') \<and> plugin_ready p'
    \<and> plugin_generate env w p' prompt n = None \<and> pp_dll p' = None"
  using assms
  by (simp add: plugin_load_def GetProcAddress_def Let_def holds_def plugin_ready_def
      plugin_generate_def)


definition demo_plugin_env :: plugin_env where
  "demo_plugin_env = \<lparr>pe_library = (\<lambda>path. if path = ''a.dll'' then Some 1 else Some 2),
     pe_exports = (\<lambda>m name. m = 1),
     pe_create = (\<lambda>m dir dev hs. if 7 \<in> hs then None else Some 7),
     pe_generate = (\<lambda>m h prompt n. (0, prompt)), pe_label = (\<lambda>m h. ''demo'')\<rparr>"

definition demo_world :: world where
  "demo_world = \<lparr>w_refs = (\<lambda>_. 0), w_pipelines = {}\<rparr>"


text \<open>What \<open>generate\<close> returns has no zero character and fits in the buffer.\<close>

lemma buffer_text_bound: "length (buffer_text s) \<le> 65536"
proof -
  have "length (buffer_text s) \<le> length (take 65536 s @ replicate (65536 - length s) (char_of (0 :: nat)))"
    unfolding buffer_text_def by (rule length_takeWhile_le)
  then show ?thesis by simp
qed

lemma buffer_text_exact:
  assumes "list_all (\<lambda>c. code_of c \<noteq> 0) s" "length s \<le> 65536"
  shows "buffer_text (s @ char_of (0 :: nat) # t) = s"
proof -
  have "takeWhile (\<lambda>c. code_of c \<noteq> 0) (s @ char_of (0 :: nat) # u) = s" for u
    using assms(1) by (simp add: list_all_iff takeWhile_append2)
  moreover have "takeWhile (\<lambda>c. code_of c \<noteq> 0) s = s"
    using assms(1) by (simp add: takeWhile_eq_all_conv list_all_iff)
  ultimately show ?thesis
    using assms(2) by (cases "65536 - length s") (simp_all add: buffer_text_def)
qed

end
