(* ===== verification/Glib.thy ===== *)
theory Glib
  imports Json_Value
begin

text \<open>
  What the C front ends use of GLib and json-glib: ASCII white space and stripping, comparison
  without case, splitting at a character, UTF-8 validation of C strings, \<open>strtol\<close> and the accessors
  of a JSON node, which return a default where the C++ library would throw.
\<close>

section \<open>Strings\<close>

text \<open>\<open>g_ascii_isspace\<close> does not count the vertical tab.\<close>

definition glib_space :: "char \<Rightarrow> bool" where
  "glib_space c = (let n = code_of c in n = 32 \<or> n = 9 \<or> n = 10 \<or> n = 12 \<or> n = 13)"

text \<open>\<open>g_strstrip\<close>.\<close>

definition strip :: "string \<Rightarrow> string" where
  "strip s = rev (dropWhile glib_space (rev (dropWhile glib_space s)))"

definition stripped :: "string \<Rightarrow> bool" where
  "stripped s \<longleftrightarrow> s = [] \<or> \<not> glib_space (hd s) \<and> \<not> glib_space (last s)"

text \<open>\<open>g_ascii_strcasecmp\<close> returning 0.\<close>

definition same_nocase :: "string \<Rightarrow> string \<Rightarrow> bool" where
  "same_nocase a b = (map tolower a = map tolower b)"

text \<open>\<open>g_ascii_strup\<close> on each character.\<close>

definition toupper :: "char \<Rightarrow> char" where
  "toupper c = (let n = code_of c in if 97 \<le> n \<and> n \<le> 122 then char_of (n - 32) else c)"

text \<open>\<open>isalnum\<close> in the "C" locale.\<close>

definition alnum :: "char \<Rightarrow> bool" where
  "alnum c = (let n = code_of c in
     (48 \<le> n \<and> n \<le> 57) \<or> (65 \<le> n \<and> n \<le> 90) \<or> (97 \<le> n \<and> n \<le> 122))"

text \<open>A C string that \<open>g_utf8_validate\<close> accepts at its full length.\<close>

definition c_utf8 :: "string \<Rightarrow> bool" where
  "c_utf8 s = (utf8_ok s \<and> list_all (\<lambda>c. code_of c \<noteq> 0) s)"

text \<open>\<open>g_strsplit\<close> at one character: always at least one part.\<close>

fun split_at :: "char \<Rightarrow> string \<Rightarrow> string list" where
  "split_at d [] = [[]]"
| "split_at d (c # s) =
     (if c = d then [] # split_at d s
      else case split_at d s of [] \<Rightarrow> [[c]] | p # ps \<Rightarrow> (c # p) # ps)"

text \<open>\<open>strtol\<close> to base 10: \<open>None\<close> when no digit is found, else the value, cut to the range of \<open>long\<close>.\<close>

definition strtol :: "int \<Rightarrow> string \<Rightarrow> int option" where
  "strtol long_max s =
     (case strto s of
        None \<Rightarrow> None
      | Some (neg, m) \<Rightarrow> Some (max (- long_max - 1) (min long_max (if neg then - int m else int m))))"

definition G_MAXINT :: int where "G_MAXINT = 2147483647"

section \<open>JSON nodes\<close>

text \<open>\<open>JSON_NODE_HOLDS_VALUE\<close>: neither null nor a container.\<close>

fun holds_value :: "json \<Rightarrow> bool" where
  "holds_value (JBool b) = True"
| "holds_value (JInt i) = True"
| "holds_value (JFloat x) = True"
| "holds_value (JString s) = True"
| "holds_value _ = False"

fun node_boolean :: "json \<Rightarrow> bool" where
  "node_boolean (JBool b) = b"
| "node_boolean (JInt i) = (i \<noteq> 0)"
| "node_boolean (JFloat x) = (x \<noteq> Fin 0)"
| "node_boolean _ = False"

text \<open>\<open>json_node_get_string\<close>: NULL for a value that is no string.\<close>

fun node_string :: "json \<Rightarrow> string option" where
  "node_string (JString s) = Some s"
| "node_string _ = None"

text \<open>\<open>json_node_get_int\<close>; \<open>conv\<close> is the conversion of a \<open>double\<close>.\<close>

fun node_int :: "(fp \<Rightarrow> int) \<Rightarrow> json \<Rightarrow> int" where
  "node_int conv (JInt i) = i"
| "node_int conv (JFloat x) = conv x"
| "node_int conv (JBool b) = (if b then 1 else 0)"
| "node_int conv _ = 0"

text \<open>
  The accessors of a member, which the callers use after \<open>json_object_has_member\<close>; what is not of the
  type asked for gives NULL, 0 or FALSE.
\<close>

definition string_member :: "json \<Rightarrow> string \<Rightarrow> string option" where
  "string_member obj key = (case member obj key of None \<Rightarrow> None | Some v \<Rightarrow> node_string v)"

definition int_member :: "(fp \<Rightarrow> int) \<Rightarrow> json \<Rightarrow> string \<Rightarrow> int" where
  "int_member conv obj key = (case member obj key of None \<Rightarrow> 0 | Some v \<Rightarrow> node_int conv v)"

definition boolean_member :: "json \<Rightarrow> string \<Rightarrow> bool" where
  "boolean_member obj key = (case member obj key of None \<Rightarrow> False | Some v \<Rightarrow> node_boolean v)"

definition object_member :: "json \<Rightarrow> string \<Rightarrow> json option" where
  "object_member obj key = (case member obj key of None \<Rightarrow> None | Some v \<Rightarrow> if is_object v then Some v else None)"

definition array_member :: "json \<Rightarrow> string \<Rightarrow> json list option" where
  "array_member obj key = (case member obj key of Some (JArray vs) \<Rightarrow> Some vs | _ \<Rightarrow> None)"

text \<open>\<open>s != NULL && s[0] != '\0'\<close>.\<close>

definition filled :: "string option \<Rightarrow> bool" where
  "filled s = (case s of None \<Rightarrow> False | Some t \<Rightarrow> t \<noteq> [])"

section \<open>Lemmas\<close>

lemma dropWhile_id: "xs = [] \<or> \<not> P (hd xs) \<Longrightarrow> dropWhile P xs = xs"
  by (cases xs) auto

lemma strip_stripped [simp]: "stripped s \<Longrightarrow> strip s = s"
  by (cases "s = []") (simp_all add: strip_def stripped_def dropWhile_id hd_rev)

lemma strip_space_left [simp]: "strip (CHR '' '' # s) = strip s"
  by (simp add: strip_def glib_space_def code_of_def)

lemma split_at_nonempty [simp]: "split_at d s \<noteq> []"
  by (induction s) (auto split: list.split)

lemma split_at_none: "d \<notin> set s \<Longrightarrow> split_at d s = [s]"
  by (induction s) auto

lemma split_at_line: "d \<notin> set s \<Longrightarrow> split_at d (s @ d # t) = s # split_at d t"
  by (induction s) auto

lemma split_at_lines:
  "list_all (\<lambda>l. d \<notin> set l) ls \<Longrightarrow> split_at d (concat (map (\<lambda>l. l @ [d]) ls)) = ls @ [[]]"
  by (induction ls) (auto simp: split_at_line)

lemma same_nocase_refl [simp]: "same_nocase s s"
  by (simp add: same_nocase_def)

end
