(* ===== verification/Formatted_Text.thy ===== *)
theory Formatted_Text
  imports Glib
begin

text \<open>
  The renderer of chat messages (\<open>frontend/WMTool-Liara/src/liara_formatted_text.c\<close>): fenced code
  blocks are cut out of a text. The text is a C string: a pointer into it is the rest of the
  text, and the empty rest is the terminator, which may be read. A pointer beyond it has no
  meaning; a function that comes to read through one returns \<open>None\<close>. Widgets are not modelled,
  only what is put into them.
\<close>

section \<open>The functions\<close>

definition fence :: string where "fence = replicate 3 (CHR 0x60)"

definition ident_char :: "char \<Rightarrow> bool" where
  "ident_char c = (alnum c \<or> c = CHR ''-'' \<or> c = CHR ''_'')"

text \<open>
  The language behind the backticks, and the offset of the code, which counts one more character
  whether there is one or not. With less than three backticks the offset is left alone
  (the callers initialise it with 0).
\<close>

definition extract_code_language :: "string \<Rightarrow> string option \<times> nat" where
  "extract_code_language text =
     (let ticks = length (takeWhile (\<lambda>c. c = CHR 0x60) text);
          lang = takeWhile ident_char (drop ticks text)
      in if ticks < 3 then (None, 0) else (Some lang, ticks + length lang + 1))"

text \<open>Leading and trailing newlines are taken off the code.\<close>

definition trim_newlines :: "string \<Rightarrow> string" where
  "trim_newlines code =
     (let trimmed = dropWhile (\<lambda>c. c = CHR 0x0A) code
      in rev (dropWhile (\<lambda>c. c = CHR 0x0A) (rev trimmed)))"

datatype block = Text string | Code "string option" string

definition block_label :: "string option \<Rightarrow> string" where
  "block_label language =
     (case language of
        None \<Rightarrow> ''{ code }''
      | Some l \<Rightarrow> if l = [] then ''{ code }'' else ''{ '' @ l @ '' }'')"

lemma find_fence_pos: "find_str fence s = Some k \<Longrightarrow> \<not> starts_with fence s \<Longrightarrow> 0 < k"
  using find_str_Some [of fence s k] by (cases k) auto

function create_formatted_text :: "string \<Rightarrow> block list option" where
  "create_formatted_text ptr =
     (if ptr = [] then Some []
      else if starts_with fence ptr then
        (let (language, code_offset) = extract_code_language ptr in
         if length ptr < code_offset then None
         else let ptr = drop code_offset ptr in
           (case find_str fence ptr of
              Some code_end \<Rightarrow>
                map_option ((#) (Code language (trim_newlines (take code_end ptr))))
                  (create_formatted_text (drop (code_end + 3) ptr))
            | None \<Rightarrow> if ptr = [] then None else create_formatted_text (tl ptr)))
      else
        (let next_fence = (case find_str fence ptr of None \<Rightarrow> length ptr | Some k \<Rightarrow> k) in
         map_option ((#) (Text (take next_fence ptr)))
           (create_formatted_text (drop next_fence ptr))))"
  by pat_completeness auto
termination
  by (relation "measure length") (auto simp: find_fence_pos split: option.split)

text \<open>The code segments only, as the parser that keeps them in a list finds them.\<close>

function parse_formatted_text :: "string \<Rightarrow> (string option \<times> string) list option" where
  "parse_formatted_text ptr =
     (if ptr = [] then Some []
      else if starts_with fence ptr then
        (let (language, code_offset) = extract_code_language ptr in
         if length ptr < code_offset then None
         else let ptr = drop code_offset ptr in
           (case find_str fence ptr of
              Some code_end \<Rightarrow>
                map_option ((#) (language, take code_end ptr))
                  (parse_formatted_text (drop (code_end + 3) ptr))
            | None \<Rightarrow> if ptr = [] then None else parse_formatted_text (tl ptr)))
      else parse_formatted_text (tl ptr))"
  by pat_completeness auto
termination
  by (relation "measure length") auto

declare create_formatted_text.simps [simp del] parse_formatted_text.simps [simp del]

section \<open>A renderer\<close>

fun render_block :: "block \<Rightarrow> string" where
  "render_block (Text t) = t"
| "render_block (Code language code) =
     fence @ (case language of None \<Rightarrow> [] | Some l \<Rightarrow> l) @ [CHR 0x0A] @ code @ fence"

definition render :: "block list \<Rightarrow> string" where "render bs = concat (map render_block bs)"

fun shown :: "block \<Rightarrow> block" where
  "shown (Text t) = Text t"
| "shown (Code language code) = Code language (trim_newlines code)"

text \<open>
  Texts without a backtick that do not follow each other, and code without a backtick under a
  name of identifier characters.
\<close>

fun is_text :: "block \<Rightarrow> bool" where
  "is_text (Text t) = True" | "is_text _ = False"

fun block_ok :: "block \<Rightarrow> bool" where
  "block_ok (Text t) = (t \<noteq> [] \<and> CHR 0x60 \<notin> set t)"
| "block_ok (Code (Some l) code) = (list_all ident_char l \<and> CHR 0x60 \<notin> set code)"
| "block_ok (Code None code) = False"

fun blocks_ok :: "block list \<Rightarrow> bool" where
  "blocks_ok [] = True"
| "blocks_ok (b # bs) =
     (block_ok b \<and> blocks_ok bs \<and> (is_text b \<longrightarrow> (case bs of [] \<Rightarrow> True | b' # _ \<Rightarrow> \<not> is_text b')))"

lemma ident_not_special [simp]:
  "\<not> ident_char (CHR 0x60)" "\<not> ident_char (CHR 0x0A)"
  by (simp_all add: ident_char_def alnum_def code_of_def)

lemma ident_no_tick: "list_all ident_char l \<Longrightarrow> CHR 0x60 \<notin> set l"
  by (auto simp: list_all_iff dest!: bspec)

lemma fence_not_nil [simp]: "fence \<noteq> []" "[] \<noteq> fence" "length fence = 3"
  by (simp_all add: fence_def)

lemma starts_with_fence [simp]: "starts_with fence (fence @ s)"
  by (simp add: starts_with_def)

lemma no_fence: "CHR 0x60 \<notin> set t \<Longrightarrow> t \<noteq> [] \<Longrightarrow> \<not> starts_with fence (t @ s)"
  by (cases t) (auto simp: starts_with_def fence_def numeral_3_eq_3)

lemma find_fence: "CHR 0x60 \<notin> set t \<Longrightarrow> find_str fence (t @ fence @ s) = Some (length t)"
proof (induction t)
  case Nil
  then show ?case by (simp add: find_str.simps)
next
  case (Cons c t)
  then show ?case using no_fence [of "c # t" "fence @ s"] by (simp add: find_str.simps)
qed

lemma find_no_fence: "CHR 0x60 \<notin> set t \<Longrightarrow> find_str fence t = None"
proof (induction t)
  case Nil
  then show ?case by (simp add: find_str.simps starts_with_def)
next
  case (Cons c t)
  then show ?case using no_fence [of "c # t" "[]"] by (simp add: find_str.simps)
qed

lemma language_of_fence:
  assumes "list_all ident_char l" "s = [] \<or> \<not> ident_char (hd s)" "s = [] \<or> hd s \<noteq> CHR 0x60 \<or> l \<noteq> []"
  shows "extract_code_language (fence @ l @ s) = (Some l, 4 + length l)"
proof -
  have "takeWhile (\<lambda>c. c = CHR 0x60) (l @ s) = []"
    using assms ident_not_special by (cases l; cases s) auto
  then have t: "takeWhile (\<lambda>c. c = CHR 0x60) (fence @ l @ s) = fence"
    by (simp add: fence_def takeWhile_append)
  have "takeWhile ident_char (l @ s) = l"
    using assms(1,2) by (cases s) (simp_all add: list_all_iff takeWhile_append2)
  then show ?thesis by (simp add: extract_code_language_def t Let_def)
qed

lemma create_text:
  assumes "CHR 0x60 \<notin> set t" "t \<noteq> []" "s = [] \<or> starts_with fence s"
  shows "create_formatted_text (t @ s) = map_option ((#) (Text t)) (create_formatted_text s)"
proof -
  have "(case find_str fence (t @ s) of None \<Rightarrow> length (t @ s) | Some k \<Rightarrow> k) = length t"
    using assms find_fence [OF assms(1)] find_no_fence [OF assms(1)] by (auto simp: starts_with_iff)
  then show ?thesis
    using assms(2) no_fence [OF assms(1,2), of s]
    by (subst create_formatted_text.simps) (simp add: Let_def)
qed

lemma create_code:
  assumes "list_all ident_char l" "CHR 0x60 \<notin> set code"
  shows "create_formatted_text (fence @ l @ [CHR 0x0A] @ code @ fence @ s)
    = map_option ((#) (Code (Some l) (trim_newlines code))) (create_formatted_text s)"
proof -
  define p where "p = fence @ l @ [CHR 0x0A] @ code @ fence @ s"
  have l: "extract_code_language p = (Some l, 4 + length l)"
    using language_of_fence [OF assms(1), of "[CHR 0x0A] @ code @ fence @ s"] by (simp add: p_def)
  have d: "drop (4 + length l) p = code @ fence @ s" by (simp add: p_def fence_def)
  have n: "p \<noteq> []" "starts_with fence p" "\<not> length p < 4 + length l" by (simp_all add: p_def)
  have "create_formatted_text p
      = map_option ((#) (Code (Some l) (trim_newlines code))) (create_formatted_text s)"
    by (subst create_formatted_text.simps) (simp add: n l d find_fence [OF assms(2)] Let_def)
  then show ?thesis by (simp only: p_def)
qed

lemma render_simps [simp]: "render [] = []" "render (b # bs) = render_block b @ render bs"
  by (simp_all add: render_def)

lemma render_starts:
  "blocks_ok bs \<Longrightarrow> bs \<noteq> [] \<Longrightarrow> \<not> is_text (hd bs) \<Longrightarrow> starts_with fence (render bs @ s)"
  by (cases bs; cases "hd bs") auto

lemma create_render:
  "blocks_ok bs \<Longrightarrow> s = [] \<or> starts_with fence s \<Longrightarrow>
     create_formatted_text (render bs @ s) = map_option ((@) (map shown bs)) (create_formatted_text s)"
proof (induction bs)
  case Nil
  then show ?case by (simp add: option.map_ident)
next
  case (Cons b bs)
  then have IH: "create_formatted_text (render bs @ s) = map_option ((@) (map shown bs)) (create_formatted_text s)"
    by simp
  show ?case
  proof (cases b)
    case (Text t)
    have "render bs @ s = [] \<or> starts_with fence (render bs @ s)"
      using Cons.prems Text render_starts [of bs s] by (cases bs) auto
    then show ?thesis
      using Cons.prems Text IH create_text [of t "render bs @ s"]
      by (simp add: option.map_comp comp_def)
  next
    case (Code lang code)
    then obtain l where "lang = Some l" "list_all ident_char l" "CHR 0x60 \<notin> set code"
      using Cons.prems by (cases lang) auto
    then show ?thesis
      using Code IH create_code [of l code "render bs @ s"] by (simp add: option.map_comp comp_def)
  qed
qed

lemma create_nil [simp]: "create_formatted_text [] = Some []"
  by (simp add: create_formatted_text.simps)

section \<open>The segment parser\<close>

fun code_blocks :: "block list \<Rightarrow> (string option \<times> string) list" where
  "code_blocks [] = []"
| "code_blocks (Text t # bs) = code_blocks bs"
| "code_blocks (Code l c # bs) = (l, c) # code_blocks bs"

lemma parse_skip:
  "CHR 0x60 \<notin> set t \<Longrightarrow> parse_formatted_text (t @ s) = parse_formatted_text s"
proof (induction t)
  case (Cons c t)
  then show ?case
    using no_fence [of "c # t" s] by (subst parse_formatted_text.simps) simp
qed simp

lemma parse_nil [simp]: "parse_formatted_text [] = Some []"
  by (simp add: parse_formatted_text.simps)

lemma parse_to_fence:
  "\<forall>j < k. \<not> starts_with fence (drop j s) \<Longrightarrow> k \<le> length s \<Longrightarrow>
     parse_formatted_text s = parse_formatted_text (drop k s)"
proof (induction k arbitrary: s)
  case (Suc k)
  then obtain c t where s: "s = c # t" by (cases s) auto
  have "\<not> starts_with fence s" using Suc.prems(1) by force
  moreover have "parse_formatted_text t = parse_formatted_text (drop k t)"
    using Suc.prems s by (intro Suc.IH) auto
  ultimately show ?case using s by (subst parse_formatted_text.simps) simp
qed simp

text \<open>Both functions find the same code, up to the newlines the renderer trims.\<close>

lemma parse_create:
  "map_option (map (map_prod id trim_newlines)) (parse_formatted_text s)
     = map_option code_blocks (create_formatted_text s)"
proof (induction s rule: create_formatted_text.induct)
  case (1 s)
  obtain lang off where l: "extract_code_language s = (lang, off)" by fastforce
  define k where "k = (case find_str fence s of None \<Rightarrow> length s | Some k \<Rightarrow> k)"
  note unfold = parse_formatted_text.simps [of s] create_formatted_text.simps [of s]
  consider "s = []" | "s \<noteq> []" "starts_with fence s" | "s \<noteq> []" "\<not> starts_with fence s" by blast
  then show ?case
  proof cases
    case 1
    then show ?thesis by simp
  next
    case 2
    note IH = "1.IH"(1,2) [OF 2 refl l [symmetric] _ refl]
    show ?thesis
    proof (cases "length s < off")
      case True
      then show ?thesis using 2 by (simp add: unfold l)
    next
      case False
      show ?thesis
      proof (cases "find_str fence (drop off s)")
        case None
        show ?thesis
        proof (cases "drop off s = []")
          case True
          then show ?thesis using 2 False None by (simp add: unfold l Let_def)
        next
          case ne: False
          from IH(1) [OF False None ne] show ?thesis
            using 2 False None ne by (simp only: unfold l Let_def if_False if_True prod.case option.case)
        qed
      next
        case (Some e)
        from IH(2) [OF False Some] Some show ?thesis
          using 2 False
          by (cases "parse_formatted_text (drop (e + 3) (drop off s))";
              cases "create_formatted_text (drop (e + 3) (drop off s))") (simp_all add: unfold l Let_def)
      qed
    qed
  next
    case 3
    have k: "k \<le> length s" "\<forall>j < k. \<not> starts_with fence (drop j s)"
      using find_str_Some [of fence s] find_str_None [of fence s]
      by (auto simp: k_def split: option.splits)
    have "map_option (map (map_prod id trim_newlines)) (parse_formatted_text (drop k s))
        = map_option code_blocks (create_formatted_text (drop k s))"
      using "1.IH"(3) [OF 3 k_def] .
    then show ?thesis
      using 3 parse_to_fence [OF k(2,1)]
      by (cases "parse_formatted_text (drop k s)"; cases "create_formatted_text (drop k s)")
        (simp_all add: create_formatted_text.simps [of s] Let_def id_def flip: k_def)
  qed
qed


definition demo_blocks :: "block list" where
  "demo_blocks = [Text ''see'', Code (Some ''c'') ''int x;'', Code (Some []) []]"


lemma create_unterminated:
  assumes "list_all ident_char l" "CHR 0x60 \<notin> set code"
  shows "create_formatted_text (fence @ l) = None"
    and "c \<noteq> CHR 0x60 \<Longrightarrow> \<not> ident_char c \<Longrightarrow> create_formatted_text (fence @ l @ [c]) = None"
    and "code \<noteq> [] \<Longrightarrow> create_formatted_text (fence @ l @ [CHR 0x0A] @ code)
           = Some (if tl code = [] then [] else [Text (tl code)])"
proof -
  have "extract_code_language (fence @ l) = (Some l, 4 + length l)"
    using language_of_fence [OF assms(1), of "[]"] by simp
  then show "create_formatted_text (fence @ l) = None"
    by (subst create_formatted_text.simps) (use starts_with_fence [of l] in \<open>simp del: starts_with_fence\<close>)
next
  assume c: "c \<noteq> CHR 0x60" "\<not> ident_char c"
  have "extract_code_language (fence @ l @ [c]) = (Some l, 4 + length l)"
    using language_of_fence [OF assms(1), of "[c]"] c by simp
  then show "create_formatted_text (fence @ l @ [c]) = None"
    using find_no_fence [of "[]"] by (subst create_formatted_text.simps) (simp add: Let_def)
next
  assume ne: "code \<noteq> []"
  define p where "p = fence @ l @ [CHR 0x0A] @ code"
  have l: "extract_code_language p = (Some l, 4 + length l)"
    using language_of_fence [OF assms(1), of "[CHR 0x0A] @ code"] by (simp add: p_def)
  have d: "drop (4 + length l) p = code" "p \<noteq> []" "starts_with fence p" "\<not> length p < 4 + length l"
    by (simp_all add: p_def fence_def starts_with_def)
  have t: "CHR 0x60 \<notin> set (tl code)" using assms(2) by (cases code) auto
  have "create_formatted_text p = create_formatted_text (tl code)"
    using ne by (subst create_formatted_text.simps) (simp add: l d find_no_fence [OF assms(2)] Let_def)
  also have "\<dots> = Some (if tl code = [] then [] else [Text (tl code)])"
    using create_text [OF t, of "[]"] by simp
  finally show "create_formatted_text (fence @ l @ [CHR 0x0A] @ code)
      = Some (if tl code = [] then [] else [Text (tl code)])" by (simp add: p_def)
qed

text \<open>
  What an open code block at the end of a message does, as every streamed answer has for a
  while. When the text ends with the fence and its language, or with one more character behind
  it, the renderer reads beyond the end of the string; with more code behind the line it shows
  the code as plain text and loses the fence, the language and the first character of the code.
\<close>

lemma unterminated_fence:
  assumes "blocks_ok bs" "list_all ident_char l" "CHR 0x60 \<notin> set code" "code \<noteq> []"
  shows "create_formatted_text (render bs @ fence @ l) = None
    \<and> create_formatted_text (render bs @ fence @ l @ [CHR 0x0A]) = None
    \<and> create_formatted_text (render bs @ fence @ l @ [CHR 0x0A] @ code)
        = Some (map shown bs @ (if tl code = [] then [] else [Text (tl code)]))"
  using create_render [OF assms(1)] create_unterminated [OF assms(2,3)] assms(4) by simp

lemma unterminated_fence_witness:
  "create_formatted_text (''see'' @ fence @ ''python'') = None
   \<and> create_formatted_text (''see'' @ fence @ ''python'' @ [CHR 0x0A] @ ''x = 1'') = Some [Text ''see'', Text '' = 1'']"
proof -
  have "blocks_ok [Text ''see'']" "list_all ident_char ''python''" by code_simp+
  from unterminated_fence [OF this, of "''x = 1''"] show ?thesis by simp
qed

end
