(* ===== verification/Chat_Payload.thy ===== *)
theory Chat_Payload
  imports Formatted_Text
begin

text \<open>
  What the chat client makes of the document that answers a chat request
  (\<open>frontend/WMTool-Liara/src/liara_window.c\<close>): the response text, the pictures that come with it and
  the line of chips below the message. The JSON parser, the file system and the environment are parameters.
\<close>

section \<open>The response\<close>

text \<open>
  The document of a payload, if it is an object. \<open>parse\<close> is \<open>json_parser_load_from_data\<close>.
\<close>

definition payload_object :: "(string \<Rightarrow> json result) \<Rightarrow> string option \<Rightarrow> json option" where
  "payload_object parse payload =
     (case payload of
        None \<Rightarrow> None
      | Some text \<Rightarrow> (case parse text of Inl _ \<Rightarrow> None | Inr doc \<Rightarrow> if is_object doc then Some doc else None))"

text \<open>The copy of a NULL string is NULL: a response that is no string gives \<open>None\<close>.\<close>

definition extract_response_from_chat_payload :: "(string \<Rightarrow> json result) \<Rightarrow> string option \<Rightarrow> string option" where
  "extract_response_from_chat_payload parse payload =
     (case payload_object parse payload of
        None \<Rightarrow> Some []
      | Some doc \<Rightarrow> if contains doc ''response'' then string_member doc ''response'' else Some [])"

section \<open>Pictures\<close>

record host =
  h_is_absolute :: "string \<Rightarrow> bool"
  h_is_regular :: "string \<Rightarrow> bool"
  h_getenv :: "string \<Rightarrow> string option"
  h_cwd :: string
  h_build_filename :: "string list \<Rightarrow> string"

datatype artifact = Picture string string | Link string string | Unavailable string

definition build_artifact_local_path :: "host \<Rightarrow> json \<Rightarrow> string option" where
  "build_artifact_local_path h artifact =
     (case object_member artifact ''metadata'' of
        None \<Rightarrow> None
      | Some metadata \<Rightarrow>
          (case string_member metadata ''stored_path'' of
             None \<Rightarrow> None
           | Some stored_path \<Rightarrow>
               if stored_path = [] then None
               else if h_is_absolute h stored_path then Some stored_path
               else let env = h_getenv h ''LIARA_READ_ROOT'';
                        root_env = (if filled env then the env else h_cwd h)
                    in Some (h_build_filename h [root_env, stored_path])))"

definition build_artifact_uri :: "string option \<Rightarrow> string option \<Rightarrow> string option" where
  "build_artifact_uri base_url url =
     (case url of
        None \<Rightarrow> None
      | Some u \<Rightarrow>
          if u = [] then None
          else if starts_with ''http://'' u \<or> starts_with ''https://'' u then Some u
          else if filled base_url then Some (the base_url @ u) else Some u)"

definition render_artifact :: "host \<Rightarrow> string option \<Rightarrow> json \<Rightarrow> artifact list" where
  "render_artifact h base_url artifact =
     (if \<not> is_object artifact then []
      else if string_member artifact ''kind'' \<noteq> Some ''image'' then []
      else let title = (if contains artifact ''title'' then string_member artifact ''title'' else Some ''Chart'');
               title = (if filled title then the title else ''Chart'');
               url = string_member artifact ''url''
        in case build_artifact_local_path h artifact of
             Some local_path \<Rightarrow>
               if h_is_regular h local_path then [Picture title local_path]
               else [case build_artifact_uri base_url url of Some uri \<Rightarrow> Link title uri | None \<Rightarrow> Unavailable title]
           | None \<Rightarrow> [case build_artifact_uri base_url url of Some uri \<Rightarrow> Link title uri | None \<Rightarrow> Unavailable title])"

definition render_artifacts_from_chat_payload ::
  "(string \<Rightarrow> json result) \<Rightarrow> host \<Rightarrow> string option \<Rightarrow> string option \<Rightarrow> artifact list" where
  "render_artifacts_from_chat_payload parse h base_url payload =
     (case payload_object parse payload of
        None \<Rightarrow> []
      | Some doc \<Rightarrow>
          (case array_member doc ''artifacts'' of
             None \<Rightarrow> []
           | Some artifacts \<Rightarrow> concat (map (render_artifact h base_url) artifacts)))"

section \<open>Chips\<close>

text \<open>\<open>append_metadata_chip\<close> drops empty texts; the two emblems are UTF-8.\<close>

definition append_metadata_chip :: "string list \<Rightarrow> string option \<Rightarrow> string list" where
  "append_metadata_chip chips text = (if filled text then chips @ [the text] else chips)"

definition sparkles :: string where "sparkles = [CHR 0xE2, CHR 0x9C, CHR 0xA8]"

definition clipboard :: string where "clipboard = [CHR 0xF0, CHR 0x9F, CHR 0x93, CHR 0x8B]"

definition context_mode :: "json \<Rightarrow> string option" where
  "context_mode doc =
     (case object_member doc ''metadata'' of
        None \<Rightarrow> None
      | Some metadata \<Rightarrow>
          (case object_member metadata ''context_debug'' of
             None \<Rightarrow> None
           | Some context_debug \<Rightarrow> string_member context_debug ''mode''))"

definition or_unknown :: "string option \<Rightarrow> string" where
  "or_unknown s = (if filled s then the s else ''unknown'')"

definition duration_or :: "(fp \<Rightarrow> int) \<Rightarrow> json \<Rightarrow> string \<Rightarrow> int" where
  "duration_or conv doc key = (if contains doc key then int_member conv doc key else - 1)"

definition tool_chips :: "json list \<Rightarrow> string list" where
  "tool_chips tools =
     foldl append_metadata_chip
       [show_nat (length tools) @ '' tool'' @ (if length tools = 1 then [] else ''s'')]
       (map node_string (take 3 tools))"

definition render_assistant_metadata ::
  "(string \<Rightarrow> json result) \<Rightarrow> (fp \<Rightarrow> int) \<Rightarrow> string option \<Rightarrow> string list" where
  "render_assistant_metadata parse conv final_payload =
     (case payload_object parse final_payload of
        None \<Rightarrow> []
      | Some doc \<Rightarrow>
          let mode = context_mode doc;
              provider = string_member doc ''llm_provider'';
              model = string_member doc ''llm_model'';
              run_id = string_member doc ''run_id'';
              ttft_ms = duration_or conv doc ''ttft_ms'';
              gen_ms = duration_or conv doc ''gen_ms'';
              chips = (if filled mode then
                         (if mode = Some ''MEMORY'' then [sparkles @ '' Memory'']
                          else [clipboard @ '' '' @ the mode])
                       else []);
              chips = (if filled provider \<or> filled model
                       then append_metadata_chip chips (Some (or_unknown provider @ '' / '' @ or_unknown model))
                       else chips);
              chips = (if filled run_id then append_metadata_chip chips (Some (''run '' @ the run_id)) else chips);
              chips = (if ttft_ms \<ge> 0
                       then append_metadata_chip chips (Some (''TTFT '' @ show_int ttft_ms @ '' ms'')) else chips);
              chips = (if gen_ms \<ge> 0
                       then append_metadata_chip chips (Some (''GEN '' @ show_int gen_ms @ '' ms'')) else chips);
              chips = (if contains doc ''validation_passed''
                       then append_metadata_chip chips
                              (Some (if boolean_member doc ''validation_passed'' then ''Validation passed''
                                     else ''Validation failed''))
                       else chips)
          in case array_member doc ''tools_used'' of
               None \<Rightarrow> chips
             | Some tools \<Rightarrow> chips @ tool_chips tools)"

end
