(* ===== verification/Stream_Client.thy ===== *)
theory Stream_Client
  imports Glib
begin

text \<open>
  The streaming client of the chat front end (\<open>frontend/WMTool-Liara/src/liara_api.c\<close>,
  \<open>stream_request_thread\<close> and its dispatch functions): it reads server-sent events line by line and
  hands them to callbacks. The input is what the server sends and how the connection ends; the
  JSON parser is a parameter, whose values hold no zero characters.
\<close>

section \<open>Reading lines\<close>

text \<open>
  \<open>g_data_input_stream_read_line_utf8\<close> ends lines at a line feed; the last line may lack it when the
  stream ends, but not when it breaks.
\<close>

datatype line_read = Line string | Line_end | Line_error

definition utf8_line :: "string \<Rightarrow> line_read" where
  "utf8_line l = (if c_utf8 l then Line l else Line_error)"

definition read_line :: "bool \<Rightarrow> string \<Rightarrow> line_read \<times> string" where
  "read_line ends data =
     (let l = takeWhile (\<lambda>c. c \<noteq> CHR 0x0A) data in
      if CHR 0x0A \<in> set data then (utf8_line l, drop (Suc (length l)) data)
      else if \<not> ends then (Line_error, [])
      else if data = [] then (Line_end, [])
      else (utf8_line data, []))"

section \<open>Callbacks\<close>

datatype stream_event =
    On_chunk string
  | On_progress string
  | On_heartbeat string
  | On_complete "string option" bool   \<comment> \<open>the final payload, and whether an error is given\<close>

text \<open>Which callbacks are not NULL.\<close>

record callbacks =
  chunk_callback :: bool
  progress_callback :: bool
  heartbeat_callback :: bool
  complete_callback :: bool

definition dispatch_stream_chunk :: "callbacks \<Rightarrow> string \<Rightarrow> stream_event list" where
  "dispatch_stream_chunk cb text = (if chunk_callback cb then [On_chunk text] else [])"

definition dispatch_stream_progress :: "callbacks \<Rightarrow> string \<Rightarrow> stream_event list" where
  "dispatch_stream_progress cb payload = (if progress_callback cb then [On_progress payload] else [])"

definition dispatch_stream_heartbeat :: "callbacks \<Rightarrow> string \<Rightarrow> stream_event list" where
  "dispatch_stream_heartbeat cb payload = (if heartbeat_callback cb then [On_heartbeat payload] else [])"

definition dispatch_stream_complete :: "callbacks \<Rightarrow> string option \<Rightarrow> bool \<Rightarrow> stream_event list" where
  "dispatch_stream_complete cb final failed =
     (if complete_callback cb then [On_complete final failed] else [])"

text \<open>The member \<open>text\<close> of an object; anything else is the empty text.\<close>

definition extract_chunk_text :: "(string \<Rightarrow> json result) \<Rightarrow> string \<Rightarrow> string" where
  "extract_chunk_text parse json_text =
     (case parse json_text of
        Inl _ \<Rightarrow> []
      | Inr doc \<Rightarrow>
          (case member doc ''text'' of
             None \<Rightarrow> []
           | Some v \<Rightarrow> (case node_string v of None \<Rightarrow> [] | Some s \<Rightarrow> s)))"

section \<open>The loop\<close>

text \<open>
  One line that is not empty: the callbacks it causes, the current event, the final payload,
  and whether the loop ends.
\<close>

definition sse_line ::
  "callbacks \<Rightarrow> (string \<Rightarrow> json result) \<Rightarrow> string option \<Rightarrow> string option \<Rightarrow> string
     \<Rightarrow> stream_event list \<times> string option \<times> string option \<times> bool" where
  "sse_line cb parse current_event final line =
     (if starts_with ''event:'' line then ([], Some (strip (drop 6 line)), final, False)
      else if \<not> starts_with ''data:'' line then ([], current_event, final, False)
      else let payload = strip (drop 5 line) in
        if current_event = Some ''chunk''
        then (dispatch_stream_chunk cb (extract_chunk_text parse payload), current_event, final, False)
        else if current_event = Some ''progress''
        then (dispatch_stream_progress cb payload, current_event, final, False)
        else if current_event = Some ''heartbeat''
        then (dispatch_stream_heartbeat cb payload, current_event, final, False)
        else if current_event = Some ''final'' then ([], current_event, Some payload, False)
        else if current_event = Some ''done'' then ([], current_event, final, True)
        else ([], current_event, final, False))"

lemma read_line_shorter:
  "read_line ends data = (Line l, rest) \<Longrightarrow> length rest < length data"
  by (auto simp: read_line_def Let_def split: if_splits)
    (metis length_greater_0_conv list.set(1) empty_iff diff_less zero_less_Suc)

function sse_loop ::
  "callbacks \<Rightarrow> (string \<Rightarrow> json result) \<Rightarrow> bool \<Rightarrow> string \<Rightarrow> string option \<Rightarrow> string option
     \<Rightarrow> stream_event list" where
  "sse_loop cb parse ends data current_event final =
     (case read_line ends data of
        (Line_error, _) \<Rightarrow> dispatch_stream_complete cb final True
      | (Line_end, _) \<Rightarrow> dispatch_stream_complete cb final False
      | (Line line, rest) \<Rightarrow>
          if line = [] then sse_loop cb parse ends rest current_event final
          else (case sse_line cb parse current_event final line of
                  (out, current_event, final, stop) \<Rightarrow>
                    out @ (if stop then dispatch_stream_complete cb final False
                           else sse_loop cb parse ends rest current_event final)))"
  by pat_completeness auto
termination
  by (relation "measure (\<lambda>(cb, parse, ends, data, ev, final). length data)")
    (auto dest!: read_line_shorter [OF sym])

declare sse_loop.simps [simp del]

text \<open>The thread: \<open>None\<close> is a request that could not be sent.\<close>

definition stream_request_thread ::
  "callbacks \<Rightarrow> (string \<Rightarrow> json result) \<Rightarrow> (bool \<times> string) option \<Rightarrow> stream_event list" where
  "stream_request_thread cb parse response =
     (case response of
        None \<Rightarrow> dispatch_stream_complete cb None True
      | Some (ends, data) \<Rightarrow> sse_loop cb parse ends data None None)"

section \<open>A transcript\<close>

datatype item = Chunk_item string | Progress_item string | Heartbeat_item string

definition nl :: string where "nl = [CHR 0x0A]"

text \<open>An event as the server writes it: two lines and an empty one.\<close>

definition render_event :: "string \<Rightarrow> string \<Rightarrow> string" where
  "render_event name payload = ''event: '' @ name @ nl @ ''data: '' @ payload @ nl @ nl"

fun render_item :: "item \<Rightarrow> string" where
  "render_item (Chunk_item p) = render_event ''chunk'' p"
| "render_item (Progress_item p) = render_event ''progress'' p"
| "render_item (Heartbeat_item p) = render_event ''heartbeat'' p"

fun item_event :: "(string \<Rightarrow> json result) \<Rightarrow> item \<Rightarrow> stream_event" where
  "item_event parse (Chunk_item p) = On_chunk (extract_chunk_text parse p)"
| "item_event parse (Progress_item p) = On_progress p"
| "item_event parse (Heartbeat_item p) = On_heartbeat p"

fun item_payload :: "item \<Rightarrow> string" where
  "item_payload (Chunk_item p) = p"
| "item_payload (Progress_item p) = p"
| "item_payload (Heartbeat_item p) = p"

definition payload_ok :: "string \<Rightarrow> bool" where
  "payload_ok p \<longleftrightarrow> CHR 0x0A \<notin> set p \<and> stripped p \<and> c_utf8 p"

definition all_callbacks :: callbacks where
  "all_callbacks = \<lparr>chunk_callback = True, progress_callback = True, heartbeat_callback = True,
     complete_callback = True\<rparr>"

lemma read_line_nl:
  assumes "CHR 0x0A \<notin> set l"
  shows "read_line ends (l @ CHR 0x0A # t) = (utf8_line l, t)"
proof -
  have "takeWhile (\<lambda>c. c \<noteq> CHR 0x0A) (l @ CHR 0x0A # t) = l" using assms by (induction l) auto
  then show ?thesis by (simp add: read_line_def)
qed

lemma c_utf8_append: "c_utf8 a \<Longrightarrow> c_utf8 b \<Longrightarrow> c_utf8 (a @ b)"
  by (simp add: c_utf8_def utf8_ok_append)

lemma c_utf8_ascii: "list_all (\<lambda>c. 0 < code_of c \<and> code_of c < 128) s \<Longrightarrow> c_utf8 s"
  unfolding c_utf8_def by (auto intro: utf8_ascii simp: list_all_iff)

lemma c_utf8_labels [simp]: "c_utf8 ''event: ''" "c_utf8 ''data: ''" "c_utf8 []"
  by (rule c_utf8_ascii; simp add: code_of_def)+

lemma strip_payload: "payload_ok p \<Longrightarrow> strip p = p"
  by (simp add: payload_ok_def)

lemma sse_line_event:
  "payload_ok name \<Longrightarrow> sse_line cb parse ev final (''event: '' @ name) = ([], Some name, final, False)"
  by (simp add: sse_line_def starts_with_def strip_payload)

lemma sse_line_data:
  assumes "payload_ok p"
  shows "sse_line cb parse (Some ''chunk'') final (''data: '' @ p)
      = (dispatch_stream_chunk cb (extract_chunk_text parse p), Some ''chunk'', final, False)"
    and "sse_line cb parse (Some ''progress'') final (''data: '' @ p)
      = (dispatch_stream_progress cb p, Some ''progress'', final, False)"
    and "sse_line cb parse (Some ''heartbeat'') final (''data: '' @ p)
      = (dispatch_stream_heartbeat cb p, Some ''heartbeat'', final, False)"
    and "sse_line cb parse (Some ''final'') final (''data: '' @ p) = ([], Some ''final'', Some p, False)"
    and "sse_line cb parse (Some ''done'') final (''data: '' @ p) = ([], Some ''done'', final, True)"
  using assms by (simp_all add: sse_line_def starts_with_def strip_payload)

lemma loop_line:
  assumes "c_utf8 l" "CHR 0x0A \<notin> set l" "l \<noteq> []"
    and "sse_line cb parse ev final l = (out, ev', final', stop)"
  shows "sse_loop cb parse ends (l @ CHR 0x0A # t) ev final
    = out @ (if stop then dispatch_stream_complete cb final' False
             else sse_loop cb parse ends t ev' final')"
  using assms by (subst sse_loop.simps) (simp add: read_line_nl utf8_line_def)

lemma loop_empty_line:
  "sse_loop cb parse ends (CHR 0x0A # t) ev final = sse_loop cb parse ends t ev final"
  using read_line_nl [of "[]"] by (subst sse_loop.simps) (simp add: utf8_line_def)

lemma label_ok:
  assumes "payload_ok p"
  shows "c_utf8 (''event: '' @ p)" "c_utf8 (''data: '' @ p)"
    "CHR 0x0A \<notin> set (''event: '' @ p)" "CHR 0x0A \<notin> set (''data: '' @ p)"
  using assms c_utf8_append [OF c_utf8_labels(1), of p] c_utf8_append [OF c_utf8_labels(2), of p]
  by (simp_all add: payload_ok_def)

lemma loop_event:
  assumes "payload_ok name" "payload_ok p"
    and "sse_line cb parse (Some name) final (''data: '' @ p) = (out, ev, final', stop)"
  shows "sse_loop cb parse ends (render_event name p @ t) ev0 final
    = out @ (if stop then dispatch_stream_complete cb final' False
             else sse_loop cb parse ends t ev final')"
proof -
  have e: "sse_loop cb parse ends ((''event: '' @ name) @ CHR 0x0A # u) ev0 final
      = sse_loop cb parse ends u (Some name) final" for u
    using loop_line [OF label_ok(1,3) [OF assms(1)] _ sse_line_event [OF assms(1)]] by simp
  have d: "sse_loop cb parse ends ((''data: '' @ p) @ CHR 0x0A # u) (Some name) final
      = out @ (if stop then dispatch_stream_complete cb final' False
               else sse_loop cb parse ends u ev final')" for u
    using loop_line [OF label_ok(2,4) [OF assms(2)] _ assms(3)] by simp
  show ?thesis using e [of "(''data: '' @ p) @ CHR 0x0A # CHR 0x0A # t"] d [of "CHR 0x0A # t"]
    by (simp add: render_event_def nl_def loop_empty_line)
qed

lemma names_ok [simp]:
  "payload_ok ''chunk''" "payload_ok ''progress''" "payload_ok ''heartbeat''" "payload_ok ''final''"
  "payload_ok ''done''"
  by (simp_all add: payload_ok_def stripped_def glib_space_def code_of_def c_utf8_ascii)

lemma loop_item:
  assumes "payload_ok (item_payload i)"
  shows "\<exists>ev'. sse_loop all_callbacks parse ends (render_item i @ t) ev final
    = item_event parse i # sse_loop all_callbacks parse ends t ev' final"
proof (cases i)
  case (Chunk_item p)
  then have "payload_ok p" using assms by simp
  from loop_event [OF names_ok(1) this sse_line_data(1) [OF this]] Chunk_item
  show ?thesis by (auto simp: dispatch_stream_chunk_def all_callbacks_def)
next
  case (Progress_item p)
  then have "payload_ok p" using assms by simp
  from loop_event [OF names_ok(2) this sse_line_data(2) [OF this]] Progress_item
  show ?thesis by (auto simp: dispatch_stream_progress_def all_callbacks_def)
next
  case (Heartbeat_item p)
  then have "payload_ok p" using assms by simp
  from loop_event [OF names_ok(3) this sse_line_data(3) [OF this]] Heartbeat_item
  show ?thesis by (auto simp: dispatch_stream_heartbeat_def all_callbacks_def)
qed

text \<open>The callbacks that are not the completion.\<close>

fun completes :: "stream_event \<Rightarrow> bool" where
  "completes (On_complete f e) = True" | "completes _ = False"

lemma sse_line_no_completion:
  "sse_line cb parse ev final l = (out, ev', final', stop) \<Longrightarrow> list_all (Not \<circ> completes) out"
  by (auto simp: sse_line_def dispatch_stream_chunk_def dispatch_stream_progress_def
      dispatch_stream_heartbeat_def Let_def split: if_splits)

lemma loop_completes:
  assumes "complete_callback cb"
  shows "\<exists>es f e. sse_loop cb parse ends data ev final = es @ [On_complete f e]
    \<and> list_all (Not \<circ> completes) es"
proof (induction "length data" arbitrary: data ev final rule: less_induct)
  case less
  have stop: "\<exists>es f' e'. out @ dispatch_stream_complete cb f e = es @ [On_complete f' e']
      \<and> list_all (Not \<circ> completes) es" if "list_all (Not \<circ> completes) out" for out f e
    using that assms by (auto simp: dispatch_stream_complete_def)
  obtain r rest where r: "read_line ends data = (r, rest)" by fastforce
  show ?case
  proof (cases r)
    case (Line l)
    note IH = less.hyps [OF read_line_shorter [OF r [unfolded Line]]]
    obtain out ev' final' st where o: "sse_line cb parse ev final l = (out, ev', final', st)"
      by (cases "sse_line cb parse ev final l")
    have out: "list_all (Not \<circ> completes) out" by (rule sse_line_no_completion [OF o])
    have "\<exists>es f e. out @ sse_loop cb parse ends rest ev' final' = es @ [On_complete f e]
        \<and> list_all (Not \<circ> completes) es"
    proof -
      obtain es f e where "sse_loop cb parse ends rest ev' final' = es @ [On_complete f e]"
        "list_all (Not \<circ> completes) es" using IH by blast
      then have "out @ sse_loop cb parse ends rest ev' final' = (out @ es) @ [On_complete f e]"
        "list_all (Not \<circ> completes) (out @ es)" using out by simp_all
      then show ?thesis by blast
    qed
    then show ?thesis
      using r Line o IH stop [OF out] by (subst sse_loop.simps) (cases st; simp)
  qed (use r stop [of "[]"] in \<open>(subst sse_loop.simps, simp)+\<close>)
qed

lemma thread_completes:
  assumes "complete_callback cb"
  shows "\<exists>es f e. stream_request_thread cb parse response = es @ [On_complete f e]
    \<and> list_all (Not \<circ> completes) es"
proof (cases response)
  case None
  then show ?thesis using assms by (auto simp: stream_request_thread_def dispatch_stream_complete_def)
next
  case (Some r)
  then show ?thesis
    using loop_completes [OF assms] by (cases r) (simp add: stream_request_thread_def)
qed

lemma loop_items:
  "list_all (payload_ok \<circ> item_payload) items \<Longrightarrow>
     \<exists>ev'. sse_loop all_callbacks parse ends (concat (map render_item items) @ t) ev final
       = map (item_event parse) items @ sse_loop all_callbacks parse ends t ev' final"
proof (induction items arbitrary: ev)
  case (Cons i items)
  obtain ev1 where e: "sse_loop all_callbacks parse ends
      (render_item i @ concat (map render_item items) @ t) ev final
      = item_event parse i # sse_loop all_callbacks parse ends (concat (map render_item items) @ t) ev1 final"
    using loop_item [of i parse ends "concat (map render_item items) @ t"] Cons.prems by auto
  obtain ev2 where "sse_loop all_callbacks parse ends (concat (map render_item items) @ t) ev1 final
      = map (item_event parse) items @ sse_loop all_callbacks parse ends t ev2 final"
    using Cons.IH [of ev1] Cons.prems by auto
  then have "sse_loop all_callbacks parse ends (concat (map render_item (i # items)) @ t) ev final
      = map (item_event parse) (i # items) @ sse_loop all_callbacks parse ends t ev2 final"
    using e by simp
  then show ?case by blast
qed auto

lemma loop_final:
  "payload_ok f \<Longrightarrow> sse_loop all_callbacks parse ends (render_event ''final'' f @ t) ev final
     = sse_loop all_callbacks parse ends t (Some ''final'') (Some f)"
  using loop_event [OF names_ok(4) _ sse_line_data(4), of f] by simp

lemma loop_done:
  "payload_ok d \<Longrightarrow> sse_loop all_callbacks parse ends (render_event ''done'' d @ t) ev final
     = [On_complete final False]"
  using loop_event [OF names_ok(5) _ sse_line_data(5), of d]
  by (simp add: dispatch_stream_complete_def all_callbacks_def)

lemma loop_over:
  "sse_loop all_callbacks parse ends [] ev final = [On_complete final (\<not> ends)]"
  by (simp add: sse_loop.simps read_line_def dispatch_stream_complete_def all_callbacks_def)

text \<open>
  C20: What the callbacks of a streamed answer get. Of a transcript of chunks, progress reports and
  heartbeats with a final document, every event reaches its callback in order, the chunks as
  the text they carry, and then the completion gets the final document: whatever follows the
  \<open>done\<close> event, and also when the stream just ends or breaks, which is reported as an error. For
  any input at all, the completion callback is called exactly once, and last.
\<close>

theorem stream_delivers:
  assumes "list_all (payload_ok \<circ> item_payload) items" "payload_ok f" "payload_ok d"
  shows "(let transcript = concat (map render_item items) @ render_event ''final'' f;
              run = stream_request_thread all_callbacks parse
    in run (Some (ends, transcript @ render_event ''done'' d @ rest))
         = map (item_event parse) items @ [On_complete (Some f) False]
     \<and> run (Some (ends, transcript)) = map (item_event parse) items @ [On_complete (Some f) (\<not> ends)]
     \<and> (\<exists>es f e. run response = es @ [On_complete f e] \<and> list_all (Not \<circ> completes) es))"
proof -
  have run: "stream_request_thread all_callbacks parse
        (Some (ends, concat (map render_item items) @ render_event ''final'' f @ t))
      = map (item_event parse) items @ sse_loop all_callbacks parse ends t (Some ''final'') (Some f)" for t
    using loop_items [OF assms(1), of parse ends "render_event ''final'' f @ t" None None]
    by (auto simp: stream_request_thread_def loop_final [OF assms(2)])
  have "complete_callback all_callbacks" by (simp add: all_callbacks_def)
  from thread_completes [OF this] show ?thesis
    using run [of "render_event ''done'' d @ rest"] run [of "[]"]
    by (simp add: Let_def loop_done [OF assms(3)] loop_over)
qed

definition demo_chunk_parse :: "string \<Rightarrow> json result" where
  "demo_chunk_parse s = Inr (JObject [(''text'', JString s)])"

theorem stream_delivers_witness:
  "stream_request_thread all_callbacks demo_chunk_parse
     (Some (True, render_event ''chunk'' ''a'' @ render_event ''final'' ''b'' @ render_event ''done'' ''c''))
   = [On_chunk ''a'', On_complete (Some ''b'') False]"
proof -
  have ok: "list_all (payload_ok \<circ> item_payload) [Chunk_item ''a'']" "payload_ok ''b''" "payload_ok ''c''"
    by (simp_all add: payload_ok_def stripped_def glib_space_def code_of_def c_utf8_ascii)
  have "extract_chunk_text demo_chunk_parse ''a'' = ''a''"
    by (simp add: extract_chunk_text_def demo_chunk_parse_def map_find_def)
  then show ?thesis
    using stream_delivers [OF ok, of demo_chunk_parse True "[]"] by (simp add: Let_def)
qed

end
