(* ===== verification/Chat_Session.thy ===== *)
theory Chat_Session
  imports Chat_Payload Stream_Client
begin

text \<open>
  A conversation in the chat client (\<open>frontend/WMTool-Liara/src/liara_window.c\<close>): sending a message,
  the callbacks of a streamed and of a plain answer, the watchdog, clearing the transcript and the
  end of the window. Widgets are named by numbers: a callback that uses the label or the box of a
  message that has been removed, or the window after it has been freed, is a fault, not a step.
  \<open>now\<close> is the monotonic clock in microseconds.
\<close>

section \<open>State\<close>

text \<open>
  A message is first a label whose text is set, and later the rendered text with its pictures;
  rendering removes the label.
\<close>

datatype body = Label string | Rendered string "artifact list"

record bubble =
  bb_id :: nat
  bb_role :: string
  bb_assistant :: bool
  bb_body :: body
  bb_chips :: "string list"

datatype fault = Freed_label nat | Freed_box nat | Null_response | Freed_window

datatype request = Chat_stream json | Chat_plain json

record form =
  fm_session_id :: string
  fm_user_id :: string
  fm_display_name :: "string option"
  fm_sandbox_root :: string
  fm_max_tokens :: int

text \<open>
  \<open>current_assistant_label\<close>, its content box and its box of chips are set and cleared together:
  \<open>ch_current\<close> is the message they belong to. \<open>ch_open\<close> are the requests, by their place in
  \<open>ch_posts\<close>, whose last callback has not been made.
\<close>

record chat =
  ch_bubbles :: "bubble list"
  ch_next :: nat
  ch_current :: "nat option"
  ch_started :: bool
  ch_inflight :: bool
  ch_watchdog :: bool
  ch_last_event :: int
  ch_heartbeat_seen :: bool
  ch_badge :: string
  ch_detail :: string
  ch_variant :: string
  ch_status_output :: string
  ch_send_sensitive :: bool
  ch_send_label :: string
  ch_input :: string
  ch_form :: form
  ch_stream_enabled :: bool
  ch_watchdog_seconds :: int
  ch_dev_mode :: bool
  ch_posts :: "request list"
  ch_open :: "nat list"
  ch_freed :: bool

text \<open>What the callbacks need of the surroundings.\<close>

record client =
  cl_parse :: "string \<Rightarrow> json result"
  cl_conv :: "fp \<Rightarrow> int"
  cl_host :: host
  cl_base_url :: "string option"

section \<open>Widgets\<close>

definition append_chat_message :: "string \<Rightarrow> bool \<Rightarrow> body \<Rightarrow> chat \<Rightarrow> chat" where
  "append_chat_message role assistant body c =
     c\<lparr>ch_bubbles := ch_bubbles c @
          [\<lparr>bb_id = ch_next c, bb_role = role, bb_assistant = assistant, bb_body = body, bb_chips = []\<rparr>],
       ch_next := ch_next c + 1\<rparr>"

definition bubble_at :: "chat \<Rightarrow> nat \<Rightarrow> bubble option" where
  "bubble_at c i = find (\<lambda>b. bb_id b = i) (ch_bubbles c)"

definition change_bubble :: "nat \<Rightarrow> (bubble \<Rightarrow> bubble) \<Rightarrow> chat \<Rightarrow> chat" where
  "change_bubble i f c = c\<lparr>ch_bubbles := map (\<lambda>b. if bb_id b = i then f b else b) (ch_bubbles c)\<rparr>"

text \<open>\<open>gtk_label_get_text\<close> and \<open>gtk_label_set_text\<close> on the label of message \<open>i\<close>.\<close>

definition label_text :: "nat \<Rightarrow> chat \<Rightarrow> fault + string" where
  "label_text i c =
     (case bubble_at c i of
        None \<Rightarrow> Inl (Freed_label i)
      | Some b \<Rightarrow> (case bb_body b of Label t \<Rightarrow> Inr t | Rendered _ _ \<Rightarrow> Inl (Freed_label i)))"

definition set_label :: "nat \<Rightarrow> string \<Rightarrow> chat \<Rightarrow> fault + chat" where
  "set_label i text c =
     (case label_text i c of
        Inl e \<Rightarrow> Inl e
      | Inr _ \<Rightarrow> Inr (change_bubble i (\<lambda>b. b\<lparr>bb_body := Label text\<rparr>) c))"

definition render_content :: "nat \<Rightarrow> string \<Rightarrow> artifact list \<Rightarrow> chat \<Rightarrow> fault + chat" where
  "render_content i text artifacts c =
     (if bubble_at c i = None then Inl (Freed_box i)
      else Inr (change_bubble i (\<lambda>b. b\<lparr>bb_body := Rendered text artifacts\<rparr>) c))"

definition set_chips :: "nat \<Rightarrow> string list \<Rightarrow> chat \<Rightarrow> fault + chat" where
  "set_chips i chips c =
     (if bubble_at c i = None then Inl (Freed_box i)
      else Inr (change_bubble i (\<lambda>b. b\<lparr>bb_chips := chips\<rparr>) c))"

definition bindF :: "fault + 'a \<Rightarrow> ('a \<Rightarrow> fault + 'b) \<Rightarrow> fault + 'b" where
  "bindF m f = (case m of Inl e \<Rightarrow> Inl e | Inr x \<Rightarrow> f x)"

lemma bindF_simps [simp]: "bindF (Inl e) f = Inl e" "bindF (Inr x) f = f x"
  by (simp_all add: bindF_def)

definition set_stream_status :: "string \<Rightarrow> string option \<Rightarrow> string \<Rightarrow> chat \<Rightarrow> chat" where
  "set_stream_status state detail variant c =
     c\<lparr>ch_badge := state, ch_detail := (case detail of None \<Rightarrow> [] | Some d \<Rightarrow> d), ch_variant := variant\<rparr>"

definition mark_stream_activity :: "int \<Rightarrow> chat \<Rightarrow> chat" where
  "mark_stream_activity now c = c\<lparr>ch_last_event := now\<rparr>"

definition reset_stream_ui :: "string option \<Rightarrow> chat \<Rightarrow> chat" where
  "reset_stream_ui status_message c =
     (let c = c\<lparr>ch_inflight := False, ch_current := None, ch_started := False, ch_heartbeat_seen := False,
                ch_watchdog := False, ch_send_sensitive := True, ch_send_label := ''Send''\<rparr>;
          c = set_stream_status ''STREAM IDLE'' (Some ''Waiting for the next request.'') ''stream-status-idle'' c
      in case status_message of None \<Rightarrow> c | Some m \<Rightarrow> c\<lparr>ch_status_output := m\<rparr>)"

section \<open>The watchdog\<close>

definition watchdog_limit :: "chat \<Rightarrow> int" where
  "watchdog_limit c = max 15 (min 900 (ch_watchdog_seconds c))"

abbreviation stream_timed_out :: string where
  "stream_timed_out \<equiv> ''Stream connection timed out. The assistant stopped receiving updates.''"

definition on_stream_watchdog_tick :: "int \<Rightarrow> chat \<Rightarrow> fault + chat" where
  "on_stream_watchdog_tick now c =
     (if \<not> ch_inflight c then Inr (c\<lparr>ch_watchdog := False\<rparr>)
      else if ch_heartbeat_seen c then Inr c
      else if now - ch_last_event c \<le> watchdog_limit c * 1000000 then Inr c
      else bindF (case ch_current c of
                    Some i \<Rightarrow> set_label i stream_timed_out c
                  | None \<Rightarrow> Inr (append_chat_message ''LIARA'' True (Rendered stream_timed_out []) c))
        (\<lambda>c. Inr (reset_stream_ui
               (Some (''Watchdog timeout: no stream event or heartbeat received for '' @
                      show_int (watchdog_limit c) @ '' seconds. The UI was reset.''))
               (set_stream_status ''STREAM TIMEOUT''
                  (Some ''No heartbeat or chunk arrived before the local watchdog limit.'')
                  ''stream-status-error'' c))))"

section \<open>The callbacks of a stream\<close>

definition on_chat_stream_chunk :: "string \<Rightarrow> int \<Rightarrow> chat \<Rightarrow> fault + chat" where
  "on_chat_stream_chunk chunk_text now c =
     (if \<not> ch_inflight c then Inr c
      else case ch_current c of
        None \<Rightarrow> Inr c
      | Some i \<Rightarrow>
          if chunk_text = [] then Inr c
          else let c = mark_stream_activity now c;
                   c = set_stream_status ''STREAM CHUNKING''
                         (Some ''Assistant response chunks are arriving.'') ''stream-status-active'' c
            in if \<not> ch_started c
               then bindF (set_label i chunk_text c) (\<lambda>c. Inr (c\<lparr>ch_started := True\<rparr>))
               else bindF (label_text i c) (\<lambda>existing_text. set_label i (existing_text @ chunk_text) c))"

text \<open>\<open>%s\<close> with NULL.\<close>

definition printed :: "string option \<Rightarrow> string" where
  "printed s = (case s of None \<Rightarrow> ''(null)'' | Some t \<Rightarrow> t)"

definition member_or :: "json \<Rightarrow> string \<Rightarrow> string \<Rightarrow> string option" where
  "member_or doc key fallback = (if contains doc key then string_member doc key else Some fallback)"

abbreviation blank_line :: string where "blank_line \<equiv> [CHR 0x0A, CHR 0x0A]"

definition on_chat_stream_progress :: "client \<Rightarrow> string \<Rightarrow> int \<Rightarrow> chat \<Rightarrow> fault + chat" where
  "on_chat_stream_progress cl progress_payload now c =
     (if \<not> ch_inflight c \<or> progress_payload = [] then Inr c
      else let c = mark_stream_activity now c in
        case payload_object (cl_parse cl) (Some progress_payload) of
          None \<Rightarrow> Inr (if ch_dev_mode c then c\<lparr>ch_status_output := progress_payload\<rparr> else c)
        | Some doc \<Rightarrow>
            let stage = member_or doc ''stage'' ''running'';
                message = member_or doc ''message'' ''Receiving stream progress''
            in if stage = Some ''memory_effect_detected'' then
                 (let mode = (case object_member doc ''metadata'' of
                                None \<Rightarrow> Some ''MEMORY''
                              | Some metadata \<Rightarrow> member_or metadata ''context_mode'' ''MEMORY'')
                  in Inr (set_stream_status ''STREAM MEMORY_EFFECT_DETECTED''
                       (Some (sparkles @ '' '' @ printed mode)) ''stream-status-active''
                       (c\<lparr>ch_status_output := sparkles @ '' Memory Effect Detected'' @ blank_line @
                            ''Context Mode: '' @ printed mode @ [CHR 0x0A] @ ''Message: '' @ printed message\<rparr>)))
               else Inr (set_stream_status (''STREAM '' @ printed (map_option (map toupper) stage)) message
                      ''stream-status-active''
                      (c\<lparr>ch_status_output := ''Stream progress'' @ blank_line @
                           ''Stage: '' @ printed stage @ [CHR 0x0A] @ ''Message: '' @ printed message\<rparr>)))"

definition on_chat_stream_heartbeat :: "string \<Rightarrow> int \<Rightarrow> chat \<Rightarrow> fault + chat" where
  "on_chat_stream_heartbeat heartbeat_payload now c =
     (if \<not> ch_inflight c then Inr c
      else Inr (set_stream_status ''STREAM HEARTBEAT''
                  (Some ''API heartbeat received. Local watchdog is bypassed.'') ''stream-status-heartbeat''
                  (mark_stream_activity now (c\<lparr>ch_heartbeat_seen := True\<rparr>))))"

text \<open>\<open>error\<close> is the message of the error, if there is one.\<close>

definition show_failure :: "string \<Rightarrow> chat \<Rightarrow> fault + chat" where
  "show_failure message c =
     bindF (case ch_current c of
              Some i \<Rightarrow> set_label i message c
            | None \<Rightarrow> Inr (append_chat_message ''LIARA'' True (Rendered message []) c))
       (\<lambda>c. Inr (c\<lparr>ch_status_output := message\<rparr>))"

definition show_answer :: "client \<Rightarrow> nat \<Rightarrow> string \<Rightarrow> string option \<Rightarrow> chat \<Rightarrow> fault + chat" where
  "show_answer cl i response payload c =
     render_content i response
       (render_artifacts_from_chat_payload (cl_parse cl) (cl_host cl) (cl_base_url cl) payload) c"

definition show_metadata :: "client \<Rightarrow> string option \<Rightarrow> chat \<Rightarrow> fault + chat" where
  "show_metadata cl payload c =
     (case ch_current c of
        None \<Rightarrow> Inr c
      | Some i \<Rightarrow> set_chips i (render_assistant_metadata (cl_parse cl) (cl_conv cl) payload) c)"

definition on_chat_stream_complete ::
  "client \<Rightarrow> string option \<Rightarrow> string option \<Rightarrow> int \<Rightarrow> chat \<Rightarrow> fault + chat" where
  "on_chat_stream_complete cl final_payload error now c =
     (if \<not> ch_inflight c \<and> ch_current c = None then Inr c
      else let c = mark_stream_activity now c in
        bindF
          (case error of
             Some message \<Rightarrow>
               bindF (show_failure (''Stream failed'' @ blank_line @ message) c)
                 (\<lambda>c. Inr (set_stream_status ''STREAM ERROR'' (Some message) ''stream-status-error'' c))
           | None \<Rightarrow>
               let response = extract_response_from_chat_payload (cl_parse cl) final_payload;
                   c = (case final_payload of None \<Rightarrow> c | Some p \<Rightarrow> c\<lparr>ch_status_output := p\<rparr>)
               in bindF
                    (case ch_current c of
                       None \<Rightarrow> Inr c
                     | Some i \<Rightarrow>
                         (case response of
                            None \<Rightarrow> Inl Null_response
                          | Some r \<Rightarrow> if r = [] then Inr c else show_answer cl i r final_payload c))
                    (\<lambda>c. bindF (show_metadata cl final_payload c)
                      (\<lambda>c. Inr (set_stream_status ''STREAM COMPLETE''
                                  (Some ''Final payload received and rendered.'') ''stream-status-complete'' c))))
          (\<lambda>c. Inr (reset_stream_ui None c)))"

section \<open>The callbacks of plain requests\<close>

definition on_chat_request_loaded :: "client \<Rightarrow> string option \<Rightarrow> string option \<Rightarrow> chat \<Rightarrow> fault + chat" where
  "on_chat_request_loaded cl response_text error c =
     bindF
       (case error of
          Some message \<Rightarrow> show_failure (''Chat request failed'' @ blank_line @ message) c
        | None \<Rightarrow>
            (case response_text of
               None \<Rightarrow> Inr c
             | Some payload \<Rightarrow>
                 bindF
                   (case extract_response_from_chat_payload (cl_parse cl) response_text of
                      None \<Rightarrow> Inr c
                    | Some r \<Rightarrow>
                        if r = [] then Inr c
                        else (case ch_current c of
                                Some i \<Rightarrow> show_answer cl i r response_text c
                              | None \<Rightarrow> Inr (append_chat_message ''LIARA'' True (Rendered r []) c)))
                   (\<lambda>c. show_metadata cl response_text (c\<lparr>ch_status_output := payload\<rparr>))))
       (\<lambda>c. Inr (reset_stream_ui None c))"

definition on_startup_greeting_loaded :: "client \<Rightarrow> string option \<Rightarrow> string option \<Rightarrow> chat \<Rightarrow> fault + chat" where
  "on_startup_greeting_loaded cl response_text error c =
     Inr (append_chat_message ''LIARA'' True
       (Rendered
         (if error \<noteq> None
          then ''Willkommen. Die persoenliche Begruessung konnte gerade nicht geladen werden, aber ich bin bereit.''
          else let greeting = (if response_text = None then None
                               else extract_response_from_chat_payload (cl_parse cl) response_text)
            in if filled greeting then the greeting else ''Willkommen. Ich bin bereit.'') []) c)"

section \<open>The user\<close>

definition build_chat_body :: "form \<Rightarrow> string \<Rightarrow> json" where
  "build_chat_body f message = object
     ([(''session_id'', JString (fm_session_id f)), (''user_id'', JString (fm_user_id f))] @
      (if filled (fm_display_name f) then [(''display_name'', JString (the (fm_display_name f)))] else []) @
      [(''message'', JString message)] @
      (if fm_sandbox_root f \<noteq> [] then [(''sandbox_root'', JString (fm_sandbox_root f))] else []) @
      [(''max_tokens'', JInt (fm_max_tokens f))])"

definition post :: "request \<Rightarrow> chat \<Rightarrow> chat" where
  "post r c = c\<lparr>ch_posts := ch_posts c @ [r], ch_open := ch_open c @ [length (ch_posts c)]\<rparr>"

definition on_send_chat_clicked :: "int \<Rightarrow> chat \<Rightarrow> chat" where
  "on_send_chat_clicked now c =
     (let message = strip (ch_input c) in
      if ch_inflight c \<or> message = [] then c
      else let c = append_chat_message ''You'' False (Rendered message []) c;
               i = ch_next c;
               c = append_chat_message ''LIARA'' True (Label ''Thinking ...'') c;
               c = c\<lparr>ch_current := Some i, ch_started := False, ch_inflight := True, ch_heartbeat_seen := False\<rparr>;
               c = set_stream_status ''STREAM STARTED''
                     (Some ''Request accepted by the client and sent to the API.'') ''stream-status-active'' c;
               c = mark_stream_activity now c;
               c = c\<lparr>ch_watchdog := True, ch_send_sensitive := False, ch_send_label := ''Streaming...'', ch_input := []\<rparr>;
               doc = build_chat_body (ch_form c) message
        in if ch_stream_enabled c then post (Chat_stream doc) c
           else post (Chat_plain doc) (c\<lparr>ch_watchdog := False, ch_send_label := ''Waiting...''\<rparr>))"

text \<open>
  The handler of the Enter keys (\<open>liara_chat_input.c\<close>): with Shift a line feed at the cursor, else the message is
  sent. The callback reports success whether or not the message could be sent, and then the input is cleared.
\<close>

definition on_chat_input_ready :: "string \<Rightarrow> int \<Rightarrow> chat \<Rightarrow> bool \<times> chat" where
  "on_chat_input_ready message now c =
     (if message = [] then (False, c) else (True, on_send_chat_clicked now c))"

definition liara_chat_input_key_pressed :: "bool \<Rightarrow> nat \<Rightarrow> int \<Rightarrow> chat \<Rightarrow> chat" where
  "liara_chat_input_key_pressed shift_pressed cursor now c =
     (if shift_pressed then c\<lparr>ch_input := take cursor (ch_input c) @ [CHR 0x0A] @ drop cursor (ch_input c)\<rparr>
      else if ch_input c = [] then c
      else let (proceed, c) = on_chat_input_ready (ch_input c) now c
        in if proceed then c\<lparr>ch_input := []\<rparr> else c)"

definition on_action_clear_chat :: "chat \<Rightarrow> chat" where
  "on_action_clear_chat c =
     (append_chat_message ''LIARA'' True (Rendered ''Transcript cleared.'' []) (c\<lparr>ch_bubbles := []\<rparr>))\<lparr>ch_input := []\<rparr>"

definition on_window_destroy :: "chat \<Rightarrow> chat" where
  "on_window_destroy c = c\<lparr>ch_watchdog := False, ch_freed := True\<rparr>"

end
