(* ===== verification/Chat_Runs.thy ===== *)
theory Chat_Runs
  imports Chat_Session
begin

text \<open>
  Whole conversations of the chat client: every order in which the user, the watchdog and the threads
  of the requests can act on the state of \<open>Chat_Session\<close>. A callback carries the number of
  the request it belongs to; the code does not look at it.
\<close>

section \<open>Events\<close>

text \<open>
  The message of an error comes with the event, as the completion of \<open>Stream_Client\<close> only says
  whether there was one.
\<close>

datatype chat_event =
    Typed string
  | Send int
  | Enter bool nat int
  | Clear
  | Tick int
  | Stream nat stream_event string int
  | Loaded nat "string option" "string option"
  | Greeting "string option" "string option"
  | Destroyed

fun is_stream :: "request \<Rightarrow> bool" where
  "is_stream (Chat_stream doc) = True"
| "is_stream (Chat_plain doc) = False"

text \<open>What GTK and the main loop can deliver.\<close>

fun enabled :: "chat \<Rightarrow> chat_event \<Rightarrow> bool" where
  "enabled c (Typed text) = (\<not> ch_freed c)"
| "enabled c (Send now) = (\<not> ch_freed c)"
| "enabled c (Enter shift_pressed cursor now) = (\<not> ch_freed c)"
| "enabled c Clear = (\<not> ch_freed c)"
| "enabled c (Tick now) = ch_watchdog c"
| "enabled c (Stream r e message now) =
     (r \<in> set (ch_open c) \<and> r < length (ch_posts c) \<and> is_stream (ch_posts c ! r))"
| "enabled c (Loaded r response_text error) =
     (r \<in> set (ch_open c) \<and> r < length (ch_posts c) \<and> \<not> is_stream (ch_posts c ! r))"
| "enabled c (Greeting response_text error) = True"
| "enabled c Destroyed = (\<not> ch_freed c)"

definition close_request :: "nat \<Rightarrow> chat \<Rightarrow> chat" where
  "close_request r c = c\<lparr>ch_open := remove1 r (ch_open c)\<rparr>"

definition used :: "chat \<Rightarrow> fault + chat \<Rightarrow> fault + chat" where
  "used c m = (if ch_freed c then Inl Freed_window else m)"

fun stream_callback :: "client \<Rightarrow> nat \<Rightarrow> stream_event \<Rightarrow> string \<Rightarrow> int \<Rightarrow> chat \<Rightarrow> fault + chat" where
  "stream_callback cl r (On_chunk text) message now c = on_chat_stream_chunk text now c"
| "stream_callback cl r (On_progress payload) message now c = on_chat_stream_progress cl payload now c"
| "stream_callback cl r (On_heartbeat payload) message now c = on_chat_stream_heartbeat payload now c"
| "stream_callback cl r (On_complete final_payload failed) message now c =
     on_chat_stream_complete cl final_payload (if failed then Some message else None) now (close_request r c)"

fun chat_step :: "client \<Rightarrow> chat_event \<Rightarrow> chat \<Rightarrow> fault + chat" where
  "chat_step cl (Typed text) c = Inr (c\<lparr>ch_input := text\<rparr>)"
| "chat_step cl (Send now) c = Inr (on_send_chat_clicked now c)"
| "chat_step cl (Enter shift_pressed cursor now) c = Inr (liara_chat_input_key_pressed shift_pressed cursor now c)"
| "chat_step cl Clear c = Inr (on_action_clear_chat c)"
| "chat_step cl (Tick now) c = on_stream_watchdog_tick now c"
| "chat_step cl (Stream r e message now) c = used c (stream_callback cl r e message now c)"
| "chat_step cl (Loaded r response_text error) c =
     used c (on_chat_request_loaded cl response_text error (close_request r c))"
| "chat_step cl (Greeting response_text error) c = used c (on_startup_greeting_loaded cl response_text error c)"
| "chat_step cl Destroyed c = Inr (on_window_destroy c)"

text \<open>Conversations in which every event satisfies \<open>P\<close> where it happens.\<close>

inductive conversation ::
  "client \<Rightarrow> (chat \<Rightarrow> chat_event \<Rightarrow> bool) \<Rightarrow> chat \<Rightarrow> chat_event list \<Rightarrow> fault + chat \<Rightarrow> bool"
  for cl :: client and P :: "chat \<Rightarrow> chat_event \<Rightarrow> bool" and c0 :: chat where
  conv_start: "conversation cl P c0 [] (Inr c0)"
| conv_step: "conversation cl P c0 es (Inr c) \<Longrightarrow> enabled c e \<Longrightarrow> P c e \<Longrightarrow>
     conversation cl P c0 (es @ [e]) (chat_step cl e c)"

section \<open>Well-formedness\<close>

definition bubbles_ok :: "chat \<Rightarrow> bool" where
  "bubbles_ok c \<longleftrightarrow> distinct (map bb_id (ch_bubbles c)) \<and> list_all (\<lambda>b. bb_id b < ch_next c) (ch_bubbles c)"

text \<open>
  One answer at a time: the button, the current message, the watchdog and the marks of the
  stream agree with \<open>stream_inflight\<close>, and without an answer under way the badge says idle.
\<close>

definition flags_ok :: "chat \<Rightarrow> bool" where
  "flags_ok c \<longleftrightarrow>
     (ch_inflight c \<longleftrightarrow> ch_current c \<noteq> None) \<and> (ch_inflight c \<longleftrightarrow> \<not> ch_send_sensitive c) \<and>
     (ch_watchdog c \<longrightarrow> ch_inflight c) \<and> (ch_started c \<longrightarrow> ch_inflight c) \<and>
     (ch_heartbeat_seen c \<longrightarrow> ch_inflight c) \<and>
     (\<not> ch_inflight c \<and> ch_posts c \<noteq> [] \<longrightarrow> ch_badge c = ''STREAM IDLE'')"

definition requests_ok :: "chat \<Rightarrow> bool" where
  "requests_ok c \<longleftrightarrow> distinct (ch_open c) \<and> set (ch_open c) \<subseteq> {..<length (ch_posts c)}"

definition chat_ok :: "chat \<Rightarrow> bool" where
  "chat_ok c \<longleftrightarrow> bubbles_ok c \<and> flags_ok c \<and> requests_ok c"

text \<open>The current message is still there and a label.\<close>

definition current_there :: "chat \<Rightarrow> bool" where
  "current_there c \<longleftrightarrow> (case ch_current c of None \<Rightarrow> True | Some i \<Rightarrow> \<exists>t. label_text i c = Inr t)"

text \<open>
  What keeps a conversation free of faults: the window stays, the transcript is not cleared during
  an answer, and the response of a final document is a string.
\<close>

fun careful :: "client \<Rightarrow> chat \<Rightarrow> chat_event \<Rightarrow> bool" where
  "careful cl c Clear = (\<not> ch_inflight c)"
| "careful cl c Destroyed = False"
| "careful cl c (Stream r (On_complete final_payload failed) message now) =
     (failed \<or> extract_response_from_chat_payload (cl_parse cl) final_payload \<noteq> None)"
| "careful cl c e = True"

section \<open>Lemmas on widgets\<close>

lemma find_map_same:
  assumes "\<And>b. bb_id (f b) = bb_id b"
  shows "find (\<lambda>b. bb_id b = i) (map (\<lambda>b. if bb_id b = j then f b else b) bs)
    = map_option (\<lambda>b. if i = j then f b else b) (find (\<lambda>b. bb_id b = i) bs)"
  by (induction bs) (auto simp: assms)

lemma bubble_at_change:
  "(\<And>b. bb_id (f b) = bb_id b) \<Longrightarrow>
     bubble_at (change_bubble j f c) i = map_option (\<lambda>b. if i = j then f b else b) (bubble_at c i)"
  by (simp add: bubble_at_def change_bubble_def find_map_same)

lemma change_bubble_frame [simp]:
  "ch_next (change_bubble j f c) = ch_next c" "ch_current (change_bubble j f c) = ch_current c"
  "ch_started (change_bubble j f c) = ch_started c" "ch_inflight (change_bubble j f c) = ch_inflight c"
  "ch_watchdog (change_bubble j f c) = ch_watchdog c" "ch_last_event (change_bubble j f c) = ch_last_event c"
  "ch_heartbeat_seen (change_bubble j f c) = ch_heartbeat_seen c" "ch_badge (change_bubble j f c) = ch_badge c"
  "ch_send_sensitive (change_bubble j f c) = ch_send_sensitive c" "ch_posts (change_bubble j f c) = ch_posts c"
  "ch_open (change_bubble j f c) = ch_open c" "ch_freed (change_bubble j f c) = ch_freed c"
  "ch_watchdog_seconds (change_bubble j f c) = ch_watchdog_seconds c"
  by (simp_all add: change_bubble_def)

lemma label_text_Inr:
  "label_text i c = Inr t \<longleftrightarrow> (\<exists>b. bubble_at c i = Some b \<and> bb_body b = Label t)"
  by (auto simp: label_text_def split: option.splits body.splits)

lemma set_label_Inr:
  "label_text i c = Inr t \<Longrightarrow> set_label i u c = Inr (change_bubble i (\<lambda>b. b\<lparr>bb_body := Label u\<rparr>) c)"
  by (simp add: set_label_def)

lemma label_after_set: "label_text i c = Inr t \<Longrightarrow> label_text i (change_bubble i (\<lambda>b. b\<lparr>bb_body := Label u\<rparr>) c) = Inr u"
  by (auto simp: label_text_Inr bubble_at_change)

lemma bubbles_ok_change: "(\<And>b. bb_id (f b) = bb_id b) \<Longrightarrow> bubbles_ok (change_bubble i f c) = bubbles_ok c"
  by (simp add: bubbles_ok_def change_bubble_def o_def if_distrib list_all_length cong: if_cong)

lemma bubbles_ok_append [simp]: "bubbles_ok c \<Longrightarrow> bubbles_ok (append_chat_message role a body c)"
  by (auto simp: bubbles_ok_def append_chat_message_def list_all_iff)

lemma find_append_one:
  "find P (bs @ [b]) = (case find P bs of None \<Rightarrow> (if P b then Some b else None) | Some x \<Rightarrow> Some x)"
  by (induction bs) auto

lemma find_append_two:
  "find P (bs @ [u, a]) =
     (case find P bs of None \<Rightarrow> (if P u then Some u else if P a then Some a else None) | Some x \<Rightarrow> Some x)"
  by (induction bs) auto

lemma bubble_at_append:
  assumes "bubbles_ok c"
  shows "bubble_at (append_chat_message role a body c) i =
    (if i = ch_next c then Some \<lparr>bb_id = ch_next c, bb_role = role, bb_assistant = a, bb_body = body, bb_chips = []\<rparr>
     else bubble_at c i)"
proof -
  have "find (\<lambda>b. bb_id b = ch_next c) (ch_bubbles c) = None"
    using assms by (auto simp: bubbles_ok_def find_None_iff list_all_iff)
  then show ?thesis
    by (simp add: bubble_at_def append_chat_message_def find_append_one split: option.split)
qed

lemma bubble_at_cong: "ch_bubbles c' = ch_bubbles c \<Longrightarrow> bubble_at c' i = bubble_at c i"
  by (simp add: bubble_at_def)

lemma label_text_cong: "ch_bubbles c' = ch_bubbles c \<Longrightarrow> label_text i c' = label_text i c"
  by (simp add: label_text_def bubble_at_def)

section \<open>Every handler keeps the state well-formed\<close>

definition keeps_ok :: "fault + chat \<Rightarrow> bool" where
  "keeps_ok m \<longleftrightarrow> (case m of Inl _ \<Rightarrow> True | Inr c \<Rightarrow> chat_ok c)"

definition goes_well :: "fault + chat \<Rightarrow> bool" where
  "goes_well m \<longleftrightarrow> (case m of Inl _ \<Rightarrow> False | Inr c \<Rightarrow> current_there c)"

lemma outcome_simps [simp]:
  "keeps_ok (Inl e) = True" "keeps_ok (Inr c) = chat_ok c"
  "goes_well (Inl e) = False" "goes_well (Inr c) = current_there c"
  by (simp_all add: keeps_ok_def goes_well_def)

lemma keeps_bind: "(\<And>c. m = Inr c \<Longrightarrow> keeps_ok (f c)) \<Longrightarrow> keeps_ok (bindF m f)"
  by (cases m) simp_all

lemma chat_ok_change: "(\<And>b. bb_id (f b) = bb_id b) \<Longrightarrow> chat_ok (change_bubble i f c) = chat_ok c"
  by (simp add: chat_ok_def bubbles_ok_change flags_ok_def requests_ok_def)

lemma set_label_ok: "set_label i t c = Inr c' \<Longrightarrow> chat_ok c \<Longrightarrow> chat_ok c'"
  by (auto simp: set_label_def chat_ok_change split: sum.splits)

lemma render_content_ok: "render_content i t as c = Inr c' \<Longrightarrow> chat_ok c \<Longrightarrow> chat_ok c'"
  by (auto simp: render_content_def chat_ok_change split: if_splits)

lemma set_chips_ok: "set_chips i chips c = Inr c' \<Longrightarrow> chat_ok c \<Longrightarrow> chat_ok c'"
  by (auto simp: set_chips_def chat_ok_change split: if_splits)

lemma set_label_flags:
  "set_label i t c = Inr c' \<Longrightarrow> ch_inflight c' = ch_inflight c \<and> ch_current c' = ch_current c"
  by (auto simp: set_label_def split: sum.splits)

lemma append_frame [simp]:
  "ch_current (append_chat_message role a body c) = ch_current c"
  "ch_inflight (append_chat_message role a body c) = ch_inflight c"
  "ch_started (append_chat_message role a body c) = ch_started c"
  "ch_watchdog (append_chat_message role a body c) = ch_watchdog c"
  "ch_heartbeat_seen (append_chat_message role a body c) = ch_heartbeat_seen c"
  "ch_send_sensitive (append_chat_message role a body c) = ch_send_sensitive c"
  "ch_badge (append_chat_message role a body c) = ch_badge c"
  "ch_posts (append_chat_message role a body c) = ch_posts c"
  "ch_open (append_chat_message role a body c) = ch_open c"
  "ch_freed (append_chat_message role a body c) = ch_freed c"
  "ch_next (append_chat_message role a body c) = Suc (ch_next c)"
  "ch_watchdog_seconds (append_chat_message role a body c) = ch_watchdog_seconds c"
  by (simp_all add: append_chat_message_def)

lemma append_ok [simp]: "chat_ok c \<Longrightarrow> chat_ok (append_chat_message role a body c)"
  using bubbles_ok_append[of c role a body] by (auto simp: chat_ok_def flags_ok_def requests_ok_def)

lemma reset_ok: "chat_ok c \<Longrightarrow> chat_ok (reset_stream_ui m c)"
  by (auto simp: chat_ok_def reset_stream_ui_def set_stream_status_def bubbles_ok_def flags_ok_def requests_ok_def Let_def
      split: option.split)

lemma reset_current [simp]: "ch_current (reset_stream_ui m c) = None" "ch_inflight (reset_stream_ui m c) = False"
  by (simp_all add: reset_stream_ui_def set_stream_status_def Let_def split: option.split)

lemma reset_there [simp]: "current_there (reset_stream_ui m c)"
  by (simp add: current_there_def)

text \<open>Changes that matter to none of the invariants while an answer is under way.\<close>

lemma status_ok: "ch_inflight c \<Longrightarrow> chat_ok (set_stream_status s d v c) = chat_ok c"
  by (simp add: chat_ok_def set_stream_status_def bubbles_ok_def flags_ok_def requests_ok_def)

lemma activity_ok [simp]: "chat_ok (mark_stream_activity now c) = chat_ok c"
  by (simp add: chat_ok_def mark_stream_activity_def bubbles_ok_def flags_ok_def requests_ok_def)

lemma output_ok [simp]: "chat_ok (c\<lparr>ch_status_output := s\<rparr>) = chat_ok c"
  by (simp add: chat_ok_def bubbles_ok_def flags_ok_def requests_ok_def)

lemma there_cong:
  "ch_bubbles c' = ch_bubbles c \<Longrightarrow> ch_current c' = ch_current c \<Longrightarrow> current_there c' = current_there c"
  by (simp add: current_there_def label_text_cong[of c' c] split: option.split)

lemma status_frame [simp]:
  "ch_bubbles (set_stream_status s d v c) = ch_bubbles c" "ch_current (set_stream_status s d v c) = ch_current c"
  "ch_inflight (set_stream_status s d v c) = ch_inflight c" "ch_started (set_stream_status s d v c) = ch_started c"
  "ch_heartbeat_seen (set_stream_status s d v c) = ch_heartbeat_seen c"
  "ch_last_event (set_stream_status s d v c) = ch_last_event c"
  "ch_freed (set_stream_status s d v c) = ch_freed c" "ch_watchdog (set_stream_status s d v c) = ch_watchdog c"
  "ch_watchdog_seconds (set_stream_status s d v c) = ch_watchdog_seconds c"
  "ch_posts (set_stream_status s d v c) = ch_posts c" "ch_open (set_stream_status s d v c) = ch_open c"
  "ch_next (set_stream_status s d v c) = ch_next c" "ch_stream_enabled (set_stream_status s d v c) = ch_stream_enabled c"
  by (simp_all add: set_stream_status_def)

lemma activity_frame [simp]:
  "ch_bubbles (mark_stream_activity now c) = ch_bubbles c" "ch_current (mark_stream_activity now c) = ch_current c"
  "ch_inflight (mark_stream_activity now c) = ch_inflight c" "ch_started (mark_stream_activity now c) = ch_started c"
  "ch_heartbeat_seen (mark_stream_activity now c) = ch_heartbeat_seen c"
  "ch_last_event (mark_stream_activity now c) = now"
  "ch_freed (mark_stream_activity now c) = ch_freed c" "ch_watchdog (mark_stream_activity now c) = ch_watchdog c"
  "ch_watchdog_seconds (mark_stream_activity now c) = ch_watchdog_seconds c"
  "ch_posts (mark_stream_activity now c) = ch_posts c" "ch_open (mark_stream_activity now c) = ch_open c"
  "ch_next (mark_stream_activity now c) = ch_next c" "ch_stream_enabled (mark_stream_activity now c) = ch_stream_enabled c"
  by (simp_all add: mark_stream_activity_def)

lemma inflight_current: "chat_ok c \<Longrightarrow> ch_inflight c \<Longrightarrow> \<exists>i. ch_current c = Some i"
  by (auto simp: chat_ok_def flags_ok_def)

lemma current_label: "current_there c \<Longrightarrow> ch_current c = Some i \<Longrightarrow> \<exists>t. label_text i c = Inr t"
  by (simp add: current_there_def)

lemma watchdog_off_ok: "chat_ok c \<Longrightarrow> chat_ok (c\<lparr>ch_watchdog := False\<rparr>)"
  by (auto simp: chat_ok_def bubbles_ok_def flags_ok_def requests_ok_def)

lemma tick_keeps:
  assumes "chat_ok c"
  shows "keeps_ok (on_stream_watchdog_tick now c)"
proof (cases "ch_inflight c")
  case True
  obtain i where "ch_current c = Some i" using inflight_current[OF assms True] by blast
  then show ?thesis
    using assms True
    by (auto simp: on_stream_watchdog_tick_def reset_ok status_ok set_label_ok set_label_flags intro!: keeps_bind)
qed (use assms in \<open>simp add: on_stream_watchdog_tick_def watchdog_off_ok\<close>)

lemma tick_goes_well:
  assumes "chat_ok c" "current_there c"
  shows "goes_well (on_stream_watchdog_tick now c)"
proof (cases "ch_inflight c")
  case True
  obtain i where i: "ch_current c = Some i" using inflight_current[OF assms(1) True] by blast
  then obtain t where "label_text i c = Inr t" using assms(2) current_label by blast
  then show ?thesis using assms(2) True i by (simp add: on_stream_watchdog_tick_def set_label_Inr)
next
  case False
  then show ?thesis using assms(2) there_cong[of "c\<lparr>ch_watchdog := False\<rparr>" c] by (simp add: on_stream_watchdog_tick_def)
qed

lemma started_ok: "chat_ok c \<Longrightarrow> ch_inflight c \<Longrightarrow> chat_ok (c\<lparr>ch_started := b\<rparr>)"
  by (simp add: chat_ok_def bubbles_ok_def flags_ok_def requests_ok_def)

text \<open>What a chunk does to the label of the current message.\<close>

abbreviation chunking :: "int \<Rightarrow> chat \<Rightarrow> chat" where
  "chunking now c \<equiv> set_stream_status ''STREAM CHUNKING'' (Some ''Assistant response chunks are arriving.'')
     ''stream-status-active'' (mark_stream_activity now c)"

lemma chunking_label [simp]: "label_text i (chunking now c) = label_text i c"
  by (rule label_text_cong) simp

lemma chunk_label:
  assumes "ch_inflight c" "ch_current c = Some i" "label_text i c = Inr t" "text \<noteq> []"
  shows "on_chat_stream_chunk text now c =
    Inr ((change_bubble i (\<lambda>b. b\<lparr>bb_body := Label (if ch_started c then t @ text else text)\<rparr>)
      (chunking now c))\<lparr>ch_started := True\<rparr>)"
  using assms
  by (auto simp: on_chat_stream_chunk_def Let_def set_label_Inr)

lemma chunk_fault:
  "ch_inflight c \<Longrightarrow> ch_current c = Some i \<Longrightarrow> label_text i c = Inl e \<Longrightarrow> text \<noteq> [] \<Longrightarrow>
     on_chat_stream_chunk text now c = Inl e"
  by (simp add: on_chat_stream_chunk_def Let_def set_label_def)

lemma chunk_keeps:
  assumes "chat_ok c"
  shows "keeps_ok (on_chat_stream_chunk text now c)"
proof (cases "ch_inflight c \<and> text \<noteq> []")
  case True
  obtain i where i: "ch_current c = Some i" using inflight_current assms True by blast
  then show ?thesis
    using True assms by (cases "label_text i c")
      (simp_all add: chunk_fault chunk_label started_ok chat_ok_change status_ok)
next
  case False
  then show ?thesis using assms by (auto simp: on_chat_stream_chunk_def split: option.split)
qed

lemma there_after_label:
  "label_text i c = Inr t \<Longrightarrow> ch_current c = Some i \<Longrightarrow>
     current_there ((change_bubble i (\<lambda>b. b\<lparr>bb_body := Label u\<rparr>) c)\<lparr>ch_started := True\<rparr>)"
  using label_after_set[of i c t u] label_text_cong[of "(change_bubble i (\<lambda>b. b\<lparr>bb_body := Label u\<rparr>) c)\<lparr>ch_started := True\<rparr>"]
  by (simp add: current_there_def)

lemma chunk_goes_well:
  assumes "chat_ok c" "current_there c"
  shows "goes_well (on_chat_stream_chunk text now c)"
proof (cases "ch_inflight c \<and> text \<noteq> []")
  case True
  obtain i where i: "ch_current c = Some i" using inflight_current assms(1) True by blast
  then obtain t where t: "label_text i c = Inr t" using assms(2) current_label by blast
  then show ?thesis using True i by (simp add: chunk_label there_after_label)
next
  case False
  then show ?thesis using assms(2) by (auto simp: on_chat_stream_chunk_def split: option.split)
qed

lemma output_frame [simp]: "current_there (c\<lparr>ch_status_output := s\<rparr>) = current_there c"
  by (rule there_cong) simp_all

lemma status_there [simp]: "current_there (set_stream_status s d v c) = current_there c"
  by (rule there_cong) simp_all

lemma activity_there [simp]: "current_there (mark_stream_activity now c) = current_there c"
  by (rule there_cong) simp_all

lemma progress_keeps: "chat_ok c \<Longrightarrow> keeps_ok (on_chat_stream_progress cl payload now c)"
  by (auto simp: on_chat_stream_progress_def Let_def status_ok split: option.split)

lemma progress_goes_well: "current_there c \<Longrightarrow> goes_well (on_chat_stream_progress cl payload now c)"
  by (auto simp: on_chat_stream_progress_def Let_def split: option.split)

lemma seen_ok: "chat_ok c \<Longrightarrow> ch_inflight c \<Longrightarrow> chat_ok (c\<lparr>ch_heartbeat_seen := True\<rparr>)"
  by (auto simp: chat_ok_def bubbles_ok_def flags_ok_def requests_ok_def)

lemma heartbeat_keeps: "chat_ok c \<Longrightarrow> keeps_ok (on_chat_stream_heartbeat payload now c)"
  by (auto simp: on_chat_stream_heartbeat_def status_ok seen_ok)

lemma heartbeat_goes_well: "current_there c \<Longrightarrow> goes_well (on_chat_stream_heartbeat payload now c)"
  using there_cong[of "c\<lparr>ch_heartbeat_seen := True\<rparr>" c] by (simp add: on_chat_stream_heartbeat_def)

lemma close_frame [simp]:
  "ch_bubbles (close_request r c) = ch_bubbles c" "ch_current (close_request r c) = ch_current c"
  "ch_inflight (close_request r c) = ch_inflight c" "ch_freed (close_request r c) = ch_freed c"
  "ch_started (close_request r c) = ch_started c" "ch_posts (close_request r c) = ch_posts c"
  by (simp_all add: close_request_def)

lemma close_ok: "chat_ok c \<Longrightarrow> chat_ok (close_request r c)"
  using set_remove1_subset[of r "ch_open c"]
  by (auto simp: chat_ok_def close_request_def bubbles_ok_def flags_ok_def requests_ok_def)

lemma close_there [simp]: "current_there (close_request r c) = current_there c"
  by (rule there_cong) simp_all

lemma keeps_imp: "keeps_ok m \<Longrightarrow> m = Inr c \<Longrightarrow> chat_ok c"
  by simp

lemma failure_keeps: "chat_ok c \<Longrightarrow> keeps_ok (show_failure message c)"
  by (auto simp: show_failure_def split: option.split intro!: keeps_bind dest: set_label_ok)

lemma failure_flags: "show_failure message c = Inr c' \<Longrightarrow> ch_inflight c' = ch_inflight c"
  by (auto simp: show_failure_def bindF_def dest!: set_label_flags split: option.splits sum.splits)

lemma answer_keeps: "chat_ok c \<Longrightarrow> keeps_ok (show_answer cl i r p c)"
  by (auto simp: show_answer_def render_content_def chat_ok_change)

lemma answer_flags: "show_answer cl i r p c = Inr c' \<Longrightarrow> ch_inflight c' = ch_inflight c"
  by (auto simp: show_answer_def render_content_def split: if_splits)

lemma metadata_keeps: "chat_ok c \<Longrightarrow> keeps_ok (show_metadata cl p c)"
  by (auto simp: show_metadata_def set_chips_def chat_ok_change split: option.split)

lemma metadata_flags: "show_metadata cl p c = Inr c' \<Longrightarrow> ch_inflight c' = ch_inflight c"
  by (auto simp: show_metadata_def set_chips_def split: option.splits if_splits)

text \<open>The part of the completion before the reset.\<close>

definition finish_answer :: "client \<Rightarrow> string option \<Rightarrow> chat \<Rightarrow> fault + chat" where
  "finish_answer cl final_payload c =
     bindF (case ch_current c of
              None \<Rightarrow> Inr c
            | Some i \<Rightarrow>
                (case extract_response_from_chat_payload (cl_parse cl) final_payload of
                   None \<Rightarrow> Inl Null_response
                 | Some r \<Rightarrow> if r = [] then Inr c else show_answer cl i r final_payload c))
       (show_metadata cl final_payload)"

lemma on_chat_stream_complete_alt:
  "on_chat_stream_complete cl final_payload error now c =
     (if \<not> ch_inflight c \<and> ch_current c = None then Inr c
      else let c = mark_stream_activity now c in
        case error of
          Some message \<Rightarrow>
            bindF (show_failure (''Stream failed'' @ blank_line @ message) c)
              (\<lambda>c. Inr (reset_stream_ui None (set_stream_status ''STREAM ERROR'' (Some message) ''stream-status-error'' c)))
        | None \<Rightarrow>
            bindF (finish_answer cl final_payload
                    (case final_payload of None \<Rightarrow> c | Some p \<Rightarrow> c\<lparr>ch_status_output := p\<rparr>))
              (\<lambda>c. Inr (reset_stream_ui None (set_stream_status ''STREAM COMPLETE''
                 (Some ''Final payload received and rendered.'') ''stream-status-complete'' c))))"
  by (simp add: on_chat_stream_complete_def finish_answer_def bindF_def Let_def split: option.split sum.split)

lemma finish_keeps: "chat_ok c \<Longrightarrow> keeps_ok (finish_answer cl p c)"
  by (auto simp: finish_answer_def split: option.split intro!: keeps_bind metadata_keeps dest: keeps_imp[OF answer_keeps])

lemma finish_flags: "finish_answer cl p c = Inr c' \<Longrightarrow> ch_inflight c' = ch_inflight c"
  by (auto simp: finish_answer_def bindF_def dest!: answer_flags metadata_flags split: option.splits sum.splits if_splits)

lemma bind_reset_keeps:
  "keeps_ok m \<Longrightarrow> (\<And>c. m = Inr c \<Longrightarrow> ch_inflight c) \<Longrightarrow>
     keeps_ok (bindF m (\<lambda>c. Inr (reset_stream_ui x (set_stream_status s d v c))))"
  by (cases m) (simp_all add: reset_ok status_ok)

lemma complete_keeps:
  assumes "chat_ok c"
  shows "keeps_ok (on_chat_stream_complete cl p error now c)"
proof (cases "ch_inflight c")
  case True
  let ?c = "mark_stream_activity now c"
  let ?p = "case p of None \<Rightarrow> ?c | Some q \<Rightarrow> ?c\<lparr>ch_status_output := q\<rparr>"
  have "chat_ok ?p" "ch_inflight ?p" using assms True by (simp_all split: option.split)
  then have "keeps_ok (bindF (finish_answer cl p ?p) (\<lambda>c. Inr (reset_stream_ui None (set_stream_status s d v c))))"
    and "keeps_ok (bindF (show_failure m ?c) (\<lambda>c. Inr (reset_stream_ui None (set_stream_status s d v c))))"
    for s d v m
    using assms True by (auto intro!: bind_reset_keeps finish_keeps failure_keeps simp: finish_flags failure_flags)
  then show ?thesis
    using True by (simp add: on_chat_stream_complete_alt Let_def split: option.split)
next
  case False
  then have "ch_current c = None" using assms by (simp add: chat_ok_def flags_ok_def)
  then show ?thesis using False assms by (simp add: on_chat_stream_complete_def)
qed

lemma label_there_box: "label_text i c = Inr t \<Longrightarrow> bubble_at c i \<noteq> None"
  by (auto simp: label_text_Inr)

lemma finish_goes_on:
  assumes "ch_current c = Some i" "bubble_at c i \<noteq> None"
    and "extract_response_from_chat_payload (cl_parse cl) p \<noteq> None"
  shows "\<exists>c'. finish_answer cl p c = Inr c'"
  using assms
  by (auto simp: finish_answer_def show_answer_def render_content_def show_metadata_def set_chips_def bubble_at_change
      split: option.split)

lemma complete_goes_well:
  assumes "chat_ok c" "current_there c"
    and "error \<noteq> None \<or> extract_response_from_chat_payload (cl_parse cl) p \<noteq> None"
  shows "goes_well (on_chat_stream_complete cl p error now c)"
proof (cases "ch_current c")
  case None
  then have "\<not> ch_inflight c" using assms(1) by (simp add: chat_ok_def flags_ok_def)
  then show ?thesis using None assms(2) by (simp add: on_chat_stream_complete_def)
next
  case (Some i)
  let ?c = "mark_stream_activity now c"
  let ?p = "case p of None \<Rightarrow> ?c | Some q \<Rightarrow> ?c\<lparr>ch_status_output := q\<rparr>"
  obtain t where t: "label_text i ?c = Inr t"
    using current_label[OF assms(2) Some] label_text_cong[of ?c c i] by auto
  then have "bubble_at ?p i \<noteq> None" "ch_current ?p = Some i"
    using Some label_there_box[OF t] by (auto simp: bubble_at_def split: option.split)
  then show ?thesis
    using Some t assms(3) finish_goes_on[of ?p i cl p]
    by (auto simp: on_chat_stream_complete_alt Let_def show_failure_def set_label_Inr split: option.split)
qed

text \<open>The part of a plain answer before the reset.\<close>

lemma loaded_keeps: "chat_ok c \<Longrightarrow> keeps_ok (on_chat_request_loaded cl p error c)"
proof -
  assume ok: "chat_ok c"
  have reset: "keeps_ok m \<Longrightarrow> keeps_ok (bindF m (\<lambda>c. Inr (reset_stream_ui None c)))" for m
    by (cases m) (simp_all add: reset_ok)
  have "keeps_ok (bindF m (\<lambda>c. show_metadata cl p (c\<lparr>ch_status_output := q\<rparr>)))" if "keeps_ok m" for m q
    using that by (cases m) (simp_all add: metadata_keeps)
  then show ?thesis
    using ok by (auto simp: on_chat_request_loaded_def split: option.split
        intro!: reset failure_keeps answer_keeps metadata_keeps reset_ok)
qed

lemma bubble_at_output [simp]: "bubble_at (c\<lparr>ch_status_output := q\<rparr>) i = bubble_at c i"
  by (simp add: bubble_at_def)

lemma loaded_goes_well:
  assumes "current_there c"
  shows "goes_well (on_chat_request_loaded cl p error c)"
proof (cases error)
  case (Some message)
  have "\<exists>c'. show_failure m c = Inr c'" for m
    using assms by (cases "ch_current c") (auto simp: show_failure_def set_label_Inr dest: current_label)
  then obtain c' where "show_failure (''Chat request failed'' @ blank_line @ message) c = Inr c'" by blast
  then show ?thesis by (simp add: on_chat_request_loaded_def Some)
next
  case None
  have "bubble_at c i \<noteq> None" if "ch_current c = Some i" for i
    using current_label[OF assms that] label_there_box by blast
  then show ?thesis
    by (cases "ch_current c")
      (auto simp: None on_chat_request_loaded_def show_answer_def render_content_def show_metadata_def set_chips_def
        bubble_at_change split: option.split)
qed

lemma greeting_keeps: "chat_ok c \<Longrightarrow> keeps_ok (on_startup_greeting_loaded cl p error c)"
  by (simp add: on_startup_greeting_loaded_def)

lemma there_append:
  assumes "bubbles_ok c" "current_there c"
  shows "current_there (append_chat_message role a body c)"
proof -
  have "bubble_at c (ch_next c) = None"
    using assms(1) by (auto simp: bubbles_ok_def bubble_at_def find_None_iff list_all_iff)
  then show ?thesis
    using assms(2) by (auto simp: current_there_def label_text_Inr bubble_at_append[OF assms(1)] split: option.splits)
qed

lemma greeting_goes_well: "chat_ok c \<Longrightarrow> current_there c \<Longrightarrow> goes_well (on_startup_greeting_loaded cl p error c)"
  by (simp add: on_startup_greeting_loaded_def there_append chat_ok_def)

text \<open>What sending does when it does something.\<close>

definition sends :: "chat \<Rightarrow> bool" where
  "sends c \<longleftrightarrow> \<not> ch_inflight c \<and> strip (ch_input c) \<noteq> []"

lemma send_frame:
  fixes now :: int
  assumes "sends c" "bubbles_ok c"
  defines "c' \<equiv> on_send_chat_clicked now c"
  shows "ch_inflight c'" "ch_current c' = Some (Suc (ch_next c))" "\<not> ch_send_sensitive c'" "\<not> ch_started c'"
    "\<not> ch_heartbeat_seen c'" "ch_watchdog c' = ch_stream_enabled c" "ch_last_event c' = now"
    "ch_freed c' = ch_freed c" "ch_watchdog_seconds c' = ch_watchdog_seconds c"
    "ch_open c' = ch_open c @ [length (ch_posts c)]" "length (ch_posts c') = Suc (length (ch_posts c))"
    "ch_next c' = Suc (Suc (ch_next c))"
    "ch_bubbles c' = ch_bubbles c @
       [\<lparr>bb_id = ch_next c, bb_role = ''You'', bb_assistant = False, bb_body = Rendered (strip (ch_input c)) [], bb_chips = []\<rparr>,
        \<lparr>bb_id = Suc (ch_next c), bb_role = ''LIARA'', bb_assistant = True, bb_body = Label ''Thinking ...'', bb_chips = []\<rparr>]"
  using assms(1)
  by (auto simp: c'_def sends_def on_send_chat_clicked_def Let_def post_def append_chat_message_def)

lemma send_ok:
  assumes "chat_ok c"
  shows "chat_ok (on_send_chat_clicked now c)"
proof (cases "sends c")
  case True
  note f = send_frame[OF True, of now]
  have b: "bubbles_ok c" "requests_ok c" using assms by (simp_all add: chat_ok_def)
  have "bubbles_ok (on_send_chat_clicked now c)"
    using b(1) f(12,13)[OF b(1)] by (auto simp: bubbles_ok_def list_all_iff)
  moreover have "flags_ok (on_send_chat_clicked now c)" using f[OF b(1)] by (simp add: flags_ok_def)
  moreover have "requests_ok (on_send_chat_clicked now c)"
    using b(2) f(10,11)[OF b(1)] by (auto simp: requests_ok_def)
  ultimately show ?thesis by (simp add: chat_ok_def)
next
  case False
  then show ?thesis using assms by (auto simp: sends_def on_send_chat_clicked_def Let_def)
qed

lemma send_there:
  assumes "chat_ok c" "current_there c"
  shows "current_there (on_send_chat_clicked now c)"
proof (cases "sends c")
  case True
  have b: "bubbles_ok c" using assms(1) by (simp add: chat_ok_def)
  have "find (\<lambda>b. bb_id b = Suc (ch_next c)) (ch_bubbles c) = None"
    using b by (auto simp: bubbles_ok_def find_None_iff list_all_iff)
  then show ?thesis
    using send_frame(2,13)[OF True b, of now]
    by (simp add: current_there_def label_text_Inr bubble_at_def find_append_two)
next
  case False
  then show ?thesis using assms by (auto simp: sends_def on_send_chat_clicked_def Let_def)
qed

lemma clear_ok: "chat_ok c \<Longrightarrow> chat_ok (on_action_clear_chat c)"
  by (auto simp: on_action_clear_chat_def append_chat_message_def chat_ok_def bubbles_ok_def flags_ok_def requests_ok_def)

lemma input_ok: "chat_ok (c\<lparr>ch_input := t\<rparr>) = chat_ok c"
  by (simp add: chat_ok_def bubbles_ok_def flags_ok_def requests_ok_def)

lemma input_there: "current_there (c\<lparr>ch_input := t\<rparr>) = current_there c"
  by (rule there_cong) simp_all

lemma enter_ok: "chat_ok c \<Longrightarrow> chat_ok (liara_chat_input_key_pressed shift_pressed cursor now c)"
  by (auto simp: liara_chat_input_key_pressed_def on_chat_input_ready_def input_ok send_ok)

lemma enter_there:
  "chat_ok c \<Longrightarrow> current_there c \<Longrightarrow> current_there (liara_chat_input_key_pressed shift_pressed cursor now c)"
  by (auto simp: liara_chat_input_key_pressed_def on_chat_input_ready_def input_there send_there)

text \<open>Enter during an answer throws the message away that has been typed.\<close>

lemma enter_loses_message:
  "ch_inflight c \<Longrightarrow> ch_input c \<noteq> [] \<Longrightarrow> liara_chat_input_key_pressed False cursor now c = c\<lparr>ch_input := []\<rparr>"
  by (simp add: liara_chat_input_key_pressed_def on_chat_input_ready_def on_send_chat_clicked_def)

lemma destroy_ok: "chat_ok c \<Longrightarrow> chat_ok (on_window_destroy c)"
  by (auto simp: on_window_destroy_def chat_ok_def bubbles_ok_def flags_ok_def requests_ok_def)

lemma step_keeps: "chat_ok c \<Longrightarrow> keeps_ok (chat_step cl e c)"
proof (cases e)
  case (Stream r ev message now)
  then show "chat_ok c \<Longrightarrow> ?thesis"
    by (cases ev) (simp_all add: used_def chunk_keeps progress_keeps heartbeat_keeps complete_keeps close_ok)
qed (simp_all add: used_def input_ok send_ok enter_ok clear_ok tick_keeps loaded_keeps close_ok greeting_keeps destroy_ok)

lemma step_goes_well:
  assumes "chat_ok c" "current_there c" "careful cl c e" "\<not> ch_freed c"
  shows "goes_well (chat_step cl e c)"
proof (cases e)
  case (Stream r ev message now)
  then show ?thesis
    using assms by (cases ev)
      (auto simp: used_def chunk_goes_well progress_goes_well heartbeat_goes_well complete_goes_well close_ok)
next
  case Clear
  then have "ch_current c = None" using assms by (simp add: chat_ok_def flags_ok_def)
  then show ?thesis using Clear by (simp add: on_action_clear_chat_def current_there_def)
next
  case (Typed t)
  then show ?thesis using assms(2) there_cong[of "c\<lparr>ch_input := t\<rparr>" c] by simp
qed (use assms in \<open>simp_all add: used_def send_there enter_there tick_goes_well loaded_goes_well greeting_goes_well\<close>)

section \<open>Properties\<close>

lemma set_label_freed: "set_label i t c = Inr c' \<Longrightarrow> ch_freed c' = ch_freed c"
  by (auto simp: set_label_def split: sum.splits)

lemma failure_freed: "show_failure m c = Inr c' \<Longrightarrow> ch_freed c' = ch_freed c"
  by (auto simp: show_failure_def bindF_def dest!: set_label_freed split: option.splits sum.splits)

lemma answer_freed: "show_answer cl i r p c = Inr c' \<Longrightarrow> ch_freed c' = ch_freed c"
  by (auto simp: show_answer_def render_content_def split: if_splits)

lemma metadata_freed: "show_metadata cl p c = Inr c' \<Longrightarrow> ch_freed c' = ch_freed c"
  by (auto simp: show_metadata_def set_chips_def split: option.splits if_splits)

lemma finish_freed: "finish_answer cl p c = Inr c' \<Longrightarrow> ch_freed c' = ch_freed c"
  by (auto simp: finish_answer_def bindF_def dest!: answer_freed metadata_freed split: option.splits sum.splits if_splits)

lemma reset_freed [simp]: "ch_freed (reset_stream_ui m c) = ch_freed c"
  by (simp add: reset_stream_ui_def Let_def split: option.split)

lemma tick_freed: "on_stream_watchdog_tick now c = Inr c' \<Longrightarrow> ch_freed c' = ch_freed c"
  by (auto simp: on_stream_watchdog_tick_def bindF_def dest!: set_label_freed split: option.splits sum.splits if_splits)

lemma chunk_freed: "on_chat_stream_chunk text now c = Inr c' \<Longrightarrow> ch_freed c' = ch_freed c"
  by (auto simp: on_chat_stream_chunk_def bindF_def Let_def dest!: set_label_freed split: option.splits sum.splits if_splits)

lemma progress_freed: "on_chat_stream_progress cl p now c = Inr c' \<Longrightarrow> ch_freed c' = ch_freed c"
  by (auto simp: on_chat_stream_progress_def Let_def split: option.splits if_splits)

lemma complete_freed: "on_chat_stream_complete cl p error now c = Inr c' \<Longrightarrow> ch_freed c' = ch_freed c"
  by (auto simp: on_chat_stream_complete_alt bindF_def Let_def dest!: failure_freed finish_freed
      split: option.splits sum.splits if_splits)

lemma loaded_freed: "on_chat_request_loaded cl p error c = Inr c' \<Longrightarrow> ch_freed c' = ch_freed c"
  by (auto simp: on_chat_request_loaded_def bindF_def dest!: failure_freed answer_freed metadata_freed
      split: option.splits sum.splits if_splits)

lemma send_freed: "ch_freed (on_send_chat_clicked now c) = ch_freed c"
  by (simp add: on_send_chat_clicked_def Let_def post_def)

lemma enter_freed: "ch_freed (liara_chat_input_key_pressed shift_pressed cursor now c) = ch_freed c"
  by (simp add: liara_chat_input_key_pressed_def on_chat_input_ready_def send_freed)

lemma step_freed:
  assumes "chat_step cl e c = Inr c'" "e \<noteq> Destroyed"
  shows "ch_freed c' = ch_freed c"
proof (cases e)
  case (Stream r ev message now)
  then show ?thesis
    using assms by (cases ev) (auto simp: used_def on_chat_stream_heartbeat_def
        dest: chunk_freed progress_freed complete_freed split: if_splits)
qed (use assms in \<open>auto simp: used_def send_freed enter_freed on_action_clear_chat_def on_startup_greeting_loaded_def
       dest: tick_freed loaded_freed split: if_splits\<close>)

text \<open>
  C14: However the user, the watchdog and the threads of all requests, late ones included, interleave,
  the flags of the window agree with each other: an answer is under way exactly while the send
  button is off and a current message is set, the watchdog and the marks of a stream exist during an answer only, a
  request that is posted is open until its last callback. And a conversation in which the
  transcript is not cleared during an answer, the window is not closed and the response of every
  document is a string never uses a widget that is gone.
\<close>
theorem conversation_ok:
  assumes "chat_ok c0"
  shows "(conversation cl P c0 es (Inr c) \<longrightarrow> chat_ok c) \<and>
     (current_there c0 \<and> \<not> ch_freed c0 \<and> conversation cl (careful cl) c0 es out \<longrightarrow>
        (\<exists>c. out = Inr c \<and> chat_ok c \<and> current_there c \<and> \<not> ch_freed c))"
proof (intro conjI impI)
  assume "conversation cl P c0 es (Inr c)"
  then show "chat_ok c"
  proof (induction es "Inr c :: fault + chat" arbitrary: c)
    case conv_start
    then show ?case using assms by simp
  next
    case (conv_step es c1 e)
    then show ?case using step_keeps[of c1 cl e] keeps_imp by metis
  qed
next
  assume *: "current_there c0 \<and> \<not> ch_freed c0 \<and> conversation cl (careful cl) c0 es out"
  then have "conversation cl (careful cl) c0 es out" by blast
  then show "\<exists>c. out = Inr c \<and> chat_ok c \<and> current_there c \<and> \<not> ch_freed c"
  proof (induction es out)
    case conv_start
    then show ?case using assms * by simp
  next
    case (conv_step es c e)
    then have c: "chat_ok c" "current_there c" "\<not> ch_freed c" by auto
    have "goes_well (chat_step cl e c)" by (rule step_goes_well) (use c conv_step in auto)
    then obtain c' where c': "chat_step cl e c = Inr c'" "current_there c'"
      by (cases "chat_step cl e c") auto
    moreover have "e \<noteq> Destroyed" using conv_step.hyps(3) by auto
    ultimately show ?case
      using step_keeps[OF c(1), of cl e] step_freed[of cl e c c'] c(3) by simp
  qed
qed

text \<open>
  Each of the three things that a careful conversation avoids does end in a fault. After a message
  has been sent and the transcript cleared, the first chunk of the answer is written to a label
  that has been freed; a final document whose response is null or a number is dereferenced as
  NULL; and whatever a thread delivers after the window was closed uses the freed window.
\<close>
lemma chat_faults:
  assumes "chat_ok c" "sends c" "\<not> ch_freed c" "chunk \<noteq> []"
    and "extract_response_from_chat_payload (cl_parse cl) final_payload = None"
  shows "let c1 = on_send_chat_clicked t0 c in
     bindF (chat_step cl Clear c1) (chat_step cl (Stream r (On_chunk chunk) m t))
           = Inl (Freed_label (Suc (ch_next c))) \<and>
     chat_step cl (Stream r (On_complete final_payload False) m t) c1 = Inl Null_response \<and>
     bindF (chat_step cl Destroyed c1) (chat_step cl (Stream r e m t)) = Inl Freed_window"
proof -
  define c1 where "c1 = on_send_chat_clicked t0 c"
  have b: "bubbles_ok c" using assms(1) by (simp add: chat_ok_def)
  note f = send_frame[OF assms(2) b, of t0, folded c1_def]
  have "label_text (Suc (ch_next c)) (on_action_clear_chat c1) = Inl (Freed_label (Suc (ch_next c)))"
    using f(12) by (simp add: label_text_def bubble_at_def on_action_clear_chat_def append_chat_message_def)
  then have 1: "on_chat_stream_chunk chunk t (on_action_clear_chat c1) = Inl (Freed_label (Suc (ch_next c)))"
    using f(1,2) assms(4) by (intro chunk_fault) (simp_all add: on_action_clear_chat_def)
  have 2: "on_chat_stream_complete cl final_payload None t (close_request r c1) = Inl Null_response"
    using f(1,2) assms(5) by (simp add: on_chat_stream_complete_def Let_def split: option.split)
  show ?thesis
    using 1 2 f(8) assms(3) by (simp add: c1_def[symmetric] used_def on_action_clear_chat_def on_window_destroy_def)
qed


section \<open>One whole answer\<close>

fun play :: "client \<Rightarrow> chat_event list \<Rightarrow> chat \<Rightarrow> fault + chat" where
  "play cl [] c = Inr c"
| "play cl (e # es) c = bindF (chat_step cl e c) (play cl es)"

lemma play_append: "play cl (es @ fs) c = bindF (play cl es c) (play cl fs)"
  by (induction es arbitrary: c) (simp, simp add: bindF_def split: sum.split)

text \<open>
  Events of a stream and ticks of the watchdog, none of which comes later than the limit after the
  last sign of life.
\<close>

fun in_time :: "int \<Rightarrow> int \<Rightarrow> bool \<Rightarrow> chat_event list \<Rightarrow> bool" where
  "in_time limit last_event seen [] = True"
| "in_time limit last_event seen (Tick now # es) =
     ((seen \<or> now - last_event \<le> limit) \<and> in_time limit last_event seen es)"
| "in_time limit last_event seen (Stream r (On_chunk t) m now # es) =
     in_time limit (if t = [] then last_event else now) seen es"
| "in_time limit last_event seen (Stream r (On_progress p) m now # es) =
     in_time limit (if p = [] then last_event else now) seen es"
| "in_time limit last_event seen (Stream r (On_heartbeat p) m now # es) = in_time limit now True es"
| "in_time limit last_event seen (e # es) = False"

fun streamed :: "chat_event list \<Rightarrow> stream_event list" where
  "streamed [] = []"
| "streamed (Stream r e m now # es) = e # streamed es"
| "streamed (e # es) = streamed es"

fun chunk_text :: "stream_event \<Rightarrow> string" where
  "chunk_text (On_chunk t) = t"
| "chunk_text e = []"

definition so_far :: "string \<Rightarrow> string" where
  "so_far text = (if text = [] then ''Thinking ...'' else text)"

text \<open>The state while \<open>text\<close> has come.\<close>

definition answering :: "bubble list \<Rightarrow> nat \<Rightarrow> string \<Rightarrow> chat \<Rightarrow> bool" where
  "answering pre i text c \<longleftrightarrow>
     ch_inflight c \<and> ch_current c = Some i \<and> \<not> ch_freed c \<and> i \<notin> set (map bb_id pre) \<and>
     ch_bubbles c = pre @ [\<lparr>bb_id = i, bb_role = ''LIARA'', bb_assistant = True, bb_body = Label (so_far text), bb_chips = []\<rparr>] \<and>
     (ch_started c \<longleftrightarrow> text \<noteq> [])"

lemma answering_cong:
  "answering pre i text c \<Longrightarrow> ch_inflight c' = ch_inflight c \<Longrightarrow> ch_current c' = ch_current c \<Longrightarrow>
     ch_freed c' = ch_freed c \<Longrightarrow> ch_bubbles c' = ch_bubbles c \<Longrightarrow> ch_started c' = ch_started c \<Longrightarrow>
     answering pre i text c'"
  by (simp add: answering_def)

lemma map_not_id:
  "i \<notin> set (map bb_id pre) \<Longrightarrow> map (\<lambda>b. if bb_id b = i then f b else b) pre = pre"
  by (induction pre) auto

lemma find_not_id: "i \<notin> set (map bb_id pre) \<Longrightarrow> find (\<lambda>b. bb_id b = i) pre = None"
  by (auto simp: find_None_iff)

lemma answering_label: "answering pre i text c \<Longrightarrow> label_text i c = Inr (so_far text)"
  by (simp add: answering_def label_text_def bubble_at_def find_append_one find_not_id)

lemma answering_change:
  "answering pre i text c \<Longrightarrow>
     ch_bubbles (change_bubble i f c) =
       pre @ [f \<lparr>bb_id = i, bb_role = ''LIARA'', bb_assistant = True, bb_body = Label (so_far text), bb_chips = []\<rparr>]"
  by (simp add: answering_def change_bubble_def map_not_id)

lemma answering_chunk:
  assumes "answering pre i text c" "t \<noteq> []"
  shows "\<exists>c'. on_chat_stream_chunk t now c = Inr c' \<and> answering pre i (text @ t) c' \<and> ch_last_event c' = now \<and>
    ch_heartbeat_seen c' = ch_heartbeat_seen c \<and> ch_watchdog_seconds c' = ch_watchdog_seconds c"
proof -
  have "answering pre i text (chunking now c)" using assms(1) by (rule answering_cong) simp_all
  note ch = answering_change[OF this]
  have "on_chat_stream_chunk t now c =
    Inr ((change_bubble i (\<lambda>b. b\<lparr>bb_body := Label (so_far (text @ t))\<rparr>) (chunking now c))\<lparr>ch_started := True\<rparr>)"
    using assms chunk_label[OF _ _ answering_label[OF assms(1)] assms(2)]
    by (auto simp: answering_def so_far_def)
  moreover have "answering pre i (text @ t)
    ((change_bubble i (\<lambda>b. b\<lparr>bb_body := Label (so_far (text @ t))\<rparr>) (chunking now c))\<lparr>ch_started := True\<rparr>)"
    using assms ch by (simp add: answering_def)
  ultimately show ?thesis by simp
qed

lemma answering_progress:
  assumes "answering pre i text c"
  shows "\<exists>c'. on_chat_stream_progress cl p now c = Inr c' \<and> answering pre i text c' \<and>
    ch_last_event c' = (if p = [] then ch_last_event c else now) \<and>
    ch_heartbeat_seen c' = ch_heartbeat_seen c \<and> ch_watchdog_seconds c' = ch_watchdog_seconds c"
  using assms by (auto simp: on_chat_stream_progress_def Let_def answering_def split: option.split)

lemma answering_heartbeat:
  assumes "answering pre i text c"
  shows "\<exists>c'. on_chat_stream_heartbeat p now c = Inr c' \<and> answering pre i text c' \<and> ch_last_event c' = now \<and>
    ch_heartbeat_seen c' \<and> ch_watchdog_seconds c' = ch_watchdog_seconds c"
  using assms by (simp add: on_chat_stream_heartbeat_def answering_def)

text \<open>One event in time: the next state, with the window of \<open>in_time\<close> moved.\<close>

lemma answering_step:
  assumes "answering pre i text c"
    and "in_time (watchdog_limit c * 1000000) (ch_last_event c) (ch_heartbeat_seen c) (e # es)"
  shows "\<exists>c'. chat_step cl e c = Inr c' \<and> answering pre i (text @ concat (map chunk_text (streamed [e]))) c' \<and>
    in_time (watchdog_limit c' * 1000000) (ch_last_event c') (ch_heartbeat_seen c') es"
proof -
  have there: "\<not> ch_freed c" "ch_inflight c" using assms(1) by (simp_all add: answering_def)
  show ?thesis
  proof (cases e)
    case (Tick now)
    then have "on_stream_watchdog_tick now c = Inr c"
      using assms(2) there by (auto simp: on_stream_watchdog_tick_def)
    then show ?thesis using assms Tick by auto
  next
    case (Stream r ev m now)
    show ?thesis
    proof (cases ev)
      case (On_chunk t)
      show ?thesis
      proof (cases "t = []")
        case True
        then have "on_chat_stream_chunk t now c = Inr c"
          using there by (simp add: on_chat_stream_chunk_def split: option.split)
        then show ?thesis using assms Stream On_chunk True there by (simp add: used_def)
      next
        case False
        then show ?thesis
          using answering_chunk[OF assms(1) False, of now] assms(2) Stream On_chunk there
          by (auto simp: used_def watchdog_limit_def)
      qed
    next
      case (On_progress p)
      then show ?thesis
        using answering_progress[OF assms(1), of cl p now] assms(2) Stream there
        by (auto simp: used_def watchdog_limit_def)
    next
      case (On_heartbeat p)
      then show ?thesis
        using answering_heartbeat[OF assms(1), of p now] assms(2) Stream there
        by (auto simp: used_def watchdog_limit_def)
    next
      case (On_complete p failed)
      then show ?thesis using assms(2) Stream by simp
    qed
  qed (use assms(2) in simp_all)
qed

lemma streamed_Cons: "streamed (e # es) = streamed [e] @ streamed es"
  by (cases e) simp_all

lemma answering_play:
  assumes "answering pre i done_text c"
    and "in_time (watchdog_limit c * 1000000) (ch_last_event c) (ch_heartbeat_seen c) es"
  shows "\<exists>c'. play cl es c = Inr c' \<and> answering pre i (done_text @ concat (map chunk_text (streamed es))) c'"
  using assms
proof (induction es arbitrary: c done_text)
  case Nil
  then show ?case by simp
next
  case (Cons e es)
  obtain c' where c': "chat_step cl e c = Inr c'" "answering pre i (done_text @ concat (map chunk_text (streamed [e]))) c'"
      "in_time (watchdog_limit c' * 1000000) (ch_last_event c') (ch_heartbeat_seen c') es"
    using answering_step[OF Cons.prems] by blast
  then show ?case using Cons.IH[OF c'(2,3)] by (simp add: streamed_Cons[of e es])
qed


lemma thread_transcript:
  assumes "list_all (payload_ok \<circ> item_payload) items" "payload_ok f" "payload_ok d"
  shows "stream_request_thread all_callbacks parse
      (Some (ends, concat (map render_item items) @ render_event ''final'' f @ render_event ''done'' d @ rest))
    = map (item_event parse) items @ [On_complete (Some f) False]"
  using loop_items[OF assms(1), of parse ends "render_event ''final'' f @ render_event ''done'' d @ rest" None None]
  by (auto simp: stream_request_thread_def loop_final[OF assms(2)] loop_done[OF assms(3)])

lemma sent_answering:
  assumes "sends c" "chat_ok c" "\<not> ch_freed c"
  shows "answering (ch_bubbles c @ [\<lparr>bb_id = ch_next c, bb_role = ''You'', bb_assistant = False,
      bb_body = Rendered (strip (ch_input c)) [], bb_chips = []\<rparr>]) (Suc (ch_next c)) [] (on_send_chat_clicked now c)"
proof -
  have b: "bubbles_ok c" using assms(2) by (simp add: chat_ok_def)
  show ?thesis
    using assms(3) send_frame[OF assms(1) b, of now] b
    by (auto simp: answering_def so_far_def bubbles_ok_def list_all_iff)
qed

text \<open>The completion of an answer: \<open>r\<close> is the response of the document.\<close>

definition answer_body :: "client \<Rightarrow> string \<Rightarrow> string \<Rightarrow> string \<Rightarrow> body" where
  "answer_body cl streamed_text r payload =
     (if r = [] then Label (so_far streamed_text)
      else Rendered r (render_artifacts_from_chat_payload (cl_parse cl) (cl_host cl) (cl_base_url cl) (Some payload)))"

lemma answering_finish:
  assumes "answering pre i tx c" "extract_response_from_chat_payload (cl_parse cl) (Some f) = Some r"
  shows "\<exists>c'. finish_answer cl (Some f) c = Inr c' \<and> ch_bubbles c' = pre @
    [\<lparr>bb_id = i, bb_role = ''LIARA'', bb_assistant = True, bb_body = answer_body cl tx r f,
      bb_chips = render_assistant_metadata (cl_parse cl) (cl_conv cl) (Some f)\<rparr>]"
proof -
  have i: "ch_current c = Some i" "i \<notin> set (map bb_id pre)" using assms(1) by (simp_all add: answering_def)
  obtain b where b: "bubble_at c i = Some b" using answering_label[OF assms(1)] label_there_box by blast
  show ?thesis
    using answering_change[OF assms(1)] i b assms(2)
    by (simp add: finish_answer_def show_answer_def show_metadata_def render_content_def set_chips_def
        bubble_at_change answer_body_def) (simp add: change_bubble_def map_not_id)
qed

lemma answering_complete:
  assumes "answering pre i tx c" "extract_response_from_chat_payload (cl_parse cl) (Some f) = Some r"
  shows "\<exists>c'. chat_step cl (Stream q (On_complete (Some f) False) m t) c = Inr c' \<and> \<not> ch_inflight c' \<and>
    ch_current c' = None \<and> ch_send_sensitive c' \<and> ch_bubbles c' = pre @
    [\<lparr>bb_id = i, bb_role = ''LIARA'', bb_assistant = True, bb_body = answer_body cl tx r f,
      bb_chips = render_assistant_metadata (cl_parse cl) (cl_conv cl) (Some f)\<rparr>]"
proof -
  define c1 where "c1 = (mark_stream_activity t (close_request q c))\<lparr>ch_status_output := f\<rparr>"
  have a: "answering pre i tx c1" using assms(1) by (simp add: c1_def answering_def)
  obtain c2 where c2: "finish_answer cl (Some f) c1 = Inr c2" "ch_bubbles c2 = pre @
    [\<lparr>bb_id = i, bb_role = ''LIARA'', bb_assistant = True, bb_body = answer_body cl tx r f,
      bb_chips = render_assistant_metadata (cl_parse cl) (cl_conv cl) (Some f)\<rparr>]"
    using answering_finish[OF a assms(2)] by blast
  then show ?thesis
    using assms(1) by (simp add: used_def answering_def on_chat_stream_complete_alt c1_def[symmetric] reset_stream_ui_def
        set_stream_status_def)
qed

text \<open>
  C15: One question and its streamed answer, from the bytes that the server sends to the
  transcript. The thread of the request turns the bytes of a transcript of chunks,
  progress reports and heartbeats with a final document into callbacks; they are delivered in
  their order, among ticks of the watchdog of which none comes too late. Then one request with
  the question and the data of the form is posted and exactly two messages are added, the question without its outer white space and the answer: the response of
  the final document with its pictures, or the chunks put together if the response is empty, with the
  chips of the document; and the user can send again.
\<close>
theorem chat_round:
  assumes "chat_ok c" "sends c" "\<not> ch_freed c"
    and "list_all (payload_ok \<circ> item_payload) items" "payload_ok f" "payload_ok d"
    and "extract_response_from_chat_payload (cl_parse cl) (Some f) = Some r"
    and "stream_request_thread all_callbacks (cl_parse cl)
        (Some (ends, concat (map render_item items) @ render_event ''final'' f @ render_event ''done'' d @ rest))
      = streamed es @ [last_event]"
    and "in_time (watchdog_limit c * 1000000) now False es" "ch_stream_enabled c"
  shows "ch_posts (on_send_chat_clicked now c)
      = ch_posts c @ [Chat_stream (build_chat_body (ch_form c) (strip (ch_input c)))] \<and>
   (\<exists>c'. play cl (Send now # es @ [Stream (length (ch_posts c)) last_event m t]) c = Inr c' \<and>
    ch_bubbles c' = ch_bubbles c @
      [\<lparr>bb_id = ch_next c, bb_role = ''You'', bb_assistant = False, bb_body = Rendered (strip (ch_input c)) [], bb_chips = []\<rparr>,
       \<lparr>bb_id = Suc (ch_next c), bb_role = ''LIARA'', bb_assistant = True,
        bb_body = answer_body cl (concat (map (chunk_text \<circ> item_event (cl_parse cl)) items)) r f,
        bb_chips = render_assistant_metadata (cl_parse cl) (cl_conv cl) (Some f)\<rparr>] \<and>
    \<not> ch_inflight c' \<and> ch_send_sensitive c')"
proof -
  have ev: "streamed es = map (item_event (cl_parse cl)) items" "last_event = On_complete (Some f) False"
    using assms(8) thread_transcript[OF assms(4-6)] by simp_all
  have b: "bubbles_ok c" using assms(1) by (simp add: chat_ok_def)
  define pre where "pre = ch_bubbles c @ [\<lparr>bb_id = ch_next c, bb_role = ''You'', bb_assistant = False,
      bb_body = Rendered (strip (ch_input c)) [], bb_chips = []\<rparr>]"
  define c1 where "c1 = on_send_chat_clicked now c"
  have a: "answering pre (Suc (ch_next c)) [] c1"
    unfolding pre_def c1_def by (rule sent_answering[OF assms(2,1,3)])
  have "in_time (watchdog_limit c1 * 1000000) (ch_last_event c1) (ch_heartbeat_seen c1) es"
    using assms(9) send_frame(5,7,9)[OF assms(2) b, of now] by (simp add: c1_def watchdog_limit_def)
  from answering_play[OF a this, of cl] obtain c2 where c2: "play cl es c1 = Inr c2"
    "answering pre (Suc (ch_next c)) (concat (map chunk_text (streamed es))) c2" by auto
  have "ch_posts c1 = ch_posts c @ [Chat_stream (build_chat_body (ch_form c) (strip (ch_input c)))]"
    using assms(2,10)
    by (simp add: c1_def sends_def on_send_chat_clicked_def Let_def post_def append_chat_message_def set_stream_status_def
        mark_stream_activity_def)
  then show ?thesis
    using answering_complete[OF c2(2) assms(7), of "length (ch_posts c)" m t] c2(1)
    by (auto simp: play_append ev c1_def[symmetric] pre_def simp del: chat_step.simps(6))
qed


text \<open>Without an answer under way the callbacks of streams change nothing that is seen.\<close>

definition at_rest :: "chat \<Rightarrow> bool" where
  "at_rest c \<longleftrightarrow> \<not> ch_inflight c \<and> ch_current c = None \<and> \<not> ch_freed c"

lemma rest_step:
  "at_rest c \<Longrightarrow> \<exists>c'. chat_step cl (Stream q e m t) c = Inr c' \<and> at_rest c' \<and> ch_bubbles c' = ch_bubbles c \<and>
     ch_status_output c' = ch_status_output c"
  by (cases e) (auto simp: at_rest_def used_def on_chat_stream_chunk_def on_chat_stream_progress_def
      on_chat_stream_heartbeat_def on_chat_stream_complete_def close_request_def)

lemma rest_play:
  "at_rest c \<Longrightarrow> \<exists>c'. play cl (map (\<lambda>(e, m, t). Stream q e m t) fs) c = Inr c' \<and> ch_bubbles c' = ch_bubbles c"
proof (induction fs arbitrary: c)
  case (Cons x fs)
  obtain e m t where x: "x = (e, m, t)" by (cases x)
  obtain c1 where c1: "chat_step cl (Stream q e m t) c = Inr c1" "at_rest c1" "ch_bubbles c1 = ch_bubbles c"
    using rest_step[OF Cons.prems] by blast
  show ?case using Cons.IH[OF c1(2)] c1 x by (simp del: chat_step.simps)
qed simp

lemma timed_out_frame:
  assumes "chat_ok c" "current_there c" "ch_inflight c" "\<not> ch_heartbeat_seen c"
    and "now - ch_last_event c > watchdog_limit c * 1000000"
  shows "\<exists>c'. on_stream_watchdog_tick now c = Inr c' \<and> \<not> ch_inflight c' \<and> ch_open c' = ch_open c \<and>
    ch_posts c' = ch_posts c \<and> ch_freed c' = ch_freed c \<and> ch_next c' = ch_next c"
proof -
  obtain i where i: "ch_current c = Some i" using inflight_current[OF assms(1,3)] by blast
  then obtain t where "label_text i c = Inr t" using assms(2) current_label by blast
  then show ?thesis
    using assms i by (simp add: on_stream_watchdog_tick_def set_label_Inr reset_stream_ui_def Let_def set_stream_status_def)
qed

text \<open>
  After a timeout the next answer can be taken for the last one. The watchdog ends the answer to a
  request that is still open; the user asks again; and what then still arrives for the first request
  is shown as the answer to the second question: its chunks, then its final document, which also
  ends the wait. All that the thread of the second request delivers afterwards, its answer
  included, is dropped. No callback compares the request it belongs to with the current one.
\<close>
lemma late_answer_taken_for_new:
  assumes "chat_ok c" "current_there c" "ch_inflight c" "\<not> ch_heartbeat_seen c" "\<not> ch_freed c"
    and "late - ch_last_event c > watchdog_limit c * 1000000"
    and "old \<in> set (ch_open c)" "old < length (ch_posts c)" "is_stream (ch_posts c ! old)"
    and "strip question \<noteq> []" "x \<noteq> []"
    and "extract_response_from_chat_payload (cl_parse cl) (Some f) = Some r"
  shows "\<exists>c1 c2 pre. play cl [Tick late, Typed question, Send t0] c = Inr c1 \<and>
      enabled c1 (Stream old (On_chunk x) m1 t1) \<and>
      play cl [Stream old (On_chunk x) m1 t1, Stream old (On_complete (Some f) False) m2 t2] c1 = Inr c2 \<and>
      ch_bubbles c2 = pre @
       [\<lparr>bb_id = ch_next c, bb_role = ''You'', bb_assistant = False, bb_body = Rendered (strip question) [], bb_chips = []\<rparr>,
        \<lparr>bb_id = Suc (ch_next c), bb_role = ''LIARA'', bb_assistant = True, bb_body = answer_body cl x r f,
         bb_chips = render_assistant_metadata (cl_parse cl) (cl_conv cl) (Some f)\<rparr>] \<and>
      \<not> ch_inflight c2 \<and>
      (\<exists>c3. play cl (map (\<lambda>(e, m, t). Stream (length (ch_posts c)) e m t) fs) c2 = Inr c3 \<and> ch_bubbles c3 = ch_bubbles c2)"
proof -
  obtain ct where ct: "on_stream_watchdog_tick late c = Inr ct" "\<not> ch_inflight ct" "ch_open ct = ch_open c"
      "ch_posts ct = ch_posts c" "ch_freed ct = ch_freed c" "ch_next ct = ch_next c"
    using timed_out_frame[OF assms(1-4,6)] by blast
  define cq where "cq = ct\<lparr>ch_input := question\<rparr>"
  have "chat_ok ct" using tick_keeps[OF assms(1), of late] ct(1) by simp
  then have "chat_ok cq" by (simp add: cq_def input_ok)
  then have q: "chat_ok cq" "sends cq" "\<not> ch_freed cq" "ch_next cq = ch_next c" "bubbles_ok cq"
    using ct assms(5,10) by (simp_all add: cq_def sends_def) (simp add: chat_ok_def)
  define c1 where "c1 = on_send_chat_clicked t0 cq"
  define pre where "pre = ch_bubbles cq @ [\<lparr>bb_id = ch_next c, bb_role = ''You'', bb_assistant = False,
      bb_body = Rendered (strip question) [], bb_chips = []\<rparr>]"
  have a: "answering pre (Suc (ch_next c)) [] c1"
    using sent_answering[OF q(2,1,3), of t0] by (simp add: pre_def c1_def q(4)) (simp add: cq_def)
  have posts: "\<exists>p. ch_posts c1 = ch_posts c @ [p]" "ch_open c1 = ch_open c @ [length (ch_posts c)]"
    using send_frame(10)[OF q(2,5), of t0] q(2) ct(3,4)
    by (auto simp: c1_def cq_def sends_def on_send_chat_clicked_def Let_def post_def append_chat_message_def
        set_stream_status_def mark_stream_activity_def)
  obtain c' where c': "on_chat_stream_chunk x t1 c1 = Inr c'" "answering pre (Suc (ch_next c)) x c'"
    using answering_chunk[OF a assms(11), of t1] by auto
  obtain c2 where c2: "chat_step cl (Stream old (On_complete (Some f) False) m2 t2) c' = Inr c2" "\<not> ch_inflight c2" "ch_current c2 = None"
      "ch_bubbles c2 = pre @ [\<lparr>bb_id = Suc (ch_next c), bb_role = ''LIARA'', bb_assistant = True, bb_body = answer_body cl x r f,
         bb_chips = render_assistant_metadata (cl_parse cl) (cl_conv cl) (Some f)\<rparr>]"
    using answering_complete[OF c'(2) assms(12)] by blast
  have "at_rest c2"
    using step_freed[OF c2(1)] c2(2,3) c'(2) by (simp add: at_rest_def answering_def)
  from rest_play[OF this] obtain c3 where
    "play cl (map (\<lambda>(e, m, t). Stream (length (ch_posts c)) e m t) fs) c2 = Inr c3" "ch_bubbles c3 = ch_bubbles c2" by blast
  moreover have "play cl [Tick late, Typed question, Send t0] c = Inr c1"
    using ct(1) by (simp add: cq_def[symmetric] c1_def)
  moreover have "enabled c1 (Stream old (On_chunk x) m1 t1)"
    using posts assms(7-9) by (auto simp: nth_append)
  moreover have "\<not> ch_freed c1" using a by (simp add: answering_def)
  ultimately show ?thesis
    using c'(1) c2 by (intro exI[of _ c1] exI[of _ c2] exI[of _ "ch_bubbles cq"])
      (simp add: pre_def used_def del: chat_step.simps(6), simp add: used_def)
qed


section \<open>Concrete conversations\<close>

definition demo_chat :: chat where
  "demo_chat = \<lparr>ch_bubbles = [], ch_next = 0, ch_current = None, ch_started = False, ch_inflight = False, ch_watchdog = False,
     ch_last_event = 0, ch_heartbeat_seen = False, ch_badge = ''STREAM IDLE'', ch_detail = [], ch_variant = [],
     ch_status_output = [], ch_send_sensitive = True, ch_send_label = ''Send'', ch_input = ''hi'',
     ch_form = \<lparr>fm_session_id = ''s'', fm_user_id = ''u'', fm_display_name = None, fm_sandbox_root = [], fm_max_tokens = 64\<rparr>,
     ch_stream_enabled = True, ch_watchdog_seconds = 60, ch_dev_mode = False, ch_posts = [], ch_open = [], ch_freed = False\<rparr>"

definition demo_client :: "json \<Rightarrow> client" where
  "demo_client response = \<lparr>cl_parse = (\<lambda>s. Inr (JObject [(''response'', response), (''text'', JString s)])), cl_conv = (\<lambda>_. 0),
     cl_host = \<lparr>h_is_absolute = (\<lambda>_. True), h_is_regular = (\<lambda>_. False), h_getenv = (\<lambda>_. None), h_cwd = [],
       h_build_filename = concat\<rparr>, cl_base_url = None\<rparr>"

abbreviation demo_asked :: chat where "demo_asked \<equiv> on_send_chat_clicked 0 demo_chat"

lemma demo_chat_ok: "chat_ok demo_chat" "current_there demo_chat" "sends demo_chat" "\<not> ch_freed demo_chat"
  "ch_stream_enabled demo_chat"
  by (simp_all add: demo_chat_def chat_ok_def bubbles_ok_def flags_ok_def requests_ok_def current_there_def sends_def
      strip_def glib_space_def code_of_def)

lemma demo_asked_ok:
  "chat_ok demo_asked" "current_there demo_asked" "ch_inflight demo_asked" "\<not> ch_heartbeat_seen demo_asked"
  "\<not> ch_freed demo_asked" "ch_last_event demo_asked = 0" "watchdog_limit demo_asked = 60"
  "ch_open demo_asked = [0]" "length (ch_posts demo_asked) = 1" "is_stream (ch_posts demo_asked ! 0)"
  using send_ok[OF demo_chat_ok(1), of 0] send_there[OF demo_chat_ok(1,2), of 0]
    send_frame[OF demo_chat_ok(3), of 0] demo_chat_ok
  by (simp_all add: chat_ok_def watchdog_limit_def) (simp_all add: demo_chat_def on_send_chat_clicked_def Let_def post_def
      append_chat_message_def set_stream_status_def mark_stream_activity_def strip_def glib_space_def code_of_def)

lemma demo_response:
  "extract_response_from_chat_payload (cl_parse (demo_client v)) (Some p) = node_string v"
  by (simp add: demo_client_def extract_response_from_chat_payload_def payload_object_def contains_def string_member_def
      map_find_def)


theorem conversation_ok_witness:
  "\<exists>c. chat_step (demo_client JNull) (Send 0) demo_chat = Inr c \<and> chat_ok c \<and> current_there c \<and> \<not> ch_freed c"
proof -
  have "conversation (demo_client JNull) (careful (demo_client JNull)) demo_chat ([] @ [Send 0])
      (chat_step (demo_client JNull) (Send 0) demo_chat)"
    by (rule conversation.intros(2)[OF conversation.intros(1)]) (simp_all add: demo_chat_ok)
  then show ?thesis using conversation_ok[OF demo_chat_ok(1)] demo_chat_ok(2,4) by blast
qed

lemma chat_faults_witness:
  "chat_step (demo_client JNull) (Stream 0 (On_complete (Some ''x'') False) [] 0) demo_asked = Inl Null_response"
  using chat_faults[OF demo_chat_ok(1,3,4), of "''x''" "demo_client JNull" "Some ''x''" 0 0 "[]" 0]
  by (simp add: demo_response Let_def)


theorem chat_round_witness:
  "\<exists>c'. play (demo_client (JString ''r'')) [Send 0, Stream 0 (On_chunk ''a'') [] 1, Stream 0 (On_complete (Some ''b'') False) [] 2]
       demo_chat = Inr c' \<and> \<not> ch_inflight c'"
proof -
  let ?cl = "demo_client (JString ''r'')"
  have ok: "list_all (payload_ok \<circ> item_payload) [Chunk_item ''a'']" "payload_ok ''b''" "payload_ok ''c''"
    by (simp_all add: payload_ok_def stripped_def glib_space_def code_of_def c_utf8_ascii)
  have t: "extract_chunk_text (cl_parse ?cl) ''a'' = ''a''"
    by (simp add: extract_chunk_text_def demo_client_def map_find_def)
  have run: "stream_request_thread all_callbacks (cl_parse ?cl)
      (Some (True, concat (map render_item [Chunk_item ''a'']) @ render_event ''final'' ''b'' @ render_event ''done'' ''c'' @ []))
    = streamed [Stream 0 (On_chunk ''a'') [] 1] @ [On_complete (Some ''b'') False]"
    unfolding thread_transcript[OF ok] by (simp add: t)
  have "extract_response_from_chat_payload (cl_parse ?cl) (Some ''b'') = Some ''r''" by (simp add: demo_response)
  from chat_round[OF demo_chat_ok(1,3,4) ok this run _ demo_chat_ok(5), of 0 "[]" 2] show ?thesis
    by (auto simp: demo_chat_def)
qed

lemma late_answer_taken_for_new_witness:
  "\<exists>c1 c2. play (demo_client (JString ''r'')) [Tick 60000001, Typed ''next'', Send 60000002] demo_asked = Inr c1 \<and>
     play (demo_client (JString ''r'')) [Stream 0 (On_chunk ''a'') [] 60000003,
       Stream 0 (On_complete (Some ''f'') False) [] 60000004] c1 = Inr c2 \<and> \<not> ch_inflight c2"
proof -
  have "strip ''next'' \<noteq> []" by (simp add: strip_def glib_space_def code_of_def)
  moreover have "extract_response_from_chat_payload (cl_parse (demo_client (JString ''r''))) (Some ''f'') = Some ''r''"
    by (simp add: demo_response)
  ultimately show ?thesis
    using late_answer_taken_for_new[OF demo_asked_ok(1-5), of 60000001 0 "''next''" "''a''" "demo_client (JString ''r'')"
      "''f''" "''r''" 60000002 "[]" 60000003 "[]" 60000004 "[]"]
    by (auto simp: demo_asked_ok simp del: play.simps)
qed

end
