(* ===== verification/Manager_Config.thy ===== *)
theory Manager_Config
  imports Glib
begin

text \<open>
  The configuration of the server manager (\<open>frontend/server-manager/src/manager_config.c\<close> and the
  log levels of \<open>manager_logging.c\<close>): its JSON file, written back when it is missing or broken, and
  the file of environment settings that the services are started with. The generator and the
  parser of json-glib, the conversion of a \<open>double\<close> to \<open>gint64\<close>, the contents of the files and the
  joining of paths are parameters.
\<close>

section \<open>Log levels\<close>

datatype LogLevel = LOG_LEVEL_DEBUG | LOG_LEVEL_INFO | LOG_LEVEL_WARN | LOG_LEVEL_ERROR

fun log_level_to_string :: "LogLevel \<Rightarrow> string" where
  "log_level_to_string LOG_LEVEL_DEBUG = ''DEBUG''"
| "log_level_to_string LOG_LEVEL_INFO = ''INFO''"
| "log_level_to_string LOG_LEVEL_WARN = ''WARN''"
| "log_level_to_string LOG_LEVEL_ERROR = ''ERROR''"

definition parse_log_level :: "string option \<Rightarrow> LogLevel" where
  "parse_log_level v =
     (case v of
        None \<Rightarrow> LOG_LEVEL_INFO
      | Some s \<Rightarrow>
          if s = [] then LOG_LEVEL_INFO
          else if same_nocase s ''debug'' then LOG_LEVEL_DEBUG
          else if same_nocase s ''info'' then LOG_LEVEL_INFO
          else if same_nocase s ''warn'' \<or> same_nocase s ''warning'' then LOG_LEVEL_WARN
          else if same_nocase s ''error'' then LOG_LEVEL_ERROR
          else LOG_LEVEL_INFO)"

section \<open>The configuration file\<close>

text \<open>The fields of \<open>AppState\<close> that the file holds; a path may be NULL.\<close>

record manager_config =
  autostart_enabled :: bool
  restart_on_nonzero :: bool
  start_delay_ms :: u32
  log_level :: LogLevel
  env_file_path :: "string option"

definition config_json :: "manager_config \<Rightarrow> json" where
  "config_json app = object
     [(''autostart'', JBool (autostart_enabled app)),
      (''env_file'', JString (case env_file_path app of None \<Rightarrow> [] | Some p \<Rightarrow> p)),
      (''restart_on_nonzero'', JBool (restart_on_nonzero app)),
      (''start_delay_ms'', JInt (uint (start_delay_ms app))),
      (''log_level'', JString (log_level_to_string (log_level app)))]"

definition save_server_manager_config :: "(json \<Rightarrow> string) \<Rightarrow> manager_config \<Rightarrow> string" where
  "save_server_manager_config gen app = gen (config_json app)"

definition build_default_env_file_path :: "(string \<Rightarrow> string \<Rightarrow> string) \<Rightarrow> string option \<Rightarrow> string option" where
  "build_default_env_file_path join project_root =
     (case project_root of
        None \<Rightarrow> None
      | Some r \<Rightarrow> if r = [] then None else Some (join r ''.env''))"

definition default_config :: "(string \<Rightarrow> string \<Rightarrow> string) \<Rightarrow> string option \<Rightarrow> manager_config" where
  "default_config join project_root =
     \<lparr>autostart_enabled = False, restart_on_nonzero = False, start_delay_ms = 1500,
      log_level = LOG_LEVEL_INFO, env_file_path = build_default_env_file_path join project_root\<rparr>"

definition value_member :: "json \<Rightarrow> string \<Rightarrow> json option" where
  "value_member obj key =
     (case member obj key of Some v \<Rightarrow> if holds_value v then Some v else None | None \<Rightarrow> None)"

definition read_config :: "(fp \<Rightarrow> int) \<Rightarrow> json \<Rightarrow> manager_config \<Rightarrow> manager_config" where
  "read_config conv obj app =
     (let app = (case value_member obj ''autostart'' of
                   None \<Rightarrow> app | Some v \<Rightarrow> app\<lparr>autostart_enabled := node_boolean v\<rparr>);
          app = (case value_member obj ''env_file'' of
                   None \<Rightarrow> app
                 | Some v \<Rightarrow> (case node_string v of
                      None \<Rightarrow> app
                    | Some env_file \<Rightarrow> if env_file = [] then app else app\<lparr>env_file_path := Some env_file\<rparr>));
          app = (case value_member obj ''restart_on_nonzero'' of
                   None \<Rightarrow> app | Some v \<Rightarrow> app\<lparr>restart_on_nonzero := node_boolean v\<rparr>);
          app = (case value_member obj ''start_delay_ms'' of
                   None \<Rightarrow> app
                 | Some v \<Rightarrow> app\<lparr>start_delay_ms := word_of_int (max 0 (node_int conv v))\<rparr>)
      in case value_member obj ''log_level'' of
           None \<Rightarrow> app | Some v \<Rightarrow> app\<lparr>log_level := parse_log_level (node_string v)\<rparr>)"

text \<open>
  The file is \<open>None\<close> when it does not exist. The result holds what is written, if anything is.
\<close>

definition load_server_manager_config ::
  "(string \<Rightarrow> json result) \<Rightarrow> (json \<Rightarrow> string) \<Rightarrow> (fp \<Rightarrow> int) \<Rightarrow> (string \<Rightarrow> string \<Rightarrow> string)
     \<Rightarrow> string option \<Rightarrow> string option \<Rightarrow> manager_config \<times> string option" where
  "load_server_manager_config parse gen conv join project_root file =
     (let app = default_config join project_root;
          give_up = (app, Some (save_server_manager_config gen app))
      in case file of
           None \<Rightarrow> give_up
         | Some content \<Rightarrow>
             (case parse content of
                Inl _ \<Rightarrow> give_up
              | Inr doc \<Rightarrow> if is_object doc then (read_config conv doc app, None) else give_up))"

section \<open>Environment settings\<close>

definition trimmed_copy :: "string \<Rightarrow> string" where "trimmed_copy v = strip v"

definition normalize_env_value :: "string \<Rightarrow> string" where
  "normalize_env_value raw_value =
     (let v = trimmed_copy raw_value in
      if length v \<ge> 2 \<and> ((hd v = CHR 0x22 \<and> last v = CHR 0x22) \<or> (hd v = CHR 0x27 \<and> last v = CHR 0x27))
      then butlast (tl v) else v)"

text \<open>One line: the setting it makes, if any.\<close>

definition env_line :: "string \<Rightarrow> (string \<times> string) option" where
  "env_line line =
     (let line = trimmed_copy line in
      if line = [] \<or> hd line = CHR ''#'' then None
      else let effective_line = (if starts_with ''export '' line then strip (drop 7 line) else line) in
        (case find_str ''='' effective_line of
           None \<Rightarrow> None
         | Some equals \<Rightarrow>
             let key = trimmed_copy (take equals effective_line);
                 v = normalize_env_value (drop (Suc equals) effective_line)
             in if key = [] then None else Some (key, v)))"

text \<open>
  The settings made, in order; each overwrites the one before. The contents are a C string, and
  \<open>None\<close> is a file that is missing or cannot be read.
\<close>

definition env_entries :: "string \<Rightarrow> (string \<times> string) list" where
  "env_entries content =
     List.map_filter env_line (split_at (CHR 0x0A) (takeWhile (\<lambda>c. code_of c \<noteq> 0) content))"

definition apply_env_file_to_launcher :: "string option \<Rightarrow> (string \<Rightarrow> string option) \<Rightarrow> (string \<times> string) list" where
  "apply_env_file_to_launcher env_file fs =
     (case env_file of
        None \<Rightarrow> []
      | Some path \<Rightarrow>
          if path = [] then [] else (case fs path of None \<Rightarrow> [] | Some content \<Rightarrow> env_entries content))"

section \<open>The configuration survives\<close>

lemma parse_log_level_show: "parse_log_level (Some (log_level_to_string l)) = l"
  by (cases l; hypsubst; code_simp)

lemma is_object_config [simp]: "is_object (config_json app)"
  by (simp add: config_json_def)

definition effective_env_file ::
  "(string \<Rightarrow> string \<Rightarrow> string) \<Rightarrow> string option \<Rightarrow> string option \<Rightarrow> string option" where
  "effective_env_file join project_root env_file =
     (if env_file = None \<or> env_file = Some [] then build_default_env_file_path join project_root
      else env_file)"

lemma read_config_json:
  "read_config conv (config_json app) (default_config join project_root)
     = app\<lparr>env_file_path := effective_env_file join project_root (env_file_path app)\<rparr>"
  by (simp add: read_config_def config_json_def value_member_def parse_log_level_show
      default_config_def effective_env_file_def split: option.split)

lemma read_delay:
  assumes "0 \<le> k"
  shows "start_delay_ms (read_config conv (object [(''start_delay_ms'', JInt (2 ^ 32 + k))]) app)
    = word_of_int k"
proof -
  have "(word_of_int (2 ^ 32 + k) :: u32) = word_of_int k"
    by (simp add: word_of_int_eq_iff take_bit_eq_mod)
  then show ?thesis using assms by (simp add: read_config_def value_member_def max_def)
qed

lemma load_saved:
  assumes "parse (gen (config_json a)) = Inr (config_json a)"
  shows "load_server_manager_config parse gen conv join project_root
           (Some (save_server_manager_config gen a))
         = (a\<lparr>env_file_path := effective_env_file join project_root (env_file_path a)\<rparr>, None)"
  by (simp add: load_server_manager_config_def save_server_manager_config_def assms read_config_json)

text \<open>
  The configuration that is saved is the one that is loaded, as long as the parser reads what
  the generator writes: all fields come back, and an environment file that is not set becomes the
  default one. A missing or broken file gives the defaults and is replaced by them, and loading
  again then gives the defaults without writing. A delay of 2^32 ms or more loses its upper bits.
\<close>

lemma manager_config_roundtrip:
  assumes "parse (gen (config_json app)) = Inr (config_json app)"
    and "parse (gen (config_json (default_config join project_root)))
      = Inr (config_json (default_config join project_root))"
    and "stored = None \<or> (\<exists>content e. stored = Some content \<and> parse content = Inl e)" "0 \<le> k"
  shows "load_server_manager_config parse gen conv join project_root
           (Some (save_server_manager_config gen app))
         = (app\<lparr>env_file_path := effective_env_file join project_root (env_file_path app)\<rparr>, None)
    \<and> (\<exists>written. load_server_manager_config parse gen conv join project_root stored
            = (default_config join project_root, Some written)
          \<and> load_server_manager_config parse gen conv join project_root (Some written)
            = (default_config join project_root, None))
    \<and> start_delay_ms (read_config conv (object [(''start_delay_ms'', JInt (2 ^ 32 + k))]) app)
        = word_of_int k"
proof -
  let ?d = "default_config join project_root"
  have "?d\<lparr>env_file_path := effective_env_file join project_root (env_file_path ?d)\<rparr> = ?d"
    by (simp add: default_config_def effective_env_file_def)
  moreover have "load_server_manager_config parse gen conv join project_root stored
      = (?d, Some (save_server_manager_config gen ?d))"
    using assms(3) by (auto simp: load_server_manager_config_def Let_def)
  ultimately show ?thesis
    using load_saved [of parse gen app conv join project_root, OF assms(1)]
      load_saved [of parse gen ?d conv join project_root, OF assms(2)] read_delay [OF assms(4)] by auto
qed

definition demo_config :: manager_config where
  "demo_config = \<lparr>autostart_enabled = True, restart_on_nonzero = True, start_delay_ms = 10,
     log_level = LOG_LEVEL_WARN, env_file_path = Some ''e''\<rparr>"

lemma manager_config_roundtrip_witness:
  "load_server_manager_config (\<lambda>s. if s = ''a'' then Inr (config_json demo_config)
       else if s = ''d'' then Inr (config_json (default_config (@) None)) else Inl Invalid_argument)
     (\<lambda>j. if j = config_json demo_config then ''a'' else ''d'') (\<lambda>_. 0) (@) None (Some ''a'')
   = (demo_config, None)"
proof -
  let ?parse = "\<lambda>s. if s = ''a'' then Inr (config_json demo_config)
       else if s = ''d'' then Inr (config_json (default_config (@) None)) else Inl Invalid_argument"
  let ?gen = "\<lambda>j. if j = config_json demo_config then ''a'' else ''d''"
  have ne: "config_json (default_config (@) None) \<noteq> config_json demo_config"
  proof
    assume "config_json (default_config (@) None) = config_json demo_config"
    then have "member (config_json (default_config (@) None)) ''autostart''
        = member (config_json demo_config) ''autostart''" by simp
    then show False by (simp add: config_json_def default_config_def demo_config_def)
  qed
  have "?parse (?gen (config_json demo_config)) = Inr (config_json demo_config)"
    "?parse (?gen (config_json (default_config (@) None))) = Inr (config_json (default_config (@) None))"
    using ne by simp_all
  from manager_config_roundtrip [where parse = ?parse and gen = ?gen and stored = None and k = 0 and
      app = demo_config and join = "(@)" and project_root = None and conv = "\<lambda>_. 0", OF this]
  show ?thesis by (simp add: save_server_manager_config_def effective_env_file_def demo_config_def)
qed

section \<open>The settings survive\<close>

datatype env_item = Setting bool string string | Note_line string | Empty_line

fun render_env_item :: "env_item \<Rightarrow> string" where
  "render_env_item (Setting exported key v) =
     (if exported then ''export '' else []) @ key @ ''='' @ [CHR 0x22] @ v @ [CHR 0x22]"
| "render_env_item (Note_line t) = CHR ''#'' # t"
| "render_env_item Empty_line = []"

definition clean :: "string \<Rightarrow> bool" where
  "clean s \<longleftrightarrow> list_all (\<lambda>c. code_of c \<noteq> 0 \<and> c \<noteq> CHR 0x0A) s"

fun env_item_ok :: "env_item \<Rightarrow> bool" where
  "env_item_ok (Setting exported key v) =
     (key \<noteq> [] \<and> clean key \<and> clean v \<and> stripped key \<and> CHR ''='' \<notin> set key \<and> hd key \<noteq> CHR ''#''
      \<and> \<not> starts_with ''export '' key)"
| "env_item_ok (Note_line t) = (clean t \<and> stripped (CHR ''#'' # t))"
| "env_item_ok Empty_line = True"

fun env_item_entry :: "env_item \<Rightarrow> (string \<times> string) option" where
  "env_item_entry (Setting exported key v) = Some (key, v)"
| "env_item_entry _ = None"

definition render_env :: "env_item list \<Rightarrow> string" where
  "render_env items = concat (map (\<lambda>i. render_env_item i @ [CHR 0x0A]) items)"

lemma clean_simps [simp]:
  "clean []" "clean (c # s) \<longleftrightarrow> code_of c \<noteq> 0 \<and> c \<noteq> CHR 0x0A \<and> clean s" "clean (s @ t) \<longleftrightarrow> clean s \<and> clean t"
  by (auto simp: clean_def)

lemma normalize_quoted: "normalize_env_value (CHR 0x22 # v @ [CHR 0x22]) = v"
  by (simp add: normalize_env_value_def trimmed_copy_def stripped_def glib_space_def code_of_def)

lemma find_equals: "CHR ''='' \<notin> set key \<Longrightarrow> find_str ''='' (key @ CHR ''='' # t) = Some (length key)"
proof (induction key)
  case Nil
  then show ?case by (subst find_str.simps) (simp add: starts_with_def)
next
  case (Cons c key)
  then show ?case by (subst find_str.simps) (auto simp: starts_with_def)
qed

lemma env_assignment:
  assumes "key \<noteq> []" "stripped key" "CHR ''='' \<notin> set key"
  shows "(case find_str ''='' (key @ CHR ''='' # CHR 0x22 # v @ [CHR 0x22]) of
       None \<Rightarrow> None
     | Some equals \<Rightarrow>
         let k = trimmed_copy (take equals (key @ CHR ''='' # CHR 0x22 # v @ [CHR 0x22]));
             w = normalize_env_value (drop (Suc equals) (key @ CHR ''='' # CHR 0x22 # v @ [CHR 0x22]))
         in if k = [] then None else Some (k, w)) = Some (key, v)"
  using assms by (simp add: find_equals normalize_quoted trimmed_copy_def)

lemma not_prefix_append:
  assumes "\<not> starts_with ''export '' key" "CHR ''='' \<notin> set key"
  shows "\<not> starts_with ''export '' (key @ CHR ''='' # t)"
proof
  assume "starts_with ''export '' (key @ CHR ''='' # t)"
  then have e: "take 7 (key @ CHR ''='' # t) = ''export ''" by (simp add: starts_with_def eval_nat_numeral)
  show False
  proof (cases "7 \<le> length key")
    case True
    then show False using e assms(1) by (simp add: starts_with_def eval_nat_numeral)
  next
    case False
    then have "CHR ''='' \<in> set (take 7 (key @ CHR ''='' # t))" by (cases "7 - length key") auto
    with e have "CHR ''='' \<in> set ''export ''" by simp
    then show False by simp
  qed
qed

lemma env_line_item:
  assumes "env_item_ok i"
  shows "env_line (render_env_item i) = env_item_entry i"
proof (cases i)
  case (Setting exported key v)
  define a where "a = key @ CHR ''='' # CHR 0x22 # v @ [CHR 0x22]"
  have k: "key \<noteq> []" "stripped key" "CHR ''='' \<notin> set key" "hd key \<noteq> CHR ''#''"
    "\<not> starts_with ''export '' key" using assms Setting by auto
  have q: "\<not> glib_space (CHR 0x22)" by (simp add: glib_space_def code_of_def)
  have a: "stripped a" "a \<noteq> []" "hd a \<noteq> CHR ''#''" "\<not> starts_with ''export '' a"
    using k not_prefix_append [OF k(5,3)] q by (auto simp: a_def stripped_def)
  have r: "env_line s = Some (key, v)"
    if "trimmed_copy s \<noteq> []" "hd (trimmed_copy s) \<noteq> CHR ''#''"
      "(if starts_with ''export '' (trimmed_copy s) then strip (drop 7 (trimmed_copy s)) else trimmed_copy s) = a" for s
    using that(1,2) env_assignment [OF k(1-3), of v]
    unfolding env_line_def Let_def that(3) unfolding a_def by simp
  show ?thesis
  proof (cases exported)
    case True
    have x: "trimmed_copy (''export '' @ a) = ''export '' @ a"
      using a(1,2) by (simp add: trimmed_copy_def stripped_def glib_space_def code_of_def)
    show ?thesis
      using r [of "''export '' @ a"] a True Setting unfolding x by (simp add: a_def starts_with_def)
  next
    case False
    then show ?thesis
      using r [of a] a Setting by (simp add: trimmed_copy_def) (simp add: a_def)
  qed
next
  case (Note_line t)
  then show ?thesis using assms by (simp add: env_line_def trimmed_copy_def Let_def)
next
  case Empty_line
  then show ?thesis by (simp add: env_line_def trimmed_copy_def strip_def)
qed

lemma clean_item: "env_item_ok i \<Longrightarrow> clean (render_env_item i)"
  by (cases i) (auto simp: code_of_def)

lemma env_line_empty: "env_line [] = None"
  by (simp add: env_line_def trimmed_copy_def strip_def)

lemma clean_whole: "list_all env_item_ok items \<Longrightarrow> list_all (\<lambda>c. code_of c \<noteq> 0) (render_env items)"
proof (induction items)
  case (Cons i items)
  have "list_all (\<lambda>c. code_of c \<noteq> 0) (render_env_item i)"
    using clean_item [of i] Cons.prems unfolding clean_def by (simp add: list_all_iff)
  moreover have "render_env (i # items) = render_env_item i @ CHR 0x0A # render_env items"
    by (simp add: render_env_def)
  ultimately show ?case using Cons by (simp add: code_of_def)
qed (simp add: render_env_def)

lemma render_env_lines: "render_env items = concat (map (\<lambda>l. l @ [CHR 0x0A]) (map render_env_item items))"
  by (simp add: render_env_def comp_def)

text \<open>
  A service is started with the settings its file holds: of a file of settings (with or
  without \<open>export\<close>, values in double quotes, which may hold quotes themselves), notes and empty lines,
  exactly the settings are made, in their order; a missing file makes none.
\<close>

lemma env_file_roundtrip:
  assumes "list_all env_item_ok items" "path \<noteq> []" "fs path = Some (render_env items)"
  shows "apply_env_file_to_launcher (Some path) fs = List.map_filter env_item_entry items
    \<and> apply_env_file_to_launcher None fs = []
    \<and> (fs other = None \<longrightarrow> apply_env_file_to_launcher (Some other) fs = [])"
proof -
  have c: "takeWhile (\<lambda>c. code_of c \<noteq> 0) (render_env items) = render_env items"
    using clean_whole [OF assms(1)] by (simp add: takeWhile_eq_all_conv list_all_iff)
  have "list_all (\<lambda>l. CHR 0x0A \<notin> set l) (map render_env_item items)"
    using assms(1) clean_item by (fastforce simp: list_all_iff clean_def)
  then have "split_at (CHR 0x0A) (render_env items) = map render_env_item items @ [[]]"
    unfolding render_env_lines by (rule split_at_lines)
  moreover have "List.map_filter env_line (map render_env_item items @ [[]])
      = List.map_filter env_item_entry items"
    using assms(1) by (induction items) (auto simp: map_filter_simps env_line_item env_line_empty split: option.split)
  ultimately have "env_entries (render_env items) = List.map_filter env_item_entry items"
    unfolding env_entries_def c by simp
  then show ?thesis using assms(2,3) by (simp add: apply_env_file_to_launcher_def)
qed

definition demo_env :: "env_item list" where
  "demo_env = [Note_line '' x'', Setting True ''A'' ''1 2'', Empty_line, Setting False ''B'' []]"

lemma env_file_roundtrip_witness:
  "apply_env_file_to_launcher (Some ''.env'') (\<lambda>_. Some (render_env demo_env)) = [(''A'', ''1 2''), (''B'', [])]"
proof -
  have "list_all env_item_ok demo_env" by code_simp
  from env_file_roundtrip [OF this, of "''.env''" "\<lambda>_. Some (render_env demo_env)"]
  show ?thesis by (simp add: map_filter_simps demo_env_def)
qed

end
