(* ===== verification/Service_Manager.thy ===== *)
theory Service_Manager
  imports Manager_Config
begin

text \<open>
  The managed services of the server manager (\<open>frontend/server-manager/src/manager_process.c\<close> and
  \<open>manager_health.c\<close>): finding out whether a service runs, the pid file, starting, stopping and
  restarting it, the grace period, the periodic refresh and the health probe. GTK calls back one
  function at a time; what the operating system answers to each question is a parameter, indexed by
  the order of the questions, because it may change between them. The pid file's path and the port
  of the health URL are constants of the program and not empty.
\<close>

section \<open>State\<close>

datatype RunSource = RUN_SOURCE_STOPPED | RUN_SOURCE_OWNED_SUBPROCESS | RUN_SOURCE_CACHED_PID

datatype badge = Badge_none | Badge_healthy string | Badge_degraded string | Badge_stopped string

datatype dot = Grey | Amber | Green

text \<open>
  A subprocess is known by the number of processes spawned before it; \<open>sv_spawned\<close> counts them.
  The widgets are what they show.
\<close>

record service =
  sv_match_token :: string
  sv_process :: "nat option"
  sv_log_stream :: bool
  sv_exit_logged :: bool
  sv_restart_pending :: bool
  sv_stop_timer :: bool
  sv_fail_streak :: u32
  sv_tracked_pid :: int
  sv_run_source :: RunSource
  sv_last_health_ok :: bool
  sv_pid_file :: "string option"
  sv_process_label :: string
  sv_pid_label :: string
  sv_badge :: badge
  sv_dot :: dot
  sv_spawned :: nat

text \<open>What the system answers: the outputs of the two commands are \<open>None\<close> when they fail.\<close>

record system =
  sy_windows :: bool
  sy_long_max :: int
  sy_alive :: "int \<Rightarrow> bool"
  sy_identifier :: "string option"
  sy_port_in_use :: bool
  sy_listening :: "string option"
  sy_command_line :: "string option"
  sy_spawn :: bool
  sy_write :: bool
  sy_exit_status :: int

text \<open>What the manager does to processes.\<close>

datatype effect =
    Spawned nat
  | Terminated_pid int
  | Sent_sigterm "nat option"
  | Forced_exit "nat option"

section \<open>Pids\<close>

definition parsed_pid :: "system \<Rightarrow> string \<Rightarrow> int option" where
  "parsed_pid sy text =
     (case strtol (sy_long_max sy) text of
        None \<Rightarrow> None
      | Some v \<Rightarrow> if v \<le> 0 \<or> v > G_MAXINT then None else Some v)"

definition identifier_pid :: "system \<Rightarrow> int option" where
  "identifier_pid sy =
     (case sy_identifier sy of
        None \<Rightarrow> None
      | Some identifier \<Rightarrow> if identifier = [] then None else parsed_pid sy identifier)"

definition pid_is_alive :: "system \<Rightarrow> int \<Rightarrow> bool" where
  "pid_is_alive sy pid = (pid > 0 \<and> sy_alive sy pid)"

definition service_is_running :: "system \<Rightarrow> service \<Rightarrow> bool \<times> service" where
  "service_is_running sy s =
     (let s = (if sv_process s \<noteq> None \<and> sv_tracked_pid s \<le> 0
               then (case identifier_pid sy of None \<Rightarrow> s | Some pid \<Rightarrow> s\<lparr>sv_tracked_pid := pid\<rparr>)
               else s)
      in if sv_tracked_pid s > 0 then (pid_is_alive sy (sv_tracked_pid s), s)
         else (sv_process s \<noteq> None, s))"

definition clear_service_pid_tracking :: "service \<Rightarrow> service" where
  "clear_service_pid_tracking s =
     s\<lparr>sv_tracked_pid := 0, sv_run_source := RUN_SOURCE_STOPPED, sv_pid_file := None\<rparr>"

definition write_service_pid_file :: "system \<Rightarrow> service \<Rightarrow> int \<Rightarrow> service" where
  "write_service_pid_file sy s pid =
     (let s = s\<lparr>sv_tracked_pid := pid, sv_run_source := RUN_SOURCE_CACHED_PID\<rparr>
      in if sy_write sy then s\<lparr>sv_pid_file := Some (show_int pid @ [CHR 0x0A])\<rparr> else s)"

definition load_service_pid_file :: "system \<Rightarrow> service \<Rightarrow> service" where
  "load_service_pid_file sy s =
     (case sv_pid_file s of
        None \<Rightarrow> s
      | Some contents \<Rightarrow>
          (case parsed_pid sy contents of
             None \<Rightarrow> clear_service_pid_tracking s
           | Some pid \<Rightarrow>
               let (running, s) = service_is_running sy (s\<lparr>sv_tracked_pid := pid\<rparr>)
               in if running then s else clear_service_pid_tracking s))"

definition discover_listening_pid_windows :: "system \<Rightarrow> int" where
  "discover_listening_pid_windows sy =
     (case sy_listening sy of
        None \<Rightarrow> 0
      | Some out \<Rightarrow>
          let out = strip out
          in if out = [] then 0 else (case parsed_pid sy out of None \<Rightarrow> 0 | Some pid \<Rightarrow> pid))"

definition process_commandline_matches_windows :: "system \<Rightarrow> string \<Rightarrow> bool" where
  "process_commandline_matches_windows sy token =
     (if token = [] then True
      else case sy_command_line sy of
             None \<Rightarrow> False
           | Some out \<Rightarrow> let out = strip out in out \<noteq> [] \<and> find_str token out \<noteq> None)"

definition recover_pid_from_port_if_matching :: "system \<Rightarrow> service \<Rightarrow> bool \<times> service" where
  "recover_pid_from_port_if_matching sy s =
     (if sv_tracked_pid s > 0 \<or> sv_pid_file s \<noteq> None then (False, s)
      else if \<not> sy_port_in_use sy then (False, s)
      else if \<not> sy_windows sy then (False, s)
      else let discovered_pid = discover_listening_pid_windows sy in
        if discovered_pid \<le> 0 then (False, s)
        else if process_commandline_matches_windows sy (sv_match_token s)
        then (True, write_service_pid_file sy s discovered_pid)
        else (False, s))"

section \<open>Starting and stopping\<close>

definition service_cleanup_process :: "service \<Rightarrow> service" where
  "service_cleanup_process s =
     s\<lparr>sv_stop_timer := False, sv_log_stream := False, sv_process := None, sv_exit_logged := False,
       sv_fail_streak := 0, sv_run_source := RUN_SOURCE_STOPPED\<rparr>"

definition spawn_service :: "(nat \<Rightarrow> system) \<Rightarrow> service \<Rightarrow> service \<times> effect list" where
  "spawn_service sys s =
     (let s = service_cleanup_process s in
      if \<not> sy_spawn (sys 0) then (s, [])
      else let n = sv_spawned s;
               s = s\<lparr>sv_process := Some n, sv_spawned := n + 1, sv_log_stream := True\<rparr>
        in ((case identifier_pid (sys 1) of
               None \<Rightarrow> s | Some pid \<Rightarrow> write_service_pid_file (sys 1) s pid), [Spawned n]))"

definition service_start :: "(nat \<Rightarrow> system) \<Rightarrow> service \<Rightarrow> service \<times> effect list" where
  "service_start sys s =
     (let (_, s) = recover_pid_from_port_if_matching (sys 0) s;
          (running, s) = service_is_running (sys 1) s
      in if running then (s, [])
         else if sy_port_in_use (sys 2) then
           (let (recovered, s) = recover_pid_from_port_if_matching (sys 3) s
            in if recovered then (snd (service_is_running (sys 4) s), []) else (s, []))
         else spawn_service (\<lambda>i. sys (5 + i)) s)"

definition service_stop :: "(nat \<Rightarrow> system) \<Rightarrow> service \<Rightarrow> service \<times> effect list" where
  "service_stop sys s =
     (let s = s\<lparr>sv_restart_pending := False, sv_fail_streak := 0\<rparr>;
          (_, s) = recover_pid_from_port_if_matching (sys 0) s;
          (running, s) = service_is_running (sys 1) s
      in if \<not> running then (s, [])
         else if sv_process s = None \<and> sv_tracked_pid s > 0
         then (clear_service_pid_tracking s, [Terminated_pid (sv_tracked_pid s)])
         else (s\<lparr>sv_stop_timer := True\<rparr>,
               if sy_windows (sys 1) then [] else [Sent_sigterm (sv_process s)]))"

definition service_restart :: "(nat \<Rightarrow> system) \<Rightarrow> service \<Rightarrow> service \<times> effect list" where
  "service_restart sys s =
     (let (running, s) = service_is_running (sys 0) s in
      if running then
        (let (s, eff) = service_stop (\<lambda>i. sys (1 + i)) s in (s\<lparr>sv_restart_pending := True\<rparr>, eff))
      else service_start (\<lambda>i. sys (1 + i)) (s\<lparr>sv_restart_pending := False\<rparr>))"

text \<open>The end of the grace period.\<close>

definition force_stop_timeout_cb :: "system \<Rightarrow> service \<Rightarrow> service \<times> effect list" where
  "force_stop_timeout_cb sy s =
     (let (running, s) = service_is_running sy (s\<lparr>sv_stop_timer := False\<rparr>)
      in (s, if running then [Forced_exit (sv_process s)] else []))"

section \<open>Health\<close>

definition update_status_dot :: "system \<Rightarrow> service \<Rightarrow> service" where
  "update_status_dot sy s =
     (let (running, s) = service_is_running sy s
      in s\<lparr>sv_dot := (if \<not> running then Grey else if \<not> sv_last_health_ok s then Amber else Green)\<rparr>)"

definition update_health_label :: "system \<Rightarrow> service \<Rightarrow> bool \<Rightarrow> string option \<Rightarrow> service" where
  "update_health_label sy s healthy detail =
     (let (running, s) = service_is_running sy s;
          display = (case detail of None \<Rightarrow> ''down'' | Some d \<Rightarrow> if d = [] then ''down'' else d)
      in s\<lparr>sv_badge := (if healthy then Badge_healthy display
                        else if running then Badge_degraded display else Badge_stopped display)\<rparr>)"

definition HEALTH_FAIL_DEBOUNCE_THRESHOLD :: u32 where "HEALTH_FAIL_DEBOUNCE_THRESHOLD = 2"

definition apply_health_result ::
  "(nat \<Rightarrow> system) \<Rightarrow> bool \<Rightarrow> bool \<Rightarrow> string option \<Rightarrow> service \<Rightarrow> service" where
  "apply_health_result sys is_shutting_down healthy detail s =
     (let s = s\<lparr>sv_last_health_ok := healthy\<rparr> in
      if is_shutting_down then s
      else if healthy then
        update_status_dot (sys 1) (update_health_label (sys 0) (s\<lparr>sv_fail_streak := 0\<rparr>) True detail)
      else let (running, s) = service_is_running (sys 0) s in
        if \<not> running then
          update_status_dot (sys 2) (update_health_label (sys 1) (s\<lparr>sv_fail_streak := 0\<rparr>) False detail)
        else let s = s\<lparr>sv_fail_streak := sv_fail_streak s + 1\<rparr> in
          if sv_fail_streak s < HEALTH_FAIL_DEBOUNCE_THRESHOLD then s
          else update_status_dot (sys 2) (update_health_label (sys 1) s False detail))"

definition status_is_healthy :: "string option \<Rightarrow> bool" where
  "status_is_healthy status =
     (case status of
        None \<Rightarrow> True
      | Some s \<Rightarrow> s = [] \<or> same_nocase s ''up'' \<or> same_nocase s ''ok'' \<or> same_nocase s ''healthy''
                  \<or> same_nocase s ''ready'' \<or> same_nocase s ''success'')"

text \<open>The end of a probe: cancelled, failed with or without a timeout, or a response.\<close>

datatype probe = Probe_cancelled | Probe_timed_out | Probe_failed | Probe_response nat string

definition status_verdict :: "string option \<Rightarrow> bool \<times> string option" where
  "status_verdict status = (status_is_healthy status, case status of None \<Rightarrow> Some ''up'' | Some s \<Rightarrow> Some s)"

definition body_verdict :: "(string \<Rightarrow> json result) \<Rightarrow> string \<Rightarrow> bool \<times> string option" where
  "body_verdict parse body =
     (if body = [] then (True, Some ''up'')
      else case parse body of
        Inl _ \<Rightarrow> (True, Some ''up'')
      | Inr doc \<Rightarrow>
          (case member doc ''status'' of
             None \<Rightarrow> (True, Some ''up'')
           | Some status \<Rightarrow>
               if holds_value status then status_verdict (node_string status)
               else if is_object status then
                 status_verdict (case member status ''status'' of
                                   None \<Rightarrow> None
                                 | Some nested \<Rightarrow> if holds_value nested then node_string nested else None)
               else (True, Some ''up'')))"

definition probe_verdict :: "(string \<Rightarrow> json result) \<Rightarrow> probe \<Rightarrow> (bool \<times> string option) option" where
  "probe_verdict parse p =
     (case p of
        Probe_cancelled \<Rightarrow> None
      | Probe_timed_out \<Rightarrow> Some (False, Some ''timeout'')
      | Probe_failed \<Rightarrow> Some (False, Some ''down'')
      | Probe_response code body \<Rightarrow>
          if code < 200 \<or> code \<ge> 300 then Some (False, Some (''http '' @ show_nat code))
          else Some (body_verdict parse body))"

definition on_health_probe_done ::
  "(string \<Rightarrow> json result) \<Rightarrow> (nat \<Rightarrow> system) \<Rightarrow> bool \<Rightarrow> probe \<Rightarrow> service \<Rightarrow> service" where
  "on_health_probe_done parse sys is_shutting_down p s =
     (if is_shutting_down then s
      else case probe_verdict parse p of
             None \<Rightarrow> s
           | Some (healthy, detail) \<Rightarrow> apply_health_result sys is_shutting_down healthy detail s)"

section \<open>The periodic refresh\<close>

text \<open>
  The end of an owned process: everything about it is dropped, and it may be started again. The
  first component is the new value of \<open>running\<close>.
\<close>

definition process_ended :: "(nat \<Rightarrow> system) \<Rightarrow> bool \<Rightarrow> service \<Rightarrow> (bool \<times> service) \<times> effect list" where
  "process_ended sys on_nonzero s =
     (let restart_after_exit = sv_restart_pending s;
          exit_code = sy_exit_status (sys 0);
          s = service_cleanup_process (clear_service_pid_tracking
                (s\<lparr>sv_restart_pending := False, sv_exit_logged := True\<rparr>))
      in if restart_after_exit \<and> (exit_code = 0 \<or> on_nonzero)
         then (let (s, eff) = service_start (\<lambda>i. sys (2 + i)) s
               in (service_is_running (sys 1) s, eff))
         else ((False, s), []))"

definition pid_text :: "system \<Rightarrow> service \<Rightarrow> string" where
  "pid_text sy s =
     (if sv_process s \<noteq> None then ''PID '' @ (case sy_identifier sy of None \<Rightarrow> ''?'' | Some t \<Rightarrow> t)
      else if sv_tracked_pid s > 0 then ''PID '' @ show_int (sv_tracked_pid s)
      else ''PID ?'')"

definition refresh_service_row :: "(nat \<Rightarrow> system) \<Rightarrow> bool \<Rightarrow> service \<Rightarrow> service \<times> effect list" where
  "refresh_service_row sys on_nonzero s =
     (let (running, s) = service_is_running (sys 0) s;
          source = (if \<not> running then RUN_SOURCE_STOPPED
                    else if sv_process s \<noteq> None then RUN_SOURCE_OWNED_SUBPROCESS
                    else RUN_SOURCE_CACHED_PID);
          s = s\<lparr>sv_run_source := source\<rparr>;
          ((running, s), eff) = (if \<not> running \<and> sv_process s \<noteq> None
                                 then process_ended (\<lambda>i. sys (3 + i)) on_nonzero s
                                 else ((running, s), []));
          s = (if running then s\<lparr>sv_process_label := ''RUNNING'', sv_pid_label := pid_text (sys 1) s\<rparr>
               else s\<lparr>sv_process_label := ''STOPPED'', sv_pid_label := ''PID -''\<rparr>)
      in (update_status_dot (sys 2) s, eff))"

section \<open>What an operation keeps\<close>

lemma service_is_running_only_tracks:
  "service_is_running sy s = (r, s') \<Longrightarrow> s' = s\<lparr>sv_tracked_pid := sv_tracked_pid s'\<rparr>"
  by (auto simp: service_is_running_def Let_def split: if_splits option.splits)

lemma service_is_running_frame [simp]:
  "sv_process (snd (service_is_running sy s)) = sv_process s"
  "sv_stop_timer (snd (service_is_running sy s)) = sv_stop_timer s"
  "sv_spawned (snd (service_is_running sy s)) = sv_spawned s"
  "sv_log_stream (snd (service_is_running sy s)) = sv_log_stream s"
  "sv_restart_pending (snd (service_is_running sy s)) = sv_restart_pending s"
  "sv_last_health_ok (snd (service_is_running sy s)) = sv_last_health_ok s"
  "sv_fail_streak (snd (service_is_running sy s)) = sv_fail_streak s"
  "sv_badge (snd (service_is_running sy s)) = sv_badge s"
  "sv_pid_file (snd (service_is_running sy s)) = sv_pid_file s"
  by (auto simp: service_is_running_def Let_def split: option.splits)

lemma running_has_process:
  "fst (service_is_running sy s) \<Longrightarrow>
     \<not> (sv_process s = None \<and> 0 < sv_tracked_pid (snd (service_is_running sy s))) \<Longrightarrow> sv_process s \<noteq> None"
  by (auto simp: service_is_running_def Let_def split: if_splits option.splits)

lemma running_tracked:
  "0 < sv_tracked_pid s \<Longrightarrow> service_is_running sy s = (pid_is_alive sy (sv_tracked_pid s), s)"
  by (simp add: service_is_running_def)

lemma running_untracked:
  "sv_process s = None \<Longrightarrow>
     service_is_running sy s = (0 < sv_tracked_pid s \<and> pid_is_alive sy (sv_tracked_pid s), s)"
  by (simp add: service_is_running_def)

lemma recover_frame [simp]:
  "sv_process (snd (recover_pid_from_port_if_matching sy s)) = sv_process s"
  "sv_stop_timer (snd (recover_pid_from_port_if_matching sy s)) = sv_stop_timer s"
  "sv_spawned (snd (recover_pid_from_port_if_matching sy s)) = sv_spawned s"
  "sv_log_stream (snd (recover_pid_from_port_if_matching sy s)) = sv_log_stream s"
  "sv_restart_pending (snd (recover_pid_from_port_if_matching sy s)) = sv_restart_pending s"
  by (auto simp: recover_pid_from_port_if_matching_def write_service_pid_file_def Let_def)

lemma recover_needs_windows: "\<not> sy_windows sy \<Longrightarrow> recover_pid_from_port_if_matching sy s = (False, s)"
  by (simp add: recover_pid_from_port_if_matching_def)

lemma update_status_dot_frame [simp]:
  "sv_process (update_status_dot sy s) = sv_process s"
  "sv_stop_timer (update_status_dot sy s) = sv_stop_timer s"
  "sv_spawned (update_status_dot sy s) = sv_spawned s"
  "sv_log_stream (update_status_dot sy s) = sv_log_stream s"
  "sv_restart_pending (update_status_dot sy s) = sv_restart_pending s"
  "sv_badge (update_status_dot sy s) = sv_badge s"
  "sv_last_health_ok (update_status_dot sy s) = sv_last_health_ok s"
  "sv_fail_streak (update_status_dot sy s) = sv_fail_streak s"
  by (simp_all add: update_status_dot_def case_prod_beta)

lemma update_health_label_frame [simp]:
  "sv_process (update_health_label sy s h d) = sv_process s"
  "sv_stop_timer (update_health_label sy s h d) = sv_stop_timer s"
  "sv_spawned (update_health_label sy s h d) = sv_spawned s"
  "sv_log_stream (update_health_label sy s h d) = sv_log_stream s"
  "sv_restart_pending (update_health_label sy s h d) = sv_restart_pending s"
  "sv_last_health_ok (update_health_label sy s h d) = sv_last_health_ok s"
  "sv_fail_streak (update_health_label sy s h d) = sv_fail_streak s"
  by (simp_all add: update_health_label_def Let_def case_prod_beta)

text \<open>What a service keeps between two callbacks: the grace period and the log belong to a process.\<close>

definition service_ok :: "service \<Rightarrow> bool" where
  "service_ok s \<longleftrightarrow>
     (sv_stop_timer s \<longrightarrow> sv_process s \<noteq> None) \<and>
     (sv_log_stream s \<longleftrightarrow> sv_process s \<noteq> None) \<and>
     (case sv_process s of None \<Rightarrow> True | Some n \<Rightarrow> n < sv_spawned s)"

fun effect_ok :: "effect \<Rightarrow> bool" where
  "effect_ok (Spawned n) = True"
| "effect_ok (Terminated_pid pid) = (0 < pid)"
| "effect_ok (Sent_sigterm p) = (p \<noteq> None)"
| "effect_ok (Forced_exit p) = (p \<noteq> None)"

fun spawned_ids :: "effect list \<Rightarrow> nat list" where
  "spawned_ids [] = []"
| "spawned_ids (Spawned n # es) = n # spawned_ids es"
| "spawned_ids (e # es) = spawned_ids es"

lemma spawned_ids_append [simp]: "spawned_ids (es @ fs) = spawned_ids es @ spawned_ids fs"
  by (induction es rule: spawned_ids.induct) auto

text \<open>The contract of an operation on a service.\<close>

locale service_operation =
  fixes run_op :: "service \<Rightarrow> service \<times> effect list"
  assumes keeps_ok: "service_ok s \<Longrightarrow> service_ok (fst (run_op s))"
    and effects_ok: "service_ok s \<Longrightarrow> list_all effect_ok (snd (run_op s))"
    and spawns_fresh: "spawned_ids (snd (run_op s)) = [sv_spawned s ..< sv_spawned (fst (run_op s))]"
    and spawns_monotone: "sv_spawned s \<le> sv_spawned (fst (run_op s))"
begin

lemma spawns_none: "sv_spawned (fst (run_op s)) = sv_spawned s \<Longrightarrow> spawned_ids (snd (run_op s)) = []"
  by (simp add: spawns_fresh)

end

lemma spawn_service_ok: "service_ok (fst (spawn_service sys s))"
  by (auto simp: spawn_service_def service_cleanup_process_def write_service_pid_file_def service_ok_def Let_def
      split: option.splits)

lemma spawn_service_effects:
  "snd (spawn_service sys s) = (if sy_spawn (sys 0) then [Spawned (sv_spawned s)] else [])"
  "sv_spawned (fst (spawn_service sys s)) = (if sy_spawn (sys 0) then Suc (sv_spawned s) else sv_spawned s)"
  "sv_restart_pending (fst (spawn_service sys s)) = sv_restart_pending s"
  "(sv_process (fst (spawn_service sys s)) = None) = (\<not> sy_spawn (sys 0))"
  by (auto simp: spawn_service_def service_cleanup_process_def write_service_pid_file_def Let_def
      split: option.splits)

section \<open>Every operation keeps the contract\<close>

lemma service_ok_cong:
  "service_ok s \<Longrightarrow> sv_process s' = sv_process s \<Longrightarrow> sv_stop_timer s' = sv_stop_timer s \<Longrightarrow>
     sv_spawned s' = sv_spawned s \<Longrightarrow> sv_log_stream s' = sv_log_stream s \<Longrightarrow> service_ok s'"
  by (simp add: service_ok_def split: option.splits)

text \<open>A start either leaves the process alone or spawns one.\<close>

lemma service_start_cases:
  obtains (kept) "snd (service_start sys s) = []"
      "sv_process (fst (service_start sys s)) = sv_process s"
      "sv_stop_timer (fst (service_start sys s)) = sv_stop_timer s"
      "sv_spawned (fst (service_start sys s)) = sv_spawned s"
      "sv_log_stream (fst (service_start sys s)) = sv_log_stream s"
  | (spawned) t where "service_start sys s = spawn_service (\<lambda>i. sys (5 + i)) t"
      "sv_spawned t = sv_spawned s" "sv_restart_pending t = sv_restart_pending s"
proof -
  let ?s1 = "snd (recover_pid_from_port_if_matching (sys 0) s)"
  let ?r = "service_is_running (sys 1) ?s1"
  show thesis
  proof (cases "\<not> fst ?r \<and> \<not> sy_port_in_use (sys 2)")
    case True
    then have "service_start sys s = spawn_service (\<lambda>i. sys (5 + i)) (snd ?r)"
      by (simp add: service_start_def Let_def case_prod_beta)
    then show thesis by (rule spawned) simp_all
  next
    case False
    then show thesis
      by (intro kept) (auto simp: service_start_def Let_def case_prod_beta)
  qed
qed

lemma service_start_restart_pending [simp]:
  "sv_restart_pending (fst (service_start sys s)) = sv_restart_pending s"
  by (simp add: service_start_def Let_def case_prod_beta spawn_service_effects)

interpretation start: service_operation "service_start sys" for sys
proof
  fix s
  show "service_ok s \<Longrightarrow> service_ok (fst (service_start sys s))"
    by (rule service_start_cases[of sys s]) (auto intro: service_ok_cong spawn_service_ok)
  show "service_ok s \<Longrightarrow> list_all effect_ok (snd (service_start sys s))"
    by (rule service_start_cases[of sys s]) (auto simp: spawn_service_effects)
  show "spawned_ids (snd (service_start sys s)) = [sv_spawned s ..< sv_spawned (fst (service_start sys s))]"
    by (rule service_start_cases[of sys s]) (auto simp: spawn_service_effects)
  show "sv_spawned s \<le> sv_spawned (fst (service_start sys s))"
    by (rule service_start_cases[of sys s]) (auto simp: spawn_service_effects)
qed

lemma clear_frame [simp]:
  "sv_process (clear_service_pid_tracking s) = sv_process s"
  "sv_stop_timer (clear_service_pid_tracking s) = sv_stop_timer s"
  "sv_spawned (clear_service_pid_tracking s) = sv_spawned s"
  "sv_log_stream (clear_service_pid_tracking s) = sv_log_stream s"
  "sv_restart_pending (clear_service_pid_tracking s) = sv_restart_pending s"
  by (simp_all add: clear_service_pid_tracking_def)

text \<open>A stop changes the grace period only, and only that of a service with a process.\<close>

lemma service_stop_frame [simp]:
  "sv_process (fst (service_stop sys s)) = sv_process s"
  "sv_spawned (fst (service_stop sys s)) = sv_spawned s"
  "sv_log_stream (fst (service_stop sys s)) = sv_log_stream s"
  by (simp_all add: service_stop_def Let_def case_prod_beta)

lemma service_stop_timer:
  "sv_stop_timer (fst (service_stop sys s)) \<Longrightarrow> sv_stop_timer s \<or> sv_process s \<noteq> None"
  using running_has_process[of "sys 1" "snd (recover_pid_from_port_if_matching (sys 0)
      (s\<lparr>sv_restart_pending := False, sv_fail_streak := 0\<rparr>))"]
  by (auto simp: service_stop_def Let_def case_prod_beta split: if_splits)

lemma service_stop_effects:
  "list_all effect_ok (snd (service_stop sys s))" "spawned_ids (snd (service_stop sys s)) = []"
  using running_has_process[of "sys 1" "snd (recover_pid_from_port_if_matching (sys 0)
      (s\<lparr>sv_restart_pending := False, sv_fail_streak := 0\<rparr>))"]
  by (auto simp: service_stop_def Let_def case_prod_beta)

interpretation stop: service_operation "service_stop sys" for sys
proof
  fix s
  show "service_ok s \<Longrightarrow> service_ok (fst (service_stop sys s))"
    using service_stop_timer[of sys s] by (auto simp: service_ok_def)
qed (simp_all add: service_stop_effects)

lemma service_restart_cases:
  obtains (stopped) t where "sv_process t = sv_process s" "sv_stop_timer t = sv_stop_timer s"
      "sv_spawned t = sv_spawned s" "sv_log_stream t = sv_log_stream s"
      "fst (service_restart sys s) = (fst (service_stop (\<lambda>i. sys (1 + i)) t))\<lparr>sv_restart_pending := True\<rparr>"
      "snd (service_restart sys s) = snd (service_stop (\<lambda>i. sys (1 + i)) t)"
  | (started) t where "sv_process t = sv_process s" "sv_stop_timer t = sv_stop_timer s"
      "sv_spawned t = sv_spawned s" "sv_log_stream t = sv_log_stream s"
      "service_restart sys s = service_start (\<lambda>i. sys (1 + i)) t"
proof (cases "fst (service_is_running (sys 0) s)")
  case True
  then show thesis
    by (intro stopped[of "snd (service_is_running (sys 0) s)"])
      (simp_all add: service_restart_def case_prod_beta)
next
  case False
  then show thesis
    by (intro started[of "(snd (service_is_running (sys 0) s))\<lparr>sv_restart_pending := False\<rparr>"])
      (simp_all add: service_restart_def case_prod_beta)
qed

lemma service_ok_restart_pending [simp]: "service_ok (s\<lparr>sv_restart_pending := b\<rparr>) = service_ok s"
  by (simp add: service_ok_def split: option.splits)

interpretation restart: service_operation "service_restart sys" for sys
proof
  fix s
  show "service_ok s \<Longrightarrow> service_ok (fst (service_restart sys s))"
    by (rule service_restart_cases[of s sys])
      (auto intro!: stop.keeps_ok start.keeps_ok intro: service_ok_cong)
  show "service_ok s \<Longrightarrow> list_all effect_ok (snd (service_restart sys s))"
    by (rule service_restart_cases[of s sys])
      (auto simp: service_stop_effects intro!: start.effects_ok intro: service_ok_cong)
  show "spawned_ids (snd (service_restart sys s)) = [sv_spawned s ..< sv_spawned (fst (service_restart sys s))]"
    by (rule service_restart_cases[of s sys]) (auto simp: service_stop_effects start.spawns_fresh)
  show "sv_spawned s \<le> sv_spawned (fst (service_restart sys s))"
  proof (rule service_restart_cases[of s sys])
    fix t
    assume "sv_spawned t = sv_spawned s" "service_restart sys s = service_start (\<lambda>i. sys (1 + i)) t"
    then show ?thesis using start.spawns_monotone[of t "\<lambda>i. sys (1 + i)"] by simp
  qed simp
qed

text \<open>The main loop calls back when the grace period has been set and has passed.\<close>

definition stop_timer_fired :: "system \<Rightarrow> service \<Rightarrow> service \<times> effect list" where
  "stop_timer_fired sy s = (if sv_stop_timer s then force_stop_timeout_cb sy s else (s, []))"

lemma stop_timer_fired_frame [simp]:
  "sv_process (fst (stop_timer_fired sy s)) = sv_process s"
  "sv_spawned (fst (stop_timer_fired sy s)) = sv_spawned s"
  "sv_log_stream (fst (stop_timer_fired sy s)) = sv_log_stream s"
  "sv_stop_timer (fst (stop_timer_fired sy s)) = False"
  by (simp_all add: stop_timer_fired_def force_stop_timeout_cb_def case_prod_beta)

interpretation timer: service_operation "stop_timer_fired sy" for sy
  by standard (auto simp: service_ok_def stop_timer_fired_def force_stop_timeout_cb_def case_prod_beta)

lemma cleanup_ok [simp]: "service_ok (service_cleanup_process s)"
  by (simp add: service_ok_def service_cleanup_process_def)

lemma cleanup_frame [simp]:
  "sv_process (service_cleanup_process s) = None"
  "sv_stop_timer (service_cleanup_process s) = False"
  "sv_spawned (service_cleanup_process s) = sv_spawned s"
  "sv_log_stream (service_cleanup_process s) = False"
  "sv_restart_pending (service_cleanup_process s) = sv_restart_pending s"
  by (simp_all add: service_cleanup_process_def)

text \<open>What \<open>process_ended\<close> leaves of a service before it may start it again.\<close>

abbreviation ended :: "service \<Rightarrow> service" where
  "ended s \<equiv> service_cleanup_process (clear_service_pid_tracking
     (s\<lparr>sv_restart_pending := False, sv_exit_logged := True\<rparr>))"

definition restarts :: "(nat \<Rightarrow> system) \<Rightarrow> bool \<Rightarrow> service \<Rightarrow> bool" where
  "restarts sys on_nonzero s \<longleftrightarrow> sv_restart_pending s \<and> (sy_exit_status (sys 0) = 0 \<or> on_nonzero)"

lemma process_ended_parts:
  "snd (process_ended sys nz s) =
     (if restarts sys nz s then snd (service_start (\<lambda>i. sys (2 + i)) (ended s)) else [])"
  "sv_process (snd (fst (process_ended sys nz s))) =
     (if restarts sys nz s then sv_process (fst (service_start (\<lambda>i. sys (2 + i)) (ended s))) else None)"
  "sv_stop_timer (snd (fst (process_ended sys nz s))) =
     (restarts sys nz s \<and> sv_stop_timer (fst (service_start (\<lambda>i. sys (2 + i)) (ended s))))"
  "sv_log_stream (snd (fst (process_ended sys nz s))) =
     (restarts sys nz s \<and> sv_log_stream (fst (service_start (\<lambda>i. sys (2 + i)) (ended s))))"
  "sv_spawned (snd (fst (process_ended sys nz s))) =
     (if restarts sys nz s then sv_spawned (fst (service_start (\<lambda>i. sys (2 + i)) (ended s))) else sv_spawned s)"
  by (auto simp: process_ended_def restarts_def Let_def case_prod_beta)

lemma refresh_cases:
  obtains (kept) "snd (refresh_service_row sys nz s) = []"
      "sv_process (fst (refresh_service_row sys nz s)) = sv_process s"
      "sv_stop_timer (fst (refresh_service_row sys nz s)) = sv_stop_timer s"
      "sv_spawned (fst (refresh_service_row sys nz s)) = sv_spawned s"
      "sv_log_stream (fst (refresh_service_row sys nz s)) = sv_log_stream s"
      "sv_restart_pending (fst (refresh_service_row sys nz s)) = sv_restart_pending s"
  | (ended) t where "sv_process s \<noteq> None" "sv_spawned t = sv_spawned s"
      "snd (refresh_service_row sys nz s) = snd (process_ended (\<lambda>i. sys (3 + i)) nz t)"
      "sv_process (fst (refresh_service_row sys nz s)) =
         sv_process (snd (fst (process_ended (\<lambda>i. sys (3 + i)) nz t)))"
      "sv_stop_timer (fst (refresh_service_row sys nz s)) =
         sv_stop_timer (snd (fst (process_ended (\<lambda>i. sys (3 + i)) nz t)))"
      "sv_spawned (fst (refresh_service_row sys nz s)) =
         sv_spawned (snd (fst (process_ended (\<lambda>i. sys (3 + i)) nz t)))"
      "sv_log_stream (fst (refresh_service_row sys nz s)) =
         sv_log_stream (snd (fst (process_ended (\<lambda>i. sys (3 + i)) nz t)))"
proof (cases "\<not> fst (service_is_running (sys 0) s) \<and> sv_process s \<noteq> None")
  case True
  then show thesis
    by (intro ended[of "(snd (service_is_running (sys 0) s))\<lparr>sv_run_source := RUN_SOURCE_STOPPED\<rparr>"])
      (auto simp: refresh_service_row_def Let_def case_prod_beta)
next
  case False
  then show thesis
    by (intro kept) (auto simp: refresh_service_row_def Let_def case_prod_beta)
qed

interpretation refresh: service_operation "refresh_service_row sys nz" for sys nz
proof
  fix s
  show "service_ok s \<Longrightarrow> service_ok (fst (refresh_service_row sys nz s))"
  proof (rule refresh_cases[of sys nz s])
    fix t
    assume t: "sv_process (fst (refresh_service_row sys nz s)) =
           sv_process (snd (fst (process_ended (\<lambda>i. sys (3 + i)) nz t)))"
        "sv_stop_timer (fst (refresh_service_row sys nz s)) =
           sv_stop_timer (snd (fst (process_ended (\<lambda>i. sys (3 + i)) nz t)))"
        "sv_spawned (fst (refresh_service_row sys nz s)) =
           sv_spawned (snd (fst (process_ended (\<lambda>i. sys (3 + i)) nz t)))"
        "sv_log_stream (fst (refresh_service_row sys nz s)) =
           sv_log_stream (snd (fst (process_ended (\<lambda>i. sys (3 + i)) nz t)))"
    have "service_ok (fst (service_start (\<lambda>i. sys (3 + (2 + i))) (ended t)))"
      by (rule start.keeps_ok) simp
    then show ?thesis using t by (auto simp: process_ended_parts service_ok_def)
  qed (rule service_ok_cong)
  show "service_ok s \<Longrightarrow> list_all effect_ok (snd (refresh_service_row sys nz s))"
    by (rule refresh_cases[of sys nz s]) (auto simp: process_ended_parts intro!: start.effects_ok)
  show "spawned_ids (snd (refresh_service_row sys nz s)) =
          [sv_spawned s ..< sv_spawned (fst (refresh_service_row sys nz s))]"
    by (rule refresh_cases[of sys nz s]) (auto simp: process_ended_parts start.spawns_fresh)
  show "sv_spawned s \<le> sv_spawned (fst (refresh_service_row sys nz s))"
  proof (rule refresh_cases[of sys nz s])
    fix t
    assume t: "sv_spawned t = sv_spawned s" "sv_spawned (fst (refresh_service_row sys nz s)) =
           sv_spawned (snd (fst (process_ended (\<lambda>i. sys (3 + i)) nz t)))"
    then show ?thesis
      using start.spawns_monotone[of "ended t" "\<lambda>i. sys (3 + (2 + i))"] by (simp add: process_ended_parts)
  qed simp
qed

text \<open>A service without a process is never started by a refresh, a stop or the grace period.\<close>

lemma idle_refresh:
  assumes "sv_process s = None"
  shows "snd (refresh_service_row sys nz s) = []"
    "sv_process (fst (refresh_service_row sys nz s)) = None"
    "sv_restart_pending (fst (refresh_service_row sys nz s)) = sv_restart_pending s"
  by (rule refresh_cases[of sys nz s]; use assms in simp)+

lemma apply_health_result_frame [simp]:
  "sv_process (apply_health_result sys off h d s) = sv_process s"
  "sv_stop_timer (apply_health_result sys off h d s) = sv_stop_timer s"
  "sv_spawned (apply_health_result sys off h d s) = sv_spawned s"
  "sv_log_stream (apply_health_result sys off h d s) = sv_log_stream s"
  "sv_restart_pending (apply_health_result sys off h d s) = sv_restart_pending s"
  by (simp_all add: apply_health_result_def Let_def case_prod_beta)

lemma on_health_probe_done_frame [simp]:
  "sv_process (on_health_probe_done parse sys off p s) = sv_process s"
  "sv_stop_timer (on_health_probe_done parse sys off p s) = sv_stop_timer s"
  "sv_spawned (on_health_probe_done parse sys off p s) = sv_spawned s"
  "sv_log_stream (on_health_probe_done parse sys off p s) = sv_log_stream s"
  "sv_restart_pending (on_health_probe_done parse sys off p s) = sv_restart_pending s"
  by (simp_all add: on_health_probe_done_def split: option.split prod.split)

interpretation probe: service_operation "\<lambda>s. (on_health_probe_done parse sys off p s, [])" for parse sys off p
  by standard (auto intro: service_ok_cong)

interpretation summary: service_operation "\<lambda>s. (snd (service_is_running sy s), [])" for sy
  by standard (auto intro: service_ok_cong)

interpretation recover: service_operation "\<lambda>s. (snd (recover_pid_from_port_if_matching sy s), [])" for sy
  by standard (auto intro: service_ok_cong)

section \<open>Properties of one service\<close>

text \<open>A run of probe results, the questions of each to the system counted from its own 0.\<close>

fun health_run :: "(nat \<Rightarrow> nat \<Rightarrow> system) \<Rightarrow> (bool \<times> string option) list \<Rightarrow> service \<Rightarrow> service" where
  "health_run sys [] s = s"
| "health_run sys ((healthy, detail) # rs) s =
     health_run (\<lambda>k. sys (Suc k)) rs (apply_health_result (sys 0) False healthy detail s)"

definition failing :: "(bool \<times> string option) list \<Rightarrow> nat" where
  "failing rs = length (takeWhile (\<lambda>r. \<not> fst r) (rev rs))"

definition shown :: "string option \<Rightarrow> string" where
  "shown detail = (case detail of None \<Rightarrow> ''down'' | Some d \<Rightarrow> if d = [] then ''down'' else d)"

definition tracked_alive :: "(nat \<Rightarrow> system) \<Rightarrow> service \<Rightarrow> bool" where
  "tracked_alive sys s \<longleftrightarrow> 0 < sv_tracked_pid s \<and> (\<forall>i. sy_alive (sys i) (sv_tracked_pid s))"

lemma tracked_alive_running:
  "tracked_alive sys s \<Longrightarrow> sv_tracked_pid t = sv_tracked_pid s \<Longrightarrow> service_is_running (sys i) t = (True, t)"
  by (simp add: tracked_alive_def running_tracked pid_is_alive_def)

lemma health_run_snoc:
  "health_run sys (rs @ [(h, d)]) s = apply_health_result (sys (length rs)) False h d (health_run sys rs s)"
  by (induction sys rs s rule: health_run.induct) simp_all

lemma failing_snoc: "failing (rs @ [(h, d)]) = (if h then 0 else Suc (failing rs))"
  by (simp add: failing_def)

lemma failing_le: "failing rs \<le> length rs"
  unfolding failing_def by (metis length_rev length_takeWhile_le)

lemma apply_health_result_running:
  assumes "tracked_alive sys s"
  shows "apply_health_result sys False h d s =
     (let s = s\<lparr>sv_last_health_ok := h\<rparr> in
      if h then s\<lparr>sv_fail_streak := 0, sv_badge := Badge_healthy (shown d), sv_dot := Green\<rparr>
      else if sv_fail_streak s + 1 < HEALTH_FAIL_DEBOUNCE_THRESHOLD then s\<lparr>sv_fail_streak := sv_fail_streak s + 1\<rparr>
      else s\<lparr>sv_fail_streak := sv_fail_streak s + 1, sv_badge := Badge_degraded (shown d), sv_dot := Amber\<rparr>)"
  by (simp add: apply_health_result_def update_health_label_def update_status_dot_def Let_def shown_def
      tracked_alive_running[OF assms])

lemma health_run_streak:
  assumes "\<forall>k. tracked_alive (sys k) s" "sv_fail_streak s = 0"
  shows "sv_fail_streak (health_run sys rs s) = of_nat (failing rs) \<and>
     sv_tracked_pid (health_run sys rs s) = sv_tracked_pid s"
proof (induction rs rule: rev_induct)
  case Nil
  then show ?case using assms by (simp add: failing_def)
next
  case (snoc r rs)
  obtain h d where r: "r = (h, d)" by (cases r)
  have "tracked_alive (sys (length rs)) (health_run sys rs s)"
    using assms snoc by (simp add: tracked_alive_def)
  from apply_health_result_running[OF this] snoc show ?case
    by (simp add: r health_run_snoc failing_snoc Let_def)
qed

text \<open>
  A running service is reported unhealthy only after two failed probes in a row, and healthy
  again after one good probe: a single failure changes neither the badge nor the dot when it is
  received, every further one makes the badge degraded and the dot amber. The dot is not debounced
  by the refresh, though: the next refresh after a single failure already turns it amber, with the
  badge still as it was.
\<close>
lemma health_badge_debounced:
  assumes "\<forall>k. tracked_alive (sys k) s" "tracked_alive sys' s"
    and "sv_fail_streak s = 0" "length rs + 1 < 2 ^ 32"
  shows "let t = health_run sys rs s; t' = health_run sys (rs @ [(healthy, detail)]) s;
             (u, eff) = refresh_service_row sys' on_nonzero t'
    in (healthy \<longrightarrow> sv_badge t' = Badge_healthy (shown detail) \<and> sv_dot t' = Green) \<and>
       (\<not> healthy \<and> failing rs = 0 \<longrightarrow> sv_badge t' = sv_badge t \<and> sv_dot t' = sv_dot t) \<and>
       (\<not> healthy \<and> failing rs > 0 \<longrightarrow> sv_badge t' = Badge_degraded (shown detail) \<and> sv_dot t' = Amber) \<and>
       eff = [] \<and> sv_badge u = sv_badge t' \<and> sv_dot u = (if healthy then Green else Amber)"
proof -
  define t where "t = health_run sys rs s"
  have streak: "sv_fail_streak t = of_nat (failing rs)" and pid: "sv_tracked_pid t = sv_tracked_pid s"
    using health_run_streak[OF assms(1,3)] by (simp_all add: t_def)
  have few: "failing rs + 1 < 2 ^ 32" using failing_le[of rs] assms(4) by simp
  have alive: "tracked_alive (sys (length rs)) t" "tracked_alive sys' t"
    using assms(1,2) pid by (simp_all add: tracked_alive_def)
  have threshold: "(of_nat (failing rs) + 1 < HEALTH_FAIL_DEBOUNCE_THRESHOLD) = (failing rs = 0)"
  proof -
    have "unat (of_nat (failing rs) + 1 :: u32) = failing rs + 1"
      using few by (simp add: unat_word_ariths unsigned_of_nat take_bit_nat_eq_self)
    then show ?thesis by (simp add: HEALTH_FAIL_DEBOUNCE_THRESHOLD_def word_less_nat_alt)
  qed
  show ?thesis
    using apply_health_result_running[OF alive(1), of healthy detail] threshold
    by (auto simp: health_run_snoc Let_def streak t_def[symmetric] refresh_service_row_def update_status_dot_def
        tracked_alive_running[OF alive(2)])
qed

text \<open>
  The pid in a pid file is trusted. Whatever process has that number when the manager starts is
  taken for the service, whatever its command line is, and \<open>Stop\<close> terminates it. A pid found through
  the listening port is only taken when the command line of the process contains the service's token.
\<close>
lemma pid_file_is_trusted:
  assumes "parsed_pid sy contents = Some pid" "sy_alive sy pid" "\<forall>i. sy_alive (sys i) pid"
    and "sv_process s = None" "sv_pid_file s = Some contents"
  shows "let t = load_service_pid_file sy s
    in sv_tracked_pid t = pid \<and> snd (service_stop sys t) = [Terminated_pid pid] \<and>
       (fst (recover_pid_from_port_if_matching sy' u) \<longrightarrow>
          sy_windows sy' \<and> sv_tracked_pid u \<le> 0 \<and> process_commandline_matches_windows sy' (sv_match_token u))"
proof -
  have pid: "0 < pid" using assms(1) by (auto simp: parsed_pid_def split: option.splits if_splits)
  have load: "load_service_pid_file sy s = s\<lparr>sv_tracked_pid := pid\<rparr>"
    using assms(1,2,5) pid by (simp add: load_service_pid_file_def running_tracked pid_is_alive_def)
  have stop: "snd (service_stop sys (s\<lparr>sv_tracked_pid := pid\<rparr>)) = [Terminated_pid pid]"
    using assms(3,4) pid
    by (simp add: service_stop_def recover_pid_from_port_if_matching_def running_tracked pid_is_alive_def Let_def)
  show ?thesis
    by (auto simp: load stop recover_pid_from_port_if_matching_def Let_def split: if_splits)
qed

text \<open>A service as \<open>g_new0\<close> leaves it, with its token, pid file and the flag set by its row.\<close>

definition new_service :: "string \<Rightarrow> string option \<Rightarrow> service" where
  "new_service token pid_file =
     \<lparr>sv_match_token = token, sv_process = None, sv_log_stream = False, sv_exit_logged = False,
      sv_restart_pending = False, sv_stop_timer = False, sv_fail_streak = 0, sv_tracked_pid = 0,
      sv_run_source = RUN_SOURCE_STOPPED, sv_last_health_ok = True, sv_pid_file = pid_file,
      sv_process_label = [], sv_pid_label = [], sv_badge = Badge_none, sv_dot = Grey, sv_spawned = 0\<rparr>"

lemma new_service_ok [simp]: "service_ok (new_service token pid_file)"
  by (simp add: service_ok_def new_service_def)

text \<open>A Unix system on which every pid is alive, used in examples.\<close>

definition busy_system :: system where
  "busy_system =
     \<lparr>sy_windows = False, sy_long_max = 2 ^ 63 - 1, sy_alive = (\<lambda>pid. True), sy_identifier = None,
      sy_port_in_use = False, sy_listening = None, sy_command_line = None, sy_spawn = True, sy_write = True,
      sy_exit_status = 0\<rparr>"

lemma health_badge_debounced_witness:
  "let s = (new_service ''token'' None)\<lparr>sv_tracked_pid := 7\<rparr>;
       u = fst (refresh_service_row (\<lambda>_. busy_system) False
             (health_run (\<lambda>_ _. busy_system) [(False, None)] s))
   in sv_badge u = Badge_none \<and> sv_dot u = Amber"
  using health_badge_debounced[of "\<lambda>_ _. busy_system" "(new_service ''token'' None)\<lparr>sv_tracked_pid := 7\<rparr>"
      "\<lambda>_. busy_system" "[]" False None False]
  by (simp add: tracked_alive_def new_service_def busy_system_def failing_def Let_def case_prod_beta)

lemma pid_file_is_trusted_witness:
  "snd (service_stop (\<lambda>_. busy_system)
     (load_service_pid_file busy_system (new_service ''services.api.app'' (Some ''42'')))) = [Terminated_pid 42]"
proof -
  have "parsed_pid busy_system ''42'' = Some 42" by code_simp
  from pid_file_is_trusted[OF this, of "\<lambda>_. busy_system" "new_service ''services.api.app'' (Some ''42'')"]
  show ?thesis by (simp add: busy_system_def new_service_def Let_def)
qed

end
