(* ===== verification/Manager_App.thy ===== *)
theory Manager_App
  imports Service_Manager
begin

text \<open>
  The server manager as a whole (\<open>frontend/server-manager/src/manager_runtime.c\<close>, the polling of
  \<open>manager_health.c\<close>, the sequential start of \<open>manager_process.c\<close> and the buttons of
  \<open>manager_ui.c\<close>): three services, the timers of the main loop and the probes under way, as a state
  machine over the events that GTK delivers one at a time. \<open>sys k i\<close> is the answer to question
  \<open>i\<close> of the \<open>k\<close>-th operation of an event. Files, the environment and path names are parameters.
\<close>

section \<open>Starting point\<close>

text \<open>
  \<open>dir\<close> tells whether a path has the directory \<open>services\<close>; \<open>dirname\<close> is GLib's.
\<close>

fun probe_parents :: "nat \<Rightarrow> (string \<Rightarrow> bool) \<Rightarrow> (string \<Rightarrow> string) \<Rightarrow> string \<Rightarrow> string option" where
  "probe_parents 0 dir dirname probe = None"
| "probe_parents (Suc depth) dir dirname probe =
     (if dir probe then Some probe
      else let parent = dirname probe in
        if parent = probe then None else probe_parents depth dir dirname parent)"

definition find_project_root ::
  "(string \<Rightarrow> bool) \<Rightarrow> (string \<Rightarrow> string) \<Rightarrow> string option \<Rightarrow> string \<Rightarrow> string" where
  "find_project_root dir dirname env_root cwd =
     (case (case env_root of None \<Rightarrow> None | Some r \<Rightarrow> if dir r then Some r else None) of
        Some r \<Rightarrow> r
      | None \<Rightarrow>
          if dir cwd then cwd
          else (case probe_parents 8 dir dirname cwd of Some p \<Rightarrow> p | None \<Rightarrow> cwd))"

definition resolve_python_executable ::
  "(string list \<Rightarrow> string) \<Rightarrow> (string \<Rightarrow> string) \<Rightarrow> (string \<Rightarrow> bool) \<Rightarrow> (string \<Rightarrow> string option) \<Rightarrow> string \<Rightarrow> string" where
  "resolve_python_executable build dirname is_regular find_program project_root =
     (let cand0 = build [project_root, ''.venv'', ''Scripts'', ''python.exe''];
          cand1 = build [dirname project_root, ''.venv'', ''Scripts'', ''python.exe''];
          found = (\<lambda>c. case c of None \<Rightarrow> None | Some p \<Rightarrow> if is_regular p then Some p else None)
      in if is_regular cand0 then cand0
         else if is_regular cand1 then cand1
         else case found (find_program ''python'') of
                Some p \<Rightarrow> p
              | None \<Rightarrow> (case found (find_program ''python3'') of Some p \<Rightarrow> p | None \<Rightarrow> ''python''))"

definition env_or :: "(string \<Rightarrow> string option) \<Rightarrow> string \<Rightarrow> string \<Rightarrow> string" where
  "env_or env var default_value =
     (case env var of None \<Rightarrow> default_value | Some v \<Rightarrow> if v = [] then default_value else v)"

definition build_service_argv ::
  "(string \<Rightarrow> string option) \<Rightarrow> string \<Rightarrow> string \<Rightarrow> string \<Rightarrow> string \<Rightarrow> string \<Rightarrow> string \<Rightarrow> string list" where
  "build_service_argv env python kind host_env host_default port_env port_default =
     [python, ''-m'', ''uvicorn'', kind, ''--host'', env_or env host_env host_default,
      ''--port'', env_or env port_env port_default]"

text \<open>What is fixed for each service: key, health URL, its port, token, command.\<close>

record service_config =
  sc_key :: string
  sc_health_url :: string
  sc_port :: int
  sc_match_token :: string
  sc_argv :: "string list"

definition service_configs :: "(string \<Rightarrow> string option) \<Rightarrow> string \<Rightarrow> service_config list" where
  "service_configs env python =
     [\<lparr>sc_key = ''api'', sc_health_url = ''http://127.0.0.1:8010/health'', sc_port = 8010,
       sc_match_token = ''services.api.app'', sc_argv = [python, ''-m'', ''services.api.app'']\<rparr>,
      \<lparr>sc_key = ''memory'', sc_health_url = ''http://127.0.0.1:8020/health'', sc_port = 8020,
       sc_match_token = ''services.memory.app:app'',
       sc_argv = build_service_argv env python ''services.memory.app:app''
         ''LIARA_MEMORY_BIND_HOST'' ''0.0.0.0'' ''LIARA_MEMORY_PORT'' ''8020''\<rparr>,
      \<lparr>sc_key = ''embedding'', sc_health_url = ''http://127.0.0.1:8030/health'', sc_port = 8030,
       sc_match_token = ''services.embedding.app:app'',
       sc_argv = build_service_argv env python ''services.embedding.app:app''
         ''LIARA_EMBEDDING_BIND_HOST'' ''0.0.0.0'' ''LIARA_EMBEDDING_PORT'' ''8030''\<rparr>]"

definition build_service_pid_file_path ::
  "(string list \<Rightarrow> string) \<Rightarrow> (string \<Rightarrow> string option) \<Rightarrow> string \<Rightarrow> string \<Rightarrow> string" where
  "build_service_pid_file_path build env project_root key =
     (case env ''XDG_CACHE_HOME'' of
        None \<Rightarrow> build [project_root, ''cache'', key @ ''.pid'']
      | Some cache_root \<Rightarrow>
          if cache_root \<noteq> [] then build [cache_root, key @ ''.pid'']
          else build [project_root, ''cache'', key @ ''.pid''])"

section \<open>State\<close>

text \<open>
  The source ids of the timers are there or 0; \<open>app_present_live\<close> is the timer itself, which the
  main loop keeps even when its id has been forgotten. \<open>app_sequential\<close> holds \<open>next_index\<close>.
\<close>

record app_state =
  app_services :: "service list"
  app_on_nonzero :: bool
  app_start_delay :: u32
  app_is_shutting_down :: bool
  app_present_attempts :: u32
  app_present_id :: bool
  app_present_live :: bool
  app_poll_once :: bool
  app_poll :: bool
  app_sequential :: "nat option"
  app_probes :: "nat list"
  app_summary :: nat

abbreviation SERVICE_COUNT :: nat where "SERVICE_COUNT \<equiv> 3"

type_synonym log = "(nat \<times> effect) list"

section \<open>Operations\<close>

text \<open>\<open>apply_op i f\<close> calls \<open>f\<close> on service \<open>i\<close>; \<open>for_services\<close> is the loop over all of them.\<close>

definition apply_op :: "nat \<Rightarrow> (service \<Rightarrow> service \<times> effect list) \<Rightarrow> app_state \<Rightarrow> app_state \<times> log" where
  "apply_op i f app =
     (let (s, eff) = f (app_services app ! i)
      in (app\<lparr>app_services := (app_services app)[i := s]\<rparr>, map (Pair i) eff))"

fun in_order :: "nat list \<Rightarrow> (nat \<Rightarrow> app_state \<Rightarrow> app_state \<times> log) \<Rightarrow> app_state \<Rightarrow> app_state \<times> log" where
  "in_order [] f app = (app, [])"
| "in_order (i # is) f app =
     (let (app, eff) = f i app; (app, effs) = in_order is f app in (app, eff @ effs))"

definition for_services :: "(nat \<Rightarrow> app_state \<Rightarrow> app_state \<times> log) \<Rightarrow> app_state \<Rightarrow> app_state \<times> log" where
  "for_services = in_order [0..<SERVICE_COUNT]"

definition update_status_summary :: "(nat \<Rightarrow> system) \<Rightarrow> app_state \<Rightarrow> app_state" where
  "update_status_summary sys app =
     (let rs = map (\<lambda>i. service_is_running (sys i) (app_services app ! i)) [0..<SERVICE_COUNT]
      in app\<lparr>app_services := map snd rs, app_summary := length (filter fst rs)\<rparr>)"

definition fire_health_probe_async :: "nat \<Rightarrow> app_state \<Rightarrow> app_state" where
  "fire_health_probe_async i app =
     (if app_is_shutting_down app then app else app\<lparr>app_probes := app_probes app @ [i]\<rparr>)"

definition refresh_service :: "(nat \<Rightarrow> nat \<Rightarrow> system) \<Rightarrow> nat \<Rightarrow> app_state \<Rightarrow> app_state \<times> log" where
  "refresh_service sys i app =
     (let (app, eff) = apply_op i (refresh_service_row (sys (2 * i)) (app_on_nonzero app)) app
      in (fire_health_probe_async i (update_status_summary (sys (2 * i + 1)) app), eff))"

definition poll_services :: "(nat \<Rightarrow> nat \<Rightarrow> system) \<Rightarrow> app_state \<Rightarrow> app_state \<times> log" where
  "poll_services sys = for_services (refresh_service sys)"

definition poll_services_once :: "(nat \<Rightarrow> nat \<Rightarrow> system) \<Rightarrow> app_state \<Rightarrow> app_state \<times> log" where
  "poll_services_once sys app =
     (let app = app\<lparr>app_poll_once := False\<rparr>;
          (app, _) = for_services
            (\<lambda>i. apply_op i (\<lambda>s. (snd (recover_pid_from_port_if_matching (sys i 0) s), []))) app
      in poll_services (\<lambda>k. sys (SERVICE_COUNT + k)) app)"

text \<open>A probe ends; the summary follows when the dot was drawn.\<close>

definition health_probe_done ::
  "(string \<Rightarrow> json result) \<Rightarrow> (nat \<Rightarrow> nat \<Rightarrow> system) \<Rightarrow> nat \<Rightarrow> probe \<Rightarrow> app_state \<Rightarrow> app_state" where
  "health_probe_done parse sys i p app =
     (let app = app\<lparr>app_probes := remove1 i (app_probes app)\<rparr>;
          s = app_services app ! i;
          s' = on_health_probe_done parse (sys 0) (app_is_shutting_down app) p s;
          app' = app\<lparr>app_services := (app_services app)[i := s']\<rparr>
      in case probe_verdict parse p of
           None \<Rightarrow> app'
         | Some (healthy, _) \<Rightarrow>
             if app_is_shutting_down app \<or>
                (\<not> healthy \<and> fst (service_is_running (sys 0 0) s) \<and>
                 sv_fail_streak s + 1 < HEALTH_FAIL_DEBOUNCE_THRESHOLD)
             then app' else update_status_summary (sys 1) app')"

definition start_all_sequential :: "(nat \<Rightarrow> nat \<Rightarrow> system) \<Rightarrow> app_state \<Rightarrow> app_state \<times> log" where
  "start_all_sequential sys app =
     (let (app, eff) = apply_op 0 (service_start (sys 0)) app in
      if app_start_delay app = 0 then
        (let (app, effs) = in_order [1..<SERVICE_COUNT] (\<lambda>i. apply_op i (service_start (sys i))) app
         in (app, eff @ effs))
      else (app\<lparr>app_sequential := Some 1\<rparr>, eff))"

definition sequential_start_next_cb :: "(nat \<Rightarrow> nat \<Rightarrow> system) \<Rightarrow> nat \<Rightarrow> app_state \<Rightarrow> app_state \<times> log" where
  "sequential_start_next_cb sys next_index app =
     (if app_is_shutting_down app \<or> next_index \<ge> SERVICE_COUNT then (app\<lparr>app_sequential := None\<rparr>, [])
      else let (app, eff) = apply_op next_index (service_start (sys 0)) app
        in (app\<lparr>app_sequential := (if next_index + 1 < SERVICE_COUNT then Some (next_index + 1) else None)\<rparr>, eff))"

text \<open>
  \<open>windows\<close> is the platform; the surface and its handle may not be there yet.
\<close>

definition ensure_window_foreground :: "bool \<Rightarrow> bool \<Rightarrow> bool \<Rightarrow> app_state \<Rightarrow> app_state" where
  "ensure_window_foreground windows surface hwnd app =
     (let app = app\<lparr>app_present_id := False\<rparr>;
          again = app\<lparr>app_present_attempts := app_present_attempts app + 1\<rparr>
      in if \<not> windows then app\<lparr>app_present_live := False\<rparr>
         else if surface \<and> \<not> hwnd then app\<lparr>app_present_live := False\<rparr>
         else if app_present_attempts again < 6 then again
         else again\<lparr>app_present_live := False\<rparr>)"

definition destroy_service :: "service \<Rightarrow> service \<times> effect list" where
  "destroy_service s =
     (service_cleanup_process (clear_service_pid_tracking s),
      if sv_process s \<noteq> None then [Forced_exit (sv_process s)] else [])"

definition on_window_destroy :: "app_state \<Rightarrow> app_state \<times> log" where
  "on_window_destroy app =
     (let app = app\<lparr>app_is_shutting_down := True,
                    app_present_live := (app_present_live app \<and> \<not> app_present_id app), app_present_id := False,
                    app_poll_once := False, app_poll := False, app_sequential := None\<rparr>
      in for_services (\<lambda>i. apply_op i destroy_service) app)"

section \<open>Activation\<close>

text \<open>
  \<open>on_activate\<close> without its widgets: the services with what their pid files held, the three rows
  drawn (the summary label is there already), the timers set, the services started when the
  configuration says so. The operations before the rows are numbered first.
\<close>

definition initialize_services :: "(nat \<Rightarrow> system) \<Rightarrow> string list \<Rightarrow> (nat \<Rightarrow> string option) \<Rightarrow> service list" where
  "initialize_services sys tokens pid_files =
     map (\<lambda>i. load_service_pid_file (sys i) (new_service (tokens ! i) (pid_files i))) [0..<SERVICE_COUNT]"

definition on_activate ::
  "(nat \<Rightarrow> nat \<Rightarrow> system) \<Rightarrow> manager_config \<Rightarrow> string list \<Rightarrow> (nat \<Rightarrow> string option) \<Rightarrow> app_state \<times> log" where
  "on_activate sys config tokens pid_files =
     (let app = \<lparr>app_services = initialize_services (sys 0) tokens pid_files,
                 app_on_nonzero = restart_on_nonzero config, app_start_delay = start_delay_ms config,
                 app_is_shutting_down = False, app_present_attempts = 0, app_present_id = False,
                 app_present_live = False, app_poll_once = False, app_poll = False, app_sequential = None,
                 app_probes = [], app_summary = 0\<rparr>;
          (app, eff) = for_services (refresh_service (\<lambda>k. sys (Suc k))) app;
          app = update_status_summary (sys 7) app;
          app = app\<lparr>app_present_id := True, app_present_live := True, app_poll_once := True, app_poll := True\<rparr>
      in if autostart_enabled config
         then (let (app, effs) = start_all_sequential (\<lambda>k. sys (8 + k)) app in (app, eff @ effs))
         else (app, eff))"

section \<open>Events\<close>

datatype event =
    Start_clicked nat
  | Stop_clicked nat
  | Restart_clicked nat
  | Start_all_clicked
  | Stop_all_clicked
  | Restart_all_clicked
  | Sequential_tick
  | Stop_timeout nat
  | Poll
  | Poll_once
  | Present_tick bool bool bool
  | Probe_done nat probe
  | Window_destroyed

text \<open>
  What the main loop can deliver: a click while the window is there, a timer that is set, a probe
  that is under way.
\<close>

fun enabled :: "app_state \<Rightarrow> event \<Rightarrow> bool" where
  "enabled app (Start_clicked i) = (\<not> app_is_shutting_down app \<and> i < SERVICE_COUNT)"
| "enabled app (Stop_clicked i) = (\<not> app_is_shutting_down app \<and> i < SERVICE_COUNT)"
| "enabled app (Restart_clicked i) = (\<not> app_is_shutting_down app \<and> i < SERVICE_COUNT)"
| "enabled app Start_all_clicked = (\<not> app_is_shutting_down app)"
| "enabled app Stop_all_clicked = (\<not> app_is_shutting_down app)"
| "enabled app Restart_all_clicked = (\<not> app_is_shutting_down app)"
| "enabled app Sequential_tick = (app_sequential app \<noteq> None)"
| "enabled app (Stop_timeout i) = (i < SERVICE_COUNT \<and> sv_stop_timer (app_services app ! i))"
| "enabled app Poll = app_poll app"
| "enabled app Poll_once = app_poll_once app"
| "enabled app (Present_tick windows surface hwnd) = app_present_live app"
| "enabled app (Probe_done i p) = (i \<in> set (app_probes app))"
| "enabled app Window_destroyed = (\<not> app_is_shutting_down app)"

fun handle :: "(string \<Rightarrow> json result) \<Rightarrow> (nat \<Rightarrow> nat \<Rightarrow> system) \<Rightarrow> event \<Rightarrow> app_state \<Rightarrow> app_state \<times> log" where
  "handle parse sys (Start_clicked i) app = apply_op i (service_start (sys 0)) app"
| "handle parse sys (Stop_clicked i) app = apply_op i (service_stop (sys 0)) app"
| "handle parse sys (Restart_clicked i) app = apply_op i (service_restart (sys 0)) app"
| "handle parse sys Start_all_clicked app = start_all_sequential sys app"
| "handle parse sys Stop_all_clicked app = for_services (\<lambda>i. apply_op i (service_stop (sys i))) app"
| "handle parse sys Restart_all_clicked app = for_services (\<lambda>i. apply_op i (service_restart (sys i))) app"
| "handle parse sys Sequential_tick app =
     (case app_sequential app of None \<Rightarrow> (app, []) | Some n \<Rightarrow> sequential_start_next_cb sys n app)"
| "handle parse sys (Stop_timeout i) app = apply_op i (stop_timer_fired (sys 0 0)) app"
| "handle parse sys Poll app = poll_services sys app"
| "handle parse sys Poll_once app = poll_services_once sys app"
| "handle parse sys (Present_tick windows surface hwnd) app = (ensure_window_foreground windows surface hwnd app, [])"
| "handle parse sys (Probe_done i p) app = (health_probe_done parse sys i p app, [])"
| "handle parse sys Window_destroyed app = on_window_destroy app"

text \<open>The states and effects that a run can lead to.\<close>

inductive run :: "(string \<Rightarrow> json result) \<Rightarrow> app_state \<Rightarrow> (event list \<times> log) \<Rightarrow> app_state \<Rightarrow> bool"
  for parse :: "string \<Rightarrow> json result" and app0 :: app_state where
  run_start: "run parse app0 ([], []) app0"
| run_event: "run parse app0 (es, l) app \<Longrightarrow> enabled app e \<Longrightarrow> handle parse sys e app = (app', eff) \<Longrightarrow>
     run parse app0 (es @ [e], l @ eff) app'"

section \<open>Well-formedness\<close>

definition app_ok :: "app_state \<Rightarrow> bool" where
  "app_ok app \<longleftrightarrow>
     length (app_services app) = SERVICE_COUNT \<and> list_all service_ok (app_services app) \<and>
     set (app_probes app) \<subseteq> {..<SERVICE_COUNT} \<and>
     (case app_sequential app of None \<Rightarrow> True | Some n \<Rightarrow> 0 < n \<and> n < SERVICE_COUNT) \<and>
     (app_is_shutting_down app \<longrightarrow>
        \<not> app_poll app \<and> \<not> app_poll_once app \<and> app_sequential app = None \<and>
        list_all (\<lambda>s. sv_process s = None) (app_services app))"

text \<open>What an effect of a run must be: of a service that exists, and naming a process or a pid.\<close>

definition log_ok :: "log \<Rightarrow> bool" where
  "log_ok l = list_all (\<lambda>(i, e). i < SERVICE_COUNT \<and> effect_ok e) l"

definition spawned_of :: "nat \<Rightarrow> log \<Rightarrow> nat list" where
  "spawned_of i l = spawned_ids (map snd (filter (\<lambda>x. fst x = i) l))"

lemma spawned_of_append [simp]: "spawned_of i (l @ m) = spawned_of i l @ spawned_of i m"
  by (simp add: spawned_of_def)

lemma spawned_of_Nil [simp]: "spawned_of i [] = []"
  by (simp add: spawned_of_def)

lemma spawned_of_map [simp]: "spawned_of i (map (Pair j) eff) = (if i = j then spawned_ids eff else [])"
  by (auto simp: spawned_of_def filter_map o_def)

lemma log_ok_append [simp]: "log_ok (l @ m) \<longleftrightarrow> log_ok l \<and> log_ok m"
  by (simp add: log_ok_def)

section \<open>Every handler keeps the services well-formed\<close>

definition services_ok :: "app_state \<Rightarrow> bool" where
  "services_ok app \<longleftrightarrow> length (app_services app) = SERVICE_COUNT \<and> list_all service_ok (app_services app)"

text \<open>
  The control part of the state, which operations on services leave alone.
\<close>

definition control :: "app_state \<Rightarrow> bool \<times> bool \<times> u32 \<times> bool \<times> bool \<times> u32 \<times> bool \<times> bool \<times> nat option" where
  "control app =
     (app_is_shutting_down app, app_on_nonzero app, app_start_delay app, app_present_id app, app_present_live app,
      app_present_attempts app, app_poll app, app_poll_once app, app_sequential app)"

abbreviation spawned :: "app_state \<Rightarrow> nat \<Rightarrow> nat" where
  "spawned app i \<equiv> sv_spawned (app_services app ! i)"

definition services_step :: "app_state \<Rightarrow> app_state \<times> log \<Rightarrow> bool" where
  "services_step app r \<longleftrightarrow>
     services_ok (fst r) \<and> control (fst r) = control app \<and> log_ok (snd r) \<and>
     (set (app_probes app) \<subseteq> {..<SERVICE_COUNT} \<longrightarrow> set (app_probes (fst r)) \<subseteq> {..<SERVICE_COUNT}) \<and>
     (\<forall>i<SERVICE_COUNT. spawned_of i (snd r) = [spawned app i ..< spawned (fst r) i] \<and>
        spawned app i \<le> spawned (fst r) i)"

lemma services_step_refl: "services_ok app \<Longrightarrow> services_step app (app, [])"
  by (simp add: services_step_def log_ok_def)

lemma services_step_ok: "services_step app (app', l) \<Longrightarrow> services_ok app'"
  by (simp add: services_step_def)

lemma upt_append: "i \<le> j \<Longrightarrow> j \<le> k \<Longrightarrow> [i..<j] @ [j..<k] = [i..<k]" for i j k :: nat
  by (metis le_iff_add upt_add_eq_append)

lemma services_step_trans:
  assumes "services_step app (app1, l1)" "services_step app1 (app2, l2)"
  shows "services_step app (app2, l1 @ l2)"
  unfolding services_step_def
proof (intro conjI allI impI)
  fix i :: nat assume i: "i < SERVICE_COUNT"
  have a: "spawned app i \<le> spawned app1 i" "spawned app1 i \<le> spawned app2 i"
    "spawned_of i l1 = [spawned app i ..< spawned app1 i]" "spawned_of i l2 = [spawned app1 i ..< spawned app2 i]"
    using assms i by (simp_all add: services_step_def)
  then show "spawned_of i (snd (app2, l1 @ l2)) = [spawned app i ..< spawned (fst (app2, l1 @ l2)) i]"
    by (simp add: upt_append)
  show "spawned app i \<le> spawned (fst (app2, l1 @ l2)) i" using a by simp
qed (use assms in \<open>auto simp: services_step_def\<close>)

lemma in_order_step:
  assumes "\<And>i app. i \<in> set is \<Longrightarrow> services_ok app \<Longrightarrow> services_step app (f i app)"
  shows "services_ok app \<Longrightarrow> services_step app (in_order is f app)"
  using assms
proof (induction "is" arbitrary: app)
  case Nil
  then show ?case by (simp add: services_step_refl)
next
  case (Cons i js)
  obtain app1 l1 where one: "f i app = (app1, l1)" by fastforce
  obtain app2 l2 where rest: "in_order js f app1 = (app2, l2)" by fastforce
  have s1: "services_step app (app1, l1)" using Cons.prems(2)[of i app] Cons.prems(1) one by simp
  then have "services_ok app1" by (simp add: services_step_def)
  then have "services_step app1 (app2, l2)" using Cons.IH[of app1] Cons.prems(2) rest by simp
  with s1 show ?case by (simp add: one rest services_step_trans)
qed

text \<open>Any operation with the contract of the component below gives a step.\<close>

context service_operation
begin

lemma apply_op_step:
  assumes "services_ok app" "i < SERVICE_COUNT"
  shows "services_step app (apply_op i run_op app)"
proof -
  let ?s = "app_services app ! i"
  have s: "service_ok ?s" using assms by (simp add: services_ok_def list_all_length)
  have "spawned (fst (apply_op i run_op app)) j = (if j = i then sv_spawned (fst (run_op ?s)) else spawned app j)"
    if "j < SERVICE_COUNT" for j
    using assms that by (simp add: apply_op_def case_prod_beta services_ok_def)
  then show ?thesis
    using assms keeps_ok[OF s] effects_ok[OF s] spawns_fresh[of ?s] spawns_monotone[of ?s]
    by (auto simp: services_step_def apply_op_def case_prod_beta services_ok_def control_def log_ok_def
        list_all_length nth_list_update)
qed

lemma loop_step:
  "services_ok app \<Longrightarrow> services_step app (for_services (\<lambda>i. apply_op i run_op) app)"
  unfolding for_services_def by (rule in_order_step) (simp_all add: apply_op_step)

end

interpretation destroy: service_operation destroy_service
  by standard (simp_all add: destroy_service_def)

lemma update_status_summary_step:
  assumes "services_ok app"
  shows "services_step app (update_status_summary sys app, [])"
proof -
  have "service_ok (snd (service_is_running (sys i) (app_services app ! i)))" if "i < SERVICE_COUNT" for i
    using assms that by (intro summary.keeps_ok[simplified]) (simp add: services_ok_def list_all_length)
  then show ?thesis
    using assms by (auto simp: services_step_def update_status_summary_def services_ok_def control_def log_ok_def
        Let_def list_all_length simp del: upt_Suc)
qed

lemma fire_health_probe_step:
  "services_ok app \<Longrightarrow> i < SERVICE_COUNT \<Longrightarrow> services_step app (fire_health_probe_async i app, [])"
  by (simp add: services_step_def fire_health_probe_async_def services_ok_def control_def log_ok_def)

lemma refresh_service_step:
  assumes "services_ok app" "i < SERVICE_COUNT"
  shows "services_step app (refresh_service sys i app)"
proof -
  obtain app1 l where 1: "apply_op i (refresh_service_row (sys (2 * i)) (app_on_nonzero app)) app = (app1, l)"
    by fastforce
  have s1: "services_step app (app1, l)" using refresh.apply_op_step[OF assms] 1 by metis
  have s2: "services_step app1 (update_status_summary (sys (2 * i + 1)) app1, [])"
    by (rule update_status_summary_step[OF services_step_ok[OF s1]])
  then have "services_step (update_status_summary (sys (2 * i + 1)) app1)
      (fire_health_probe_async i (update_status_summary (sys (2 * i + 1)) app1), [])"
    using assms(2) by (simp add: fire_health_probe_step services_step_ok)
  from services_step_trans[OF s1 services_step_trans[OF s2 this]]
  show ?thesis by (simp add: refresh_service_def 1)
qed

lemma poll_services_step: "services_ok app \<Longrightarrow> services_step app (poll_services sys app)"
  unfolding poll_services_def for_services_def by (rule in_order_step) (simp_all add: refresh_service_step)

section \<open>Every event keeps the application well-formed\<close>

text \<open>A step of the services inside an event that also moves timers.\<close>

definition event_step :: "app_state \<Rightarrow> app_state \<times> log \<Rightarrow> bool" where
  "event_step app r \<longleftrightarrow>
     services_ok (fst r) \<and> log_ok (snd r) \<and>
     (set (app_probes app) \<subseteq> {..<SERVICE_COUNT} \<longrightarrow> set (app_probes (fst r)) \<subseteq> {..<SERVICE_COUNT}) \<and>
     (\<forall>i<SERVICE_COUNT. spawned_of i (snd r) = [spawned app i ..< spawned (fst r) i] \<and>
        spawned app i \<le> spawned (fst r) i)"

lemma event_stepI: "services_step app r \<Longrightarrow> event_step app r"
  by (simp add: services_step_def event_step_def)

lemma event_step_before:
  "event_step app1 r \<Longrightarrow> app_services app1 = app_services app \<Longrightarrow> app_probes app1 = app_probes app \<Longrightarrow>
     event_step app r"
  by (simp add: event_step_def)

lemma event_step_after:
  "event_step app (app1, l) \<Longrightarrow> app_services app2 = app_services app1 \<Longrightarrow>
     app_probes app2 = app_probes app1 \<Longrightarrow> event_step app (app2, l)"
  by (simp add: event_step_def services_ok_def)

lemma control_keeps:
  "services_step app r \<Longrightarrow> control (fst r) = control app"
  by (simp add: services_step_def)

lemma poll_services_once_step:
  assumes "services_ok app"
  shows "services_step (app\<lparr>app_poll_once := False\<rparr>) (poll_services_once sys app)"
proof -
  let ?app = "app\<lparr>app_poll_once := False\<rparr>"
  let ?f = "\<lambda>i. apply_op i (\<lambda>s. (snd (recover_pid_from_port_if_matching (sys i 0) s), []))"
  obtain app1 l1 where one: "for_services ?f ?app = (app1, l1)" by fastforce
  have s1: "services_step ?app (app1, l1)"
    using assms unfolding one[symmetric] for_services_def
    by (intro in_order_step recover.apply_op_step) (simp_all add: services_ok_def)
  have quiet: "snd (in_order is ?f a) = []" for "is" a
    by (induction "is" arbitrary: a) (simp_all add: case_prod_beta apply_op_def)
  have "l1 = []" using one quiet[of "[0..<SERVICE_COUNT]" ?app] by (simp add: for_services_def)
  moreover obtain app2 l2 where two: "poll_services (\<lambda>k. sys (SERVICE_COUNT + k)) app1 = (app2, l2)" by fastforce
  moreover have "services_step app1 (app2, l2)"
    unfolding two[symmetric] by (rule poll_services_step[OF services_step_ok[OF s1]])
  ultimately show ?thesis
    using services_step_trans[OF s1] one by (simp add: poll_services_once_def Let_def)
qed

lemma health_probe_done_step:
  assumes "services_ok app" "i < SERVICE_COUNT"
  shows "services_step app (health_probe_done parse sys i p app, [])"
proof -
  let ?app1 = "app\<lparr>app_probes := remove1 i (app_probes app)\<rparr>"
  let ?app2 = "?app1\<lparr>app_services := (app_services app)[i :=
      on_health_probe_done parse (sys 0) (app_is_shutting_down app) p (app_services app ! i)]\<rparr>"
  have "services_step app (?app1, [])"
    using assms(1) set_remove1_subset[of i "app_probes app"]
    by (auto simp: services_step_def services_ok_def control_def log_ok_def)
  moreover have "services_step ?app1 (?app2, [])"
    using probe.apply_op_step[of ?app1 i parse "sys 0" "app_is_shutting_down app" p] assms
    by (simp add: apply_op_def services_ok_def)
  ultimately have s2: "services_step app (?app2, [])" using services_step_trans by fastforce
  have "services_step app (update_status_summary (sys 1) ?app2, [])"
    using services_step_trans[OF s2 update_status_summary_step[OF services_step_ok[OF s2]]] by simp
  with s2 show ?thesis
    by (cases "app_is_shutting_down app") (simp_all add: health_probe_done_def Let_def split: option.split prod.split)
qed

lemma start_all_event: "services_ok app \<Longrightarrow> event_step app (start_all_sequential sys app)"
proof -
  assume ok: "services_ok app"
  obtain app1 l1 where one: "apply_op 0 (service_start (sys 0)) app = (app1, l1)" by fastforce
  have s1: "services_step app (app1, l1)" unfolding one[symmetric] by (rule start.apply_op_step) (use ok in auto)
  obtain app2 l2 where two: "in_order [1..<SERVICE_COUNT] (\<lambda>i. apply_op i (service_start (sys i))) app1 = (app2, l2)"
    by fastforce
  have "services_step app1 (app2, l2)"
    unfolding two[symmetric]
    by (rule in_order_step) (auto intro: start.apply_op_step services_step_ok[OF s1])
  from services_step_trans[OF s1 this] s1 show ?thesis
    by (auto simp: start_all_sequential_def one two simp del: One_nat_def intro: event_stepI event_step_after)
qed

lemma sequential_event:
  assumes "services_ok app"
  shows "event_step app (sequential_start_next_cb sys n app)"
proof (cases "app_is_shutting_down app \<or> n \<ge> SERVICE_COUNT")
  case True
  then show ?thesis
    using event_stepI[OF services_step_refl[OF assms]] by (auto simp: sequential_start_next_cb_def intro: event_step_after)
next
  case False
  obtain app1 l1 where one: "apply_op n (service_start (sys 0)) app = (app1, l1)" by fastforce
  have "event_step app (app1, l1)"
    unfolding one[symmetric] using assms False by (intro event_stepI start.apply_op_step) simp_all
  from event_step_after[OF this] False show ?thesis
    by (simp add: sequential_start_next_cb_def one)
qed

lemma destroy_event: "services_ok app \<Longrightarrow> event_step app (on_window_destroy app)"
  unfolding on_window_destroy_def Let_def
  by (rule event_step_before[OF event_stepI[OF destroy.loop_step]]) (simp_all add: services_ok_def)

lemma handle_event:
  assumes "services_ok app" "enabled app e" "set (app_probes app) \<subseteq> {..<SERVICE_COUNT}"
  shows "event_step app (handle parse sys e app)"
proof (cases e)
  case Stop_all_clicked
  then show ?thesis
    using assms by (auto simp: for_services_def intro!: event_stepI in_order_step stop.apply_op_step)
next
  case Restart_all_clicked
  then show ?thesis
    using assms by (auto simp: for_services_def intro!: event_stepI in_order_step restart.apply_op_step)
next
  case (Present_tick windows surface hwnd)
  then show ?thesis
    using event_stepI[OF services_step_refl[OF assms(1)]]
    by (auto simp: ensure_window_foreground_def Let_def intro: event_step_after)
next
  case Poll_once
  then show ?thesis
    using event_step_before[OF event_stepI[OF poll_services_once_step[OF assms(1)]]] by simp
next
  case (Probe_done i p)
  then show ?thesis using assms by (auto intro: event_stepI health_probe_done_step)
qed (use assms in \<open>auto intro: event_stepI start.apply_op_step stop.apply_op_step restart.apply_op_step
       timer.apply_op_step poll_services_step start_all_event sequential_event destroy_event split: option.split\<close>)

lemma three_cases: "length xs = SERVICE_COUNT \<Longrightarrow> \<exists>a b c. xs = [a, b, c]"
  by (auto simp: numeral_3_eq_3 length_Suc_conv)

lemma destroy_services:
  assumes "length (app_services app) = SERVICE_COUNT"
  shows "app_services (fst (on_window_destroy app)) = map (\<lambda>s. fst (destroy_service s)) (app_services app)"
proof -
  obtain a b c where abc: "app_services app = [a, b, c]" using three_cases[OF assms] by blast
  have "[0..<SERVICE_COUNT] = [0, 1, 2]" by (simp add: upt_rec)
  then show ?thesis
    by (simp add: on_window_destroy_def for_services_def apply_op_def case_prod_beta abc Let_def)
qed

lemma control_loop:
  assumes "\<And>i app. control (fst (f i app)) = control app"
  shows "control (fst (in_order is f app)) = control app"
  using assms by (induction "is" arbitrary: app) (simp_all add: case_prod_beta)

lemma control_apply_op [simp]: "control (fst (apply_op i f app)) = control app"
  by (simp add: apply_op_def control_def case_prod_beta)

lemma control_loop_op [simp]: "control (fst (in_order is (\<lambda>i. apply_op i (f i)) app)) = control app"
  by (rule control_loop) simp

text \<open>What the timers keep while the window is there.\<close>

definition timers_ok :: "app_state \<Rightarrow> bool" where
  "timers_ok app \<longleftrightarrow> \<not> app_is_shutting_down app \<and>
     (case app_sequential app of None \<Rightarrow> True | Some n \<Rightarrow> 0 < n \<and> n < SERVICE_COUNT)"

lemma timers_ok_control: "control app' = control app \<Longrightarrow> timers_ok app' = timers_ok app"
  by (simp add: timers_ok_def control_def)

lemma timers_ok_sequential:
  "timers_ok app \<Longrightarrow> timers_ok (app\<lparr>app_sequential := None\<rparr>)"
  "timers_ok app \<Longrightarrow> 0 < n \<Longrightarrow> n < SERVICE_COUNT \<Longrightarrow> timers_ok (app\<lparr>app_sequential := Some n\<rparr>)"
  by (simp_all add: timers_ok_def)

lemma start_all_timers:
  assumes "timers_ok app"
  shows "timers_ok (fst (start_all_sequential sys app))"
proof -
  let ?a = "fst (apply_op 0 (service_start (sys 0)) app)"
  have a: "timers_ok ?a" using assms by (simp add: timers_ok_control[OF control_apply_op])
  have "timers_ok (fst (in_order [1..<SERVICE_COUNT] (\<lambda>i. apply_op i (service_start (sys i))) ?a))"
    using a by (simp add: timers_ok_control[OF control_loop] del: One_nat_def)
  with a show ?thesis
    by (simp add: start_all_sequential_def case_prod_beta timers_ok_sequential del: One_nat_def)
qed

lemma sequential_timers:
  assumes "timers_ok app"
  shows "timers_ok (fst (sequential_start_next_cb sys n app))"
proof -
  have "timers_ok (fst (apply_op n (service_start (sys 0)) app))"
    using assms by (simp add: timers_ok_control[OF control_apply_op])
  with assms show ?thesis
    by (simp add: sequential_start_next_cb_def case_prod_beta timers_ok_sequential)
qed

lemma handle_timers:
  assumes "services_ok app" "enabled app e" "set (app_probes app) \<subseteq> {..<SERVICE_COUNT}" "timers_ok app"
    and "e \<noteq> Window_destroyed"
  shows "timers_ok (fst (handle parse sys e app))"
proof (cases e)
  case Sequential_tick
  then show ?thesis using assms sequential_timers[OF assms(4)] by (auto split: option.split)
next
  case Poll
  then show ?thesis
    using assms(4) timers_ok_control[OF control_keeps[OF poll_services_step[OF assms(1)]]] by simp
next
  case Poll_once
  have "timers_ok (app\<lparr>app_poll_once := False\<rparr>)" using assms(4) by (simp add: timers_ok_def)
  then show ?thesis
    using timers_ok_control[OF control_keeps[OF poll_services_once_step[OF assms(1)]]] Poll_once by simp
next
  case (Present_tick windows surface hwnd)
  then show ?thesis using assms(4) by (simp add: ensure_window_foreground_def Let_def timers_ok_def)
next
  case (Probe_done i p)
  then have "i < SERVICE_COUNT" using assms(2,3) by auto
  then show ?thesis
    using assms(4) timers_ok_control[OF control_keeps[OF health_probe_done_step[OF assms(1)]]] Probe_done by simp
qed (use assms(4,5) in \<open>simp_all add: timers_ok_control[OF control_apply_op] for_services_def
       timers_ok_control[OF control_loop] start_all_timers\<close>)

lemma handle_ok_alive:
  assumes "app_ok app" "enabled app e" "\<not> app_is_shutting_down app" "e \<noteq> Window_destroyed"
  shows "app_ok (fst (handle parse sys e app))"
proof -
  have ok: "services_ok app" "set (app_probes app) \<subseteq> {..<SERVICE_COUNT}" "timers_ok app"
    using assms(1,3) by (simp_all add: app_ok_def services_ok_def timers_ok_def)
  from handle_event[OF ok(1) assms(2) ok(2)] handle_timers[OF ok(1) assms(2) ok(2,3) assms(4)] ok(2)
  show ?thesis by (simp add: app_ok_def event_step_def services_ok_def timers_ok_def)
qed

lemma handle_ok_destroyed:
  assumes "app_ok app" "enabled app e" "app_is_shutting_down app" "handle parse sys e app = (app', l)"
  shows "app_ok app' \<and> l = [] \<and> app_is_shutting_down app'"
proof (cases e)
  case (Stop_timeout i)
  then have "service_ok (app_services app ! i)" "sv_process (app_services app ! i) = None"
    "sv_stop_timer (app_services app ! i)"
    using assms by (auto simp: app_ok_def list_all_length)
  then show ?thesis by (simp add: service_ok_def)
next
  case (Present_tick windows surface hwnd)
  then show ?thesis using assms by (auto simp: ensure_window_foreground_def Let_def app_ok_def split: if_splits)
next
  case (Probe_done i p)
  have "app' = app\<lparr>app_probes := remove1 i (app_probes app)\<rparr>"
    using assms Probe_done
    by (auto simp: health_probe_done_def on_health_probe_done_def Let_def split: option.splits)
  then show ?thesis
    using assms Probe_done set_remove1_subset[of i "app_probes app"] by (auto simp: app_ok_def)
qed (use assms in \<open>auto simp: app_ok_def\<close>)

lemma handle_ok_destroy:
  assumes "app_ok app" "\<not> app_is_shutting_down app" "on_window_destroy app = (app', l)"
  shows "app_ok app'"
proof -
  have services: "services_ok app" "set (app_probes app) \<subseteq> {..<SERVICE_COUNT}" "length (app_services app) = SERVICE_COUNT"
    using assms(1) by (auto simp: app_ok_def services_ok_def)
  have "event_step app (app', l)" using destroy_event[OF services(1)] assms(3) by simp
  moreover have "list_all (\<lambda>s. sv_process s = None) (app_services app')"
    using destroy_services[OF services(3)] assms(3) by (simp add: destroy_service_def list_all_iff)
  moreover have "control app' = control (app\<lparr>app_is_shutting_down := True,
      app_present_live := (app_present_live app \<and> \<not> app_present_id app), app_present_id := False,
      app_poll_once := False, app_poll := False, app_sequential := None\<rparr>)"
    using assms(3) by (auto simp: on_window_destroy_def for_services_def control_loop Let_def dest!: arg_cong[of _ _ fst])
  ultimately show ?thesis
    using services(2) by (simp add: app_ok_def event_step_def services_ok_def control_def)
qed

section \<open>Runs\<close>

lemma initialize_services_ok:
  "length (initialize_services sys tokens pid_files) = SERVICE_COUNT"
  "list_all (\<lambda>s. service_ok s \<and> sv_spawned s = 0) (initialize_services sys tokens pid_files)"
proof -
  have "service_ok (load_service_pid_file sy s) \<and> sv_spawned (load_service_pid_file sy s) = sv_spawned s"
    if "service_ok s" for sy s
    using that by (auto simp: load_service_pid_file_def case_prod_beta Let_def intro: service_ok_cong split: option.split)
  moreover have "sv_spawned (new_service t p) = 0" for t p by (simp add: new_service_def)
  ultimately show "list_all (\<lambda>s. service_ok s \<and> sv_spawned s = 0) (initialize_services sys tokens pid_files)"
    by (simp add: initialize_services_def list_all_length)
qed (simp add: initialize_services_def)

lemma spawn_log_extend:
  assumes "event_step app (app', eff)" "\<forall>i<SERVICE_COUNT. spawned_of i l = [0 ..< spawned app i]"
  shows "\<forall>i<SERVICE_COUNT. spawned_of i (l @ eff) = [0 ..< spawned app' i]"
  using assms by (simp add: event_step_def upt_append)

lemma on_activate_ok:
  assumes "on_activate sys config tokens pid_files = (app, l)"
  shows "app_ok app \<and> log_ok l \<and> (\<forall>i<SERVICE_COUNT. spawned_of i l = [0 ..< spawned app i])"
proof -
  define app1 where "app1 = \<lparr>app_services = initialize_services (sys 0) tokens pid_files,
      app_on_nonzero = restart_on_nonzero config, app_start_delay = start_delay_ms config,
      app_is_shutting_down = False, app_present_attempts = 0, app_present_id = False,
      app_present_live = False, app_poll_once = False, app_poll = False, app_sequential = None,
      app_probes = [], app_summary = 0\<rparr>"
  have ok1: "services_ok app1" "timers_ok app1" "app_probes app1 = []" "\<forall>i<SERVICE_COUNT. spawned app1 i = 0"
    using initialize_services_ok[of "sys 0" tokens pid_files]
    by (simp_all add: app1_def services_ok_def timers_ok_def list_all_length)
  obtain app2 l2 where two: "for_services (refresh_service (\<lambda>k. sys (Suc k))) app1 = (app2, l2)" by fastforce
  have s2: "services_step app1 (app2, l2)"
    unfolding two[symmetric] poll_services_def[symmetric] by (rule poll_services_step[OF ok1(1)])
  define app3 where "app3 = update_status_summary (sys 7) app2"
  have s3: "services_step app1 (app3, l2)"
    using services_step_trans[OF s2 update_status_summary_step[OF services_step_ok[OF s2]]] by (simp add: app3_def)
  define app4 where "app4 = app3\<lparr>app_present_id := True, app_present_live := True, app_poll_once := True, app_poll := True\<rparr>"
  have s4: "event_step app1 (app4, l2)" by (rule event_step_after[OF event_stepI[OF s3]]) (simp_all add: app4_def)
  have t4: "timers_ok app4"
    using timers_ok_control[OF control_keeps[OF s3]] ok1(2) by (simp add: app4_def timers_ok_def)
  have ok4: "services_ok app4" using s4 by (simp add: event_step_def)
  obtain app5 l5 where five: "start_all_sequential (\<lambda>k. sys (8 + k)) app4 = (app5, l5)" by fastforce
  have s5: "event_step app4 (app5, l5)" "timers_ok app5"
    using start_all_event[OF ok4, of "\<lambda>k. sys (8 + k)"] start_all_timers[OF t4, of "\<lambda>k. sys (8 + k)"]
    by (simp_all add: five)
  have "(app, l) = (if autostart_enabled config then (app5, l2 @ l5) else (app4, l2))"
    using assms by (simp add: on_activate_def Let_def app1_def[symmetric] two app3_def[symmetric] app4_def[symmetric] five
        split: if_splits)
  then show ?thesis
    using s4 t4 s5 ok1(3,4) spawn_log_extend[OF s5(1), of l2]
    by (auto simp: app_ok_def event_step_def services_ok_def timers_ok_def split: if_splits)
qed


section \<open>A service that the manager did not start\<close>

text \<open>Events that do not ask for a start of service \<open>i\<close>.\<close>

fun no_start_of :: "nat \<Rightarrow> event \<Rightarrow> bool" where
  "no_start_of i (Start_clicked j) = (j \<noteq> i)"
| "no_start_of i (Restart_clicked j) = (j \<noteq> i)"
| "no_start_of i Start_all_clicked = False"
| "no_start_of i Restart_all_clicked = False"
| "no_start_of i Sequential_tick = False"
| "no_start_of i e = True"

definition idle :: "nat \<Rightarrow> app_state \<Rightarrow> bool" where
  "idle i app \<longleftrightarrow> i < length (app_services app) \<and> sv_process (app_services app ! i) = None"

definition idle_step :: "nat \<Rightarrow> app_state \<times> log \<Rightarrow> bool" where
  "idle_step i r \<longleftrightarrow> idle i (fst r) \<and> spawned_of i (snd r) = []"

lemma idle_apply_other: "idle i app \<Longrightarrow> i \<noteq> j \<Longrightarrow> idle_step i (apply_op j f app)"
  by (simp add: idle_step_def idle_def apply_op_def case_prod_beta)

lemma idle_apply:
  assumes "idle i app"
    and "\<And>s. sv_process s = None \<Longrightarrow> sv_process (fst (f s)) = None \<and> spawned_ids (snd (f s)) = []"
  shows "idle_step i (apply_op j f app)"
proof (cases "i = j")
  case True
  then show ?thesis
    using assms by (simp add: idle_step_def idle_def apply_op_def case_prod_beta)
qed (use assms(1) idle_apply_other in blast)

lemma idle_in_order:
  assumes "\<And>j app. idle i app \<Longrightarrow> idle_step i (f j app)"
  shows "idle i app \<Longrightarrow> idle_step i (in_order js f app)"
proof (induction js arbitrary: app)
  case (Cons j js)
  then show ?case
    using assms[of app j] Cons.IH[of "fst (f j app)"] by (simp add: case_prod_beta idle_step_def)
qed (simp add: idle_step_def)

lemma idle_summary: "services_ok app \<Longrightarrow> i < SERVICE_COUNT \<Longrightarrow> idle i app \<Longrightarrow> idle i (update_status_summary sys app)"
  by (simp add: idle_def update_status_summary_def Let_def del: upt_Suc)

lemma idle_refresh_service:
  assumes "i < SERVICE_COUNT" "idle i app"
  shows "idle_step i (refresh_service sys j app)"
proof -
  obtain app1 l where one: "apply_op j (refresh_service_row (sys (2 * j)) (app_on_nonzero app)) app = (app1, l)"
    by fastforce
  have "idle_step i (app1, l)"
    unfolding one[symmetric] by (rule idle_apply[OF assms(2)]) (simp add: idle_refresh)
  then have "idle i (update_status_summary (sys (2 * j + 1)) app1)" "spawned_of i l = []"
    using assms(1) by (simp_all add: idle_step_def idle_def update_status_summary_def Let_def del: upt_Suc)
  then show ?thesis
    by (simp add: refresh_service_def one idle_step_def fire_health_probe_async_def idle_def)
qed

lemma idle_poll: "i < SERVICE_COUNT \<Longrightarrow> idle i app \<Longrightarrow> idle_step i (poll_services sys app)"
  unfolding poll_services_def for_services_def by (rule idle_in_order) (simp_all add: idle_refresh_service)

lemma idle_handle:
  assumes "i < SERVICE_COUNT" "idle i app" "no_start_of i e"
  shows "idle_step i (handle parse sys e app)"
proof (cases e)
  case Poll_once
  let ?a = "fst (for_services (\<lambda>j. apply_op j (\<lambda>s. (snd (recover_pid_from_port_if_matching (sys j 0) s), [])))
    (app\<lparr>app_poll_once := False\<rparr>))"
  have "idle_step i (for_services (\<lambda>j. apply_op j (\<lambda>s. (snd (recover_pid_from_port_if_matching (sys j 0) s), [])))
    (app\<lparr>app_poll_once := False\<rparr>))"
    unfolding for_services_def by (intro idle_in_order idle_apply) (use assms in \<open>simp_all add: idle_def\<close>)
  then have "idle i ?a" by (simp add: idle_step_def)
  from idle_poll[OF assms(1) this, of "\<lambda>k. sys (SERVICE_COUNT + k)"] show ?thesis
    by (simp add: Poll_once poll_services_once_def case_prod_beta Let_def)
next
  case (Present_tick windows surface hwnd)
  then show ?thesis using assms by (simp add: ensure_window_foreground_def Let_def idle_step_def idle_def)
next
  case (Probe_done j p)
  have "idle i (health_probe_done parse sys j p app)"
    using assms by (cases "i = j")
      (auto simp: health_probe_done_def Let_def idle_def update_status_summary_def simp del: upt_Suc
        split: option.split prod.split)
  then show ?thesis by (simp add: Probe_done idle_step_def)
next
  case Window_destroyed
  then show ?thesis
    using assms by (auto simp: on_window_destroy_def for_services_def Let_def destroy_service_def idle_def
        intro!: idle_in_order idle_apply)
next
  case (Stop_timeout j)
  have "spawned_ids (snd (stop_timer_fired sy s)) = []" for sy s
    by (simp add: stop_timer_fired_def force_stop_timeout_cb_def case_prod_beta)
  then show ?thesis using assms by (simp add: Stop_timeout idle_apply)
next
  case (Stop_clicked j)
  then show ?thesis using assms by (simp add: idle_apply service_stop_effects)
next
  case Stop_all_clicked
  have "idle_step i (for_services (\<lambda>j. apply_op j (service_stop (sys j))) app)"
    unfolding for_services_def
    by (intro idle_in_order idle_apply) (use assms in \<open>simp_all add: service_stop_effects\<close>)
  then show ?thesis by (simp add: Stop_all_clicked)
qed (use assms in \<open>simp_all add: idle_poll idle_apply_other\<close>)

lemma idle_run:
  assumes "run parse app0 (es, l) app" "i < SERVICE_COUNT" "idle i app0" "list_all (no_start_of i) es"
  shows "idle i app \<and> spawned_of i l = []"
  using assms(1,4)
proof (induction "(es, l)" app arbitrary: es l)
  case run_start
  then show ?case using assms(3) by simp
next
  case (run_event es l app e sys app' eff)
  then have "idle_step i (app', eff)" using idle_handle[OF assms(2), of app e parse sys] by simp
  with run_event show ?case by (simp add: idle_step_def)
qed

text \<open>
  \<open>Restart\<close> never restarts a service that the manager has found running instead of spawned: it
  terminates its pid, marks the restart as pending and forgets the pid, and nothing that happens
  afterwards without another request for a start, no refresh, probe or timer, ever spawns it.
\<close>
lemma adopted_restart_never_starts:
  assumes "i < SERVICE_COUNT" "length (app_services app) = SERVICE_COUNT"
    and "sv_process (app_services app ! i) = None" "sv_tracked_pid (app_services app ! i) = pid" "0 < pid"
    and "\<forall>j. sy_alive (sys 0 j) pid"
    and "handle parse sys (Restart_clicked i) app = (app1, l1)"
    and "run parse app1 (es, l) app2" "list_all (no_start_of i) es"
  shows "l1 = [(i, Terminated_pid pid)] \<and> sv_restart_pending (app_services app1 ! i) \<and>
     sv_tracked_pid (app_services app1 ! i) = 0 \<and> spawned_of i (l1 @ l) = [] \<and>
     sv_process (app_services app2 ! i) = None"
proof -
  let ?s = "app_services app ! i"
  have r: "service_restart (sys 0) ?s = ((clear_service_pid_tracking
      (?s\<lparr>sv_restart_pending := False, sv_fail_streak := 0\<rparr>))\<lparr>sv_restart_pending := True\<rparr>, [Terminated_pid pid])"
    using assms(3-6)
    by (simp add: service_restart_def service_stop_def recover_pid_from_port_if_matching_def running_tracked
        pid_is_alive_def Let_def)
  have l1: "l1 = [(i, Terminated_pid pid)]" and app1: "app1 = app\<lparr>app_services := (app_services app)[i :=
      (clear_service_pid_tracking (?s\<lparr>sv_restart_pending := False, sv_fail_streak := 0\<rparr>))\<lparr>sv_restart_pending := True\<rparr>]\<rparr>"
    using assms(7) by (auto simp: apply_op_def r)
  have "idle i app1" using assms(1-3) by (simp add: idle_def app1)
  from idle_run[OF assms(8,1) this assms(9)] show ?thesis
    using assms(1,2) by (simp add: l1 app1 idle_def spawned_of_def clear_service_pid_tracking_def)
qed

text \<open>
  What makes this worse: the pending mark stays. A later manual start keeps it, and the next time the
  process of the service ends by itself with code 0 the service is started again unasked.
\<close>

lemma pending_mark_survives_start:
  assumes "sv_restart_pending s" "sy_exit_status (sys 0) = 0"
  shows "sv_restart_pending (fst (service_start sys' s))"
    "snd (process_ended sys on_nonzero s) = snd (service_start (\<lambda>i. sys (2 + i)) (ended s))"
  using assms by (simp_all add: process_ended_parts restarts_def)

text \<open>
  The timer that brings the window to the front forgets its id at every tick but goes on, so that
  destroying the window after a tick does not remove it: it is still delivered, to a window that is gone.
\<close>

lemma foreground_timer_outlives_window:
  assumes "app_present_live app" "app_present_attempts app < 5"
  shows "enabled (fst (on_window_destroy (ensure_window_foreground True False hwnd app))) (Present_tick w u h)"
proof -
  have "app_present_attempts app + 1 < 6"
    using assms(2) by (simp add: word_less_nat_alt unat_word_ariths)
  moreover have "app_present_live (fst (in_order js (\<lambda>i. apply_op i f) a)) = app_present_live a" for js f a
    using control_loop_op[of js "\<lambda>_. f" a] by (simp add: control_def)
  ultimately show ?thesis
    using assms(1) by (simp add: ensure_window_foreground_def on_window_destroy_def for_services_def Let_def)
qed

text \<open>
  The port of a service follows the environment, the URL and the port that are probed do not.
\<close>

lemma probed_port_is_fixed:
  assumes "env ''LIARA_MEMORY_PORT'' = Some p" "p \<noteq> []"
  shows "last (sc_argv (service_configs env python ! 1)) = p \<and> sc_port (service_configs env python ! 1) = 8020 \<and>
     sc_health_url (service_configs env python ! 1) = ''http://127.0.0.1:8020/health''"
  using assms by (simp add: service_configs_def build_service_argv_def env_or_def)

lemma probe_parents_dir: "probe_parents n dir dirname p = Some r \<Longrightarrow> dir r"
  by (induction n dir dirname p rule: probe_parents.induct) (auto simp: Let_def split: if_splits)

lemma find_project_root_sound: "dir (find_project_root dir dirname env_root cwd) \<or> find_project_root dir dirname env_root cwd = cwd"
  by (auto simp: find_project_root_def dest: probe_parents_dir split: option.splits)

lemma destroy_shuts_down: "app_is_shutting_down (fst (on_window_destroy app))"
proof -
  have "app_is_shutting_down (fst (in_order js (\<lambda>i. apply_op i destroy_service) a)) = app_is_shutting_down a" for js a
    using control_loop_op[of js "\<lambda>_. destroy_service" a] by (simp add: control_def)
  then show ?thesis by (simp add: on_window_destroy_def for_services_def Let_def)
qed

section \<open>Examples\<close>

abbreviation example_tokens :: "string list" where
  "example_tokens \<equiv> [''services.api.app'', ''services.memory.app:app'', ''services.embedding.app:app'']"

abbreviation example_config :: manager_config where
  "example_config \<equiv> default_config (\<lambda>a b. a @ b) None"


text \<open>The process with the pid of the pid file is restarted; polls follow.\<close>

lemma adopted_restart_never_starts_witness:
  "let parse = (\<lambda>_. Inr JNull);
       sys = (\<lambda>_ _. busy_system);
       app = (fst (on_activate sys example_config example_tokens (\<lambda>i. if i = 0 then Some ''42'' else None)));
       (app1, l1) = handle parse sys (Restart_clicked 0) app;
       (app2, l2) = handle parse sys Poll app1
   in l1 = [(0, Terminated_pid 42)] \<and> spawned_of 0 (l1 @ l2) = [] \<and> sv_restart_pending (app_services app1 ! 0)"
proof -
  let ?parse = "\<lambda>_. Inr JNull" and ?sys = "\<lambda>_ _. busy_system"
  define app where "app = fst (on_activate ?sys example_config example_tokens (\<lambda>i. if i = 0 then Some ''42'' else None))"
  obtain app1 l1 where 1: "handle ?parse ?sys (Restart_clicked 0) app = (app1, l1)" by fastforce
  obtain app2 l2 where 2: "handle ?parse ?sys Poll app1 = (app2, l2)" by fastforce
  have facts: "length (app_services app) = SERVICE_COUNT" "sv_process (app_services app ! 0) = None"
      "sv_tracked_pid (app_services app ! 0) = 42" "app_poll app"
    unfolding app_def by code_simp+
  have "app_poll app1" using 1 facts(4) control_apply_op[of 0 "service_restart (\<lambda>_. busy_system)" app]
    by (simp add: control_def)
  then have r: "run ?parse app1 ([Poll], l2) app2"
    using run_event[OF run_start _ 2] by simp
  have "l1 = [(0, Terminated_pid 42)] \<and> sv_restart_pending (app_services app1 ! 0) \<and>
      sv_tracked_pid (app_services app1 ! 0) = 0 \<and> spawned_of 0 (l1 @ l2) = [] \<and>
      sv_process (app_services app2 ! 0) = None"
    by (rule adopted_restart_never_starts[OF _ facts(1,2,3) _ _ 1 r]) (simp_all add: busy_system_def)
  then have "l1 = [(0, Terminated_pid 42)] \<and> spawned_of 0 (l1 @ l2) = [] \<and>
      sv_restart_pending (app_services app1 ! 0)" by blast
  then show ?thesis unfolding Let_def app_def[symmetric] 1 2 prod.case .
qed

end
