(* ===== verification/Manager_Log.thy ===== *)
theory Manager_Log
  imports Manager_Config Stream_Client
begin

text \<open>
  The logs of the server manager (\<open>frontend/server-manager/src/manager_logging.c\<close> and the log reading in
  \<open>manager_process.c\<close>): the log of the application with its level and file, the log of a service, which is kept short,
  and the loop that reads the output of a service line by line. Text buffers are GTK's: lines end at LF, CR, CR LF
  and the paragraph separator.
\<close>

section \<open>Text buffers\<close>

text \<open>The lines of a buffer with what ends them; the last has no end and may be empty.\<close>

abbreviation LF :: char where "LF \<equiv> CHR 0x0A"
abbreviation CR :: char where "CR \<equiv> CHR 0x0D"

fun line_end :: "string \<Rightarrow> nat" where
  "line_end (c # s) =
     (if c = LF then 1
      else if c = CR then (case s of d # t \<Rightarrow> if d = LF then 2 else 1 | [] \<Rightarrow> 1)
      else (case (c # s) of
              a # b # d # t \<Rightarrow> if a = CHR 0xE2 \<and> b = CHR 0x80 \<and> d = CHR 0xA9 then 3 else 0
            | _ \<Rightarrow> 0))"
| "line_end [] = 0"

declare line_end.simps [simp del]

function buffer_lines :: "string \<Rightarrow> string list" where
  "buffer_lines [] = [[]]"
| "buffer_lines (c # s) =
     (if line_end (c # s) > 0 then take (line_end (c # s)) (c # s) # buffer_lines (drop (line_end (c # s)) (c # s))
      else case buffer_lines s of [] \<Rightarrow> [[c]] | l # ls \<Rightarrow> (c # l) # ls)"
  by pat_completeness auto
termination
  by (relation "measure length") (auto simp: length_drop less_Suc_eq_le)

section \<open>Operations\<close>

record logs =
  lo_buffer :: string
  lo_file :: "string option"
  lo_service :: string
  lo_level :: LogLevel

fun level_code :: "LogLevel \<Rightarrow> nat" where
  "level_code LOG_LEVEL_DEBUG = 0"
| "level_code LOG_LEVEL_INFO = 1"
| "level_code LOG_LEVEL_WARN = 2"
| "level_code LOG_LEVEL_ERROR = 3"

text \<open>The file gets every message, the buffer those from the chosen level on. \<open>None\<close> is no file, or one that cannot be opened.\<close>

definition append_log_level :: "string \<Rightarrow> LogLevel \<Rightarrow> string \<Rightarrow> logs \<Rightarrow> logs" where
  "append_log_level stamp level message l =
     (let line = stamp @ '' ['' @ log_level_to_string level @ ''] '' @ message @ [LF];
          l = (if level_code level \<ge> level_code (lo_level l) then l\<lparr>lo_buffer := lo_buffer l @ line\<rparr> else l)
      in l\<lparr>lo_file := map_option (\<lambda>f. f @ line) (lo_file l)\<rparr>)"

definition service_log_append :: "string \<Rightarrow> logs \<Rightarrow> logs" where
  "service_log_append line l =
     (let b = lo_service l @ line @ [LF];
          ls = buffer_lines b
      in l\<lparr>lo_service := (if length ls > 2000 then concat (drop (length ls - 2000) ls) else b)\<rparr>)"

text \<open>
  One answer of the reader. The result says whether the next line is asked for.
\<close>

definition on_log_line_read :: "string \<Rightarrow> string \<Rightarrow> string \<Rightarrow> line_read \<Rightarrow> logs \<Rightarrow> logs \<times> bool" where
  "on_log_line_read stamp key error_message r l =
     (case r of
        Line_error \<Rightarrow> (append_log_level stamp LOG_LEVEL_ERROR (''['' @ key @ ''] log stream error: '' @ error_message) l, False)
      | Line_end \<Rightarrow> (l, False)
      | Line line \<Rightarrow>
          (if line \<noteq> []
           then service_log_append line (append_log_level stamp LOG_LEVEL_INFO (''['' @ key @ ''] '' @ line) l)
           else l, True))"

text \<open>
  The output of a service until the reader stops: the logs and what has not been read. While the
  manager shuts down nothing is logged and nothing more read.
\<close>

function log_pump :: "string \<Rightarrow> string \<Rightarrow> string \<Rightarrow> bool \<Rightarrow> string \<Rightarrow> logs \<Rightarrow> logs \<times> string" where
  "log_pump stamp key error_message ends data l =
     (let (r, rest) = read_line ends data;
          (l', more) = on_log_line_read stamp key error_message r l
      in if more \<and> length rest < length data then log_pump stamp key error_message ends rest l' else (l', rest))"
  by pat_completeness auto
termination
  by (relation "measure (\<lambda>(stamp, key, em, ends, data, l). length data)") simp_all

declare log_pump.simps [simp del]

section \<open>Lemmas\<close>

lemma buffer_lines_ne [simp]: "buffer_lines s \<noteq> []"
  by (induction s rule: buffer_lines.induct) (auto split: list.split)

lemma concat_buffer_lines [simp]: "concat (buffer_lines s) = s"
proof (induction s rule: buffer_lines.induct)
  case (2 c s)
  show ?case
  proof (cases "line_end (c # s) > 0")
    case True
    then show ?thesis using 2(1)[OF True] by (simp del: line_end.simps take_Cons drop_Cons add: append_take_drop_id)
  next
    case False
    then show ?thesis using 2(2)[OF False] by (cases "buffer_lines s") (simp_all del: line_end.simps)
  qed
qed simp

lemma buffer_lines_tail: "buffer_lines s = l # ls \<Longrightarrow> ls \<noteq> [] \<Longrightarrow> buffer_lines (concat ls) = ls"
proof (induction s arbitrary: l rule: buffer_lines.induct)
  case (2 c s)
  show ?case
  proof (cases "line_end (c # s) > 0")
    case True
    then have "ls = buffer_lines (drop (line_end (c # s)) (c # s))" using 2(3) by (simp del: line_end.simps)
    then show ?thesis by simp
  next
    case False
    then show ?thesis using 2(2)[OF False] 2(3,4) by (cases "buffer_lines s") (auto simp del: line_end.simps)
  qed
qed simp

lemma buffer_lines_drop: "k < length (buffer_lines s) \<Longrightarrow> buffer_lines (concat (drop k (buffer_lines s))) = drop k (buffer_lines s)"
proof (induction k arbitrary: s)
  case (Suc k)
  obtain l ls where l: "buffer_lines s = l # ls" by (cases "buffer_lines s") simp_all
  then have "ls \<noteq> []" using Suc.prems by auto
  then have t: "buffer_lines (concat ls) = ls" by (rule buffer_lines_tail[OF l])
  show ?case using Suc.IH[of "concat ls"] Suc.prems l t by simp
qed simp

lemma service_log_bounded: "length (buffer_lines (lo_service (service_log_append line l))) \<le> 2000"
  by (simp add: service_log_append_def Let_def buffer_lines_drop)


definition plain_line :: "string \<Rightarrow> bool" where
  "plain_line l \<longleftrightarrow> set l \<inter> {LF, CR, CHR 0xE2} = {}"

definition ended :: "string \<Rightarrow> string" where "ended l = l @ [LF]"

definition last_lines :: "nat \<Rightarrow> 'a list \<Rightarrow> 'a list" where "last_lines n ls = drop (length ls - n) ls"

lemma line_end_plain: "c \<notin> {LF, CR, CHR 0xE2} \<Longrightarrow> line_end (c # s) = 0"
  by (auto simp: line_end.simps split: list.split)

lemma buffer_lines_plain: "plain_line l \<Longrightarrow> buffer_lines (l @ LF # s) = ended l # buffer_lines s"
proof (induction l)
  case Nil
  then show ?case by (simp add: ended_def line_end.simps)
next
  case (Cons c l)
  then have "line_end (c # l @ LF # s) = 0" by (intro line_end_plain) (auto simp: plain_line_def)
  then show ?case using Cons by (simp add: plain_line_def ended_def)
qed

lemma buffer_lines_all: "list_all plain_line ls \<Longrightarrow> buffer_lines (concat (map ended ls)) = map ended ls @ [[]]"
  by (induction ls) (simp_all add: ended_def buffer_lines_plain)

lemma last_lines_snoc:
  "last_lines (Suc n) (last_lines (Suc n) ls @ [x]) = last_lines (Suc n) (ls @ [x])"
  by (cases "length ls \<le> n") (auto simp: last_lines_def Suc_diff_Suc not_le)

lemma set_last_lines: "set (last_lines n ls) \<subseteq> set ls"
  by (simp add: last_lines_def set_drop_subset)

lemma service_log_append_plain:
  assumes "lo_service l = concat (map ended (last_lines 1999 ls))" "list_all plain_line ls" "plain_line line"
  shows "lo_service (service_log_append line l) = concat (map ended (last_lines 1999 (ls @ [line])))"
proof -
  define ks where "ks = last_lines 1999 ls @ [line]"
  have p: "list_all plain_line ks"
    using assms(2,3) set_last_lines[of 1999 ls] by (auto simp: ks_def list_all_iff)
  have b: "lo_service l @ line @ [LF] = concat (map ended ks)" by (simp add: ks_def assms(1) ended_def)
  have len: "length ks \<le> 2000" by (simp add: ks_def last_lines_def)
  have bl: "buffer_lines (lo_service l @ line @ [LF]) = map ended ks @ [[]]"
    unfolding b by (rule buffer_lines_all[OF p])
  have "lo_service (service_log_append line l) = concat (map ended (last_lines 1999 ks))"
  proof (cases "length ks = 2000")
    case True
    then show ?thesis by (simp add: service_log_append_def Let_def bl last_lines_def drop_map)
  next
    case False
    then have "length ks - 1999 = 0" using len by simp
    then show ?thesis unfolding service_log_append_def Let_def bl using False len by (simp add: last_lines_def b)
  qed
  then show ?thesis using last_lines_snoc[of 1998 ls line] by (simp add: ks_def)
qed

lemma append_log_level_service [simp]: "lo_service (append_log_level stamp lv m l) = lo_service l"
  by (simp add: append_log_level_def Let_def)

lemma append_log_level_file:
  "lo_file (append_log_level stamp lv m l)
     = map_option (\<lambda>f. f @ stamp @ '' ['' @ log_level_to_string lv @ ''] '' @ m @ [LF]) (lo_file l)"
  by (simp add: append_log_level_def Let_def)

lemma service_log_append_file [simp]: "lo_file (service_log_append line l) = lo_file l"
  by (simp add: service_log_append_def Let_def)

text \<open>The entry of a line of output in the file.\<close>

definition file_entry :: "string \<Rightarrow> string \<Rightarrow> string \<Rightarrow> string" where
  "file_entry stamp key line = stamp @ '' [INFO] ['' @ key @ ''] '' @ line @ [LF]"

definition log_line :: "string \<Rightarrow> string \<Rightarrow> string \<Rightarrow> logs \<Rightarrow> logs" where
  "log_line stamp key line l = fst (on_log_line_read stamp key [] (Line line) l)"

lemma log_pump_line:
  assumes "LF \<notin> set line" "c_utf8 line"
  shows "log_pump stamp key em ends (ended line @ rest) l = log_pump stamp key em ends rest (log_line stamp key line l)"
proof -
  have "read_line ends (ended line @ rest) = (Line line, rest)"
    using assms read_line_nl[of line ends rest] by (simp add: ended_def utf8_line_def)
  then show ?thesis
    by (subst log_pump.simps) (simp add: log_line_def on_log_line_read_def ended_def)
qed

lemma log_pump_lines:
  "list_all (\<lambda>line. LF \<notin> set line \<and> c_utf8 line) ls \<Longrightarrow>
     log_pump stamp key em ends (concat (map ended ls) @ rest) l = log_pump stamp key em ends rest (fold (log_line stamp key) ls l)"
  by (induction ls arbitrary: l) (simp_all add: log_pump_line)

lemma log_lines_kept:
  assumes "list_all plain_line ls" "lo_service l = concat (map ended (last_lines 1999 old))" "list_all plain_line old"
  shows "lo_service (fold (log_line stamp key) ls l)
      = concat (map ended (last_lines 1999 (old @ filter (\<lambda>line. line \<noteq> []) ls)))"
    and "lo_file (fold (log_line stamp key) ls l)
      = map_option (\<lambda>f. f @ concat (map (file_entry stamp key) (filter (\<lambda>line. line \<noteq> []) ls))) (lo_file l)"
  using assms
proof (induction ls arbitrary: l old)
  case Nil
  { case 1 then show ?case by simp next case 2 then show ?case by (simp add: option.map_ident) }
next
  case (Cons line ls)
  have s: "lo_service (log_line stamp key line l) = concat (map ended (last_lines 1999 (old @ (if line = [] then [] else [line]))))"
    if "plain_line line" "list_all plain_line old" "lo_service l = concat (map ended (last_lines 1999 old))" for l old
    using that service_log_append_plain[of "append_log_level stamp LOG_LEVEL_INFO (''['' @ key @ ''] '' @ line) l" old line]
    by (simp add: log_line_def on_log_line_read_def)
  have f: "lo_file (log_line stamp key line l)
      = map_option (\<lambda>f. f @ (if line = [] then [] else file_entry stamp key line)) (lo_file l)" for l
    by (simp add: log_line_def on_log_line_read_def append_log_level_file file_entry_def option.map_ident)
  have p: "list_all plain_line (old @ (if line = [] then [] else [line]))" if "plain_line line" "list_all plain_line old" for old
    using that by simp
  {
    case 1
    then have q: "plain_line line" "list_all plain_line old" "lo_service l = concat (map ended (last_lines 1999 old))" by simp_all
    then show ?case using Cons.IH(1)[OF _ s[OF q] p[OF q(1,2)]] 1 by (cases "line = []") simp_all
  next
    case 2
    then have q: "plain_line line" "list_all plain_line old" "lo_service l = concat (map ended (last_lines 1999 old))" by simp_all
    then show ?case using Cons.IH(2)[OF _ s[OF q] p[OF q(1,2)]] 2 f
      by (cases "line = []") (simp_all add: option.map_comp o_def)
  }
qed



definition demo_logs :: logs where
  "demo_logs = \<lparr>lo_buffer = [], lo_file = Some [], lo_service = [], lo_level = LOG_LEVEL_WARN\<rparr>"


end
