(* ===== verification/Client_Config.thy ===== *)
theory Client_Config
  imports Glib
begin

text \<open>
  The settings of the chat client (\<open>frontend/WMTool-Liara/src/liara_window.c\<close>): the identity that is
  derived from the login, the normalisation of the address of the API, and the file
  \<open>config/lserv.json\<close> with the widgets it fills and is filled from. The URI parser, the JSON parser and
  generator, the file system and the tables of Unicode are parameters.
\<close>

section \<open>Identity\<close>

text \<open>
  Names as lists of code points, as \<open>g_utf8_get_char\<close> and \<open>g_utf8_next_char\<close> walk them; the class of letters
  and digits and the lower case are GLib's tables.
\<close>

type_synonym points = "nat list"

definition points :: "string \<Rightarrow> points" where "points s = map code_of s"

fun id_loop :: "(nat \<Rightarrow> bool) \<Rightarrow> (nat \<Rightarrow> nat) \<Rightarrow> nat \<Rightarrow> points \<Rightarrow> points \<Rightarrow> bool \<Rightarrow> points" where
  "id_loop isalnum lower separator [] out previous_sep = out"
| "id_loop isalnum lower separator (ch # cursor) out previous_sep =
     (if isalnum ch then id_loop isalnum lower separator cursor (out @ [lower ch]) False
      else if \<not> previous_sep \<and> out \<noteq> [] then id_loop isalnum lower separator cursor (out @ [separator]) True
      else id_loop isalnum lower separator cursor out previous_sep)"

definition normalize_id_component :: "(nat \<Rightarrow> bool) \<Rightarrow> (nat \<Rightarrow> nat) \<Rightarrow> points option \<Rightarrow> nat \<Rightarrow> points" where
  "normalize_id_component isalnum lower t separator =
     (let out = id_loop isalnum lower separator (case t of None \<Rightarrow> [] | Some t \<Rightarrow> t) [] False;
          out = rev (dropWhile (\<lambda>c. c = separator) (rev out))
      in if out = [] then points ''user'' else out)"

record login =
  lg_display :: "points option"
  lg_sam :: "points option"
  lg_login :: "points option"
  lg_computer :: "points option"
  lg_domain_env :: "points option"

record identity =
  id_display_name :: points
  id_user :: points
  id_session :: points
  id_sandbox :: points
  id_login_text :: points
  id_title :: points

definition given :: "points option \<Rightarrow> bool" where
  "given p = (case p of None \<Rightarrow> False | Some q \<Rightarrow> q \<noteq> [])"

definition backslash :: nat where "backslash = 92"
definition hyphen :: nat where "hyphen = 45"
definition underscore :: nat where "underscore = 95"

text \<open>\<open>apply_windows_identity_defaults\<close> without the calls of the Windows API, whose results come with \<open>login\<close>.\<close>

definition apply_windows_identity_defaults :: "(nat \<Rightarrow> bool) \<Rightarrow> (nat \<Rightarrow> nat) \<Rightarrow> login \<Rightarrow> identity" where
  "apply_windows_identity_defaults isalnum lower l =
     (let display_name = (if given (lg_display l) then the (lg_display l)
                          else case lg_login l of Some n \<Rightarrow> n | None \<Rightarrow> points ''User'');
          sam = (case lg_sam l of Some s \<Rightarrow> if backslash \<in> set s then Some s else None | None \<Rightarrow> None);
          domain_name = map_option (takeWhile (\<lambda>c. c \<noteq> backslash)) sam;
          login_part = map_option (\<lambda>s. tl (dropWhile (\<lambda>c. c \<noteq> backslash) s)) sam;
          login_name = (if given login_part then login_part else lg_login l);
          domain_name = (if given domain_name then domain_name else lg_domain_env l);
          login_name = (if given login_name then the login_name else points ''user'');
          computer_name = (if given (lg_computer l) then the (lg_computer l) else points ''desktop'');
          user_id = normalize_id_component isalnum lower
            (Some (if given domain_name then the domain_name @ [hyphen] @ login_name else login_name)) hyphen;
          computer = normalize_id_component isalnum lower (Some computer_name) hyphen;
          session_id = user_id @ [hyphen] @ computer
      in \<lparr>id_display_name = display_name, id_user = user_id, id_session = session_id,
          id_sandbox = normalize_id_component isalnum lower (Some user_id) underscore,
          id_login_text = user_id @ points ''  |  '' @ session_id,
          id_title = points ''LIARA GTK UI - '' @ display_name\<rparr>)"

section \<open>The address of the API\<close>

text \<open>\<open>GUri\<close>: the port is -1 when none is given.\<close>

record uri =
  ur_scheme :: string
  ur_host :: "string option"
  ur_port :: int
  ur_path :: string

definition bridge_uri :: "uri \<Rightarrow> bool" where
  "bridge_uri u \<longleftrightarrow> starts_with ''/v1'' (ur_path u) \<or> starts_with ''/openai'' (ur_path u) \<or> ur_port u = 8011"

definition local_api :: "int \<Rightarrow> string" where
  "local_api port = ''http://127.0.0.1:'' @ show_int port"

definition normalize_base_url ::
  "(string \<Rightarrow> uri option) \<Rightarrow> string option \<Rightarrow> string option \<Rightarrow> int \<Rightarrow> string" where
  "normalize_base_url parse_uri raw_url raw_host port =
     (let url = strip (case raw_url of None \<Rightarrow> [] | Some u \<Rightarrow> u);
          host = strip (case raw_host of None \<Rightarrow> [] | Some h \<Rightarrow> h)
      in if url \<noteq> [] then
           (case parse_uri url of
              None \<Rightarrow> url
            | Some u \<Rightarrow>
                if bridge_uri u then
                  (if filled (ur_host u)
                   then (if ur_scheme u \<noteq> [] then ur_scheme u else ''http'') @ ''://'' @ the (ur_host u) @ '':8010''
                   else local_api 8010)
                else url)
         else if host = [] then local_api (max 1 port)
         else ''http://'' @ host @ '':'' @ show_int (max 1 port))"

definition is_legacy_bridge_base_url :: "(string \<Rightarrow> uri option) \<Rightarrow> string option \<Rightarrow> bool" where
  "is_legacy_bridge_base_url parse_uri url =
     (filled url \<and> (case parse_uri (the url) of None \<Rightarrow> False | Some u \<Rightarrow> bridge_uri u))"

section \<open>The window's settings\<close>

text \<open>\<open>cu_\<close> what the window remembers, \<open>cw_\<close> what its widgets show.\<close>

record client_ui =
  cu_api :: string
  cu_dev_mode :: bool
  cu_tokens :: int
  cu_stream :: bool
  cu_history_tools :: bool
  cu_watchdog :: int
  cw_display_name :: string
  cw_user :: string
  cw_session :: string
  cw_history_session :: string
  cw_info_user :: string
  cw_info_session :: string
  cw_sandbox :: string
  cw_max_tokens :: int
  cw_history_include :: bool
  cw_default_tokens :: int
  cw_stream_enabled :: bool
  cw_history_default :: bool
  cw_base_url :: string
  cw_host :: string
  cw_port :: int
  cw_hint :: string
  cw_saved_hint :: string
  cw_status :: string

text \<open>\<open>CLAMP\<close>; a spin button does the same with its range. \<open>(int)\<close> of a \<open>gint64\<close> cuts it to 32 bits.\<close>

definition clamp :: "int \<Rightarrow> int \<Rightarrow> int \<Rightarrow> int" where "clamp lo hi x = max lo (min hi x)"

definition to_int :: "int \<Rightarrow> int" where "to_int x = sint (word_of_int x :: 32 word)"

definition sync_endpoint_controls_from_base_url :: "(string \<Rightarrow> uri option) \<Rightarrow> string \<Rightarrow> client_ui \<Rightarrow> client_ui" where
  "sync_endpoint_controls_from_base_url parse_uri base_url ui =
     (let uri = (if base_url \<noteq> [] then parse_uri base_url else None);
          host = (case uri of None \<Rightarrow> ''127.0.0.1''
                  | Some u \<Rightarrow> (case ur_host u of None \<Rightarrow> ''127.0.0.1'' | Some h \<Rightarrow> h));
          port = (case uri of None \<Rightarrow> 8010
                  | Some u \<Rightarrow> if ur_port u > 0 then ur_port u else if ur_scheme u = ''https'' then 443 else 80)
      in ui\<lparr>cw_base_url := base_url, cw_host := host, cw_port := clamp 1 65535 port,
            cw_hint := ''Current endpoint: '' @ base_url\<rparr>)"

definition sync_client_settings_to_widgets :: "client_ui \<Rightarrow> client_ui" where
  "sync_client_settings_to_widgets ui =
     ui\<lparr>cw_max_tokens := clamp 1 8192 (cu_tokens ui), cw_history_include := cu_history_tools ui,
        cw_default_tokens := clamp 1 8192 (cu_tokens ui), cw_stream_enabled := cu_stream ui,
        cw_history_default := cu_history_tools ui\<rparr>"

definition sync_client_settings_from_widgets :: "client_ui \<Rightarrow> client_ui" where
  "sync_client_settings_from_widgets ui =
     ui\<lparr>cu_tokens := cw_default_tokens ui, cu_stream := cw_stream_enabled ui, cu_history_tools := cw_history_default ui\<rparr>"

section \<open>The file\<close>

definition connection_json :: "string \<Rightarrow> client_ui \<Rightarrow> json" where
  "connection_json base_url ui = object
     [(''api_base_url'', JString base_url), (''dev_mode'', JBool (cu_dev_mode ui)),
      (''display_name'', JString (cw_display_name ui)), (''user_id'', JString (cw_user ui)),
      (''session_id'', JString (cw_session ui)), (''sandbox'', JString (cw_sandbox ui)),
      (''chat_default_max_tokens'', JInt (cu_tokens ui)), (''chat_stream_enabled'', JBool (cu_stream ui)),
      (''history_include_tools_default'', JBool (cu_history_tools ui)),
      (''chat_stream_watchdog_seconds'', JInt (clamp 15 900 (cu_watchdog ui)))]"

text \<open>
  The surroundings: the parsers, and whether the directory can be made and the file written. A file
  that is missing or cannot be read is \<open>None\<close>.
\<close>

record surroundings =
  so_uri :: "string \<Rightarrow> uri option"
  so_parse :: "string \<Rightarrow> json result"
  so_gen :: "json \<Rightarrow> string"
  so_conv :: "fp \<Rightarrow> int"
  so_long_max :: int
  so_watchdog_env :: "string option"
  so_mkdir :: bool
  so_write :: bool

definition save_connection_config ::
  "surroundings \<Rightarrow> string \<Rightarrow> client_ui \<times> string option \<Rightarrow> bool \<times> client_ui \<times> string option" where
  "save_connection_config so base_url st =
     (case st of (ui, file) \<Rightarrow>
        if \<not> so_mkdir so then (False, ui, file)
        else let ui = sync_client_settings_from_widgets ui
          in if so_write so then (True, ui, Some (so_gen so (connection_json base_url ui))) else (False, ui, file))"

text \<open>The number must end the text, as \<open>*endptr == '\0'\<close> demands.\<close>

definition strtol_all :: "int \<Rightarrow> string \<Rightarrow> int option" where
  "strtol_all long_max s =
     (let t = dropWhile is_space s;
          u = (case t of c # r \<Rightarrow> if c = CHR ''-'' \<or> c = CHR ''+'' then r else t | [] \<Rightarrow> [])
      in if list_all is_digit u then strtol long_max s else None)"

definition watchdog_default :: "surroundings \<Rightarrow> int" where
  "watchdog_default so =
     (case so_watchdog_env so of
        None \<Rightarrow> 120
      | Some e \<Rightarrow>
          if e = [] then 120
          else case strtol_all (so_long_max so) e of None \<Rightarrow> 120 | Some parsed \<Rightarrow> clamp 15 900 parsed)"

text \<open>The members of the file, in the order of the code; a text is taken when it is not empty.\<close>

definition load_text :: "json \<Rightarrow> string \<Rightarrow> (string \<Rightarrow> client_ui \<Rightarrow> client_ui) \<Rightarrow> client_ui \<Rightarrow> client_ui" where
  "load_text doc key put ui =
     (case string_member doc key of None \<Rightarrow> ui | Some t \<Rightarrow> if t = [] then ui else put t ui)"

definition load_members :: "surroundings \<Rightarrow> json \<Rightarrow> client_ui \<Rightarrow> client_ui" where
  "load_members so doc ui =
     (let ui = load_text doc ''display_name'' (\<lambda>t ui. ui\<lparr>cw_display_name := t\<rparr>) ui;
          ui = load_text doc ''user_id'' (\<lambda>t ui. ui\<lparr>cw_user := t, cw_info_user := t\<rparr>) ui;
          ui = load_text doc ''session_id''
                 (\<lambda>t ui. ui\<lparr>cw_session := t, cw_history_session := t, cw_info_session := t\<rparr>) ui;
          ui = load_text doc ''sandbox'' (\<lambda>t ui. ui\<lparr>cw_sandbox := t\<rparr>) ui;
          ui = (if contains doc ''chat_default_max_tokens''
                then ui\<lparr>cu_tokens := clamp 1 8192 (to_int (int_member (so_conv so) doc ''chat_default_max_tokens''))\<rparr>
                else ui);
          ui = (if contains doc ''chat_stream_enabled''
                then ui\<lparr>cu_stream := boolean_member doc ''chat_stream_enabled''\<rparr> else ui);
          ui = (if contains doc ''history_include_tools_default''
                then ui\<lparr>cu_history_tools := boolean_member doc ''history_include_tools_default''\<rparr> else ui);
          ui = (if contains doc ''chat_stream_watchdog_seconds''
                then ui\<lparr>cu_watchdog := clamp 15 900 (to_int (int_member (so_conv so) doc ''chat_stream_watchdog_seconds''))\<rparr>
                else ui)
      in sync_client_settings_to_widgets ui)"

abbreviation blank_line2 :: string where "blank_line2 \<equiv> [CHR 0x0A, CHR 0x0A]"

definition endpoint_message :: "bool \<Rightarrow> string option \<Rightarrow> string \<Rightarrow> client_ui \<Rightarrow> client_ui" where
  "endpoint_message migrated base_url normalized ui =
     (if migrated then
        ui\<lparr>cw_saved_hint := ''Migrated legacy bridge endpoint to direct API (8010).'',
           cw_status := ''Legacy bridge endpoint detected and migrated.'' @ blank_line2 @ ''Old endpoint: '' @
             the base_url @ [CHR 0x0A] @ ''New direct API endpoint: '' @ normalized @ blank_line2 @
             ''WMTool-Liara now uses direct API mode (/chat, /chat/stream) on port 8010.''\<rparr>
      else if cu_dev_mode ui then
        ui\<lparr>cw_status := ''DEV mode active.'' @ [CHR 0x0A] @ ''Direct API endpoint: '' @ normalized @
             blank_line2 @ ''No universal bridge client is used in WMTool-Liara runtime.''\<rparr>
      else ui)"

text \<open>The file is written again before its other members are read.\<close>

definition load_document :: "surroundings \<Rightarrow> json \<Rightarrow> client_ui \<times> string option \<Rightarrow> client_ui \<times> string option" where
  "load_document so doc st =
     (let base_url = string_member doc ''api_base_url'';
          normalized = normalize_base_url (so_uri so) base_url None 8010;
          ui = (if normalized = [] then fst st else (fst st)\<lparr>cu_api := normalized\<rparr>);
          ui = sync_endpoint_controls_from_base_url (so_uri so) normalized ui;
          st = (if base_url \<noteq> Some normalized
                then snd (save_connection_config so normalized (ui, snd st)) else (ui, snd st))
      in (endpoint_message (is_legacy_bridge_base_url (so_uri so) base_url) base_url normalized
            (load_members so doc (fst st)), snd st))"

definition load_connection_config ::
  "surroundings \<Rightarrow> client_ui \<times> string option \<Rightarrow> client_ui \<times> string option" where
  "load_connection_config so st =
     (let ui = (fst st)\<lparr>cu_tokens := 2048, cu_stream := True, cu_history_tools := True, cu_watchdog := watchdog_default so\<rparr>;
          give_up = snd (save_connection_config so (cu_api ui)
                      (sync_endpoint_controls_from_base_url (so_uri so) (cu_api ui) ui, snd st))
      in case snd st of
           None \<Rightarrow> give_up
         | Some content \<Rightarrow>
             (case so_parse so content of
                Inl _ \<Rightarrow> give_up
              | Inr doc \<Rightarrow>
                  if \<not> is_object doc \<or> \<not> contains doc ''api_base_url'' then give_up
                  else load_document so doc (ui, snd st)))"

section \<open>The buttons\<close>

text \<open>
  Of the message only the first paragraph: what follows repeats the addresses and the path of the file.
\<close>

definition on_apply_connection_clicked ::
  "surroundings \<Rightarrow> string \<Rightarrow> client_ui \<times> string option \<Rightarrow> client_ui \<times> string option" where
  "on_apply_connection_clicked so error_message st =
     (case st of (ui, file) \<Rightarrow>
        let raw_url = cw_base_url ui;
            migrated = is_legacy_bridge_base_url (so_uri so) (Some raw_url);
            base_url = normalize_base_url (so_uri so) (Some raw_url) (Some (cw_host ui)) (cw_port ui);
            ui = (if base_url = [] then ui else ui\<lparr>cu_api := base_url\<rparr>);
            ui = sync_endpoint_controls_from_base_url (so_uri so) base_url ui;
            (saved, ui, file) = save_connection_config so base_url (ui, file)
        in (if \<not> saved then
              ui\<lparr>cw_status := ''Connection updated to '' @ base_url @ blank_line2 @ ''Config save failed: '' @ error_message\<rparr>
            else if migrated then
              ui\<lparr>cw_saved_hint := ''Endpoint migrated from bridge to direct API (8010).'',
                 cw_status := ''Connection settings applied with automatic migration.''\<rparr>
            else ui\<lparr>cw_status := ''Connection settings applied.''\<rparr>, file))"

definition on_apply_client_settings_clicked ::
  "surroundings \<Rightarrow> string \<Rightarrow> client_ui \<times> string option \<Rightarrow> client_ui \<times> string option" where
  "on_apply_client_settings_clicked so error_message st =
     (case st of (ui, file) \<Rightarrow>
        let ui = sync_client_settings_to_widgets (sync_client_settings_from_widgets ui);
            (saved, ui, file) = save_connection_config so (cu_api ui) (ui, file);
            m = ''Client settings updated, but save failed'' @ blank_line2 @ error_message
        in (if \<not> saved then ui\<lparr>cw_saved_hint := m, cw_status := m\<rparr>
            else ui\<lparr>cw_saved_hint := ''Client settings saved to lserv.json.'', cw_status := ''Client settings saved.''\<rparr>, file))"


section \<open>Saving and loading\<close>

definition storable :: "client_ui \<Rightarrow> bool" where
  "storable ui \<longleftrightarrow> cw_display_name ui \<noteq> [] \<and> cw_user ui \<noteq> [] \<and> cw_session ui \<noteq> [] \<and> cw_sandbox ui \<noteq> [] \<and>
     1 \<le> cw_default_tokens ui \<and> cw_default_tokens ui \<le> 8192 \<and> 15 \<le> cu_watchdog ui \<and> cu_watchdog ui \<le> 900"

text \<open>What the user can set.\<close>

definition settings_of :: "client_ui \<Rightarrow> string \<times> string \<times> string \<times> string \<times> string \<times> int \<times> bool \<times> bool \<times> int" where
  "settings_of ui = (cu_api ui, cw_display_name ui, cw_user ui, cw_session ui, cw_sandbox ui, cu_tokens ui, cu_stream ui,
     cu_history_tools ui, cu_watchdog ui)"

text \<open>The settings as the widgets show them.\<close>

definition widget_settings :: "string \<Rightarrow> client_ui \<Rightarrow> string \<times> string \<times> string \<times> string \<times> string \<times> int \<times> bool \<times> bool \<times> int" where
  "widget_settings url ui = (url, cw_display_name ui, cw_user ui, cw_session ui, cw_sandbox ui, cw_default_tokens ui,
     cw_stream_enabled ui, cw_history_default ui, cu_watchdog ui)"

lemma clamp_id: "lo \<le> x \<Longrightarrow> x \<le> hi \<Longrightarrow> clamp lo hi x = x"
  by (simp add: clamp_def)

lemma to_int_id: "- (2 ^ 31) \<le> x \<Longrightarrow> x < 2 ^ 31 \<Longrightarrow> to_int x = x"
  by (simp add: to_int_def sint_sbintrunc' signed_take_bit_int_eq_self)

lemma sync_from_keeps [simp]:
  "cw_display_name (sync_client_settings_from_widgets ui) = cw_display_name ui"
  "cw_user (sync_client_settings_from_widgets ui) = cw_user ui"
  "cw_session (sync_client_settings_from_widgets ui) = cw_session ui"
  "cw_sandbox (sync_client_settings_from_widgets ui) = cw_sandbox ui"
  "cw_default_tokens (sync_client_settings_from_widgets ui) = cw_default_tokens ui"
  "cu_watchdog (sync_client_settings_from_widgets ui) = cu_watchdog ui"
  "cu_tokens (sync_client_settings_from_widgets ui) = cw_default_tokens ui"
  "cu_stream (sync_client_settings_from_widgets ui) = cw_stream_enabled ui"
  "cu_history_tools (sync_client_settings_from_widgets ui) = cw_history_default ui"
  by (simp_all add: sync_client_settings_from_widgets_def)

lemma connection_json_members [simp]:
  "is_object (connection_json b ui)"
  "contains (connection_json b ui) ''api_base_url''"
  "string_member (connection_json b ui) ''api_base_url'' = Some b"
  by (simp_all add: connection_json_def contains_def string_member_def)

lemma load_members_saved:
  assumes "storable s"
  shows "settings_of (load_members so (connection_json b (sync_client_settings_from_widgets s)) ui) = widget_settings (cu_api ui) s"
  using assms
  by (simp add: load_members_def load_text_def connection_json_def string_member_def contains_def int_member_def
      boolean_member_def storable_def settings_of_def widget_settings_def sync_client_settings_to_widgets_def
      clamp_id to_int_id)

lemma load_members_dev [simp]: "cu_dev_mode (load_members so doc ui) = cu_dev_mode ui"
  by (simp add: load_members_def load_text_def sync_client_settings_to_widgets_def Let_def split: option.split)

lemma settings_of_message [simp]: "settings_of (endpoint_message m b n ui) = settings_of ui"
  by (simp add: endpoint_message_def settings_of_def)

text \<open>Loading a file that was saved with the address \<open>b\<close>.\<close>

lemma client_load_saved:
  assumes "storable s" "so_parse so content = Inr (connection_json b (sync_client_settings_from_widgets s))"
    and "normalize_base_url (so_uri so) (Some b) None 8010 = n" "n \<noteq> []"
  shows "\<exists>ui'. load_connection_config so (ui, Some content) =
      (ui', if b = n then Some content
            else snd (snd (save_connection_config so n (ui\<lparr>cu_watchdog := watchdog_default so\<rparr>, Some content))))
    \<and> settings_of ui' = widget_settings n s"
proof -
  define u where "u = sync_endpoint_controls_from_base_url (so_uri so) n
      (ui\<lparr>cu_tokens := 2048, cu_stream := True, cu_history_tools := True, cu_watchdog := watchdog_default so, cu_api := n\<rparr>)"
  define doc where "doc = connection_json b (sync_client_settings_from_widgets s)"
  define st where "st = (if b = n then (u, Some content) else snd (save_connection_config so n (u, Some content)))"
  have disk: "snd st = (if b = n then Some content
      else snd (snd (save_connection_config so n (ui\<lparr>cu_watchdog := watchdog_default so\<rparr>, Some content))))"
    by (simp add: st_def save_connection_config_def u_def sync_endpoint_controls_from_base_url_def Let_def connection_json_def
        sync_client_settings_from_widgets_def)
  have "cu_api (fst st) = n"
    by (simp add: st_def save_connection_config_def u_def sync_endpoint_controls_from_base_url_def Let_def
        sync_client_settings_from_widgets_def)
  then have l: "settings_of (load_members so doc (fst st)) = widget_settings n s"
    unfolding doc_def using load_members_saved[OF assms(1), of so b "fst st"] by simp
  have "load_connection_config so (ui, Some content) = (endpoint_message (is_legacy_bridge_base_url (so_uri so) (Some b))
      (Some b) n (load_members so doc (fst st)), snd st)"
    using assms(3,4)
    by (cases "b = n") (simp_all add: load_connection_config_def load_document_def Let_def u_def doc_def assms(2) st_def)
  then show ?thesis using l disk by simp
qed


text \<open>
  C16: The settings file of the chat client. What is saved is what the next start loads, and the file stays as
  it is, when the address is not one of the old bridge and the parser reads what the generator
  writes. A file with an old address is migrated: the address is corrected and the settings of
  the file are in force, but the file is written before they are read, with what the widgets of
  the new window show; the start after that has lost them.
\<close>
theorem client_config_roundtrip:
  assumes "storable s" "storable s1" "so_mkdir so" "so_write so"
    and "\<forall>(c, v) \<in> {(b, s), (n, s1\<lparr>cu_watchdog := watchdog_default so\<rparr>)}.
      let doc = connection_json c (sync_client_settings_from_widgets v) in so_parse so (so_gen so doc) = Inr doc"
    and "normalize_base_url (so_uri so) (Some b) None 8010 = n" "n \<noteq> []"
    and "normalize_base_url (so_uri so) (Some n) None 8010 = n"
  shows "\<exists>ui0 ui1 ui2 written rewritten.
      save_connection_config so b (s, old) = (True, ui0, Some written) \<and>
      settings_of ui0 = widget_settings (cu_api s) s \<and>
      load_connection_config so (s1, Some written) = (ui1, Some rewritten) \<and>
      settings_of ui1 = widget_settings n s \<and>
      (b = n \<longrightarrow> rewritten = written) \<and>
      (b \<noteq> n \<longrightarrow> load_connection_config so (s2, Some rewritten) = (ui2, Some rewritten) \<and>
         settings_of ui2 = widget_settings n (s1\<lparr>cu_watchdog := watchdog_default so\<rparr>))"
proof -
  define written where "written = so_gen so (connection_json b (sync_client_settings_from_widgets s))"
  have sv: "save_connection_config so c (v, old')
      = (True, sync_client_settings_from_widgets v, Some (so_gen so (connection_json c (sync_client_settings_from_widgets v))))"
    for c v old' using assms(3,4) by (simp add: save_connection_config_def Let_def)
  define s1' where "s1' = s1\<lparr>cu_watchdog := watchdog_default so\<rparr>"
  define rewritten where "rewritten = (if b = n then written
      else so_gen so (connection_json n (sync_client_settings_from_widgets s1')))"
  have 0: "settings_of (sync_client_settings_from_widgets s) = widget_settings (cu_api s) s"
    by (simp add: settings_of_def widget_settings_def sync_client_settings_from_widgets_def)
  obtain ui1 where 1: "load_connection_config so (s1, Some written) = (ui1, Some rewritten)" "settings_of ui1 = widget_settings n s"
    using client_load_saved[OF assms(1) _ assms(6,7), of written s1] assms(5)
    by (auto simp: written_def rewritten_def sv s1'_def Let_def)
  have "15 \<le> watchdog_default so" "watchdog_default so \<le> 900"
    by (auto simp: watchdog_default_def clamp_def split: option.split)
  then have st: "storable s1'" using assms(2) by (simp add: storable_def s1'_def)
  have 2: "\<exists>ui2. load_connection_config so (s2, Some rewritten) = (ui2, Some rewritten) \<and> settings_of ui2 = widget_settings n s1'"
    if "b \<noteq> n"
    using client_load_saved[OF st _ assms(8,7), of rewritten s2] assms(5) that by (auto simp: rewritten_def s1'_def Let_def)
  show ?thesis
    using sv[of b s old] 0 1 2 unfolding written_def[symmetric] s1'_def[symmetric]
    by (cases "b = n") (auto simp: rewritten_def)
qed


section \<open>What an identifier is\<close>

text \<open>A name as its words, the longest runs of letters and digits, put together.\<close>

function runs :: "(nat \<Rightarrow> bool) \<Rightarrow> points \<Rightarrow> points list" where
  "runs P [] = []"
| "runs P (c # cs) =
     (if P c then takeWhile P (c # cs) # runs P (dropWhile P cs) else runs P cs)"
  by pat_completeness auto
termination
  by (relation "measure (\<lambda>(P, cs). length cs)") (auto simp: le_imp_less_Suc length_dropWhile_le)

fun join :: "nat \<Rightarrow> points list \<Rightarrow> points" where
  "join separator [] = []"
| "join separator [w] = w"
| "join separator (w # v # ws) = w @ separator # join separator (v # ws)"

text \<open>What GLib's tables of Unicode promise.\<close>

definition unicode_tables :: "(nat \<Rightarrow> bool) \<Rightarrow> (nat \<Rightarrow> nat) \<Rightarrow> bool" where
  "unicode_tables isalnum lower \<longleftrightarrow>
     (\<forall>c. isalnum c \<longrightarrow> isalnum (lower c) \<and> lower (lower c) = lower c) \<and>
     \<not> isalnum hyphen \<and> \<not> isalnum underscore \<and> (\<forall>c. 97 \<le> c \<and> c \<le> 122 \<longrightarrow> isalnum c \<and> lower c = c)"

definition cut :: "nat \<Rightarrow> points \<Rightarrow> points" where
  "cut separator out = rev (dropWhile (\<lambda>c. c = separator) (rev out))"

lemma cut_simps:
  "cut s (out @ [s]) = cut s out" "out \<noteq> [] \<Longrightarrow> last out \<noteq> s \<Longrightarrow> cut s out = out" "cut s [] = []"
  by (simp_all add: cut_def dropWhile_id hd_rev)

definition after_word :: "(nat \<Rightarrow> nat) \<Rightarrow> nat \<Rightarrow> points list \<Rightarrow> points" where
  "after_word lower s ws = (if ws = [] then [] else s # join s (map (map lower) ws))"

lemma join_Cons: "join s (w # ws) = w @ (if ws = [] then [] else s # join s ws)"
  by (cases ws) simp_all

lemma runs_skip: "\<not> P c \<Longrightarrow> runs P (c # cs) = runs P cs"
  by simp

lemma id_loop_words:
  assumes "\<And>c. isalnum c \<Longrightarrow> lower c \<noteq> s"
  shows "out \<noteq> [] \<Longrightarrow> last out \<noteq> s \<Longrightarrow> cut s (id_loop isalnum lower s t out False)
      = out @ map lower (takeWhile isalnum t) @ after_word lower s (runs isalnum (dropWhile isalnum t))"
    and "out \<noteq> [] \<Longrightarrow> last out \<noteq> s \<Longrightarrow> cut s (id_loop isalnum lower s t (out @ [s]) True)
      = out @ after_word lower s (runs isalnum t)"
proof (induction t arbitrary: out)
  case Nil
  {
    case 1
    then show ?case by (simp add: cut_simps after_word_def)
  next
    case 2
    then show ?case by (simp add: cut_simps after_word_def)
  }
next
  case (Cons c t)
  {
    case 1
    then show ?case using Cons.IH(1)[of "out @ [lower c]"] Cons.IH(2)[of out] assms by simp
  next
    case 2
    then show ?case using Cons.IH(1)[of "out @ [s, lower c]"] Cons.IH(2)[of out] assms
      by (simp add: after_word_def join_Cons)
  }
qed

lemma id_loop_start:
  assumes "\<And>c. isalnum c \<Longrightarrow> lower c \<noteq> s"
  shows "cut s (id_loop isalnum lower s t [] False) = join s (map (map lower) (runs isalnum t))"
proof (induction t)
  case Nil
  then show ?case by (simp add: cut_simps)
next
  case (Cons c t)
  show ?case
  proof (cases "isalnum c")
    case True
    then have "cut s (id_loop isalnum lower s t [lower c] False)
        = lower c # map lower (takeWhile isalnum t) @ after_word lower s (runs isalnum (dropWhile isalnum t))"
      using id_loop_words(1)[OF assms, where out = "[lower c]" and t = t] assms by simp
    then show ?thesis using True by (simp add: join_Cons after_word_def)
  qed (use Cons in simp)
qed

lemma runs_nonempty: "ws \<in> set (runs P t) \<Longrightarrow> ws \<noteq> [] \<and> list_all P ws"
proof (induction P t rule: runs.induct)
  case (2 P c cs)
  then show ?case
    by (cases "P c") (auto simp: list_all_iff dest: set_takeWhileD)
qed simp

lemma normalize_words:
  assumes "\<And>c. isalnum c \<Longrightarrow> lower c \<noteq> s"
  shows "normalize_id_component isalnum lower (Some t) s =
    (if runs isalnum t = [] then points ''user'' else join s (map (map lower) (runs isalnum t)))"
proof -
  have "join s (map (map lower) (runs isalnum t)) = [] \<longleftrightarrow> runs isalnum t = []"
    using runs_nonempty[of _ isalnum t] by (cases "runs isalnum t") (auto simp: join_Cons)
  moreover have "cut s (id_loop isalnum lower s t [] False) = join s (map (map lower) (runs isalnum t))"
    by (rule id_loop_start) (rule assms)
  ultimately show ?thesis
    unfolding normalize_id_component_def Let_def cut_def[symmetric] by simp
qed

lemma runs_word:
  assumes "list_all P w" "w \<noteq> []" "\<not> P s"
  shows "runs P (w @ s # t) = w # runs P t" "runs P w = [w]"
proof -
  obtain c v where w: "w = c # v" "P c" "list_all P v" using assms(1,2) by (cases w) auto
  have "takeWhile P (v @ s # t) = v" "dropWhile P (v @ s # t) = s # t" "takeWhile P v = v" "dropWhile P v = []"
    using w(3) assms(3) by (simp_all add: list_all_iff takeWhile_append dropWhile_append takeWhile_eq_all_conv dropWhile_eq_Nil_conv)
  then show "runs P (w @ s # t) = w # runs P t" "runs P w = [w]" using w assms(3) by (simp_all del: dropWhile_eq_Nil_conv)
qed

lemma runs_join:
  "list_all (\<lambda>w. w \<noteq> [] \<and> list_all P w) ws \<Longrightarrow> \<not> P s \<Longrightarrow> runs P (join s ws) = ws"
proof (induction ws)
  case (Cons w ws)
  then show ?case using runs_word[of P w s] by (auto simp: join_Cons)
qed simp


text \<open>The words of an identifier: lower case, and what \<open>runs\<close> would take from it.\<close>

definition id_words :: "(nat \<Rightarrow> bool) \<Rightarrow> (nat \<Rightarrow> nat) \<Rightarrow> points \<Rightarrow> points list" where
  "id_words isalnum lower t = (if runs isalnum t = [] then [points ''user''] else map (map lower) (runs isalnum t))"

lemma normalize_id_words:
  assumes "\<And>c. isalnum c \<Longrightarrow> lower c \<noteq> s"
  shows "normalize_id_component isalnum lower (Some t) s = join s (id_words isalnum lower t)"
  using normalize_words[OF assms] by (simp add: id_words_def)

definition plain_words :: "(nat \<Rightarrow> bool) \<Rightarrow> (nat \<Rightarrow> nat) \<Rightarrow> points list \<Rightarrow> bool" where
  "plain_words isalnum lower ws \<longleftrightarrow> ws \<noteq> [] \<and> list_all (\<lambda>w. w \<noteq> [] \<and> list_all (\<lambda>c. isalnum c \<and> lower c = c) w) ws"

lemma id_words_plain:
  assumes "unicode_tables isalnum lower"
  shows "plain_words isalnum lower (id_words isalnum lower t)"
proof -
  have "list_all (\<lambda>c. isalnum c \<and> lower c = c) (points ''user'')"
    using assms by (simp add: unicode_tables_def points_def code_of_def)
  moreover have "points ''user'' \<noteq> []" by (simp add: points_def)
  ultimately show ?thesis
    using assms runs_nonempty[of _ isalnum t]
    by (auto simp: plain_words_def id_words_def list_all_iff unicode_tables_def)
qed

lemma id_words_join:
  assumes "plain_words isalnum lower ws" "\<not> isalnum s"
  shows "id_words isalnum lower (join s ws) = ws"
proof -
  have "runs isalnum (join s ws) = ws"
    using assms by (intro runs_join) (auto simp: plain_words_def list_all_iff)
  moreover have "map (map lower) ws = ws"
    using assms(1) by (intro map_idI map_idI) (auto simp: plain_words_def list_all_iff)
  ultimately show ?thesis using assms(1) by (simp add: id_words_def plain_words_def)
qed

lemma join_replace:
  "list_all (\<lambda>w. s \<notin> set w) ws \<Longrightarrow> map (\<lambda>c. if c = s then r else c) (join s ws) = join r ws"
proof (induction ws)
  case (Cons w ws)
  then have "map (\<lambda>c. if c = s then r else c) w = w" by (intro map_idI) auto
  then show ?case using Cons by (auto simp: join_Cons)
qed simp

lemma join_chars: "list_all (\<lambda>w. list_all P w) ws \<Longrightarrow> list_all (\<lambda>c. c = s \<or> P c) (join s ws)"
  by (induction ws) (auto simp: join_Cons list_all_iff)

lemma tables_sep:
  assumes "unicode_tables isalnum lower"
  shows "\<And>c. isalnum c \<Longrightarrow> lower c \<noteq> hyphen" "\<And>c. isalnum c \<Longrightarrow> lower c \<noteq> underscore"
    "\<not> isalnum hyphen" "\<not> isalnum underscore"
  using assms unfolding unicode_tables_def by metis+

text \<open>
  C25: Identifiers. A name is normalised to its words, the longest runs of letters and digits, in lower case
  and joined by the separator, or to \<open>user\<close> if it has none; normalising again changes nothing. So
  the user id and the session id that are made from whatever the login is consist of lower-case
  letters, digits and single hyphens, the session id is the user id, a hyphen and the words of the
  computer's name, and the name of the sandbox is the user id with underscores for hyphens.
\<close>
theorem identity_words:
  assumes "unicode_tables isalnum lower"
  shows "normalize_id_component isalnum lower (Some t) hyphen = join hyphen (id_words isalnum lower t) \<and>
    normalize_id_component isalnum lower (Some (join hyphen (id_words isalnum lower t))) hyphen
      = join hyphen (id_words isalnum lower t) \<and>
    (let i = apply_windows_identity_defaults isalnum lower l in
       \<exists>us cs. plain_words isalnum lower us \<and> plain_words isalnum lower cs \<and>
         id_user i = join hyphen us \<and> id_session i = join hyphen (us @ cs) \<and> id_sandbox i = join underscore us \<and>
         id_sandbox i = map (\<lambda>c. if c = hyphen then underscore else c) (id_user i) \<and>
         list_all (\<lambda>c. c = hyphen \<or> isalnum c \<and> lower c = c) (id_session i))"
proof -
  note sep = tables_sep[OF assms]
  have n: "normalize_id_component isalnum lower (Some x) hyphen = join hyphen (id_words isalnum lower x)"
    "normalize_id_component isalnum lower (Some x) underscore = join underscore (id_words isalnum lower x)" for x
    using normalize_id_words[of isalnum lower hyphen x] normalize_id_words[of isalnum lower underscore x] sep by blast+
  have again: "id_words isalnum lower (join hyphen (id_words isalnum lower x)) = id_words isalnum lower x" for x
    by (rule id_words_join[OF id_words_plain[OF assms] sep(3)])
  have app: "join hyphen us @ hyphen # join hyphen cs = join hyphen (us @ cs)" if "us \<noteq> []" "cs \<noteq> []" for us cs
    using that by (induction us) (auto simp: join_Cons)
  define i where "i = apply_windows_identity_defaults isalnum lower l"
  obtain x y where i: "id_user i = join hyphen (id_words isalnum lower x)"
      "id_session i = join hyphen (id_words isalnum lower x) @ hyphen # join hyphen (id_words isalnum lower y)"
      "id_sandbox i = join underscore (id_words isalnum lower x)"
    by (simp add: i_def apply_windows_identity_defaults_def Let_def n again)
  note p = id_words_plain[OF assms, of x] id_words_plain[OF assms, of y]
  have "list_all (\<lambda>w. hyphen \<notin> set w) (id_words isalnum lower x)"
    using p(1) sep(3) by (auto simp: plain_words_def list_all_iff)
  then have r: "map (\<lambda>c. if c = hyphen then underscore else c) (id_user i) = id_sandbox i"
    unfolding i by (rule join_replace)
  have s: "id_session i = join hyphen (id_words isalnum lower x @ id_words isalnum lower y)"
    using p app by (simp add: i plain_words_def)
  have "list_all (\<lambda>w. list_all (\<lambda>c. isalnum c \<and> lower c = c) w) (id_words isalnum lower x @ id_words isalnum lower y)"
    using p by (auto simp: plain_words_def list_all_iff)
  then have "list_all (\<lambda>c. c = hyphen \<or> isalnum c \<and> lower c = c) (id_session i)"
    unfolding s by (rule join_chars)
  then show ?thesis using n(1) again p i(1,3) s r unfolding i_def[symmetric] Let_def by metis
qed


section \<open>Concrete windows\<close>

definition ascii_alnum :: "nat \<Rightarrow> bool" where
  "ascii_alnum c \<longleftrightarrow> (48 \<le> c \<and> c \<le> 57) \<or> (65 \<le> c \<and> c \<le> 90) \<or> (97 \<le> c \<and> c \<le> 122)"

definition ascii_lower :: "nat \<Rightarrow> nat" where "ascii_lower c = (if 65 \<le> c \<and> c \<le> 90 then c + 32 else c)"

definition demo_login :: login where
  "demo_login = \<lparr>lg_display = None, lg_sam = Some (points ''LAB'' @ [backslash] @ points ''Ann Lee''), lg_login = None,
     lg_computer = Some (points ''PC-7''), lg_domain_env = None\<rparr>"

theorem identity_words_witness:
  "let i = apply_windows_identity_defaults ascii_alnum ascii_lower demo_login
   in id_sandbox i = map (\<lambda>c. if c = hyphen then underscore else c) (id_user i) \<and>
      list_all (\<lambda>c. c = hyphen \<or> ascii_alnum c \<and> ascii_lower c = c) (id_session i)"
proof -
  have "unicode_tables ascii_alnum ascii_lower"
    by (auto simp: unicode_tables_def ascii_alnum_def ascii_lower_def hyphen_def underscore_def)
  from identity_words[OF this, of "points ''a''" demo_login] show ?thesis by (auto simp: Let_def)
qed

definition demo_ui :: client_ui where
  "demo_ui = \<lparr>cu_api = local_api 8010, cu_dev_mode = False, cu_tokens = 2048, cu_stream = True, cu_history_tools = True,
     cu_watchdog = 120, cw_display_name = ''Ann'', cw_user = ''ann'', cw_session = ''ann-pc'', cw_history_session = ''ann-pc'',
     cw_info_user = ''ann'', cw_info_session = ''ann-pc'', cw_sandbox = ''ann'', cw_max_tokens = 2048,
     cw_history_include = True, cw_default_tokens = 2048, cw_stream_enabled = True, cw_history_default = True,
     cw_base_url = [], cw_host = [], cw_port = 8010, cw_hint = [], cw_saved_hint = [], cw_status = []\<rparr>"

abbreviation demo_saved :: json where
  "demo_saved \<equiv> connection_json ''http://h:8011/v1'' (sync_client_settings_from_widgets (demo_ui\<lparr>cw_default_tokens := 7\<rparr>))"

abbreviation demo_rewritten :: json where
  "demo_rewritten \<equiv> connection_json ''http://h:8010'' (sync_client_settings_from_widgets demo_ui)"

definition demo_surroundings :: surroundings where
  "demo_surroundings = \<lparr>so_uri = (\<lambda>u. Some \<lparr>ur_scheme = ''http'', ur_host = Some ''h'',
       ur_port = (if u = ''http://h:8011/v1'' then 8011 else 8010), ur_path = []\<rparr>),
     so_parse = (\<lambda>t. if t = ''a'' then Inr demo_saved else Inr demo_rewritten),
     so_gen = (\<lambda>j. if j = demo_saved then ''a'' else ''b''), so_conv = (\<lambda>_. 0), so_long_max = 2 ^ 31 - 1,
     so_watchdog_env = None, so_mkdir = True, so_write = True\<rparr>"

text \<open>A file with an address of the bridge and a limit of 7 tokens: in force at first, 2048 afterwards.\<close>

theorem client_config_roundtrip_witness:
  "\<exists>ui1 ui2 rewritten. load_connection_config demo_surroundings (demo_ui, Some ''a'') = (ui1, Some rewritten) \<and>
     settings_of ui1 = widget_settings ''http://h:8010'' (demo_ui\<lparr>cw_default_tokens := 7\<rparr>) \<and>
     load_connection_config demo_surroundings (demo_ui, Some rewritten) = (ui2, Some rewritten) \<and>
     settings_of ui2 = widget_settings ''http://h:8010'' demo_ui"
proof -
  let ?s = "demo_ui\<lparr>cw_default_tokens := 7\<rparr>"
  have ok: "storable ?s" "storable demo_ui" "so_mkdir demo_surroundings" "so_write demo_surroundings"
    by (simp_all add: storable_def demo_ui_def demo_surroundings_def)
  have w: "demo_ui\<lparr>cu_watchdog := watchdog_default demo_surroundings\<rparr> = demo_ui"
    by (simp add: demo_ui_def watchdog_default_def demo_surroundings_def)
  have "string_member demo_saved ''api_base_url'' \<noteq> string_member demo_rewritten ''api_base_url''" by simp
  then have ne: "demo_rewritten \<noteq> demo_saved" by metis
  then have docs: "\<forall>(c, v) \<in> {(''http://h:8011/v1'', ?s),
       (''http://h:8010'', demo_ui\<lparr>cu_watchdog := watchdog_default demo_surroundings\<rparr>)}.
      let doc = connection_json c (sync_client_settings_from_widgets v)
      in so_parse demo_surroundings (so_gen demo_surroundings doc) = Inr doc"
    unfolding w by (simp add: demo_surroundings_def Let_def)
  have st: "strip ''http://h:8011/v1'' = ''http://h:8011/v1''" "strip ''http://h:8010'' = ''http://h:8010''"
    by (simp_all add: stripped_def glib_space_def code_of_def)
  have url: "normalize_base_url (so_uri demo_surroundings) (Some ''http://h:8011/v1'') None 8010 = ''http://h:8010''"
    "normalize_base_url (so_uri demo_surroundings) (Some ''http://h:8010'') None 8010 = ''http://h:8010''"
    using st by (simp_all add: normalize_base_url_def demo_surroundings_def bridge_uri_def starts_with_def filled_def Let_def)
  have "save_connection_config demo_surroundings ''http://h:8011/v1'' (?s, None)
      = (True, sync_client_settings_from_widgets ?s, Some ''a'')"
    by (simp add: save_connection_config_def demo_surroundings_def Let_def)
  then show ?thesis
    using client_config_roundtrip[OF ok docs url(1) _ url(2), of None demo_ui] unfolding w by auto
qed

end
