(* ===== verification/Client_Requests.thy ===== *)
theory Client_Requests
  imports Chat_Session
begin

text \<open>
  The requests that the chat client sends (\<open>frontend/WMTool-Liara/src/liara_api.c\<close>): their paths, queries and
  bodies, and what a callback gets of the answer. Texts are UTF-8, as the widgets hold them. The JSON parser and
  generator are parameters; sending is libsoup's.
\<close>

section \<open>Escaping\<close>

text \<open>\<open>g_uri_escape_string (s, NULL, TRUE)\<close> of a text that is UTF-8: letters, digits and \<open>-._~\<close> stand for themselves.\<close>

definition unreserved :: "char \<Rightarrow> bool" where
  "unreserved c \<longleftrightarrow> alnum c \<or> c = CHR ''-'' \<or> c = CHR ''.'' \<or> c = CHR ''_'' \<or> c = CHR ''~''"

definition hex_digit :: "nat \<Rightarrow> char" where
  "hex_digit n = (if n < 10 then char_of (48 + n) else char_of (55 + n))"

definition escape_char :: "char \<Rightarrow> string" where
  "escape_char c =
     (if unreserved c \<or> 128 \<le> code_of c then [c]
      else [CHR ''%'', hex_digit (code_of c div 16), hex_digit (code_of c mod 16)])"

definition uri_escape :: "string \<Rightarrow> string" where
  "uri_escape s = concat (map escape_char s)"

section \<open>Requests\<close>

record http_call =
  hc_method :: string
  hc_url :: string
  hc_body :: "json option"

definition build_url :: "string \<Rightarrow> string \<Rightarrow> string" where "build_url base_url path = base_url @ path"

definition send_json_request :: "string \<Rightarrow> string \<Rightarrow> string \<Rightarrow> json option \<Rightarrow> http_call" where
  "send_json_request base_url verb path body = \<lparr>hc_method = verb, hc_url = build_url base_url path, hc_body = body\<rparr>"

definition liara_api_set_base_url :: "string option \<Rightarrow> string \<Rightarrow> string" where
  "liara_api_set_base_url base_url current = (if filled base_url then the base_url else current)"

definition liara_api_get_health :: "string \<Rightarrow> http_call" where
  "liara_api_get_health b = send_json_request b ''GET'' ''/health'' None"

definition liara_api_get_health_backends :: "string \<Rightarrow> http_call" where
  "liara_api_get_health_backends b = send_json_request b ''GET'' ''/health/backends'' None"

definition or_all :: "string option \<Rightarrow> string" where
  "or_all s = (if filled s then the s else ''all'')"

definition bool_text :: "bool \<Rightarrow> string" where "bool_text b = (if b then ''true'' else ''false'')"

definition sys_audit_summary_path :: "int \<Rightarrow> bool \<Rightarrow> string option \<Rightarrow> string option \<Rightarrow> string option \<Rightarrow> string" where
  "sys_audit_summary_path limit blocked_only source risk_level command_family =
     ''/admin/sys-audit/summary?limit='' @ show_int limit @ ''&blocked_only='' @ bool_text blocked_only @
     ''&source='' @ uri_escape (or_all source) @ ''&risk_level='' @ uri_escape (or_all risk_level) @
     ''&command_family='' @ uri_escape (or_all command_family)"

definition sys_audit_suspicious_path ::
  "int \<Rightarrow> int \<Rightarrow> bool \<Rightarrow> string option \<Rightarrow> string option \<Rightarrow> string option \<Rightarrow> string" where
  "sys_audit_suspicious_path limit max_items blocked_only source risk_level command_family =
     ''/admin/sys-audit/suspicious?limit='' @ show_int limit @ ''&max_items='' @ show_int max_items @
     ''&blocked_only='' @ bool_text blocked_only @ ''&source='' @ uri_escape (or_all source) @
     ''&risk_level='' @ uri_escape (or_all risk_level) @ ''&command_family='' @ uri_escape (or_all command_family)"

definition sys_audit_preset_path :: "string option \<Rightarrow> int \<Rightarrow> int \<Rightarrow> string" where
  "sys_audit_preset_path preset_name limit max_items =
     ''/admin/sys-audit/presets/'' @ uri_escape (if filled preset_name then the preset_name else ''top-risk'') @
     ''?limit='' @ show_int limit @ ''&max_items='' @ show_int max_items"

definition session_path :: "string \<Rightarrow> string \<Rightarrow> string" where
  "session_path session_id user_id =
     ''/session?session_id='' @ uri_escape session_id @ ''&user_id='' @ uri_escape user_id"

definition history_path :: "string \<Rightarrow> string option \<Rightarrow> int \<Rightarrow> bool \<Rightarrow> string" where
  "history_path session_id run_id limit include_tool_messages =
     (if filled run_id
      then ''/history?session_id='' @ uri_escape session_id @ ''&run_id='' @ uri_escape (the run_id) @ ''&limit='' @
           show_int limit @ ''&include_tool_messages='' @ bool_text include_tool_messages
      else ''/history?session_id='' @ uri_escape session_id @ ''&limit='' @ show_int limit @
           ''&include_tool_messages='' @ bool_text include_tool_messages)"

definition liara_api_get_sys_audit_summary ::
  "string \<Rightarrow> int \<Rightarrow> bool \<Rightarrow> string option \<Rightarrow> string option \<Rightarrow> string option \<Rightarrow> http_call" where
  "liara_api_get_sys_audit_summary b limit blocked_only source risk_level command_family =
     send_json_request b ''GET'' (sys_audit_summary_path limit blocked_only source risk_level command_family) None"

definition liara_api_get_sys_audit_suspicious ::
  "string \<Rightarrow> int \<Rightarrow> int \<Rightarrow> bool \<Rightarrow> string option \<Rightarrow> string option \<Rightarrow> string option \<Rightarrow> http_call" where
  "liara_api_get_sys_audit_suspicious b limit max_items blocked_only source risk_level command_family =
     send_json_request b ''GET''
       (sys_audit_suspicious_path limit max_items blocked_only source risk_level command_family) None"

definition liara_api_get_sys_audit_preset :: "string \<Rightarrow> string option \<Rightarrow> int \<Rightarrow> int \<Rightarrow> http_call" where
  "liara_api_get_sys_audit_preset b preset_name limit max_items =
     send_json_request b ''GET'' (sys_audit_preset_path preset_name limit max_items) None"

definition liara_api_get_session :: "string \<Rightarrow> string \<Rightarrow> string \<Rightarrow> http_call" where
  "liara_api_get_session b session_id user_id = send_json_request b ''GET'' (session_path session_id user_id) None"

text \<open>A parsed text is embedded; \<open>metadata_json\<close> must be an object.\<close>

definition liara_api_post_session ::
  "(string \<Rightarrow> json result) \<Rightarrow> string \<Rightarrow> string \<Rightarrow> string \<Rightarrow> string option \<Rightarrow> string option \<Rightarrow> http_call" where
  "liara_api_post_session parse b session_id user_id sandbox_root metadata_json =
     send_json_request b ''POST'' ''/session'' (Some (object
       ([(''session_id'', JString session_id), (''user_id'', JString user_id)] @
        (if filled sandbox_root then [(''sandbox_root'', JString (the sandbox_root))] else []) @
        (if filled metadata_json
         then (case parse (the metadata_json) of
                 Inl _ \<Rightarrow> [] | Inr doc \<Rightarrow> if is_object doc then [(''metadata'', doc)] else [])
         else []))))"

definition liara_api_post_chat :: "string \<Rightarrow> form \<Rightarrow> string \<Rightarrow> http_call" where
  "liara_api_post_chat b f message = send_json_request b ''POST'' ''/chat'' (Some (build_chat_body f message))"

definition liara_api_get_history :: "string \<Rightarrow> string \<Rightarrow> string option \<Rightarrow> int \<Rightarrow> bool \<Rightarrow> http_call" where
  "liara_api_get_history b session_id run_id limit include_tool_messages =
     send_json_request b ''GET'' (history_path session_id run_id limit include_tool_messages) None"

definition liara_api_get_tools :: "string \<Rightarrow> http_call" where
  "liara_api_get_tools b = send_json_request b ''GET'' ''/tools'' None"

text \<open>Without a name the callback is called at once and nothing is sent.\<close>

definition liara_api_get_tool_metadata :: "string \<Rightarrow> string option \<Rightarrow> string + http_call" where
  "liara_api_get_tool_metadata b tool_name =
     (if \<not> filled tool_name
      then Inl (''{'' @ [CHR 0x22] @ ''status'' @ [CHR 0x22] @ '':'' @ [CHR 0x22] @ ''error'' @ [CHR 0x22] @ '','' @
                [CHR 0x22] @ ''detail'' @ [CHR 0x22] @ '':'' @ [CHR 0x22] @ ''Tool name is required.'' @ [CHR 0x22] @ ''}'')
      else Inr (send_json_request b ''GET'' (''/tools/'' @ uri_escape (the tool_name)) None))"

definition liara_api_post_tool_invoke ::
  "(string \<Rightarrow> json result) \<Rightarrow> string \<Rightarrow> string \<Rightarrow> string option \<Rightarrow> int \<Rightarrow> http_call" where
  "liara_api_post_tool_invoke parse b tool_name parameters_json timeout_seconds =
     send_json_request b ''POST'' (''/tools/'' @ uri_escape tool_name @ ''/invoke'') (Some (object
       [(''parameters'', (case parameters_json of
                            None \<Rightarrow> JObject []
                          | Some t \<Rightarrow> if t = [] then JObject []
                                      else (case parse t of Inl _ \<Rightarrow> JObject [] | Inr doc \<Rightarrow> doc))),
        (''timeout_seconds'', JInt timeout_seconds)]))"

text \<open>
  \<open>on_message_complete\<close>: the callback gets a text or the message of an error. The status of the
  answer is not looked at, and the text ends at the first zero.
\<close>

definition on_message_complete :: "string + nat \<times> string \<Rightarrow> string option \<times> string option" where
  "on_message_complete answer =
     (case answer of
        Inl message \<Rightarrow> (None, Some message)
      | Inr (status, bytes) \<Rightarrow> (Some (takeWhile (\<lambda>c. code_of c \<noteq> 0) bytes), None))"


section \<open>What a server reads\<close>

text \<open>A query as a server takes it apart: at the ampersands, then at the first equals sign, with escapes decoded.\<close>

definition hex_value :: "char \<Rightarrow> nat option" where
  "hex_value c = (let n = code_of c in
     if 48 \<le> n \<and> n \<le> 57 then Some (n - 48)
     else if 65 \<le> n \<and> n \<le> 70 then Some (n - 55)
     else if 97 \<le> n \<and> n \<le> 102 then Some (n - 87) else None)"

fun unescape :: "string \<Rightarrow> string" where
  "unescape (c # a # b # s) =
     (if c = CHR ''%'' then
        (case (hex_value a, hex_value b) of
           (Some x, Some y) \<Rightarrow> char_of (16 * x + y) # unescape s
         | _ \<Rightarrow> c # unescape (a # b # s))
      else (if c = CHR ''+'' then CHR '' '' else c) # unescape (a # b # s))"
| "unescape (c # s) = (if c = CHR ''+'' then CHR '' '' else c) # unescape s"
| "unescape [] = []"

definition parse_pair :: "string \<Rightarrow> string \<times> string" where
  "parse_pair p = (unescape (takeWhile (\<lambda>c. c \<noteq> CHR ''='') p), unescape (tl (dropWhile (\<lambda>c. c \<noteq> CHR ''='') p)))"

definition parse_query :: "string \<Rightarrow> (string \<times> string) list" where
  "parse_query path = map parse_pair (split_at (CHR ''&'') (tl (dropWhile (\<lambda>c. c \<noteq> CHR ''?'') path)))"

definition segments :: "string \<Rightarrow> string list" where
  "segments path = map unescape (split_at (CHR ''/'') (takeWhile (\<lambda>c. c \<noteq> CHR ''?'') path))"

definition render_pair :: "string \<times> string \<Rightarrow> string" where
  "render_pair p = uri_escape (fst p) @ CHR ''='' # uri_escape (snd p)"

fun render_query :: "(string \<times> string) list \<Rightarrow> string" where
  "render_query [] = []"
| "render_query [p] = render_pair p"
| "render_query (p # q # ps) = render_pair p @ CHR ''&'' # render_query (q # ps)"

lemma hex_digit_value: "n < 16 \<Longrightarrow> hex_value (hex_digit n) = Some n"
  by (auto simp: hex_value_def hex_digit_def code_of_def Let_def)

lemma unescape_Cons:
  "c \<noteq> CHR ''%'' \<Longrightarrow> c \<noteq> CHR ''+'' \<Longrightarrow> unescape (c # s) = c # unescape s"
  by (cases s rule: unescape.cases) (simp_all split: list.split)

lemma unescape_escape_char: "unescape (escape_char c @ s) = c # unescape s"
proof (cases "unreserved c \<or> 128 \<le> code_of c")
  case True
  then have "c \<noteq> CHR ''%''" "c \<noteq> CHR ''+''" by (auto simp: unreserved_def alnum_def code_of_def)
  then show ?thesis using True by (simp add: escape_char_def unescape_Cons)
next
  case False
  have "code_of c div 16 < 16" using code_of_less[of c] by (intro less_mult_imp_div_less) simp
  moreover have "16 * (code_of c div 16) + code_of c mod 16 = code_of c" by simp
  ultimately show ?thesis
    using False by (simp add: escape_char_def hex_digit_value) (simp add: code_of_def)
qed

lemma unescape_escape: "unescape (uri_escape s) = s"
proof (induction s)
  case (Cons c s)
  then show ?case using unescape_escape_char[of c "uri_escape s"] by (simp add: uri_escape_def)
qed (simp add: uri_escape_def)

definition separators :: "char set" where
  "separators = {CHR ''&'', CHR ''='', CHR ''?'', CHR ''/'', CHR ''+'', CHR ''#'', CHR '' ''}"

lemma escape_char_safe: "d \<in> separators \<Longrightarrow> d \<notin> set (escape_char c)"
proof -
  have h: "d \<notin> separators" if "d = hex_digit n" "n < 16" for n
  proof -
    have "48 \<le> code_of d \<and> code_of d \<le> 57 \<or> 65 \<le> code_of d \<and> code_of d \<le> 70"
      using that by (auto simp: hex_digit_def code_of_def)
    then show ?thesis by (auto simp: separators_def code_of_def)
  qed
  have "code_of c div 16 < 16" "code_of c mod 16 < 16"
    using code_of_less[of c] by (auto intro: less_mult_imp_div_less)
  moreover have "CHR ''%'' \<notin> separators" "unreserved d \<or> 128 \<le> code_of d \<Longrightarrow> d \<notin> separators"
    by (auto simp: separators_def unreserved_def alnum_def code_of_def)
  ultimately show "d \<in> separators \<Longrightarrow> d \<notin> set (escape_char c)"
    using h by (auto simp: escape_char_def split: if_splits)
qed

lemma uri_escape_safe: "d \<in> separators \<Longrightarrow> d \<notin> set (uri_escape s)"
  using escape_char_safe by (auto simp: uri_escape_def)


lemma escape_plain: "list_all unreserved s \<Longrightarrow> uri_escape s = s"
  by (induction s) (auto simp: uri_escape_def escape_char_def)

lemma show_unreserved: "list_all unreserved (show_int i)" "list_all unreserved (bool_text b)"
proof -
  have "list_all unreserved (show_nat n)" for n
    using show_nat_digits[of n] by (auto simp: list_all_iff unreserved_def alnum_def is_digit_def Let_def)
  then show "list_all unreserved (show_int i)" by (simp add: show_int_def unreserved_def)
  show "list_all unreserved (bool_text b)" by (simp add: bool_text_def unreserved_def alnum_def code_of_def)
qed

lemma takeWhile_upto: "d \<notin> set s \<Longrightarrow> takeWhile (\<lambda>c. c \<noteq> d) (s @ d # t) = s"
  by (induction s) auto

lemma dropWhile_upto: "d \<notin> set s \<Longrightarrow> dropWhile (\<lambda>c. c \<noteq> d) (s @ d # t) = d # t"
  by (induction s) auto

lemma parse_render_pair: "parse_pair (render_pair p) = p"
  using uri_escape_safe[of "CHR ''=''" "fst p"]
  by (simp add: parse_pair_def render_pair_def separators_def takeWhile_upto dropWhile_upto unescape_escape)

lemma pair_safe: "d \<in> separators \<Longrightarrow> d \<noteq> CHR ''='' \<Longrightarrow> d \<notin> set (render_pair p)"
  using uri_escape_safe[of d] by (simp add: render_pair_def)

lemma parse_render_query:
  "ps \<noteq> [] \<Longrightarrow> map parse_pair (split_at (CHR ''&'') (render_query ps)) = ps"
proof (induction ps rule: render_query.induct)
  case (2 p)
  then show ?case using pair_safe[of "CHR ''&''" p] by (simp add: split_at_none separators_def parse_render_pair)
next
  case (3 p q ps)
  then show ?case using pair_safe[of "CHR ''&''" p] by (simp add: split_at_line separators_def parse_render_pair)
qed simp

lemma parse_query_path:
  assumes "CHR ''?'' \<notin> set p" "ps \<noteq> []"
  shows "parse_query (p @ CHR ''?'' # render_query ps) = ps"
  using assms by (simp add: parse_query_def dropWhile_upto parse_render_query)

text \<open>The queries of the code as lists of pairs.\<close>

definition history_query :: "string \<Rightarrow> string option \<Rightarrow> int \<Rightarrow> bool \<Rightarrow> (string \<times> string) list" where
  "history_query session_id run_id limit tools =
     (''session_id'', session_id) # (if filled run_id then [(''run_id'', the run_id)] else []) @
     [(''limit'', show_int limit), (''include_tool_messages'', bool_text tools)]"

lemma keys_plain: "uri_escape (show_int i) = show_int i" "uri_escape (bool_text b) = bool_text b"
  by (simp_all add: escape_plain show_unreserved)

lemma literal_keys:
  "uri_escape ''session_id'' = ''session_id''" "uri_escape ''run_id'' = ''run_id''" "uri_escape ''limit'' = ''limit''"
  "uri_escape ''include_tool_messages'' = ''include_tool_messages''" "uri_escape ''user_id'' = ''user_id''"
  "uri_escape ''max_items'' = ''max_items''" "uri_escape ''blocked_only'' = ''blocked_only''"
  "uri_escape ''source'' = ''source''" "uri_escape ''risk_level'' = ''risk_level''"
  "uri_escape ''command_family'' = ''command_family''"
  by (rule escape_plain; simp add: unreserved_def alnum_def code_of_def)+

lemma history_path_query:
  "history_path session_id run_id limit tools = ''/history'' @ CHR ''?'' # render_query (history_query session_id run_id limit tools)"
  by (simp add: history_path_def history_query_def render_pair_def keys_plain literal_keys)

lemma session_path_query:
  "session_path session_id user_id
     = ''/session'' @ CHR ''?'' # render_query [(''session_id'', session_id), (''user_id'', user_id)]"
  by (simp add: session_path_def render_pair_def literal_keys)

lemma summary_path_query:
  "sys_audit_summary_path limit blocked source risk family = ''/admin/sys-audit/summary'' @ CHR ''?'' # render_query
     [(''limit'', show_int limit), (''blocked_only'', bool_text blocked), (''source'', or_all source),
      (''risk_level'', or_all risk), (''command_family'', or_all family)]"
  by (simp add: sys_audit_summary_path_def render_pair_def literal_keys keys_plain)

lemma suspicious_path_query:
  "sys_audit_suspicious_path limit items blocked source risk family = ''/admin/sys-audit/suspicious'' @ CHR ''?'' # render_query
     [(''limit'', show_int limit), (''max_items'', show_int items), (''blocked_only'', bool_text blocked),
      (''source'', or_all source), (''risk_level'', or_all risk), (''command_family'', or_all family)]"
  by (simp add: sys_audit_suspicious_path_def render_pair_def literal_keys keys_plain)


end
