(* ===== verification/Client_Start.thy ===== *)
theory Client_Start
  imports Client_Config Client_Requests
begin

text \<open>
  The start of the chat client (\<open>frontend/WMTool-Liara/src/main.c\<close> and \<open>liara_window_new\<close>): the gate of the developer
  mode, the paths of the style sheet and of the settings, the settings of a new window and its request for a greeting.
\<close>

section \<open>Developer mode\<close>

definition flag_on :: "string option \<Rightarrow> bool" where
  "flag_on v = (case v of None \<Rightarrow> False
     | Some s \<Rightarrow> same_nocase s ''1'' \<or> same_nocase s ''true'' \<or> same_nocase s ''yes'' \<or> same_nocase s ''on'')"

definition expected_password :: "string option \<Rightarrow> string" where
  "expected_password v = (if filled v then the v else ''wmtool-liara-dev'')"

fun dev_argument :: "string \<Rightarrow> string list \<Rightarrow> bool" where
  "dev_argument expected [] = False"
| "dev_argument expected (a # args) =
     (if a = ''--dev'' \<or> a = ''dev'' then (case args of [] \<Rightarrow> True | p # _ \<Rightarrow> p = expected)
      else dev_argument expected args)"

text \<open>\<open>args\<close> are the arguments after the name of the program; the others are \<open>LIARA_DEV_MODE\<close> and \<open>LIARA_DEV_PASSWORD\<close>.\<close>

definition is_dev_mode_enabled :: "string option \<Rightarrow> string option \<Rightarrow> string list \<Rightarrow> bool" where
  "is_dev_mode_enabled dev_mode_flag password args =
     (if flag_on dev_mode_flag then True else dev_argument (expected_password password) args)"

abbreviation dev_words :: "string set" where "dev_words \<equiv> {''--dev'', ''dev''}"

lemma dev_argument_first:
  "set pre \<inter> dev_words = {} \<Longrightarrow> d \<in> dev_words \<Longrightarrow> dev_argument e (pre @ d # rest) \<longleftrightarrow> rest = [] \<or> hd rest = e"
  by (induction pre) (auto split: list.split)

lemma dev_argument_none: "set xs \<inter> dev_words = {} \<Longrightarrow> \<not> dev_argument e xs"
  by (induction xs) auto

lemma dev_argument_iff:
  "dev_argument e xs \<longleftrightarrow> (\<exists>pre d rest. xs = pre @ d # rest \<and> set pre \<inter> dev_words = {} \<and> d \<in> dev_words \<and>
     (rest = [] \<or> hd rest = e))"
proof
  assume l: "dev_argument e xs"
  then have "\<exists>x\<in>set xs. x \<in> dev_words" using dev_argument_none[of xs e] by blast
  then obtain pre d rest where p: "xs = pre @ d # rest" "d \<in> dev_words" "\<forall>y\<in>set pre. y \<notin> dev_words"
    using split_list_first_prop[of xs "\<lambda>x. x \<in> dev_words"] by blast
  then have "set pre \<inter> dev_words = {}" by blast
  then show "\<exists>pre d rest. xs = pre @ d # rest \<and> set pre \<inter> dev_words = {} \<and> d \<in> dev_words \<and> (rest = [] \<or> hd rest = e)"
    using l p dev_argument_first by metis
next
  assume "\<exists>pre d rest. xs = pre @ d # rest \<and> set pre \<inter> dev_words = {} \<and> d \<in> dev_words \<and> (rest = [] \<or> hd rest = e)"
  then obtain pre d rest where p: "xs = pre @ d # rest" "set pre \<inter> dev_words = {}" "d \<in> dev_words" "rest = [] \<or> hd rest = e"
    by (elim exE conjE)
  then show "dev_argument e xs" unfolding p(1) dev_argument_first[OF p(2,3)] by (rule_tac p(4))
qed

text \<open>
  Who gets the developer mode, with its views of audit and tools. Apart from the environment it is the first
  \<open>--dev\<close> or \<open>dev\<close> among the arguments that counts, and the password is compared only if an argument
  follows: whoever gives \<open>--dev\<close> as the last argument needs none, whatever password is set.
\<close>
lemma dev_mode_gate:
  "(is_dev_mode_enabled flag password args \<longleftrightarrow> flag_on flag \<or>
      (\<exists>pre d rest. args = pre @ d # rest \<and> set pre \<inter> dev_words = {} \<and> d \<in> dev_words \<and>
         (rest = [] \<or> hd rest = expected_password password))) \<and>
   is_dev_mode_enabled flag password [''--dev'']"
  unfolding is_dev_mode_enabled_def dev_argument_iff[symmetric] by simp

section \<open>Paths\<close>

text \<open>\<open>filename\<close> is \<open>g_build_filename\<close>, \<open>dirname\<close> \<open>g_path_get_dirname\<close>; the program's name is absolute in \<open>Some\<close>.\<close>

definition build_default_config_path ::
  "(string list \<Rightarrow> string) \<Rightarrow> (string \<Rightarrow> string) \<Rightarrow> (string \<Rightarrow> bool) \<Rightarrow> string \<Rightarrow> string option \<Rightarrow> string" where
  "build_default_config_path filename dirname is_dir cwd prgname =
     (case prgname of
        None \<Rightarrow> filename [cwd, ''config'', ''lserv.json'']
      | Some p \<Rightarrow>
          let exe_dir = dirname p; parent_dir = dirname exe_dir
          in if is_dir (filename [parent_dir, ''config'']) then filename [parent_dir, ''config'', ''lserv.json'']
             else if is_dir (filename [parent_dir, ''dist'', ''config'']) then filename [parent_dir, ''dist'', ''config'', ''lserv.json'']
             else filename [exe_dir, ''config'', ''lserv.json''])"

definition css_path ::
  "(string list \<Rightarrow> string) \<Rightarrow> (string \<Rightarrow> string) \<Rightarrow> (string \<Rightarrow> bool) \<Rightarrow> string \<Rightarrow> string option \<Rightarrow> string" where
  "css_path filename dirname exists cwd prgname =
     (case prgname of
        None \<Rightarrow> filename [cwd, ''style.css'']
      | Some p \<Rightarrow>
          let exe_dir = dirname p; parent_dir = dirname exe_dir
          in if exists (filename [exe_dir, ''style.css'']) then filename [exe_dir, ''style.css'']
             else if exists (filename [parent_dir, ''config'', ''style.css'']) then filename [parent_dir, ''config'', ''style.css'']
             else if exists (filename [parent_dir, ''dist'', ''config'', ''style.css''])
             then filename [parent_dir, ''dist'', ''config'', ''style.css'']
             else filename [cwd, ''style.css''])"

section \<open>A new window\<close>

text \<open>The identity and the settings of a window that has been built; \<open>utf8\<close> encodes code points.\<close>

definition set_identity :: "(points \<Rightarrow> string) \<Rightarrow> identity \<Rightarrow> client_ui \<Rightarrow> client_ui" where
  "set_identity utf8 i ui =
     ui\<lparr>cw_display_name := utf8 (id_display_name i), cw_user := utf8 (id_user i), cw_info_user := utf8 (id_user i),
        cw_session := utf8 (id_session i), cw_history_session := utf8 (id_session i),
        cw_info_session := utf8 (id_session i), cw_sandbox := utf8 (id_sandbox i)\<rparr>"

definition greeting_prompt :: "string \<Rightarrow> string" where
  "greeting_prompt display_name =
     ''Schreibe eine kurze persoenliche Begruessung auf Deutsch fuer '' @
     (if display_name \<noteq> [] then display_name else ''den Nutzer'') @
     ''. Maximal zwei Saetze, warm, klar, ohne Markdown, ohne Aufzaehlungen.''"

definition request_startup_greeting :: "client_ui \<Rightarrow> http_call option" where
  "request_startup_greeting ui =
     (if cw_session ui = [] \<or> cw_user ui = [] then None
      else Some (liara_api_post_chat (cu_api ui)
        \<lparr>fm_session_id = cw_session ui @ ''-welcome'', fm_user_id = cw_user ui, fm_display_name = Some (cw_display_name ui),
         fm_sandbox_root = cw_sandbox ui, fm_max_tokens = 96\<rparr> (greeting_prompt (cw_display_name ui))))"

definition liara_window_new ::
  "surroundings \<Rightarrow> (points \<Rightarrow> string) \<Rightarrow> identity \<Rightarrow> client_ui \<times> string option \<Rightarrow> client_ui \<times> string option \<times> http_call option" where
  "liara_window_new so utf8 i st =
     (let (ui, file) = load_connection_config so (set_identity utf8 i (fst st), snd st)
      in (ui, file, request_startup_greeting ui))"

end
