(* ===== verification/Client_Report.thy ===== *)
theory Client_Report
  imports Client_Config Client_Requests
begin

text \<open>
  What the other views of the chat client make of the answers of the API (\<open>frontend/WMTool-Liara/src/liara_window.c\<close>):
  health cards, history, the snapshot of the session, the list of tools with its form, and the audit report. Printing of a
  \<open>double\<close> with one decimal and the JSON parser are parameters. A value that is no object has no members.
\<close>

section \<open>Health\<close>

datatype health_class = Healthy | Degraded | Unavailable

record health_card =
  hd_name :: string
  hd_state :: "string option"
  hd_class :: health_class

definition create_health_card :: "string \<Rightarrow> string option \<Rightarrow> health_card" where
  "create_health_card backend state =
     \<lparr>hd_name = backend, hd_state = state,
      hd_class = (if state = Some ''healthy'' \<or> state = Some ''ok'' then Healthy
                  else if state = Some ''degraded'' \<or> state = Some ''partial'' then Degraded else Unavailable)\<rparr>"

definition object_members :: "json option \<Rightarrow> (string \<times> json) list" where
  "object_members j = (case j of Some (JObject m) \<Rightarrow> m | _ \<Rightarrow> [])"

definition count_if :: "('a \<Rightarrow> bool) \<Rightarrow> 'a list \<Rightarrow> nat" where "count_if P xs = length (filter P xs)"

definition health_summary :: "nat \<Rightarrow> nat \<Rightarrow> nat \<Rightarrow> string" where
  "health_summary healthy degraded unavailable =
     show_nat healthy @ '' healthy/configured, '' @ show_nat degraded @ '' degraded, '' @ show_nat unavailable @
     '' unavailable/off''"

definition backend_cards :: "json \<Rightarrow> health_card list \<times> string" where
  "backend_cards doc =
     (let status_object = object_member doc ''status'';
          service = (case status_object of None \<Rightarrow> []
                     | Some s \<Rightarrow> if contains s ''status'' then [create_health_card ''memory-service'' (string_member s ''status'')]
                                 else [])
      in if \<not> contains doc ''backend_health'' then (service, ''Backend health did not contain backend_health.'')
         else let members = object_members (object_member doc ''backend_health'');
                  states = map (\<lambda>(backend, v). node_string v) members
           in (service @ map (\<lambda>(backend, v). create_health_card backend (node_string v)) members,
               health_summary (count_if (\<lambda>s. s = Some ''healthy'') states) (count_if (\<lambda>s. s = Some ''degraded'') states)
                 (count_if (\<lambda>s. s \<noteq> Some ''healthy'' \<and> s \<noteq> Some ''degraded'') states)))"

definition configured_cards :: "json \<Rightarrow> health_card list \<times> string" where
  "configured_cards doc =
     (let members = (if contains doc ''backends_configured'' then object_members (object_member doc ''backends_configured'') else []);
          on = (\<lambda>m. node_boolean (snd m))
      in ([create_health_card ''api'' (member_or doc ''status'' ''unknown''),
           create_health_card ''memory-mode'' (member_or doc ''memory_mode'' ''unknown'')] @
          map (\<lambda>m. create_health_card (fst m) (Some (if on m then ''configured'' else ''off''))) members,
          health_summary (count_if on members) 0 (count_if (\<lambda>m. \<not> on m) members)))"

definition render_health_cards :: "(string \<Rightarrow> json result) \<Rightarrow> string option \<Rightarrow> bool \<Rightarrow> health_card list \<times> string" where
  "render_health_cards parse response_text backend_mode =
     (let down = [create_health_card ''health'' (Some ''unavailable'')]
      in case response_text of
           None \<Rightarrow> (down, ''Health response could not be parsed.'')
         | Some t \<Rightarrow>
             (case parse t of
                Inl _ \<Rightarrow> (down, ''Health response could not be parsed.'')
              | Inr doc \<Rightarrow>
                  if \<not> is_object doc then (down, ''Health response was empty.'')
                  else if backend_mode then backend_cards doc else configured_cards doc))"

text \<open>The text of the status view and the cards.\<close>

definition on_status_health_loaded ::
  "(string \<Rightarrow> json result) \<Rightarrow> bool \<Rightarrow> string option \<Rightarrow> string option \<Rightarrow> string \<times> health_card list \<times> string" where
  "on_status_health_loaded parse backend_mode response_text error =
     (case error of
        Some message \<Rightarrow>
          ((if backend_mode then ''Backend health request failed'' else ''Health request failed'') @ blank_line @ message,
           render_health_cards parse None backend_mode)
      | None \<Rightarrow> (case response_text of None \<Rightarrow> [] | Some t \<Rightarrow> t, render_health_cards parse response_text backend_mode))"

section \<open>History\<close>

record history_message =
  hm_label :: string
  hm_assistant :: bool
  hm_text :: string
  hm_chips :: "string list"

definition format_message_role_label :: "string option \<Rightarrow> bool \<Rightarrow> string" where
  "format_message_role_label role assistant =
     (if \<not> filled role then (if assistant then ''LIARA'' else ''You'')
      else if same_nocase (the role) ''assistant'' then ''LIARA''
      else if same_nocase (the role) ''user'' then ''You''
      else if same_nocase (the role) ''tool'' then ''Tool''
      else the role)"

definition append_history_message :: "string option \<Rightarrow> string option \<Rightarrow> string list \<Rightarrow> history_message" where
  "append_history_message role t chips =
     (let assistant = (role = Some ''assistant'' \<or> role = Some ''tool'')
      in \<lparr>hm_label = format_message_role_label role assistant, hm_assistant = assistant,
          hm_text = (case t of None \<Rightarrow> [] | Some u \<Rightarrow> u), hm_chips = chips\<rparr>)"

definition history_item :: "json \<Rightarrow> history_message" where
  "history_item item =
     append_history_message (member_or item ''role'' ''assistant'') (member_or item ''content'' [])
       (let chips = append_metadata_chip [] (string_member item ''created_at'');
            run_id = string_member item ''run_id''
        in if filled run_id then append_metadata_chip chips (Some (''run '' @ the run_id)) else chips)"

definition on_history_loaded :: "(string \<Rightarrow> json result) \<Rightarrow> string option \<Rightarrow> string option \<Rightarrow> history_message list" where
  "on_history_loaded parse response_text error =
     (let note = (\<lambda>t. [append_history_message (Some ''assistant'') (Some t) []])
      in case error of
           Some message \<Rightarrow> note message
         | None \<Rightarrow>
             (case response_text of
                None \<Rightarrow> note ''History response could not be parsed.''
              | Some t \<Rightarrow>
                  (case parse t of
                     Inl _ \<Rightarrow> note ''History response could not be parsed.''
                   | Inr doc \<Rightarrow>
                       if \<not> contains doc ''items'' then note ''History response did not contain items.''
                       else (case array_member doc ''items'' of
                               None \<Rightarrow> note ''No history available for this session yet.''
                             | Some items \<Rightarrow>
                                 if items = [] then note ''No history available for this session yet.''
                                 else map history_item items))))"

section \<open>The session\<close>

record snapshot =
  sn_count :: string
  sn_last_run :: string
  sn_updated :: string
  sn_history :: string
  sn_sandbox :: string
  sn_profile :: string
  sn_workspace :: string
  sn_notes :: string

definition set_snapshot_value :: "string \<Rightarrow> string option \<Rightarrow> string" where
  "set_snapshot_value lbl v = lbl @ (if filled v then the v else ''-'')"

definition set_snapshot_int_value :: "string \<Rightarrow> int \<Rightarrow> string" where
  "set_snapshot_int_value lbl v = lbl @ show_int v"

definition text_or_empty :: "string option \<Rightarrow> string" where
  "text_or_empty v = (case v of None \<Rightarrow> [] | Some t \<Rightarrow> t)"

definition render_session_snapshot :: "(string \<Rightarrow> json result) \<Rightarrow> (fp \<Rightarrow> int) \<Rightarrow> string option \<Rightarrow> snapshot" where
  "render_session_snapshot parse conv response_text =
     (let doc = payload_object parse response_text;
          metadata = (case doc of None \<Rightarrow> None | Some d \<Rightarrow> object_member d ''metadata'');
          text = (\<lambda>j key. case j of None \<Rightarrow> None | Some d \<Rightarrow> string_member d key)
      in \<lparr>sn_count = set_snapshot_int_value ''Messages: '' (case doc of None \<Rightarrow> 0 | Some d \<Rightarrow> int_member conv d ''message_count''),
          sn_last_run = set_snapshot_value ''Last run: '' (text doc ''last_run_id''),
          sn_updated = set_snapshot_value ''Updated: '' (text doc ''updated_at''),
          sn_history = set_snapshot_value ''History: '' (text metadata ''history_status''),
          sn_sandbox = set_snapshot_value ''Sandbox root: '' (text metadata ''sandbox_root''),
          sn_profile = text_or_empty (text metadata ''profile''),
          sn_workspace = text_or_empty (text metadata ''workspace''),
          sn_notes = text_or_empty (text metadata ''notes'')\<rparr>)"

definition build_session_metadata :: "string \<Rightarrow> string \<Rightarrow> string \<Rightarrow> string \<Rightarrow> string \<Rightarrow> json" where
  "build_session_metadata profile ws notes display_name login_name =
     object (filter (\<lambda>(k, v). v \<noteq> JString [])
       [(''profile'', JString profile), (''workspace'', JString ws), (''notes'', JString notes),
        (''display_name'', JString display_name), (''login_name'', JString login_name)])"

section \<open>Tools\<close>

definition on_tools_loaded :: "(string \<Rightarrow> json result) \<Rightarrow> string option \<Rightarrow> string option \<Rightarrow> (string option \<times> string) list" where
  "on_tools_loaded parse response_text error =
     (if error \<noteq> None then [(Some ''Unavailable'', ''Tool list could not be loaded.'')]
      else case response_text of
        None \<Rightarrow> [(Some ''Parse error'', ''Could not parse tool list response.'')]
      | Some t \<Rightarrow>
          (case parse t of
             Inl _ \<Rightarrow> [(Some ''Parse error'', ''Could not parse tool list response.'')]
           | Inr doc \<Rightarrow>
               if \<not> contains doc ''tools'' then [(Some ''No payload'', ''Response did not include tools.'')]
               else (case array_member doc ''tools'' of
                       None \<Rightarrow> [(Some ''No tools'', ''No tools are currently available.'')]
                     | Some tools \<Rightarrow>
                         if tools = [] then [(Some ''No tools'', ''No tools are currently available.'')]
                         else map (\<lambda>tool. (member_or tool ''name'' ''unknown'',
                                           text_or_empty (member_or tool ''description'' []))) tools)))"

text \<open>The fields of the form: the names of the parameters, the required ones first.\<close>

definition form_fields :: "json list option \<Rightarrow> bool \<Rightarrow> (string \<times> bool) list" where
  "form_fields params required =
     (case params of None \<Rightarrow> [] | Some ps \<Rightarrow> map (\<lambda>p. (p, required)) (filter (\<lambda>p. p \<noteq> []) (List.map_filter node_string ps)))"

definition populate_dynamic_tool_form :: "json list option \<Rightarrow> json list option \<Rightarrow> (string \<times> bool) list" where
  "populate_dynamic_tool_form required optional = form_fields required True @ form_fields optional False"

text \<open>The values of the form, each as JSON if it is JSON and else as a string; an empty field is left out.\<close>

definition build_tool_parameters :: "(string \<Rightarrow> json result) \<Rightarrow> (string \<times> string) list \<Rightarrow> string \<Rightarrow> string + json" where
  "build_tool_parameters parse entries tool_params_input =
     (let given = filter (\<lambda>(name, v). v \<noteq> []) entries
      in if given = [] then Inl tool_params_input
         else Inr (foldl (\<lambda>doc (name, v). assign name (case parse v of Inl _ \<Rightarrow> JString v | Inr j \<Rightarrow> j) doc) (JObject []) given))"

section \<open>The audit report\<close>

definition get_string_or :: "json option \<Rightarrow> string \<Rightarrow> string \<Rightarrow> string" where
  "get_string_or obj key fallback =
     printed (case obj of
                None \<Rightarrow> Some fallback
              | Some j \<Rightarrow> (case member j key of None \<Rightarrow> Some fallback
                           | Some v \<Rightarrow> if holds_value v then node_string v else Some fallback))"

definition get_int_or :: "(fp \<Rightarrow> int) \<Rightarrow> json option \<Rightarrow> string \<Rightarrow> int \<Rightarrow> int" where
  "get_int_or conv obj key fallback =
     (case obj of
        None \<Rightarrow> fallback
      | Some j \<Rightarrow> (case member j key of None \<Rightarrow> fallback | Some v \<Rightarrow> to_int (node_int conv v)))"

fun node_double :: "json \<Rightarrow> fp" where
  "node_double (JFloat x) = x"
| "node_double (JInt i) = rnd64 (of_int i)"
| "node_double (JBool b) = Fin (if b then 1 else 0)"
| "node_double _ = Fin 0"

definition get_double_or :: "json option \<Rightarrow> string \<Rightarrow> fp \<Rightarrow> fp" where
  "get_double_or obj key fallback =
     (case obj of None \<Rightarrow> fallback | Some j \<Rightarrow> (case member j key of None \<Rightarrow> fallback | Some v \<Rightarrow> node_double v))"

definition nl1 :: string where "nl1 = [CHR 0x0A]"

definition filter_summary :: "(fp \<Rightarrow> int) \<Rightarrow> json option \<Rightarrow> string" where
  "filter_summary conv filters =
     (case filters of
        None \<Rightarrow> []
      | Some j \<Rightarrow>
          let limit = get_int_or conv filters ''limit'' 0; max_items = get_int_or conv filters ''max_items'' 0
          in ''Filters'' @ nl1 @ ''- source: '' @ get_string_or filters ''source'' ''all'' @ nl1 @
             ''- risk: '' @ get_string_or filters ''risk_level'' ''all'' @ nl1 @
             ''- family: '' @ get_string_or filters ''command_family'' ''all'' @ nl1 @
             ''- blocked_only: '' @ (if boolean_member j ''blocked_only'' then ''yes'' else ''no'') @ nl1 @
             (if limit > 0 then ''- limit: '' @ show_int limit @ nl1 else []) @
             (if max_items > 0 then ''- max_items: '' @ show_int max_items @ nl1 else []) @ nl1)"

definition top_tuple :: "(fp \<Rightarrow> int) \<Rightarrow> json \<Rightarrow> string" where
  "top_tuple conv entry =
     (case entry of
        JArray (label # n # rest) \<Rightarrow>
          ''- '' @ (case node_string label of None \<Rightarrow> ''unknown'' | Some l \<Rightarrow> l) @ '': '' @ show_int (to_int (node_int conv n)) @ nl1
      | _ \<Rightarrow> [])"

definition top_tuples :: "(fp \<Rightarrow> int) \<Rightarrow> json \<Rightarrow> string \<Rightarrow> string \<Rightarrow> string" where
  "top_tuples conv summary key title =
     (case array_member summary key of
        None \<Rightarrow> []
      | Some entries \<Rightarrow> if entries = [] then [] else title @ nl1 @ concat (map (top_tuple conv) entries) @ nl1)"

definition suspicious_item :: "(fp \<Rightarrow> int) \<Rightarrow> (fp \<Rightarrow> string) \<Rightarrow> nat \<times> json \<Rightarrow> string" where
  "suspicious_item conv show1 numbered =
     (case numbered of (i, item) \<Rightarrow>
        if \<not> is_object item then []
        else let obj = Some item; reason = get_string_or obj ''policy_reason'' ''-''
          in show_nat (i + 1) @ '') '' @ get_string_or obj ''command'' ''unknown'' @ nl1 @
             ''   source='' @ get_string_or obj ''source'' ''unknown'' @ ''  risk='' @ get_string_or obj ''risk_level'' ''unknown'' @
             ''  decision='' @ get_string_or obj ''policy_decision'' ''unknown'' @ ''  exit='' @
             show_int (get_int_or conv obj ''exit_code'' 0) @ nl1 @
             ''   duration='' @ show1 (get_double_or obj ''duration_ms'' (Fin 0)) @ '' ms'' @ nl1 @
             (if reason \<noteq> ''-'' then ''   reason='' @ reason @ nl1 else []) @
             ''   context='' @ get_string_or obj ''context'' ''-'' @ nl1)"

definition suspicious_items :: "(fp \<Rightarrow> int) \<Rightarrow> (fp \<Rightarrow> string) \<Rightarrow> json list option \<Rightarrow> string" where
  "suspicious_items conv show1 items =
     (case items of
        None \<Rightarrow> []
      | Some xs \<Rightarrow>
          ''Suspicious Events (showing '' @ show_nat (min (length xs) 12) @ '' of '' @ show_nat (length xs) @ '')'' @ nl1 @
          concat (map (suspicious_item conv show1) (enumerate 0 (take 12 xs))) @ nl1)"

definition metric :: "(fp \<Rightarrow> int) \<Rightarrow> json \<Rightarrow> string \<Rightarrow> string" where
  "metric conv summary key = ''- '' @ key @ '': '' @ show_int (get_int_or conv (Some summary) key 0) @ nl1"

definition audit_metrics :: "(fp \<Rightarrow> int) \<Rightarrow> (fp \<Rightarrow> string) \<Rightarrow> json \<Rightarrow> string" where
  "audit_metrics conv show1 summary =
     ''Key Metrics'' @ nl1 @
     concat (map (metric conv summary) [''total'', ''filtered_entries'', ''inspected_entries'', ''allowed'', ''blocked'',
       ''failed_allowed'', ''high_risk'', ''network_calls'', ''write_ops'']) @
     (if contains summary ''avg_duration_ms''
      then ''- avg_duration_ms: '' @ show1 (get_double_or (Some summary) ''avg_duration_ms'' (Fin 0)) @ nl1 else []) @ nl1 @
     top_tuples conv summary ''top_sources'' ''Top Sources'' @ top_tuples conv summary ''top_contexts'' ''Top Contexts''"

definition format_audit_response_for_humans ::
  "(string \<Rightarrow> json result) \<Rightarrow> (fp \<Rightarrow> int) \<Rightarrow> (fp \<Rightarrow> string) \<Rightarrow> string option \<Rightarrow> string" where
  "format_audit_response_for_humans parse conv show1 response_text =
     (if \<not> filled response_text then ''No audit data received.''
      else case payload_object parse response_text of
        None \<Rightarrow> the response_text
      | Some doc \<Rightarrow>
          ''Sys Audit Overview'' @ nl1 @ ''Status: '' @ get_string_or (Some doc) ''status'' ''unknown'' @ nl1 @ nl1 @
          (if contains doc ''preset'' then ''Preset: '' @ get_string_or (Some doc) ''preset'' ''unknown'' @ nl1 @ nl1 else []) @
          (if contains doc ''filters'' then filter_summary conv (object_member doc ''filters'')
           else if contains doc ''config'' then filter_summary conv (object_member doc ''config'') else []) @
          (case object_member doc ''summary'' of None \<Rightarrow> [] | Some summary \<Rightarrow> audit_metrics conv show1 summary) @
          (if contains doc ''count''
           then ''Suspicious Count: '' @ show_int (get_int_or conv (Some doc) ''count'' 0) @ nl1 @ nl1 else []) @
          suspicious_items conv show1 (array_member doc ''items''))"

definition on_audit_response_loaded ::
  "(string \<Rightarrow> json result) \<Rightarrow> (fp \<Rightarrow> int) \<Rightarrow> (fp \<Rightarrow> string) \<Rightarrow> string option \<Rightarrow> string option \<Rightarrow> string" where
  "on_audit_response_loaded parse conv show1 response_text error =
     (case error of
        Some message \<Rightarrow> ''Audit request failed'' @ blank_line @ message
      | None \<Rightarrow> format_audit_response_for_humans parse conv show1 response_text)"


section \<open>What the health views show\<close>

lemma count_if_map: "count_if P (map f xs) = count_if (P \<circ> f) xs"
  by (induction xs) (simp_all add: count_if_def)

lemma count_if_cong: "(\<And>x. x \<in> set xs \<Longrightarrow> P x = Q x) \<Longrightarrow> count_if P xs = count_if Q xs"
  unfolding count_if_def by (metis (mono_tags, lifting) filter_cong)

lemma count_three: "count_if P xs + count_if Q xs + count_if (\<lambda>x. \<not> P x \<and> \<not> Q x) xs = length xs"
  if "\<And>x. \<not> (P x \<and> Q x)"
  using that by (induction xs) (auto simp: count_if_def)

definition backend_card :: "string \<times> json \<Rightarrow> health_card" where
  "backend_card m = create_health_card (fst m) (node_string (snd m))"

definition in_class :: "health_class \<Rightarrow> health_card list \<Rightarrow> nat" where
  "in_class k cards = count_if (\<lambda>card. hd_class card = k) cards"

text \<open>
  What the health views count. The view of the backends has a card for each backend, and its summary counts every
  backend once; the counts are those of the colours of the cards as long as no backend calls itself \<open>ok\<close> or
  \<open>partial\<close>. The view of the API counts a configured backend as one that is fine and draws its card as unavailable.
\<close>
lemma health_views:
  assumes "object_member doc ''backend_health'' = Some (JObject m)"
    and "object_member doc ''backends_configured'' = Some (JObject n)"
  shows "\<exists>service h d u api on off.
     backend_cards doc = (service @ map backend_card m, health_summary h d u) \<and> h + d + u = length m \<and>
     ((\<forall>x \<in> set m. node_string (snd x) \<notin> {Some ''ok'', Some ''partial''}) \<longrightarrow>
        h = in_class Healthy (map backend_card m) \<and> d = in_class Degraded (map backend_card m) \<and>
        u = in_class Unavailable (map backend_card m)) \<and>
     configured_cards doc = (api @ map (\<lambda>(b, v). create_health_card b (Some (if node_boolean v then ''configured'' else ''off''))) n,
       health_summary on 0 off) \<and> on + off = length n \<and>
     in_class Unavailable (drop (length api) (fst (configured_cards doc))) = length n"
proof -
  have c: "contains doc ''backend_health''" "contains doc ''backends_configured''"
    using assms by (auto simp: object_member_def contains_def split: option.splits)
  define P where "P = (\<lambda>x :: string \<times> json. node_string (snd x) = Some ''healthy'')"
  define Q where "Q = (\<lambda>x :: string \<times> json. node_string (snd x) = Some ''degraded'')"
  define on where "on = (\<lambda>x :: string \<times> json. node_boolean (snd x))"
  define service where "service = (case object_member doc ''status'' of None \<Rightarrow> []
     | Some s \<Rightarrow> if contains s ''status'' then [create_health_card ''memory-service'' (string_member s ''status'')] else [])"
  define api where "api = [create_health_card ''api'' (member_or doc ''status'' ''unknown''),
     create_health_card ''memory-mode'' (member_or doc ''memory_mode'' ''unknown'')]"
  have b: "backend_cards doc = (service @ map backend_card m,
      health_summary (count_if P m) (count_if Q m) (count_if (\<lambda>x. \<not> P x \<and> \<not> Q x) m))"
    using c(1) assms(1)
    by (simp add: backend_cards_def Let_def object_members_def service_def backend_card_def count_if_map o_def P_def Q_def
        case_prod_beta)
  have sum: "count_if P m + count_if Q m + count_if (\<lambda>x. \<not> P x \<and> \<not> Q x) m = length m"
    by (rule count_three) (simp add: P_def Q_def)
  have cls: "hd_class (backend_card x) = (if P x then Healthy else if Q x then Degraded else Unavailable)"
    if "node_string (snd x) \<notin> {Some ''ok'', Some ''partial''}" for x
    using that by (auto simp: backend_card_def create_health_card_def P_def Q_def)
  have counts: "count_if P m = in_class Healthy (map backend_card m) \<and> count_if Q m = in_class Degraded (map backend_card m) \<and>
      count_if (\<lambda>x. \<not> P x \<and> \<not> Q x) m = in_class Unavailable (map backend_card m)"
    if "\<forall>x \<in> set m. node_string (snd x) \<notin> {Some ''ok'', Some ''partial''}"
    unfolding in_class_def count_if_map
    by (intro conjI count_if_cong) (use that cls in \<open>auto simp: P_def Q_def\<close>)
  have k: "configured_cards doc = (api @ map (\<lambda>(b, v). create_health_card b (Some (if node_boolean v then ''configured'' else ''off''))) n,
       health_summary (count_if on n) 0 (count_if (\<lambda>x. \<not> on x) n))"
    using c(2) assms(2)
    by (simp add: configured_cards_def Let_def object_members_def api_def on_def case_prod_beta)
  have "count_if on n + count_if (\<lambda>x. \<not> on x) n = length n" by (induction n) (auto simp: count_if_def)
  moreover have "in_class Unavailable (map (\<lambda>(b, v). create_health_card b (Some (if node_boolean v then ''configured'' else ''off''))) n) = length n"
    by (induction n) (auto simp: in_class_def count_if_def create_health_card_def)
  ultimately show ?thesis
    using b sum counts k
    by (intro exI[of _ service] exI[of _ "count_if P m"] exI[of _ "count_if Q m"]
        exI[of _ "count_if (\<lambda>x. \<not> P x \<and> \<not> Q x) m"] exI[of _ api] exI[of _ "count_if on n"] exI[of _ "count_if (\<lambda>x. \<not> on x) n"])
      simp
qed


definition demo_health :: json where
  "demo_health = object [(''backend_health'', JObject [(''a'', JString ''healthy''), (''b'', JString ''down'')]),
     (''backends_configured'', JObject [(''a'', JBool True)])]"

lemma health_views_witness:
  "\<exists>service h d u. backend_cards demo_health = (service @ map backend_card [(''a'', JString ''healthy''), (''b'', JString ''down'')],
     health_summary h d u) \<and> h + d + u = 2"
proof -
  have m: "object_member demo_health ''backend_health'' = Some (JObject [(''a'', JString ''healthy''), (''b'', JString ''down'')])"
    "object_member demo_health ''backends_configured'' = Some (JObject [(''a'', JBool True)])"
    by (simp_all add: object_member_def demo_health_def)
  obtain service h d u where "backend_cards demo_health =
      (service @ map backend_card [(''a'', JString ''healthy''), (''b'', JString ''down'')], health_summary h d u)"
    "h + d + u = length [(''a'', JString ''healthy''), (''b'', JString ''down'')]"
    using health_views[OF m] by (elim exE conjE) (rule that)
  then show ?thesis by (intro exI[of _ service] exI[of _ h] exI[of _ d] exI[of _ u] conjI) (assumption, simp)
qed

end
