(* ===== verification/Client_Explorer.thy ===== *)
theory Client_Explorer
  imports Client_Requests
begin

text \<open>
  The explorer of the chat client (\<open>frontend/WMTool-Liara/src/liara_window.c\<close>): it lists directories and shows
  files of the sandbox by sending \<open>ls -la\<close> and \<open>cat\<close> to the tool \<open>sys\<close> of the API, and makes rows of
  the lines that come back. The window gives it a plain box where it expects a list box (\<open>build_explorer_view\<close>). \<open>dirname\<close> is \<open>g_path_get_dirname\<close>.
\<close>

section \<open>State\<close>

datatype ExplorerRequestKind = EXPLORER_REQUEST_LIST | EXPLORER_REQUEST_FILE

record explorer_row =
  er_name :: string
  er_path :: string
  er_is_dir :: bool

text \<open>
  \<open>ex_empty_note\<close> is the row that says that there are no entries; \<open>ex_open\<close> are the contexts of the requests under way.
  \<open>ex_is_list_box\<close> is the type of the widget for the rows: GTK refuses to append rows to one that is not a list box.
\<close>

record explorer =
  ex_path_entry :: string
  ex_status :: string
  ex_preview :: string
  ex_rows :: "explorer_row list"
  ex_empty_note :: bool
  ex_is_list_box :: bool
  ex_open :: "(ExplorerRequestKind \<times> string) list"

section \<open>Requests\<close>

definition workspace :: string where "workspace = ''/home/liara/workspace''"

definition explorer_normalize_path :: "string option \<Rightarrow> string" where
  "explorer_normalize_path raw_path =
     (let v = strip (case raw_path of None \<Rightarrow> [] | Some p \<Rightarrow> p) in if v = [] then workspace else v)"

definition build_sys_invoke_parameters :: "string \<Rightarrow> string \<Rightarrow> json" where
  "build_sys_invoke_parameters command path = object
     [(''command'', JString command),
      (''args'', JArray (if command = ''ls'' then [JString ''-la'', JString path]
                         else if command = ''cat'' then [JString path] else []))]"

definition sys_call :: "(string \<Rightarrow> json result) \<Rightarrow> (json \<Rightarrow> string) \<Rightarrow> string \<Rightarrow> string \<Rightarrow> string \<Rightarrow> http_call" where
  "sys_call parse gen base_url command path =
     liara_api_post_tool_invoke parse base_url ''sys'' (Some (gen (build_sys_invoke_parameters command path))) 30"

definition request_explorer_list ::
  "(string \<Rightarrow> json result) \<Rightarrow> (json \<Rightarrow> string) \<Rightarrow> string \<Rightarrow> string option \<Rightarrow> explorer \<Rightarrow> explorer \<times> http_call list" where
  "request_explorer_list parse gen base_url raw_path ex =
     (let path = explorer_normalize_path raw_path
      in (ex\<lparr>ex_path_entry := path, ex_status := ''Loading directory listing ...'',
             ex_open := ex_open ex @ [(EXPLORER_REQUEST_LIST, path)]\<rparr>, [sys_call parse gen base_url ''ls'' path]))"

definition request_explorer_file_preview ::
  "(string \<Rightarrow> json result) \<Rightarrow> (json \<Rightarrow> string) \<Rightarrow> string \<Rightarrow> string \<Rightarrow> explorer \<Rightarrow> explorer \<times> http_call list" where
  "request_explorer_file_preview parse gen base_url path ex =
     (ex\<lparr>ex_status := ''Loading file preview ...'', ex_open := ex_open ex @ [(EXPLORER_REQUEST_FILE, path)]\<rparr>,
      [sys_call parse gen base_url ''cat'' path])"

section \<open>Lines of a listing\<close>

text \<open>The name is what follows eight columns.\<close>

fun skip_columns :: "nat \<Rightarrow> string \<Rightarrow> string option" where
  "skip_columns 0 cursor = Some cursor"
| "skip_columns (Suc n) cursor =
     (if cursor = [] then Some []
      else let cursor = dropWhile (\<lambda>c. c = CHR '' '') cursor
        in if cursor = [] then None else skip_columns n (dropWhile (\<lambda>c. c \<noteq> CHR '' '') cursor))"

definition extract_ls_display_name :: "string \<Rightarrow> string option" where
  "extract_ls_display_name line =
     (case skip_columns 8 line of
        None \<Rightarrow> None
      | Some cursor \<Rightarrow> let cursor = dropWhile (\<lambda>c. c = CHR '' '') cursor in if cursor = [] then None else Some cursor)"

definition ls_row :: "(string \<Rightarrow> string) \<Rightarrow> string \<Rightarrow> string \<Rightarrow> explorer_row option" where
  "ls_row dirname path line =
     (if line = [] \<or> starts_with ''total '' line then None
      else case extract_ls_display_name line of
        None \<Rightarrow> None
      | Some display_name \<Rightarrow>
          if display_name = ''.'' then None
          else Some \<lparr>er_name = display_name,
                     er_path = (if display_name = ''..'' then dirname path else path @ ''/'' @ display_name),
                     er_is_dir = (hd line = CHR ''d'')\<rparr>)"

definition populate_explorer_list_from_ls :: "(string \<Rightarrow> string) \<Rightarrow> string \<Rightarrow> string option \<Rightarrow> explorer \<Rightarrow> explorer" where
  "populate_explorer_list_from_ls dirname path out ex =
     (let rows = List.map_filter (ls_row dirname path) (split_at (CHR 0x0A) (case out of None \<Rightarrow> [] | Some t \<Rightarrow> t))
      in if ex_is_list_box ex then ex\<lparr>ex_rows := rows, ex_empty_note := (rows = [])\<rparr>
         else ex\<lparr>ex_rows := [], ex_empty_note := False\<rparr>)"

text \<open>The explorer of the window: its widgets are made, but not put anywhere, and the one for the rows is a plain box.\<close>

definition build_explorer_view :: explorer where
  "build_explorer_view = \<lparr>ex_path_entry = [], ex_status = ''Explorer ready.'', ex_preview = [], ex_rows = [],
     ex_empty_note = False, ex_is_list_box = False, ex_open = []\<rparr>"

section \<open>Answers\<close>

definition or_empty :: "string option \<Rightarrow> string" where
  "or_empty s = (case s of None \<Rightarrow> [] | Some t \<Rightarrow> t)"

definition on_explorer_response ::
  "(string \<Rightarrow> json result) \<Rightarrow> (string \<Rightarrow> string) \<Rightarrow> ExplorerRequestKind \<times> string \<Rightarrow> string option \<Rightarrow> string option
     \<Rightarrow> explorer \<Rightarrow> explorer" where
  "on_explorer_response parse dirname ctx response_text error ex =
     (let ex = ex\<lparr>ex_open := remove1 ctx (ex_open ex)\<rparr>;
          unparsed = ''Explorer response could not be parsed.''
      in case error of
           Some message \<Rightarrow>
             (let m = ''Explorer request failed: '' @ message in ex\<lparr>ex_status := m, ex_preview := m\<rparr>)
         | None \<Rightarrow>
             (case response_text of
                None \<Rightarrow> ex\<lparr>ex_status := unparsed, ex_preview := unparsed\<rparr>
              | Some text \<Rightarrow>
                  (case parse text of
                     Inl _ \<Rightarrow> ex\<lparr>ex_status := unparsed, ex_preview := unparsed\<rparr>
                   | Inr doc \<Rightarrow>
                       if \<not> is_object doc then ex\<lparr>ex_status := ''Explorer response was empty.''\<rparr>
                       else if member_or doc ''status'' ''failed'' \<noteq> Some ''success'' then
                         (let api_error = or_empty (member_or doc ''error'' ''Request failed'')
                          in ex\<lparr>ex_status := api_error, ex_preview := api_error\<rparr>)
                       else if \<not> contains doc ''output'' then
                         ex\<lparr>ex_status := ''Explorer response had no output field.''\<rparr>
                       else let out = string_member doc ''output'' in
                         (case fst ctx of
                            EXPLORER_REQUEST_LIST \<Rightarrow>
                              populate_explorer_list_from_ls dirname (snd ctx) out
                                (ex\<lparr>ex_status := ''Directory loaded: '' @ snd ctx,
                                    ex_preview := ''Select a file to preview its content.''\<rparr>)
                          | EXPLORER_REQUEST_FILE \<Rightarrow>
                              ex\<lparr>ex_status := ''Preview loaded: '' @ snd ctx, ex_preview := or_empty out\<rparr>))))"

section \<open>The user\<close>

datatype explorer_action = Refresh_clicked | Home_clicked | Workspace_clicked | Up_clicked | Open_path_clicked
  | Row_activated nat | Path_typed string

text \<open>A row that is not there, the one with the note, does nothing.\<close>

fun explorer_act ::
  "(string \<Rightarrow> json result) \<Rightarrow> (json \<Rightarrow> string) \<Rightarrow> (string \<Rightarrow> string) \<Rightarrow> string \<Rightarrow> explorer_action \<Rightarrow> explorer
     \<Rightarrow> explorer \<times> http_call list" where
  "explorer_act parse gen dirname b Refresh_clicked ex = request_explorer_list parse gen b (Some (ex_path_entry ex)) ex"
| "explorer_act parse gen dirname b Home_clicked ex = request_explorer_list parse gen b (Some ''/home/liara'') ex"
| "explorer_act parse gen dirname b Workspace_clicked ex = request_explorer_list parse gen b (Some workspace) ex"
| "explorer_act parse gen dirname b Up_clicked ex =
     request_explorer_list parse gen b (Some (dirname (ex_path_entry ex))) ex"
| "explorer_act parse gen dirname b Open_path_clicked ex = request_explorer_list parse gen b (Some (ex_path_entry ex)) ex"
| "explorer_act parse gen dirname b (Row_activated i) ex =
     (if i < length (ex_rows ex) \<and> er_path (ex_rows ex ! i) \<noteq> [] then
        (if er_is_dir (ex_rows ex ! i) then request_explorer_list parse gen b (Some (er_path (ex_rows ex ! i))) ex
         else request_explorer_file_preview parse gen b (er_path (ex_rows ex ! i)) ex)
      else (ex, []))"
| "explorer_act parse gen dirname b (Path_typed t) ex = (ex\<lparr>ex_path_entry := t\<rparr>, [])"


section \<open>Listings\<close>

text \<open>An entry as \<open>ls -la\<close> prints it: eight columns, padded with blanks, and the name.\<close>

record ls_entry =
  le_columns :: "(string \<times> nat) list"
  le_name :: string

definition ls_line :: "ls_entry \<Rightarrow> string" where
  "ls_line e = concat (map (\<lambda>(w, k). w @ replicate (Suc k) CHR '' '') (le_columns e)) @ le_name e"

definition entry_ok :: "ls_entry \<Rightarrow> bool" where
  "entry_ok e \<longleftrightarrow> length (le_columns e) = 8 \<and>
     list_all (\<lambda>(w, k). w \<noteq> [] \<and> CHR '' '' \<notin> set w \<and> CHR 0x0A \<notin> set w) (le_columns e) \<and>
     fst (hd (le_columns e)) \<noteq> ''total'' \<and>
     le_name e \<noteq> [] \<and> hd (le_name e) \<noteq> CHR '' '' \<and> CHR 0x0A \<notin> set (le_name e)"

definition entry_row :: "(string \<Rightarrow> string) \<Rightarrow> string \<Rightarrow> ls_entry \<Rightarrow> explorer_row" where
  "entry_row dirname path e =
     \<lparr>er_name = le_name e, er_path = (if le_name e = ''..'' then dirname path else path @ ''/'' @ le_name e),
      er_is_dir = (hd (fst (hd (le_columns e))) = CHR ''d'')\<rparr>"

lemma drop_blanks: "t \<noteq> [] \<Longrightarrow> hd t \<noteq> CHR '' '' \<Longrightarrow> dropWhile (\<lambda>c. c = CHR '' '') (replicate k CHR '' '' @ t) = t"
  by (induction k) (auto simp: dropWhile_id)

lemma skip_columns_all:
  assumes "list_all (\<lambda>(w, k). w \<noteq> [] \<and> CHR '' '' \<notin> set w) cols" "name \<noteq> []" "hd name \<noteq> CHR '' ''"
  shows "\<exists>j. skip_columns (length cols)
      (replicate i CHR '' '' @ concat (map (\<lambda>(w, k). w @ replicate (Suc k) CHR '' '') cols) @ name)
    = Some (replicate j CHR '' '' @ name)"
  using assms(1)
proof (induction cols arbitrary: i)
  case Nil
  then show ?case by auto
next
  case (Cons wk cols)
  obtain w k where wk: "wk = (w, k)" by (cases wk)
  have w: "w \<noteq> []" "CHR '' '' \<notin> set w" using Cons.prems wk by auto
  define rest where "rest = concat (map (\<lambda>(w, k). w @ replicate (Suc k) CHR '' '') cols) @ name"
  have 1: "dropWhile (\<lambda>c. c = CHR '' '') (replicate i CHR '' '' @ w @ replicate (Suc k) CHR '' '' @ rest)
      = w @ replicate (Suc k) CHR '' '' @ rest"
    using w by (intro drop_blanks) (cases w; auto)+
  have 2: "dropWhile (\<lambda>c. c \<noteq> CHR '' '') (w @ replicate (Suc k) CHR '' '' @ rest) = replicate (Suc k) CHR '' '' @ rest"
    using w by (simp add: dropWhile_upto)
  have "skip_columns (Suc (length cols)) (replicate i CHR '' '' @ w @ replicate (Suc k) CHR '' '' @ rest)
      = skip_columns (length cols) (replicate (Suc k) CHR '' '' @ rest)"
    using w 1 2 by simp
  then show ?case
    using Cons.IH[of "Suc k"] Cons.prems by (simp add: wk rest_def)
qed

lemma extract_name:
  assumes "entry_ok e"
  shows "extract_ls_display_name (ls_line e) = Some (le_name e)"
proof -
  have "list_all (\<lambda>(w, k). w \<noteq> [] \<and> CHR '' '' \<notin> set w) (le_columns e)"
    using assms by (auto simp: entry_ok_def list_all_iff)
  from skip_columns_all[OF this, of "le_name e" 0] assms obtain j where
    "skip_columns 8 (ls_line e) = Some (replicate j CHR '' '' @ le_name e)"
    by (auto simp: entry_ok_def ls_line_def simp del: skip_columns.simps)
  then show ?thesis
    using assms drop_blanks[of "le_name e" j] by (simp add: extract_ls_display_name_def entry_ok_def)
qed

lemma ls_line_shape:
  assumes "entry_ok e"
  shows "ls_line e \<noteq> []" "\<not> starts_with ''total '' (ls_line e)" "hd (ls_line e) = hd (fst (hd (le_columns e)))"
    "CHR 0x0A \<notin> set (ls_line e)"
proof -
  obtain w k cols where c: "le_columns e = (w, k) # cols" "w \<noteq> []" "CHR '' '' \<notin> set w"
    using assms by (cases "le_columns e") (auto simp: entry_ok_def)
  have l: "ls_line e = w @ CHR '' '' # (replicate k CHR '' '' @ concat (map (\<lambda>(w, k). w @ replicate (Suc k) CHR '' '') cols) @ le_name e)"
    by (simp add: ls_line_def c)
  show "ls_line e \<noteq> []" "hd (ls_line e) = hd (fst (hd (le_columns e)))" using c l by auto
  show "CHR 0x0A \<notin> set (ls_line e)" using assms by (auto simp: ls_line_def entry_ok_def list_all_iff)
  have "w \<noteq> ''total''" using assms c by (simp add: entry_ok_def)
  moreover have "w = ''total''" if total: "starts_with ''total '' (ls_line e)"
  proof -
    obtain r where "ls_line e = ''total '' @ r"
      using total by (auto simp: starts_with_iff)
    then have "takeWhile (\<lambda>x. x \<noteq> CHR '' '') (ls_line e) = ''total''" by simp
    moreover have "takeWhile (\<lambda>x. x \<noteq> CHR '' '') (ls_line e) = w" using c l by (simp add: takeWhile_upto)
    ultimately show ?thesis by simp
  qed
  ultimately show "\<not> starts_with ''total '' (ls_line e)" by blast
qed

lemma ls_row_entry:
  assumes "entry_ok e"
  shows "ls_row dirname path (ls_line e) = (if le_name e = ''.'' then None else Some (entry_row dirname path e))"
  using ls_line_shape[OF assms] extract_name[OF assms] by (simp add: ls_row_def entry_row_def)

definition listing :: "string \<Rightarrow> ls_entry list \<Rightarrow> string" where
  "listing blocks es = ''total '' @ blocks @ [CHR 0x0A] @ concat (map (\<lambda>e. ls_line e @ [CHR 0x0A]) es)"

lemma listing_rows:
  assumes "list_all entry_ok es" "CHR 0x0A \<notin> set blocks"
  shows "List.map_filter (ls_row dirname path) (split_at (CHR 0x0A) (listing blocks es))
    = map (entry_row dirname path) (filter (\<lambda>e. le_name e \<noteq> ''.'') es)"
proof -
  have lines: "split_at (CHR 0x0A) (concat (map (\<lambda>l. l @ [CHR 0x0A]) (map ls_line es))) = map ls_line es @ [[]]"
    using assms(1) ls_line_shape(4) by (intro split_at_lines) (auto simp: list_all_iff)
  have "split_at (CHR 0x0A) ((''total '' @ blocks) @ CHR 0x0A # concat (map (\<lambda>l. l @ [CHR 0x0A]) (map ls_line es)))
      = (''total '' @ blocks) # map ls_line es @ [[]]"
    using assms(2) lines by (subst split_at_line) auto
  then have "split_at (CHR 0x0A) (listing blocks es) = (''total '' @ blocks) # map ls_line es @ [[]]"
    by (simp add: listing_def o_def)
  moreover have "ls_row dirname path (''total '' @ blocks) = None" "ls_row dirname path [] = None"
    by (simp_all add: ls_row_def starts_with_def)
  moreover have "List.map_filter (ls_row dirname path) (map ls_line es)
      = map (entry_row dirname path) (filter (\<lambda>e. le_name e \<noteq> ''.'') es)"
    using assms(1) by (induction es) (simp_all add: map_filter_simps ls_row_entry)
  ultimately show ?thesis by (simp add: map_filter_def)
qed


text \<open>
  The explorer shows what \<open>ls -la\<close> says if its rows go to a list box. When the answer to a request for the directory
  \<open>path\<close> is a listing in the format of \<open>ls\<close>, with any padding and names with blanks in them, there is a row for every entry but
  \<open>.\<close>, in order, with its name, its path and whether it is a directory, or the note that there is none. Opening
  a row sends one command: the listing of its path, without outer white space, for a directory and its contents for a file,
  with the path as one argument. With another widget, as the window has it, the answer is reported as loaded and nothing
  is shown.
\<close>
lemma explorer_shows_listing:
  assumes "parse t = Inr doc" "is_object doc" "string_member doc ''status'' = Some ''success''"
    and "string_member doc ''output'' = Some (listing blocks es)" "CHR 0x0A \<notin> set blocks" "list_all entry_ok es"
    and "i < length (filter (\<lambda>e. le_name e \<noteq> ''.'') es)" "e = filter (\<lambda>e. le_name e \<noteq> ''.'') es ! i"
    and "row = entry_row dirname path e" "er_path row \<noteq> []"
    and "params = build_sys_invoke_parameters (if er_is_dir row then ''ls'' else ''cat'')
      (if er_is_dir row then explorer_normalize_path (Some (er_path row)) else er_path row)"
    and "parse (gen params) = Inr params" "gen params \<noteq> []"
  shows "let ex' = on_explorer_response parse dirname (EXPLORER_REQUEST_LIST, path) (Some t) None ex
    in ex_status ex' = ''Directory loaded: '' @ path \<and> ex_is_list_box build_explorer_view = False \<and>
       (if ex_is_list_box ex
        then ex_rows ex' = map (entry_row dirname path) (filter (\<lambda>e. le_name e \<noteq> ''.'') es) \<and>
          ex_empty_note ex' = (ex_rows ex' = []) \<and>
          map hc_body (snd (explorer_act parse gen dirname b (Row_activated i) ex')) =
            [Some (object [(''parameters'', params), (''timeout_seconds'', JInt 30)])]
        else ex_rows ex' = [] \<and> ex_empty_note ex' = False)"
proof -
  define ex' where "ex' = on_explorer_response parse dirname (EXPLORER_REQUEST_LIST, path) (Some t) None ex"
  have mem: "member_or doc ''status'' ''failed'' = Some ''success''" "contains doc ''output''"
    using assms(3,4) by (auto simp: member_or_def contains_def string_member_def split: option.splits)
  have ex': "ex' = populate_explorer_list_from_ls dirname path (Some (listing blocks es))
      (ex\<lparr>ex_open := remove1 (EXPLORER_REQUEST_LIST, path) (ex_open ex), ex_status := ''Directory loaded: '' @ path,
          ex_preview := ''Select a file to preview its content.''\<rparr>)"
    using assms(1,2,4) mem by (simp add: ex'_def on_explorer_response_def Let_def)
  have other: "ex_status ex' = ''Directory loaded: '' @ path" "\<not> ex_is_list_box ex \<Longrightarrow> ex_rows ex' = [] \<and> ex_empty_note ex' = False"
    by (simp_all add: ex' populate_explorer_list_from_ls_def Let_def)
  have rows: "ex_rows ex' = map (entry_row dirname path) (filter (\<lambda>e. le_name e \<noteq> ''.'') es)"
    "ex_empty_note ex' = (ex_rows ex' = [])" if "ex_is_list_box ex"
    using listing_rows[OF assms(6,5), of dirname path] that
    by (simp_all add: ex' populate_explorer_list_from_ls_def Let_def)
  have "map hc_body (snd (explorer_act parse gen dirname b (Row_activated i) ex')) =
      [Some (object [(''parameters'', params), (''timeout_seconds'', JInt 30)])]" if l: "ex_is_list_box ex"
  proof -
    have "i < length (ex_rows ex')" "ex_rows ex' ! i = row"
      using assms(7-9) by (simp_all add: rows(1)[OF l])
    then show ?thesis using assms(10-13)
      by (cases "er_is_dir row") (simp_all add: request_explorer_list_def request_explorer_file_preview_def sys_call_def
        liara_api_post_tool_invoke_def send_json_request_def Let_def del: object_def)
  qed
  then show ?thesis using rows other unfolding ex'_def[symmetric] Let_def by (simp add: build_explorer_view_def)
qed


definition demo_entries :: "ls_entry list" where
  "demo_entries = [\<lparr>le_columns = replicate 8 (''d'', 0), le_name = ''.''\<rparr>, \<lparr>le_columns = replicate 8 (''-r'', 2), le_name = ''a b''\<rparr>]"

definition demo_listing :: json where
  "demo_listing = object [(''status'', JString ''success''), (''output'', JString (listing ''8'' demo_entries))]"

text \<open>A directory with one file, whose name has a blank.\<close>

definition demo_explorer :: explorer where
  "demo_explorer = \<lparr>ex_path_entry = ''/w'', ex_status = ''Directory loading...'', ex_preview = [], ex_rows = [],
     ex_empty_note = False, ex_is_list_box = True, ex_open = [(EXPLORER_REQUEST_LIST, ''/w'')]\<rparr>"

lemma explorer_shows_listing_witness:
  "let parse = (\<lambda>s. if s = ''t'' then Inr demo_listing else Inr (build_sys_invoke_parameters ''cat'' ''/w/a b''));
       ex' = on_explorer_response parse (\<lambda>_. ''/'') (EXPLORER_REQUEST_LIST, ''/w'') (Some ''t'') None demo_explorer
   in ex_rows ex' = [\<lparr>er_name = ''a b'', er_path = ''/w/a b'', er_is_dir = False\<rparr>]"
proof -
  let ?parse = "\<lambda>s. if s = ''t'' then Inr demo_listing else Inr (build_sys_invoke_parameters ''cat'' ''/w/a b'')"
  have f: "filter (\<lambda>e. le_name e \<noteq> ''.'') demo_entries = [\<lparr>le_columns = replicate 8 (''-r'', 2), le_name = ''a b''\<rparr>]"
    by (simp add: demo_entries_def)
  have row: "entry_row (\<lambda>_. ''/'') ''/w'' \<lparr>le_columns = replicate 8 (''-r'', 2), le_name = ''a b''\<rparr>
      = \<lparr>er_name = ''a b'', er_path = ''/w/a b'', er_is_dir = False\<rparr>"
    by (simp add: entry_row_def numeral_eq_Suc)
  have ok: "list_all entry_ok demo_entries" by (simp add: demo_entries_def entry_ok_def numeral_eq_Suc)
  have doc: "is_object demo_listing" "string_member demo_listing ''status'' = Some ''success''"
    "string_member demo_listing ''output'' = Some (listing ''8'' demo_entries)"
    by (simp_all add: demo_listing_def string_member_def)
  define e where "e = \<lparr>le_columns = replicate 8 (''-r'', 2), le_name = ''a b''\<rparr>"
  define r where "r = \<lparr>er_name = ''a b'', er_path = ''/w/a b'', er_is_dir = False\<rparr>"
  have f': "filter (\<lambda>e. le_name e \<noteq> ''.'') demo_entries = [e]" using f by (simp add: e_def)
  have i: "0 < length (filter (\<lambda>e. le_name e \<noteq> ''.'') demo_entries)" "e = filter (\<lambda>e. le_name e \<noteq> ''.'') demo_entries ! 0"
    by (simp_all add: f')
  have r: "r = entry_row (\<lambda>_. ''/'') ''/w'' e" "er_path r \<noteq> []" using row by (simp_all add: e_def r_def)
  have params: "build_sys_invoke_parameters ''cat'' ''/w/a b'' = build_sys_invoke_parameters (if er_is_dir r then ''ls'' else ''cat'')
      (if er_is_dir r then explorer_normalize_path (Some (er_path r)) else er_path r)"
    by (simp add: r_def)
  have parse: "?parse ''t'' = Inr demo_listing" "CHR 0x0A \<notin> set ''8''" by simp_all
  have gen: "?parse ((\<lambda>_. ''g'') (build_sys_invoke_parameters ''cat'' ''/w/a b'')) = Inr (build_sys_invoke_parameters ''cat'' ''/w/a b'')"
    "(\<lambda>_. ''g'') (build_sys_invoke_parameters ''cat'' ''/w/a b'') \<noteq> []" by simp_all
  note T = explorer_shows_listing[OF parse(1) doc parse(2) ok i r params gen, of demo_explorer "[]"]
  have "map (entry_row (\<lambda>_. ''/'') ''/w'') (filter (\<lambda>e. le_name e \<noteq> ''.'') demo_entries) = [r]"
    using r(1) by (simp only: f' list.map)
  moreover have "ex_is_list_box demo_explorer" by (simp add: demo_explorer_def)
  ultimately show ?thesis using T unfolding Let_def r_def by (simp only: if_True)
qed

end
