(* ===== verification/Client_Views.thy ===== *)
theory Client_Views
  imports Client_Report Client_Explorer
begin

text \<open>
  The pages of the chat client and their controls (\<open>frontend/WMTool-Liara/src/liara_window.c\<close>): which exist in the developer
  mode and in the user mode, what each does to the window and which request it sends. A control can be used while the
  page it is on is visible. Sending messages is in \<open>Chat_Session\<close>, the two buttons that write the settings are in
  \<open>Client_Config\<close>.
\<close>

section \<open>Details of a tool\<close>

text \<open>\<open>tv_form\<close> are the fields of the form with their contents; without one there is a note.\<close>

record tool_view =
  tv_output :: string
  tv_name :: string
  tv_description :: string
  tv_required :: "string list"
  tv_optional :: "string list"
  tv_form :: "((string \<times> bool) \<times> string) list"

definition populate_tool_parameter_box :: "json list option \<Rightarrow> string \<Rightarrow> string list" where
  "populate_tool_parameter_box params empty_text =
     (case params of
        None \<Rightarrow> [empty_text]
      | Some ps \<Rightarrow> if ps = [] then [empty_text] else filter (\<lambda>p. p \<noteq> []) (List.map_filter node_string ps))"

definition no_parameters :: "tool_view \<Rightarrow> tool_view" where
  "no_parameters tv =
     tv\<lparr>tv_required := populate_tool_parameter_box None ''No required parameters'',
        tv_optional := populate_tool_parameter_box None ''No optional parameters''\<rparr>"

definition show_tool :: "json option \<Rightarrow> tool_view \<Rightarrow> tool_view" where
  "show_tool tool tv =
     (let name = (case tool of None \<Rightarrow> Some ''Unknown tool'' | Some j \<Rightarrow> member_or j ''name'' ''Unknown tool'');
          description = (case tool of None \<Rightarrow> Some ''No description available.''
                         | Some j \<Rightarrow> member_or j ''description'' ''No description available.'');
          required = Option.bind tool (\<lambda>j. array_member j ''required_parameters'');
          optional = Option.bind tool (\<lambda>j. array_member j ''optional_parameters'')
      in tv\<lparr>tv_name := text_or_empty name, tv_description := text_or_empty description,
            tv_required := populate_tool_parameter_box required ''No required parameters'',
            tv_optional := populate_tool_parameter_box optional ''No optional parameters'',
            tv_form := map (\<lambda>f. (f, [])) (populate_dynamic_tool_form required optional)\<rparr>)"

definition on_tool_metadata_loaded :: "(string \<Rightarrow> json result) \<Rightarrow> string option \<Rightarrow> string option \<Rightarrow> tool_view \<Rightarrow> tool_view" where
  "on_tool_metadata_loaded parse response_text error tv =
     (case error of
        Some message \<Rightarrow>
          no_parameters (tv\<lparr>tv_output := ''Tool metadata request failed'' @ blank_line @ message,
                            tv_name := ''Tool lookup failed'', tv_description := message\<rparr>)
      | None \<Rightarrow>
          let tv = tv\<lparr>tv_output := text_or_empty response_text\<rparr>;
              unavailable = (\<lambda>d. no_parameters (tv\<lparr>tv_name := ''Tool metadata unavailable'', tv_description := d\<rparr>))
          in (case response_text of
                None \<Rightarrow> unavailable ''Response could not be parsed.''
              | Some t \<Rightarrow>
                  (case parse t of
                     Inl _ \<Rightarrow> unavailable ''Response could not be parsed.''
                   | Inr doc \<Rightarrow>
                       if \<not> contains doc ''tool'' then unavailable ''Response did not contain a tool payload.''
                       else show_tool (object_member doc ''tool'') tv)))"

section \<open>The window\<close>

datatype text_field = F_session | F_user | F_history_session | F_run_id | F_info_session | F_info_user | F_sandbox
  | F_profile | F_workspace | F_notes | F_source | F_risk | F_family | F_preset | F_tool_name | F_tool_params

datatype spin = S_history_limit | S_audit_limit | S_audit_max_items | S_tool_timeout

datatype check_button = C_include_tools | C_blocked_only

text \<open>The ranges of \<open>gtk_spin_button_new_with_range\<close>.\<close>

fun spin_range :: "spin \<Rightarrow> int \<times> int" where
  "spin_range S_history_limit = (1, 500)"
| "spin_range S_audit_limit = (1, 5000)"
| "spin_range S_audit_max_items = (1, 200)"
| "spin_range S_tool_timeout = (1, 120)"

record views =
  vi_dev :: bool
  vi_main :: string
  vi_side :: string
  vi_main_pages :: "string list"
  vi_side_pages :: "string list"
  vi_reveal :: bool
  vi_toggle_label :: string
  vi_text :: "text_field \<Rightarrow> string"
  vi_num :: "spin \<Rightarrow> int"
  vi_check :: "check_button \<Rightarrow> bool"
  vi_tools :: "(string option \<times> string) list"
  vi_tool :: tool_view
  vi_explorer :: explorer
  vi_snapshot :: snapshot
  vi_status :: string
  vi_display_name :: string
  vi_login_name :: string
  vi_sent :: "http_call list"

text \<open>The JSON parser and generator, the conversion of a \<open>double\<close>, \<open>g_path_get_dirname\<close> and the address of the API.\<close>

record client_env =
  en_parse :: "string \<Rightarrow> json result"
  en_gen :: "json \<Rightarrow> string"
  en_conv :: "fp \<Rightarrow> int"
  en_dirname :: "string \<Rightarrow> string"
  en_base :: string

definition main_pages :: "bool \<Rightarrow> string list" where
  "main_pages dev = [''chat'', ''history'', ''explorer'', ''settings''] @ (if dev then [''audit'', ''tools''] else [])"

definition side_pages :: "bool \<Rightarrow> string list" where
  "side_pages dev = [''status'', ''history-side'', ''explorer-side'', ''settings-side''] @
     (if dev then [''audit-side'', ''tools''] else [])"

text \<open>What the builders of the pages put into their fields; \<open>session\<close> and \<open>user\<close> come from the identity and the settings.\<close>

fun initial_text :: "string \<Rightarrow> string \<Rightarrow> string \<Rightarrow> text_field \<Rightarrow> string" where
  "initial_text session user sandbox F_session = session"
| "initial_text session user sandbox F_user = user"
| "initial_text session user sandbox F_history_session = session"
| "initial_text session user sandbox F_run_id = []"
| "initial_text session user sandbox F_info_session = session"
| "initial_text session user sandbox F_info_user = user"
| "initial_text session user sandbox F_sandbox = sandbox"
| "initial_text session user sandbox F_source = ''all''"
| "initial_text session user sandbox F_risk = ''all''"
| "initial_text session user sandbox F_family = ''all''"
| "initial_text session user sandbox F_preset = ''top-risk''"
| "initial_text session user sandbox F_tool_name = ''current_time''"
| "initial_text session user sandbox F_tool_params = ''{}''"
| "initial_text session user sandbox _ = []"

fun initial_num :: "spin \<Rightarrow> int" where
  "initial_num S_history_limit = 50"
| "initial_num S_audit_limit = 500"
| "initial_num S_audit_max_items = 30"
| "initial_num S_tool_timeout = 30"

definition initial_tool :: tool_view where
  "initial_tool = \<lparr>tv_output = [], tv_name = ''current_time'', tv_description = ''Select a tool and load its metadata.'',
     tv_required = [''No required parameters''], tv_optional = [''No optional parameters''], tv_form = []\<rparr>"

definition initial_snapshot :: snapshot where
  "initial_snapshot = \<lparr>sn_count = ''Messages: -'', sn_last_run = ''Last run: -'', sn_updated = ''Updated: -'',
     sn_history = ''History: -'', sn_sandbox = ''Sandbox root: -'', sn_profile = [], sn_workspace = [], sn_notes = []\<rparr>"

text \<open>The window as \<open>liara_window_new\<close> leaves it.\<close>

definition window_views :: "bool \<Rightarrow> client_ui \<Rightarrow> string \<Rightarrow> views" where
  "window_views dev ui login_name =
     \<lparr>vi_dev = dev, vi_main = ''chat'', vi_side = ''status'', vi_main_pages = main_pages dev, vi_side_pages = side_pages dev,
      vi_reveal = True, vi_toggle_label = ''<'',
      vi_text = initial_text (cw_session ui) (cw_user ui) (cw_sandbox ui),
      vi_num = initial_num, vi_check = (\<lambda>c. c = C_include_tools \<and> cw_history_include ui), vi_tools = [],
      vi_tool = initial_tool, vi_explorer = build_explorer_view,
      vi_snapshot = initial_snapshot, vi_status = [], vi_display_name = cw_display_name ui,
      vi_login_name = login_name, vi_sent = []\<rparr>"

section \<open>Handlers\<close>

text \<open>\<open>gtk_stack_set_visible_child_name\<close> does nothing for a page that is not there.\<close>

definition set_visible_child_name :: "string list \<Rightarrow> string \<Rightarrow> string \<Rightarrow> string" where
  "set_visible_child_name pages name current = (if name \<in> set pages then name else current)"

definition switch_view :: "string \<Rightarrow> string \<Rightarrow> views \<Rightarrow> views" where
  "switch_view main_name side_name v =
     v\<lparr>vi_main := set_visible_child_name (vi_main_pages v) main_name (vi_main v),
       vi_side := set_visible_child_name (vi_side_pages v) side_name (vi_side v)\<rparr>"

definition side_panel_for_main_view :: "string \<Rightarrow> string" where
  "side_panel_for_main_view main_name =
     (if main_name = ''history'' then ''history-side''
      else if main_name = ''explorer'' then ''explorer-side''
      else if main_name = ''tools'' then ''tools''
      else if main_name = ''settings'' then ''settings-side''
      else if main_name = ''audit'' then ''audit-side''
      else ''status'')"

definition sent :: "http_call \<Rightarrow> views \<Rightarrow> views" where
  "sent call v = v\<lparr>vi_sent := vi_sent v @ [call]\<rparr>"

definition list_explorer :: "client_env \<Rightarrow> views \<Rightarrow> views" where
  "list_explorer en v =
     (let (ex, calls) = request_explorer_list (en_parse en) (en_gen en) (en_base en) (Some (ex_path_entry (vi_explorer v)))
            (vi_explorer v)
      in v\<lparr>vi_explorer := ex, vi_sent := vi_sent v @ calls\<rparr>)"

definition on_action_view :: "client_env \<Rightarrow> string \<Rightarrow> views \<Rightarrow> views" where
  "on_action_view en main_name v =
     (let side_name = side_panel_for_main_view main_name
      in if (main_name = ''tools'' \<or> main_name = ''audit'') \<and> \<not> vi_dev v then v
         else if main_name = ''status'' then switch_view ''chat'' ''status'' v
         else switch_view main_name side_name (if main_name = ''explorer'' then list_explorer en v else v))"

definition on_toggle_inspector_clicked :: "views \<Rightarrow> views" where
  "on_toggle_inspector_clicked v =
     v\<lparr>vi_reveal := \<not> vi_reveal v, vi_toggle_label := (if vi_reveal v then ''<'' else ''>'')\<rparr>"

definition on_refresh_history_clicked :: "client_env \<Rightarrow> views \<Rightarrow> views" where
  "on_refresh_history_clicked en v =
     sent (liara_api_get_history (en_base en) (vi_text v F_history_session) (Some (vi_text v F_run_id))
             (vi_num v S_history_limit) (vi_check v C_include_tools)) v"

definition copy_session_fields :: "views \<Rightarrow> views" where
  "copy_session_fields v =
     v\<lparr>vi_text := (vi_text v)(F_session := vi_text v F_info_session, F_user := vi_text v F_info_user)\<rparr>"

definition on_load_session_clicked :: "client_env \<Rightarrow> views \<Rightarrow> views" where
  "on_load_session_clicked en v =
     sent (liara_api_get_session (en_base en) (vi_text v F_info_session) (vi_text v F_info_user)) (copy_session_fields v)"

definition session_metadata_of :: "views \<Rightarrow> json" where
  "session_metadata_of v =
     build_session_metadata (vi_text v F_profile) (vi_text v F_workspace) (vi_text v F_notes) (vi_display_name v) (vi_login_name v)"

definition on_save_session_clicked :: "client_env \<Rightarrow> views \<Rightarrow> views" where
  "on_save_session_clicked en v =
     sent (liara_api_post_session (en_parse en) (en_base en) (vi_text v F_info_session) (vi_text v F_info_user)
             (Some (vi_text v F_sandbox)) (Some (en_gen en (session_metadata_of v)))) (copy_session_fields v)"

text \<open>The labels and the three fields of the session are set from the answer, and emptied first.\<close>

definition show_snapshot :: "client_env \<Rightarrow> string option \<Rightarrow> views \<Rightarrow> views" where
  "show_snapshot en response_text v =
     (let sn = render_session_snapshot (en_parse en) (en_conv en) response_text
      in v\<lparr>vi_snapshot := sn,
           vi_text := (vi_text v)(F_profile := sn_profile sn, F_workspace := sn_workspace sn, F_notes := sn_notes sn)\<rparr>)"

definition on_session_snapshot_loaded :: "client_env \<Rightarrow> string option \<Rightarrow> string option \<Rightarrow> views \<Rightarrow> views" where
  "on_session_snapshot_loaded en response_text error v =
     (case error of
        Some message \<Rightarrow>
          show_snapshot en None (if vi_dev v then v\<lparr>vi_status := ''Session request failed'' @ blank_line @ message\<rparr> else v)
      | None \<Rightarrow> show_snapshot en response_text (if vi_dev v then v\<lparr>vi_status := text_or_empty response_text\<rparr> else v))"

definition api_response_to_view :: "string option \<Rightarrow> string option \<Rightarrow> string" where
  "api_response_to_view response_text error =
     (case error of Some message \<Rightarrow> ''Request failed'' @ blank_line @ message | None \<Rightarrow> text_or_empty response_text)"

definition request_tool_metadata :: "client_env \<Rightarrow> string \<Rightarrow> views \<Rightarrow> views" where
  "request_tool_metadata en tool_name v =
     (case liara_api_get_tool_metadata (en_base en) (Some tool_name) of
        Inl reply \<Rightarrow> v\<lparr>vi_tool := on_tool_metadata_loaded (en_parse en) (Some reply) None (vi_tool v)\<rparr>
      | Inr call \<Rightarrow> sent call v)"

definition on_tool_row_activated :: "client_env \<Rightarrow> string option \<Rightarrow> views \<Rightarrow> views" where
  "on_tool_row_activated en tool_name v =
     (if \<not> filled tool_name then v
      else request_tool_metadata en (the tool_name) (v\<lparr>vi_text := (vi_text v)(F_tool_name := the tool_name)\<rparr>))"

text \<open>The parameters of a call: the form as JSON, or the text below it when the form is empty.\<close>

definition tool_parameters_text :: "client_env \<Rightarrow> views \<Rightarrow> string" where
  "tool_parameters_text en v =
     (case build_tool_parameters (en_parse en) (map (\<lambda>f. (fst (fst f), snd f)) (tv_form (vi_tool v))) (vi_text v F_tool_params) of
        Inl t \<Rightarrow> t
      | Inr j \<Rightarrow> en_gen en j)"

definition on_invoke_tool_clicked :: "client_env \<Rightarrow> views \<Rightarrow> views" where
  "on_invoke_tool_clicked en v =
     sent (liara_api_post_tool_invoke (en_parse en) (en_base en) (vi_text v F_tool_name) (Some (tool_parameters_text en v))
             (vi_num v S_tool_timeout)) v"

definition on_audit_summary_clicked :: "client_env \<Rightarrow> views \<Rightarrow> views" where
  "on_audit_summary_clicked en v =
     sent (liara_api_get_sys_audit_summary (en_base en) (vi_num v S_audit_limit) (vi_check v C_blocked_only)
             (Some (vi_text v F_source)) (Some (vi_text v F_risk)) (Some (vi_text v F_family))) v"

definition on_audit_suspicious_clicked :: "client_env \<Rightarrow> views \<Rightarrow> views" where
  "on_audit_suspicious_clicked en v =
     sent (liara_api_get_sys_audit_suspicious (en_base en) (vi_num v S_audit_limit) (vi_num v S_audit_max_items)
             (vi_check v C_blocked_only) (Some (vi_text v F_source)) (Some (vi_text v F_risk)) (Some (vi_text v F_family))) v"

definition on_audit_preset_clicked :: "client_env \<Rightarrow> views \<Rightarrow> views" where
  "on_audit_preset_clicked en v =
     sent (liara_api_get_sys_audit_preset (en_base en) (Some (vi_text v F_preset)) (vi_num v S_audit_limit)
             (vi_num v S_audit_max_items)) v"

section \<open>Controls\<close>

datatype nav = Nav_chat | Nav_history | Nav_explorer | Nav_tools | Nav_audit | Nav_status | Nav_settings

datatype button = Refresh_history | Load_session | Save_session | Health | Health_backends | List_tools | Tool_details
  | Invoke_tool | Audit_summary | Audit_suspicious | Audit_preset

text \<open>
  Events: the sidebar, an entry of the menu, the action \<open>win.view\<close> activated from elsewhere with any text, the
  button of the inspector, the buttons, fields and rows of the pages, a message that is sent, settings that are saved, and answers.
\<close>

datatype view_event = Sidebar nav | Menu string | Action_view string | Toggle_inspector | Press button
  | Type_text text_field string | Set_spin spin int | Set_check check_button bool | Type_form nat string | Tool_row nat
  | Message_sent | Settings_saved bool | Tools_answer "string option" "string option" | Tool_answer "string option" "string option"
  | Session_answer "string option" "string option" | Invoke_answer "string option" "string option"
  | Explorer_answer "ExplorerRequestKind \<times> string" "string option" "string option"

text \<open>\<open>build_sidebar\<close> and \<open>build_menu_bar\<close>: what they offer.\<close>

definition sidebar_buttons :: "bool \<Rightarrow> nav list" where
  "sidebar_buttons dev =
     [Nav_chat, Nav_history, Nav_explorer] @ (if dev then [Nav_tools, Nav_audit] else []) @ [Nav_status, Nav_settings]"

definition menu_targets :: "bool \<Rightarrow> string list" where
  "menu_targets dev =
     [''chat'', ''history'', ''explorer''] @ (if dev then [''tools'', ''audit''] else []) @ [''status'', ''settings'']"

definition status_visible :: "views \<Rightarrow> bool" where
  "status_visible v \<longleftrightarrow> vi_side v = ''status'' \<and> vi_reveal v"

text \<open>A button is on a page; the cards of the session are only added in the developer mode.\<close>

fun button_visible :: "views \<Rightarrow> button \<Rightarrow> bool" where
  "button_visible v Refresh_history = (vi_main v = ''history'')"
| "button_visible v Load_session = (status_visible v \<and> vi_dev v)"
| "button_visible v Save_session = (status_visible v \<and> vi_dev v)"
| "button_visible v Health = status_visible v"
| "button_visible v Health_backends = status_visible v"
| "button_visible v List_tools = (vi_main v = ''tools'')"
| "button_visible v Tool_details = (vi_main v = ''tools'')"
| "button_visible v Invoke_tool = (vi_main v = ''tools'')"
| "button_visible v Audit_summary = (vi_main v = ''audit'')"
| "button_visible v Audit_suspicious = (vi_main v = ''audit'')"
| "button_visible v Audit_preset = (vi_main v = ''audit'')"

fun field_visible :: "views \<Rightarrow> text_field \<Rightarrow> bool" where
  "field_visible v F_session = (vi_main v = ''chat'' \<and> vi_dev v)"
| "field_visible v F_user = (vi_main v = ''chat'' \<and> vi_dev v)"
| "field_visible v F_history_session = (vi_main v = ''history'' \<and> vi_dev v)"
| "field_visible v F_run_id = (vi_main v = ''history'' \<and> vi_dev v)"
| "field_visible v F_source = (vi_main v = ''audit'')"
| "field_visible v F_risk = (vi_main v = ''audit'')"
| "field_visible v F_family = (vi_main v = ''audit'')"
| "field_visible v F_preset = (vi_main v = ''audit'')"
| "field_visible v F_tool_name = (vi_main v = ''tools'')"
| "field_visible v F_tool_params = (vi_main v = ''tools'')"
| "field_visible v _ = (status_visible v \<and> vi_dev v)"

fun spin_visible :: "views \<Rightarrow> spin \<Rightarrow> bool" where
  "spin_visible v S_history_limit = (vi_main v = ''history'' \<and> vi_dev v)"
| "spin_visible v S_audit_limit = (vi_main v = ''audit'')"
| "spin_visible v S_audit_max_items = (vi_main v = ''audit'')"
| "spin_visible v S_tool_timeout = (vi_main v = ''tools'')"

fun check_visible :: "views \<Rightarrow> check_button \<Rightarrow> bool" where
  "check_visible v C_include_tools = (vi_main v = ''history'' \<and> vi_dev v)"
| "check_visible v C_blocked_only = (vi_main v = ''audit'')"

fun on_nav_clicked :: "client_env \<Rightarrow> nav \<Rightarrow> views \<Rightarrow> views" where
  "on_nav_clicked en Nav_chat v = switch_view ''chat'' ''status'' v"
| "on_nav_clicked en Nav_history v = switch_view ''history'' ''history-side'' v"
| "on_nav_clicked en Nav_explorer v = list_explorer en (switch_view ''explorer'' ''explorer-side'' v)"
| "on_nav_clicked en Nav_tools v = switch_view ''tools'' ''tools'' v"
| "on_nav_clicked en Nav_audit v = switch_view ''audit'' ''audit-side'' v"
| "on_nav_clicked en Nav_status v = switch_view ''chat'' ''status'' v"
| "on_nav_clicked en Nav_settings v = switch_view ''settings'' ''settings-side'' v"

fun on_button_clicked :: "client_env \<Rightarrow> button \<Rightarrow> views \<Rightarrow> views" where
  "on_button_clicked en Refresh_history v = on_refresh_history_clicked en v"
| "on_button_clicked en Load_session v = on_load_session_clicked en v"
| "on_button_clicked en Save_session v = on_save_session_clicked en v"
| "on_button_clicked en Health v = sent (liara_api_get_health (en_base en)) v"
| "on_button_clicked en Health_backends v = sent (liara_api_get_health_backends (en_base en)) v"
| "on_button_clicked en List_tools v = sent (liara_api_get_tools (en_base en)) v"
| "on_button_clicked en Tool_details v = request_tool_metadata en (vi_text v F_tool_name) v"
| "on_button_clicked en Invoke_tool v = on_invoke_tool_clicked en v"
| "on_button_clicked en Audit_summary v = on_audit_summary_clicked en v"
| "on_button_clicked en Audit_suspicious v = on_audit_suspicious_clicked en v"
| "on_button_clicked en Audit_preset v = on_audit_preset_clicked en v"

definition set_spin_value :: "spin \<Rightarrow> int \<Rightarrow> views \<Rightarrow> views" where
  "set_spin_value s n v = v\<lparr>vi_num := (vi_num v)(s := clamp (fst (spin_range s)) (snd (spin_range s)) n)\<rparr>"

fun view_step :: "client_env \<Rightarrow> view_event \<Rightarrow> views \<Rightarrow> views" where
  "view_step en (Sidebar n) v = (if n \<in> set (sidebar_buttons (vi_dev v)) then on_nav_clicked en n v else v)"
| "view_step en (Menu s) v = (if s \<in> set (menu_targets (vi_dev v)) then on_action_view en s v else v)"
| "view_step en (Action_view s) v = on_action_view en s v"
| "view_step en Toggle_inspector v = on_toggle_inspector_clicked v"
| "view_step en (Press b) v = (if button_visible v b then on_button_clicked en b v else v)"
| "view_step en (Type_text f t) v = (if field_visible v f then v\<lparr>vi_text := (vi_text v)(f := t)\<rparr> else v)"
| "view_step en (Set_spin s n) v = (if spin_visible v s then set_spin_value s n v else v)"
| "view_step en (Set_check c b) v = (if check_visible v c then v\<lparr>vi_check := (vi_check v)(c := b)\<rparr> else v)"
| "view_step en (Type_form i t) v =
     (if vi_main v = ''tools'' \<and> i < length (tv_form (vi_tool v))
      then v\<lparr>vi_tool := (vi_tool v)\<lparr>tv_form := (tv_form (vi_tool v))[i := (fst (tv_form (vi_tool v) ! i), t)]\<rparr>\<rparr> else v)"
| "view_step en (Tool_row i) v =
     (if vi_main v = ''tools'' \<and> i < length (vi_tools v) then on_tool_row_activated en (fst (vi_tools v ! i)) v else v)"
| "view_step en Message_sent v = switch_view ''chat'' ''status'' v"
| "view_step en (Settings_saved b) v =
     (if vi_main v = ''settings'' then v\<lparr>vi_check := (vi_check v)(C_include_tools := b)\<rparr> else v)"
| "view_step en (Tools_answer r e) v =
     v\<lparr>vi_tools := on_tools_loaded (en_parse en) r e,
       vi_tool := (vi_tool v)\<lparr>tv_output := (case e of None \<Rightarrow> text_or_empty r
                                              | Some m \<Rightarrow> ''Tool list request failed'' @ blank_line @ m)\<rparr>\<rparr>"
| "view_step en (Tool_answer r e) v = v\<lparr>vi_tool := on_tool_metadata_loaded (en_parse en) r e (vi_tool v)\<rparr>"
| "view_step en (Session_answer r e) v = on_session_snapshot_loaded en r e v"
| "view_step en (Invoke_answer r e) v = v\<lparr>vi_tool := (vi_tool v)\<lparr>tv_output := api_response_to_view r e\<rparr>\<rparr>"
| "view_step en (Explorer_answer ctx r e) v =
     v\<lparr>vi_explorer := on_explorer_response (en_parse en) (en_dirname en) ctx r e (vi_explorer v)\<rparr>"

fun view_run :: "client_env \<Rightarrow> view_event list \<Rightarrow> views \<Rightarrow> views" where
  "view_run en [] v = v"
| "view_run en (e # es) v = view_run en es (view_step en e v)"

section \<open>Every window is consistent\<close>

definition page_pair :: "views \<Rightarrow> bool" where
  "page_pair v \<longleftrightarrow> vi_side v = side_panel_for_main_view (vi_main v)"

definition views_inv :: "views \<Rightarrow> bool" where
  "views_inv v \<longleftrightarrow>
     vi_main_pages v = main_pages (vi_dev v) \<and> vi_side_pages v = side_pages (vi_dev v) \<and>
     vi_main v \<in> set (main_pages (vi_dev v)) \<and> vi_side v \<in> set (side_pages (vi_dev v)) \<and>
     (\<forall>s. fst (spin_range s) \<le> vi_num v s \<and> vi_num v s \<le> snd (spin_range s))"

text \<open>An activation of the action from elsewhere with a text that is no entry of the menu is foreign.\<close>

fun foreign :: "bool \<Rightarrow> view_event \<Rightarrow> bool" where
  "foreign dev (Action_view s) = (s \<notin> set (menu_targets dev))"
| "foreign dev _ = False"

lemmas handler_defs = on_action_view_def on_toggle_inspector_clicked_def on_refresh_history_clicked_def copy_session_fields_def
  on_load_session_clicked_def on_save_session_clicked_def request_tool_metadata_def on_tool_row_activated_def
  on_invoke_tool_clicked_def on_audit_summary_clicked_def on_audit_suspicious_clicked_def on_audit_preset_clicked_def sent_def

lemma list_explorer_keeps [simp]:
  "vi_dev (list_explorer en v) = vi_dev v" "vi_main (list_explorer en v) = vi_main v" "vi_side (list_explorer en v) = vi_side v"
  "vi_main_pages (list_explorer en v) = vi_main_pages v" "vi_side_pages (list_explorer en v) = vi_side_pages v"
  "vi_num (list_explorer en v) = vi_num v" "vi_text (list_explorer en v) = vi_text v"
  by (simp_all add: list_explorer_def request_explorer_list_def Let_def)

lemma switch_keeps [simp]:
  "vi_dev (switch_view m s v) = vi_dev v" "vi_main_pages (switch_view m s v) = vi_main_pages v"
  "vi_side_pages (switch_view m s v) = vi_side_pages v" "vi_num (switch_view m s v) = vi_num v"
  "vi_text (switch_view m s v) = vi_text v" "vi_sent (switch_view m s v) = vi_sent v"
  "vi_explorer (switch_view m s v) = vi_explorer v"
  by (simp_all add: switch_view_def)

text \<open>What a button does leaves the pages and the numbers alone.\<close>

lemma button_keeps:
  "vi_dev (on_button_clicked en b v) = vi_dev v \<and> vi_main (on_button_clicked en b v) = vi_main v \<and>
   vi_side (on_button_clicked en b v) = vi_side v \<and> vi_main_pages (on_button_clicked en b v) = vi_main_pages v \<and>
   vi_side_pages (on_button_clicked en b v) = vi_side_pages v \<and> vi_num (on_button_clicked en b v) = vi_num v"
  by (cases b) (simp_all add: handler_defs split: sum.split)

lemma row_keeps:
  "vi_dev (on_tool_row_activated en t v) = vi_dev v \<and> vi_main (on_tool_row_activated en t v) = vi_main v \<and>
   vi_side (on_tool_row_activated en t v) = vi_side v \<and> vi_main_pages (on_tool_row_activated en t v) = vi_main_pages v \<and>
   vi_side_pages (on_tool_row_activated en t v) = vi_side_pages v \<and> vi_num (on_tool_row_activated en t v) = vi_num v"
  by (simp add: handler_defs split: sum.split)

lemma snapshot_keeps [simp]:
  "vi_dev (on_session_snapshot_loaded en r e v) = vi_dev v" "vi_main (on_session_snapshot_loaded en r e v) = vi_main v"
  "vi_side (on_session_snapshot_loaded en r e v) = vi_side v" "vi_num (on_session_snapshot_loaded en r e v) = vi_num v"
  "vi_main_pages (on_session_snapshot_loaded en r e v) = vi_main_pages v"
  "vi_side_pages (on_session_snapshot_loaded en r e v) = vi_side_pages v"
  "vi_sent (on_session_snapshot_loaded en r e v) = vi_sent v" "vi_explorer (on_session_snapshot_loaded en r e v) = vi_explorer v"
  "vi_text (on_session_snapshot_loaded en r e v) F_history_session = vi_text v F_history_session"
  "vi_text (on_session_snapshot_loaded en r e v) F_run_id = vi_text v F_run_id"
  by (simp_all add: on_session_snapshot_loaded_def show_snapshot_def Let_def split: option.split)

lemma spin_ranges: "fst (spin_range s) \<le> snd (spin_range s)"
  by (cases s) simp_all

lemma clamp_range: "lo \<le> hi \<Longrightarrow> lo \<le> clamp lo hi n \<and> clamp lo hi n \<le> hi"
  by (simp add: clamp_def)

lemma switch_inv: "views_inv v \<Longrightarrow> views_inv (switch_view m s v)"
  by (auto simp: views_inv_def switch_view_def set_visible_child_name_def)

lemma explorer_inv_views: "views_inv v \<Longrightarrow> views_inv (list_explorer en v)"
  by (simp add: views_inv_def)

lemma action_inv: "views_inv v \<Longrightarrow> views_inv (on_action_view en s v)"
  by (simp add: on_action_view_def Let_def switch_inv explorer_inv_views)

lemma view_step_inv: "views_inv v \<Longrightarrow> views_inv (view_step en e v)"
proof (cases e)
  case (Sidebar n)
  then show "views_inv v \<Longrightarrow> ?thesis" by (cases n) (simp_all add: switch_inv explorer_inv_views)
next
  case (Press b)
  then show "views_inv v \<Longrightarrow> ?thesis" using button_keeps[of en b v] by (simp add: views_inv_def)
next
  case (Tool_row i)
  then show "views_inv v \<Longrightarrow> ?thesis" using row_keeps[of en "fst (vi_tools v ! i)" v] by (auto simp: views_inv_def)
next
  case (Set_spin s n)
  then show "views_inv v \<Longrightarrow> ?thesis"
    using clamp_range[OF spin_ranges, of s n] by (auto simp: views_inv_def set_spin_value_def)
qed (simp_all add: action_inv switch_inv, auto simp: views_inv_def on_toggle_inspector_clicked_def)

lemma view_step_dev: "vi_dev (view_step en e v) = vi_dev v"
proof (cases e)
  case (Sidebar n)
  then show ?thesis by (cases n) simp_all
next
  case (Press b)
  then show ?thesis using button_keeps[of en b v] by simp
next
  case (Tool_row i)
  then show ?thesis using row_keeps[of en "fst (vi_tools v ! i)" v] by simp
qed (simp_all add: on_action_view_def on_toggle_inspector_clicked_def set_spin_value_def Let_def)

lemma known_pair: "s \<in> set (menu_targets dev) \<Longrightarrow> s = ''status'' \<or> (s \<in> set (main_pages dev) \<and> side_panel_for_main_view s \<in> set (side_pages dev))"
  by (auto simp: menu_targets_def main_pages_def side_pages_def side_panel_for_main_view_def split: if_splits)

lemma action_pair:
  assumes "views_inv v" "page_pair v" "s \<in> set (menu_targets (vi_dev v))"
  shows "page_pair (on_action_view en s v)"
  using known_pair[OF assms(3)] assms(1,2)
  by (auto simp: on_action_view_def Let_def page_pair_def switch_view_def set_visible_child_name_def views_inv_def
      main_pages_def side_pages_def side_panel_for_main_view_def)

lemma nav_pair:
  assumes "views_inv v" "page_pair v" "n \<in> set (sidebar_buttons (vi_dev v))"
  shows "page_pair (on_nav_clicked en n v)"
  using assms
  by (cases n) (auto simp: page_pair_def switch_view_def set_visible_child_name_def views_inv_def
      main_pages_def side_pages_def side_panel_for_main_view_def sidebar_buttons_def split: if_splits)

lemma view_step_pair: "views_inv v \<Longrightarrow> page_pair v \<Longrightarrow> \<not> foreign (vi_dev v) e \<Longrightarrow> page_pair (view_step en e v)"
proof (cases e)
  case (Press b)
  then show "page_pair v \<Longrightarrow> ?thesis" using button_keeps[of en b v] by (simp add: page_pair_def)
next
  case (Tool_row i)
  then show "page_pair v \<Longrightarrow> ?thesis" using row_keeps[of en "fst (vi_tools v ! i)" v] by (simp add: page_pair_def)
next
  case Message_sent
  then show "views_inv v \<Longrightarrow> page_pair v \<Longrightarrow> ?thesis" using nav_pair[of v Nav_chat en] by (simp add: sidebar_buttons_def)
qed (simp_all add: action_pair nav_pair, simp_all add: page_pair_def on_toggle_inspector_clicked_def set_spin_value_def)

lemma view_run_inv:
  "views_inv v \<Longrightarrow> views_inv (view_run en es v) \<and> vi_dev (view_run en es v) = vi_dev v \<and>
     (page_pair v \<and> \<not> list_ex (foreign (vi_dev v)) es \<longrightarrow> page_pair (view_run en es v))"
proof (induction es arbitrary: v)
  case (Cons e es)
  have "views_inv (view_step en e v)" by (rule view_step_inv[OF Cons.prems])
  from Cons.IH[OF this] show ?case using view_step_pair[OF Cons.prems] by (auto simp: view_step_dev)
qed simp

lemma views_inv_new: "views_inv (window_views dev ui login)" "page_pair (window_views dev ui login)"
proof -
  have "fst (spin_range s) \<le> initial_num s \<and> initial_num s \<le> snd (spin_range s)" for s by (cases s) simp_all
  then show "views_inv (window_views dev ui login)" by (simp add: views_inv_def window_views_def main_pages_def side_pages_def)
qed (simp add: page_pair_def window_views_def side_panel_for_main_view_def)

text \<open>
  C22: The window is consistent whatever happens: the pages that are shown exist in its mode, every number is in the range
  of its button, so no request asks for fewer than one or for more than 500 messages, 5000 or 200 records or 120 seconds, and
  as long as the action for switching views is only activated with the texts of the menu, the panel at the side is the one
  that belongs to the page in the middle.
\<close>
theorem views_consistent:
  "let v = view_run en es (window_views dev ui login)
   in views_inv v \<and> vi_dev v = dev \<and> (if list_ex (foreign dev) es then True else page_pair v)"
proof -
  have d: "vi_dev (window_views dev ui login) = dev" by (simp add: window_views_def)
  then show ?thesis
    using view_run_inv[OF views_inv_new(1), of en es dev ui login] views_inv_new(2)[of dev ui login]
    by (auto simp: Let_def)
qed

section \<open>The user mode\<close>

text \<open>The requests that a window in the user mode can send apart from messages.\<close>

definition user_requests :: "client_env \<Rightarrow> string \<Rightarrow> http_call list" where
  "user_requests en session =
     [liara_api_get_health (en_base en), liara_api_get_health_backends (en_base en),
      liara_api_get_history (en_base en) session (Some []) 50 True, liara_api_get_history (en_base en) session (Some []) 50 False,
      sys_call (en_parse en) (en_gen en) (en_base en) ''ls'' workspace]"

definition user_inv :: "client_env \<Rightarrow> string \<Rightarrow> views \<Rightarrow> bool" where
  "user_inv en session v \<longleftrightarrow>
     \<not> vi_dev v \<and> views_inv v \<and> vi_text v F_history_session = session \<and> vi_text v F_run_id = [] \<and>
     vi_num v S_history_limit = 50 \<and> ex_path_entry (vi_explorer v) \<in> {[], workspace} \<and>
     set (vi_sent v) \<subseteq> set (user_requests en session)"

lemma user_pages: "user_inv en session v \<Longrightarrow> vi_main v \<notin> {''tools'', ''audit''} \<and> vi_side v \<notin> {''tools'', ''audit-side''}"
  by (auto simp: user_inv_def views_inv_def main_pages_def side_pages_def)

lemma workspace_normal: "p \<in> {[], workspace} \<Longrightarrow> explorer_normalize_path (Some p) = workspace"
  by (auto simp: explorer_normalize_path_def workspace_def strip_def glib_space_def code_of_def)

lemma user_explorer: "user_inv en session v \<Longrightarrow> user_inv en session (list_explorer en v)"
  using workspace_normal[of "ex_path_entry (vi_explorer v)"]
  by (simp add: user_inv_def explorer_inv_views)
    (simp add: list_explorer_def request_explorer_list_def user_requests_def Let_def)

lemma user_switch: "user_inv en session v \<Longrightarrow> user_inv en session (switch_view m s v)"
  by (simp add: user_inv_def switch_inv)

lemma user_button:
  assumes "user_inv en session v" "button_visible v b"
  shows "user_inv en session (on_button_clicked en b v)"
proof -
  have "views_inv (on_button_clicked en b v)" using view_step_inv[of v en "Press b"] assms by (simp add: user_inv_def)
  moreover have "b \<in> {Refresh_history, Health, Health_backends}"
    using assms user_pages[OF assms(1)] by (cases b) (auto simp: user_inv_def)
  ultimately show ?thesis
    using assms(1) by (cases "vi_check v C_include_tools")
      (auto simp: user_inv_def user_requests_def on_refresh_history_clicked_def sent_def)
qed

lemma user_step: "user_inv en session v \<Longrightarrow> user_inv en session (view_step en e v)"
proof -
  assume u: "user_inv en session v"
  have inv: "views_inv (view_step en e v)" and dev: "\<not> vi_dev (view_step en e v)"
    using u view_step_inv view_step_dev[of en e v] by (auto simp: user_inv_def)
  show ?thesis
  proof (cases e)
    case (Sidebar n)
    then show ?thesis using u by (cases n) (simp_all add: user_switch user_explorer)
  next
    case (Press b)
    then show ?thesis using u user_button by simp
  next
    case (Menu s)
    then show ?thesis using u by (simp add: on_action_view_def Let_def user_switch user_explorer)
  next
    case (Action_view s)
    then show ?thesis using u by (simp add: on_action_view_def Let_def user_switch user_explorer)
  next
    case (Type_text f t)
    then show ?thesis using u inv user_pages[OF u] by (cases f) (auto simp: user_inv_def)
  next
    case (Set_spin s n)
    then show ?thesis using u inv user_pages[OF u] by (cases s) (auto simp: user_inv_def)
  next
    case (Explorer_answer ctx r e)
    have "ex_path_entry (on_explorer_response p d ctx r e ex) = ex_path_entry ex" for p d ex
      by (auto simp: on_explorer_response_def populate_explorer_list_from_ls_def Let_def
          split: option.split sum.split ExplorerRequestKind.split)
    then show ?thesis using u inv Explorer_answer by (simp add: user_inv_def)
  qed (use u inv user_pages[OF u] in \<open>auto simp: user_inv_def user_switch on_toggle_inspector_clicked_def switch_inv\<close>)
qed

lemma user_run: "user_inv en session v \<Longrightarrow> user_inv en session (view_run en es v)"
  by (induction es arbitrary: v) (simp_all add: user_step)

lemma user_new: "user_inv en (cw_session ui) (window_views False ui login)"
  using views_inv_new(1)[of False ui login]
  by (simp add: user_inv_def) (simp add: window_views_def build_explorer_view_def)

text \<open>
  C18: The user mode is confined. However the window is used, and whatever text the action for switching views is activated
  with, the views of tools and audit are never shown, and apart from messages only five requests are ever sent: the two for
  health, the last 50 messages of the window's own session with or without those of tools, and the listing of the workspace.
  So no tool is invoked that the user names, no audit record is read, and no session but the own.
\<close>
theorem user_mode_confined:
  "let v = view_run en es (window_views False ui login)
   in vi_main v \<notin> {''tools'', ''audit''} \<and> vi_side v \<notin> {''tools'', ''audit-side''} \<and>
      set (vi_sent v) \<subseteq> set (user_requests en (cw_session ui))"
proof -
  have "user_inv en (cw_session ui) (view_run en es (window_views False ui login))" by (rule user_run[OF user_new])
  with user_pages[OF this] show ?thesis by (simp add: user_inv_def Let_def)
qed

section \<open>The form of a tool\<close>

text \<open>
  A lookup that fails leaves the form of the tool before: the name that is invoked is then that of the new tool and the
  parameters are those typed for the old one.
\<close>
lemma failed_lookup_keeps_form:
  "let v' = view_step en (Tool_answer r (Some m)) (on_tool_row_activated en (Some (c # cs)) v)
   in vi_text v' F_tool_name = c # cs \<and> tv_form (vi_tool v') = tv_form (vi_tool v) \<and>
      tv_name (vi_tool v') = ''Tool lookup failed''"
  by (simp add: Let_def on_tool_metadata_loaded_def no_parameters_def on_tool_row_activated_def request_tool_metadata_def
      liara_api_get_tool_metadata_def filled_def sent_def)

text \<open>A failed request for the session empties the fields that were to be saved.\<close>

lemma failed_save_empties_fields:
  "vi_text (view_step en (Session_answer r (Some m)) (on_save_session_clicked en v)) F_notes = []"
  by (simp add: on_session_snapshot_loaded_def show_snapshot_def render_session_snapshot_def payload_object_def
      text_or_empty_def Let_def)

text \<open>The label of the inspector's button tells the state only after it has been used: at first it is that of a closed one.\<close>

lemma toggle_label:
  "vi_reveal (window_views dev ui login) = True \<and> vi_toggle_label (window_views dev ui login) = ''<''"
  "vi_toggle_label (on_toggle_inspector_clicked v) = (if vi_reveal (on_toggle_inspector_clicked v) then ''>'' else ''<'')"
  by (simp_all add: window_views_def on_toggle_inspector_clicked_def)

end
