(* ===== verification/Client_Markdown.thy ===== *)
theory Client_Markdown
  imports Glib
begin

text \<open>
  The renderer of Markdown of the chat client (\<open>frontend/WMTool-Liara/src/liara_window.c\<close>, \<open>build_inline_markup\<close> to
  \<open>render_plain_markdown\<close>): code spans become Pango markup, lines become labels, quotes, tables and separators. A widget is
  what is put into it. The second half reads the markup as Pango does and shows that nothing is lost.
\<close>

section \<open>Markup\<close>

abbreviation tick :: char where "tick \<equiv> CHR 0x60"

definition hex_lower :: "nat \<Rightarrow> char" where
  "hex_lower n = char_of (if n < 10 then 48 + n else 87 + n)"

text \<open>\<open>%x\<close> of a number below 256.\<close>

definition show_hex :: "nat \<Rightarrow> string" where
  "show_hex n = (if n < 16 then [hex_lower n] else [hex_lower (n div 16), hex_lower (n mod 16)])"

definition char_reference :: "nat \<Rightarrow> string" where
  "char_reference n = ''&#x'' @ show_hex n @ '';''"

definition control_byte :: "nat \<Rightarrow> bool" where
  "control_byte n \<longleftrightarrow> 1 \<le> n \<and> n \<le> 8 \<or> 11 \<le> n \<and> n \<le> 12 \<or> 14 \<le> n \<and> n \<le> 31 \<or> n = 127"

text \<open>The second byte of a control character above 127, whose first is \<open>0xC2\<close>.\<close>

definition control_tail :: "string \<Rightarrow> bool" where
  "control_tail s \<longleftrightarrow> s \<noteq> [] \<and> 128 \<le> code_of (hd s) \<and> code_of (hd s) \<le> 159 \<and> code_of (hd s) \<noteq> 133"

text \<open>\<open>g_markup_escape_text\<close>.\<close>

definition escape_byte :: "char \<Rightarrow> string" where
  "escape_byte c =
     (if c = CHR ''&'' then ''&amp;''
      else if c = CHR ''<'' then ''&lt;''
      else if c = CHR ''>'' then ''&gt;''
      else if c = CHR 0x27 then ''&#39;''
      else if c = CHR 0x22 then ''&quot;''
      else if control_byte (code_of c) then char_reference (code_of c)
      else [c])"

fun markup_escape :: "string \<Rightarrow> string" where
  "markup_escape [] = []"
| "markup_escape (c # s) =
     (if c = CHR 0xC2 \<and> control_tail s then char_reference (code_of (hd s)) @ markup_escape (tl s)
      else escape_byte c @ markup_escape s)"

definition code_tag :: "bool \<Rightarrow> string" where
  "code_tag assistant =
     (if assistant then ''span font_family=\"Cascadia Code, Consolas, monospace\" foreground=\"#0ea5b7\"''
      else ''span font_family=\"Cascadia Code, Consolas, monospace\" foreground=\"#dbeafe\"'')"

abbreviation end_tag :: string where "end_tag \<equiv> ''</span>''"

function markup_loop :: "bool \<Rightarrow> string \<Rightarrow> bool \<Rightarrow> string" where
  "markup_loop assistant cursor in_code =
     (if cursor = [] then (if in_code then end_tag else [])
      else if tick \<notin> set cursor then markup_escape cursor @ (if in_code then end_tag else [])
      else let k = length (takeWhile (\<lambda>c. c \<noteq> tick) cursor)
        in markup_escape (take k cursor) @ (if \<not> in_code then ''<'' @ code_tag assistant @ ''>'' else end_tag) @
           markup_loop assistant (drop (k + 1) cursor) (\<not> in_code))"
  by pat_completeness auto
termination by (relation "measure (\<lambda>(a, cursor, b). length cursor)") auto

declare markup_loop.simps [simp del]

definition build_inline_markup :: "string \<Rightarrow> bool \<Rightarrow> string" where
  "build_inline_markup t assistant = markup_loop assistant t False"

section \<open>Widgets\<close>

text \<open>A label has a class and markup; a quote is a box with a label, a table a code block whose language is \<open>table\<close>.\<close>

datatype md_widget = Md_label string string | Md_quote string | Md_table string | Md_spacer

definition create_markdown_label :: "string \<Rightarrow> string \<Rightarrow> bool \<Rightarrow> md_widget" where
  "create_markdown_label t css_class assistant = Md_label css_class (build_inline_markup t assistant)"

definition create_blockquote :: "string \<Rightarrow> bool \<Rightarrow> md_widget" where
  "create_blockquote t assistant = Md_quote (build_inline_markup t assistant)"

definition append_markdown_line :: "string \<Rightarrow> bool \<Rightarrow> md_widget" where
  "append_markdown_line line assistant =
     (if starts_with ''### '' line then create_markdown_label (drop 4 line) ''md-heading-3'' assistant
      else if starts_with ''## '' line then create_markdown_label (drop 3 line) ''md-heading-2'' assistant
      else if starts_with ''# '' line then create_markdown_label (drop 2 line) ''md-heading-1'' assistant
      else if starts_with ''- '' line \<or> starts_with ''* '' line
      then create_markdown_label (''- '' @ drop 2 line) ''md-bullet'' assistant
      else create_markdown_label line ''message-text'' assistant)"

definition bar_line :: "string \<Rightarrow> bool" where
  "bar_line line \<longleftrightarrow> line \<noteq> [] \<and> hd line = CHR ''|''"

text \<open>The lines of a table up to the first that does not start with a bar, and the lines that are left.\<close>

fun table_loop :: "string list \<Rightarrow> string \<Rightarrow> string \<times> string list" where
  "table_loop [] table = (table, [])"
| "table_loop (line # rest) table =
     (if bar_line line
      then table_loop rest (table @ line @ (if rest \<noteq> [] \<and> bar_line (hd rest) then [CHR 0x0A] else []))
      else (table, line # rest))"

lemma table_loop_rest: "snd (table_loop lines t) = dropWhile bar_line lines"
  by (induction lines t rule: table_loop.induct) simp_all

function render_lines :: "string list \<Rightarrow> bool \<Rightarrow> md_widget list" where
  "render_lines lines assistant =
     (case lines of
        [] \<Rightarrow> []
      | line # rest \<Rightarrow>
          if bar_line line
          then Md_table (fst (table_loop lines [])) # render_lines (snd (table_loop lines [])) assistant
          else if line = [] then Md_spacer # render_lines rest assistant
          else if starts_with ''> '' line then create_blockquote (drop 2 line) assistant # render_lines rest assistant
          else append_markdown_line line assistant # render_lines rest assistant)"
  by pat_completeness auto
termination
  by (relation "measure (\<lambda>(lines, a). length lines)")
    (auto simp: table_loop_rest intro: le_imp_less_Suc length_dropWhile_le)

declare render_lines.simps [simp del]

text \<open>\<open>g_strsplit\<close> of an empty text has no parts.\<close>

definition text_lines :: "string \<Rightarrow> string list" where
  "text_lines s = (if s = [] then [] else split_at (CHR 0x0A) s)"

definition render_plain_markdown :: "string option \<Rightarrow> bool \<Rightarrow> md_widget list" where
  "render_plain_markdown t assistant =
     render_lines (text_lines (case t of None \<Rightarrow> [] | Some u \<Rightarrow> u)) assistant"

section \<open>How markup is read\<close>

text \<open>Each character with the tag of the element that holds it. Elements do not nest here.\<close>

type_synonym styled = "(char \<times> string option) list"

definition number_of :: "nat \<Rightarrow> string \<Rightarrow> nat option" where
  "number_of base s = foldl (\<lambda>acc c. case acc of None \<Rightarrow> None
     | Some n \<Rightarrow> (let m = code_of c in
         if 48 \<le> m \<and> m \<le> 57 then Some (base * n + (m - 48))
         else if base = 16 \<and> 97 \<le> m \<and> m \<le> 102 then Some (base * n + (m - 87)) else None)) (Some 0) s"

definition encode_small :: "nat \<Rightarrow> string option" where
  "encode_small n =
     (if n < 128 then Some [char_of n]
      else if n < 2048 then Some [char_of (192 + n div 64), char_of (128 + n mod 64)] else None)"

definition decode_entity :: "string \<Rightarrow> string option" where
  "decode_entity e =
     (if e = ''amp'' then Some ''&'' else if e = ''lt'' then Some ''<'' else if e = ''gt'' then Some ''>''
      else if e = ''quot'' then Some [CHR 0x22]
      else if starts_with ''#x'' e then Option.bind (number_of 16 (drop 2 e)) encode_small
      else if starts_with ''#'' e then Option.bind (number_of 10 (drop 1 e)) encode_small else None)"

function read_markup :: "string \<Rightarrow> string option \<Rightarrow> styled option" where
  "read_markup s st =
     (case s of
        [] \<Rightarrow> if st = None then Some [] else None
      | c # r \<Rightarrow>
          if c = CHR ''<'' then
            (let tag = takeWhile (\<lambda>x. x \<noteq> CHR ''>'') r; after = drop (length tag + 1) r
             in if CHR ''>'' \<notin> set r then None
                else if tag = ''/span'' then (if st = None then None else read_markup after None)
                else if starts_with ''span '' tag \<and> st = None then read_markup after (Some tag) else None)
          else if c = CHR ''&'' then
            (let e = takeWhile (\<lambda>x. x \<noteq> CHR '';'') r; after = drop (length e + 1) r
             in if CHR '';'' \<notin> set r then None
                else (case decode_entity e of
                        None \<Rightarrow> None
                      | Some t \<Rightarrow> map_option (\<lambda>q. map (\<lambda>x. (x, st)) t @ q) (read_markup after st)))
          else map_option ((#) (c, st)) (read_markup r st))"
  by pat_completeness auto
termination by (relation "measure (\<lambda>(s, st). length s)") auto

declare read_markup.simps [simp del]

text \<open>What a text with code spans means: the ticks switch the style and are not shown.\<close>

fun runs :: "bool \<Rightarrow> string \<Rightarrow> bool \<Rightarrow> styled" where
  "runs assistant [] in_code = []"
| "runs assistant (c # s) in_code =
     (if c = tick then runs assistant s (\<not> in_code)
      else (c, if in_code then Some (code_tag assistant) else None) # runs assistant s in_code)"

section \<open>Markup is read back\<close>

lemma upto_takeWhile [simp]:
  "d \<notin> set s \<Longrightarrow> takeWhile (\<lambda>x. x \<noteq> d) (s @ d # t) = s"
  by (induction s) auto

lemma read_nil [simp]: "read_markup [] st = (if st = None then Some [] else None)"
  by (simp add: read_markup.simps)

lemma read_plain: "c \<noteq> CHR ''<'' \<Longrightarrow> c \<noteq> CHR ''&'' \<Longrightarrow>
    read_markup (c # s) st = map_option ((#) (c, st)) (read_markup s st)"
  by (subst read_markup.simps) simp

lemma read_end_tag: "read_markup (end_tag @ s) (Some g) = read_markup s None"
  by (subst read_markup.simps) simp

lemma read_code_tag: "read_markup (''<'' @ code_tag a @ ''>'' @ s) None = read_markup s (Some (code_tag a))"
proof -
  have "CHR ''>'' \<notin> set (code_tag a)" by (simp add: code_tag_def)
  moreover have "starts_with ''span '' (code_tag a)" "code_tag a \<noteq> ''/span''"
    by (simp_all add: code_tag_def starts_with_def)
  ultimately show ?thesis by (subst read_markup.simps) simp
qed

lemma read_entity:
  assumes "CHR '';'' \<notin> set e" "decode_entity e = Some t"
  shows "read_markup (CHR ''&'' # e @ CHR '';'' # s) st = map_option (\<lambda>q. map (\<lambda>x. (x, st)) t @ q) (read_markup s st)"
  using assms by (subst read_markup.simps) simp

lemma references:
  "list_all (\<lambda>n. CHR '';'' \<notin> set (show_hex n) \<and> number_of 16 (show_hex n) = Some n) [0..<160]"
  by code_simp

lemma reference_ok:
  assumes "n < 160"
  shows "read_markup (char_reference n @ s) st =
    map_option (\<lambda>q. map (\<lambda>x. (x, st)) (the (encode_small n)) @ q) (read_markup s st)"
proof -
  have r: "CHR '';'' \<notin> set (''#x'' @ show_hex n)" "number_of 16 (show_hex n) = Some n"
    using references assms by (auto simp: list_all_iff)
  have "decode_entity (''#x'' @ show_hex n) = encode_small n"
    using r(2) by (simp add: decode_entity_def starts_with_def)
  moreover have "encode_small n = Some (the (encode_small n))" using assms by (simp add: encode_small_def)
  ultimately show ?thesis
    using read_entity[OF r(1), of "the (encode_small n)" s st] by (simp add: char_reference_def)
qed

lemma named_entities:
  "decode_entity ''amp'' = Some ''&''" "decode_entity ''lt'' = Some ''<''" "decode_entity ''gt'' = Some ''>''"
  "decode_entity ''quot'' = Some [CHR 0x22]" "decode_entity ''#39'' = Some [CHR 0x27]"
  by code_simp+

lemma read_escape_byte:
  "read_markup (escape_byte c @ s) st = map_option ((#) (c, st)) (read_markup s st)"
proof -
  have e: "read_markup (''&amp;'' @ s) st = map_option ((#) (CHR ''&'', st)) (read_markup s st)"
    "read_markup (''&lt;'' @ s) st = map_option ((#) (CHR ''<'', st)) (read_markup s st)"
    "read_markup (''&gt;'' @ s) st = map_option ((#) (CHR ''>'', st)) (read_markup s st)"
    "read_markup (''&quot;'' @ s) st = map_option ((#) (CHR 0x22, st)) (read_markup s st)"
    "read_markup (''&#39;'' @ s) st = map_option ((#) (CHR 0x27, st)) (read_markup s st)"
    using read_entity[of "''amp''" "''&''" s st] read_entity[of "''lt''" "''<''" s st]
      read_entity[of "''gt''" "''>''" s st] read_entity[of "''quot''" "[CHR 0x22]" s st]
      read_entity[of "''#39''" "[CHR 0x27]" s st]
    by (simp_all add: named_entities)
  have n: "code_of c < 128" if "control_byte (code_of c)" using that unfolding control_byte_def by linarith
  have "the (encode_small (code_of c)) = [c]" "code_of c < 160" if "control_byte (code_of c)"
    using n[OF that] by (simp_all add: encode_small_def) (simp add: code_of_def)
  then have ref: "read_markup (char_reference (code_of c) @ s) st = map_option ((#) (c, st)) (read_markup s st)"
    if "control_byte (code_of c)"
    using that reference_ok[of "code_of c" s st] by simp
  show ?thesis
    unfolding escape_byte_def using e ref read_plain[of c s st] by (simp only: append.simps split: if_split) blast
qed

lemma read_escape:
  "read_markup (markup_escape t @ s) st = map_option (\<lambda>q. map (\<lambda>x. (x, st)) t @ q) (read_markup s st)"
proof (induction t rule: markup_escape.induct)
  case (2 c t)
  show ?case
  proof (cases "c = CHR 0xC2 \<and> control_tail t")
    case True
    have ct: "control_tail t" by (rule conjunct2[OF True])
    define d r where "d = hd t" and "r = tl t"
    have t: "t = d # r" "128 \<le> code_of d" "code_of d \<le> 159"
      using ct unfolding control_tail_def d_def r_def by simp_all
    obtain k where k: "code_of d = 128 + k" "k < 64"
      using t(2,3) by (intro that[of "code_of d - 128"]) linarith+
    have "(128 + k) div 64 = 2" "(128 + k) mod 64 = k"
      using k(2) mod_mult_self1[of k 2 64] by (simp_all add: add.commute)
    moreover have coded: "char_of (code_of x) = x" for x by (simp add: code_of_def)
    moreover have "char_of (192 + 2 :: nat) = CHR 0xC2"
      using coded[of "CHR 0xC2"] by (simp only: code_of_def of_char_Char) simp
    ultimately have "the (encode_small (code_of d)) = [CHR 0xC2, d]"
      unfolding encode_small_def using coded[of d] k by simp
    then show ?thesis
      using ct conjunct1[OF True] 2(1)[OF True] t reference_ok[of "code_of d" "markup_escape r @ s" st]
      by (simp add: option.map_comp comp_def)
  next
    case False
    have "markup_escape (c # t) = escape_byte c @ markup_escape t"
      unfolding markup_escape.simps by (rule if_not_P[OF False])
    then show ?thesis using 2(2)[OF False] by (simp add: read_escape_byte option.map_comp comp_def)
  qed
qed (simp add: option.map_ident)

definition style :: "bool \<Rightarrow> bool \<Rightarrow> string option" where
  "style assistant in_code = (if in_code then Some (code_tag assistant) else None)"

lemma runs_plain: "tick \<notin> set s \<Longrightarrow> runs a (s @ t) b = map (\<lambda>x. (x, style a b)) s @ runs a t b"
  by (induction s) (auto simp: style_def)

lemma read_closing: "read_markup (if b then end_tag else []) (style a b) = Some []"
  using read_end_tag[of "[]" "code_tag a"] by (simp add: style_def)

lemma markup_loop_read: "read_markup (markup_loop a s b) (style a b) = Some (runs a s b)"
proof (induction a s b rule: markup_loop.induct)
  case (1 a s b)
  show ?case
  proof (cases "tick \<in> set s")
    case False
    then show ?thesis
      using runs_plain[of s a "[]" b] read_closing[of b a]
      by (subst markup_loop.simps) (simp add: read_escape)
  next
    case True
    then obtain p r where s: "s = p @ tick # r" "tick \<notin> set p" by (meson split_list_first)
    have k: "takeWhile (\<lambda>c. c \<noteq> tick) s = p" unfolding s(1) using s(2) by simp
    have "read_markup (markup_loop a r (\<not> b)) (style a (\<not> b)) = Some (runs a r (\<not> b))"
      using 1[OF _ _ refl] True k s by auto
    moreover have "read_markup ((if \<not> b then ''<'' @ code_tag a @ ''>'' else end_tag) @ markup_loop a r (\<not> b)) (style a b)
        = read_markup (markup_loop a r (\<not> b)) (style a (\<not> b))"
      using read_code_tag[of a "markup_loop a r (\<not> b)"] read_end_tag[of "markup_loop a r (\<not> b)" "code_tag a"]
      by (cases b) (simp_all add: style_def)
    moreover have "markup_loop a s b = markup_escape p @ (if \<not> b then ''<'' @ code_tag a @ ''>'' else end_tag) @
        markup_loop a r (\<not> b)"
      using True k s(1) by (subst markup_loop.simps) (auto simp: Let_def)
    ultimately show ?thesis using s by (simp add: read_escape runs_plain)
  qed
qed

lemma markup_read: "read_markup (build_inline_markup t a) None = Some (runs a t False)"
  using markup_loop_read[of a t False] by (simp add: style_def build_inline_markup_def)

section \<open>Every line is shown\<close>

text \<open>The lines a widget shows, each with its class and what is read from its markup; a code block is plain text.\<close>

fun widget_lines :: "md_widget \<Rightarrow> (string \<times> styled option) list" where
  "widget_lines (Md_label css m) = [(css, read_markup m None)]"
| "widget_lines (Md_quote m) = [(''md-blockquote'', read_markup m None)]"
| "widget_lines (Md_table s) = map (\<lambda>l. (''table'', Some (map (\<lambda>x. (x, None)) l))) (split_at (CHR 0x0A) s)"
| "widget_lines Md_spacer = [(''md-spacer'', Some [])]"

definition heading_view :: "bool \<Rightarrow> string \<Rightarrow> string \<times> string" where
  "heading_view assistant line =
     (if starts_with ''### '' line then (''md-heading-3'', drop 4 line)
      else if starts_with ''## '' line then (''md-heading-2'', drop 3 line)
      else if starts_with ''# '' line then (''md-heading-1'', drop 2 line)
      else if starts_with ''- '' line \<or> starts_with ''* '' line then (''md-bullet'', ''- '' @ drop 2 line)
      else (''message-text'', line))"

text \<open>What a line of Markdown means.\<close>

definition line_view :: "bool \<Rightarrow> string \<Rightarrow> string \<times> styled option" where
  "line_view assistant line =
     (if bar_line line then (''table'', Some (map (\<lambda>x. (x, None)) line))
      else if line = [] then (''md-spacer'', Some [])
      else if starts_with ''> '' line then (''md-blockquote'', Some (runs assistant (drop 2 line) False))
      else map_prod id (\<lambda>t. Some (runs assistant t False)) (heading_view assistant line))"

fun is_table :: "md_widget \<Rightarrow> bool" where
  "is_table (Md_table s) = True"
| "is_table _ = False"

fun join_lines :: "string list \<Rightarrow> string" where
  "join_lines [] = []"
| "join_lines [l] = l"
| "join_lines (l # m # ls) = l @ CHR 0x0A # join_lines (m # ls)"

lemma split_at_free: "l \<in> set (split_at d s) \<Longrightarrow> d \<notin> set l"
  by (induction s arbitrary: l) (auto split: if_splits list.splits)

lemma split_at_join: "ls \<noteq> [] \<Longrightarrow> \<forall>l\<in>set ls. CHR 0x0A \<notin> set l \<Longrightarrow> split_at (CHR 0x0A) (join_lines ls) = ls"
  by (induction ls rule: join_lines.induct) (simp_all add: split_at_none split_at_line)

lemma table_loop_text: "fst (table_loop ls t) = t @ join_lines (takeWhile bar_line ls)"
proof (induction ls t rule: table_loop.induct)
  case (2 l r t)
  show ?case
  proof (cases r)
    case Nil
    then show ?thesis using 2 by simp
  next
    case (Cons m q)
    then show ?thesis using 2 by (cases "bar_line l"; cases "bar_line m") simp_all
  qed
qed simp

lemma label_lines: "widget_lines (create_markdown_label t css a) = [(css, Some (runs a t False))]"
  "widget_lines (create_blockquote t a) = [(''md-blockquote'', Some (runs a t False))]"
  by (simp_all add: create_markdown_label_def create_blockquote_def markup_read)

lemma append_line_view:
  "widget_lines (append_markdown_line l a) = [map_prod id (\<lambda>t. Some (runs a t False)) (heading_view a l)]"
  "\<not> is_table (append_markdown_line l a)"
  by (simp_all add: append_markdown_line_def heading_view_def label_lines create_markdown_label_def markup_read)

lemma table_view:
  assumes "\<forall>x\<in>set (takeWhile bar_line ls). CHR 0x0A \<notin> set x" "takeWhile bar_line ls \<noteq> []"
  shows "widget_lines (Md_table (fst (table_loop ls []))) = map (line_view a) (takeWhile bar_line ls)"
  using split_at_join[OF assms(2,1)] set_takeWhileD[of _ bar_line ls]
  by (simp add: table_loop_text) (simp add: line_view_def)

lemma render_lines_view:
  "\<forall>l\<in>set ls. CHR 0x0A \<notin> set l \<Longrightarrow> concat (map widget_lines (render_lines ls a)) = map (line_view a) ls"
proof (induction ls a rule: render_lines.induct)
  case (1 ls a)
  show ?case
  proof (cases ls)
    case (Cons l r)
    consider "bar_line l" | "\<not> bar_line l" "l = []" | "\<not> bar_line l" "l \<noteq> []" "starts_with ''> '' l"
      | "\<not> bar_line l" "l \<noteq> []" "\<not> starts_with ''> '' l" by blast
    then show ?thesis
    proof cases
      case 1
      note bar = 1
      have tw: "\<forall>x\<in>set (takeWhile bar_line ls). CHR 0x0A \<notin> set x" "\<forall>x\<in>set (dropWhile bar_line ls). CHR 0x0A \<notin> set x"
        using "1.prems" by (auto dest: set_takeWhileD set_dropWhileD)
      have "concat (map widget_lines (render_lines (snd (table_loop ls [])) a)) = map (line_view a) (dropWhile bar_line ls)"
        using "1.IH"(1)[OF Cons bar] tw(2) Cons by (simp add: table_loop_rest)
      moreover have "widget_lines (Md_table (fst (table_loop ls []))) = map (line_view a) (takeWhile bar_line ls)"
        using table_view[OF tw(1)] bar Cons by simp
      moreover have "render_lines ls a = Md_table (fst (table_loop ls [])) # render_lines (snd (table_loop ls [])) a"
        using bar Cons by (subst render_lines.simps) simp
      moreover have "map (line_view a) ls = map (line_view a) (takeWhile bar_line ls) @ map (line_view a) (dropWhile bar_line ls)"
        by (simp flip: map_append)
      ultimately show ?thesis by simp
    next
      case 2
      then show ?thesis using "1.IH"(2)[OF Cons] "1.prems" Cons by (subst render_lines.simps) (simp add: line_view_def)
    next
      case 3
      then show ?thesis using "1.IH"(3)[OF Cons] "1.prems" Cons
        by (subst render_lines.simps) (simp add: line_view_def label_lines)
    next
      case 4
      then show ?thesis using "1.IH"(4)[OF Cons] "1.prems" Cons
        by (subst render_lines.simps) (simp add: line_view_def append_line_view)
    qed
  qed (simp add: render_lines.simps)
qed

definition tables_apart :: "md_widget list \<Rightarrow> bool" where
  "tables_apart ws \<longleftrightarrow> successively (\<lambda>x y. \<not> (is_table x \<and> is_table y)) ws"

lemma first_table: "ws = render_lines ls a \<Longrightarrow> ws \<noteq> [] \<Longrightarrow> is_table (hd ws) \<Longrightarrow> ls \<noteq> [] \<and> bar_line (hd ls)"
  by (subst (asm) render_lines.simps)
    (auto simp: create_blockquote_def append_line_view split: list.splits if_splits)

lemma render_tables_apart: "tables_apart (render_lines ls a)"
proof (induction ls a rule: render_lines.induct)
  case (1 ls a)
  have next_plain: "\<not> is_table (hd (render_lines (dropWhile bar_line ls) a))" if "render_lines (dropWhile bar_line ls) a \<noteq> []"
    using first_table[OF refl that] hd_dropWhile[of bar_line ls] by blast
  show ?case
    using 1 next_plain
    by (subst render_lines.simps)
      (auto simp: tables_apart_def successively_Cons table_loop_rest create_blockquote_def append_line_view split: list.splits)
qed


end
