(* ===== verification/Workspace_Explorer.thy ===== *)
theory Workspace_Explorer
  imports Glib
begin

text \<open>
  The workspace explorer of the chat client (\<open>frontend/WMTool-Liara/src/liara_workspace_explorer.c\<close>): a table and tiles
  for the entries of a directory. The file system is an argument (\<open>files\<close>). \<open>wraps\<close> says whether
  \<open>gtk_scrolled_window_set_child\<close> puts a viewport around a child that cannot scroll itself, as GTK 4 documents; the parent
  of the tiles is then that viewport and not the scrolled window.
\<close>

section \<open>State\<close>

datatype ExplorerViewMode = EXPLORER_VIEW_DETAILS | EXPLORER_VIEW_TILES

record files =
  fs_entries :: "string \<Rightarrow> string list option"
  fs_is_dir :: "string \<Rightarrow> bool"
  fs_size :: "string \<Rightarrow> int option"
  fs_filename :: "string \<Rightarrow> string \<Rightarrow> string"

record detail_row =
  dr_name :: string
  dr_type :: string
  dr_size :: string
  dr_path :: string

record tile =
  ti_folder :: bool
  ti_name :: string
  ti_path :: string

text \<open>Flags of visibility: the window of the table, the window of the tiles, and the parent widget of the tiles.\<close>

record workspace_explorer =
  we_path_entry :: string
  we_folders :: "(string \<times> string) list"
  we_details :: "detail_row list"
  we_tiles :: "tile list"
  we_selected :: "nat option"
  we_detail_shown :: bool
  we_tile_scroller_shown :: bool
  we_tile_parent_shown :: bool
  we_current_path :: string
  we_mode :: ExplorerViewMode

section \<open>Contents\<close>

text \<open>\<open>%.1f\<close>, to the nearest, ties to even.\<close>

definition show_tenths :: "int \<Rightarrow> string" where
  "show_tenths n = show_int (n div 10) @ ''.'' @ show_int (n mod 10)"

fun show1 :: "fp \<Rightarrow> string" where
  "show1 (Fin x) = (if x < 0 then ''-'' @ show_tenths (rne (- x * 10)) else show_tenths (rne (x * 10)))"
| "show1 PInf = ''inf''"
| "show1 NInf = ''-inf''"
| "show1 NaN = ''nan''"

definition size_text :: "int \<Rightarrow> string" where
  "size_text sz =
     (if sz > 1024 * 1024 then show1 (fdiv rnd64 (rnd64 (of_int sz)) (Fin 1048576)) @ '' MB''
      else if sz > 1024 then show1 (fdiv rnd64 (rnd64 (of_int sz)) (Fin 1024)) @ '' KB''
      else show_int sz @ '' B'')"

definition detail_of :: "files \<Rightarrow> string \<Rightarrow> string \<Rightarrow> detail_row" where
  "detail_of fs path name =
     (let full_path = fs_filename fs path name
      in if fs_is_dir fs full_path
         then \<lparr>dr_name = name, dr_type = ''[Folder]'', dr_size = ''-'', dr_path = full_path\<rparr>
         else \<lparr>dr_name = name, dr_type = ''[File]'',
               dr_size = (case fs_size fs full_path of None \<Rightarrow> ''-'' | Some sz \<Rightarrow> size_text sz), dr_path = full_path\<rparr>)"

definition tile_of :: "files \<Rightarrow> string \<Rightarrow> string \<Rightarrow> tile" where
  "tile_of fs path name =
     (let full_path = fs_filename fs path name in \<lparr>ti_folder = fs_is_dir fs full_path, ti_name = name, ti_path = full_path\<rparr>)"

text \<open>A directory that cannot be opened, or no path, leaves the view empty. The selection goes with the rows.\<close>

definition load_detail_view :: "files \<Rightarrow> string option \<Rightarrow> workspace_explorer \<Rightarrow> workspace_explorer" where
  "load_detail_view fs path ex =
     (let ex = ex\<lparr>we_details := [], we_selected := None\<rparr>
      in case path of
           None \<Rightarrow> ex
         | Some p \<Rightarrow>
             (case fs_entries fs p of
                None \<Rightarrow> ex
              | Some names \<Rightarrow> ex\<lparr>we_details := map (detail_of fs p) names\<rparr>))"

definition load_tile_view :: "files \<Rightarrow> string option \<Rightarrow> workspace_explorer \<Rightarrow> workspace_explorer" where
  "load_tile_view fs path ex =
     (let ex = ex\<lparr>we_tiles := []\<rparr>
      in case path of
           None \<Rightarrow> ex
         | Some p \<Rightarrow>
             (case fs_entries fs p of None \<Rightarrow> ex | Some names \<Rightarrow> ex\<lparr>we_tiles := map (tile_of fs p) names\<rparr>))"

text \<open>The tree of folders; a hidden folder is left out. Nothing calls it.\<close>

definition populate_folder_tree :: "files \<Rightarrow> string option \<Rightarrow> workspace_explorer \<Rightarrow> workspace_explorer" where
  "populate_folder_tree fs path ex =
     (case path of
        None \<Rightarrow> ex
      | Some p \<Rightarrow>
          (case fs_entries fs p of
             None \<Rightarrow> ex
           | Some names \<Rightarrow>
               ex\<lparr>we_folders := we_folders ex @
                  map (\<lambda>n. (n, fs_filename fs p n))
                    (filter (\<lambda>n. fs_is_dir fs (fs_filename fs p n) \<and> \<not> starts_with ''.'' n) names)\<rparr>))"

section \<open>Operations\<close>

definition root_or_home :: "string option \<Rightarrow> string" where
  "root_or_home p = (case p of None \<Rightarrow> ''/home/liara'' | Some r \<Rightarrow> r)"

definition liara_workspace_explorer_new :: "bool \<Rightarrow> string option \<Rightarrow> workspace_explorer" where
  "liara_workspace_explorer_new wraps root_path =
     \<lparr>we_path_entry = root_or_home root_path, we_folders = [], we_details = [], we_tiles = [], we_selected = None,
      we_detail_shown = True, we_tile_scroller_shown = False, we_tile_parent_shown = wraps,
      we_current_path = root_or_home root_path, we_mode = EXPLORER_VIEW_DETAILS\<rparr>"

definition load_view :: "files \<Rightarrow> string \<Rightarrow> workspace_explorer \<Rightarrow> workspace_explorer" where
  "load_view fs path ex =
     (if we_mode ex = EXPLORER_VIEW_DETAILS then load_detail_view fs (Some path) ex else load_tile_view fs (Some path) ex)"

definition liara_workspace_explorer_navigate :: "files \<Rightarrow> string option \<Rightarrow> workspace_explorer \<Rightarrow> workspace_explorer" where
  "liara_workspace_explorer_navigate fs path ex =
     (case path of
        None \<Rightarrow> ex
      | Some p \<Rightarrow> load_view fs p (ex\<lparr>we_current_path := p, we_path_entry := p\<rparr>))"

text \<open>Showing and hiding the parent of the tiles is showing the window of the tiles only without a viewport.\<close>

definition show_tile_parent :: "bool \<Rightarrow> bool \<Rightarrow> workspace_explorer \<Rightarrow> workspace_explorer" where
  "show_tile_parent wraps v ex =
     (if wraps then ex\<lparr>we_tile_parent_shown := v\<rparr>
      else ex\<lparr>we_tile_parent_shown := v, we_tile_scroller_shown := v\<rparr>)"

definition liara_workspace_explorer_set_view_mode ::
  "files \<Rightarrow> bool \<Rightarrow> ExplorerViewMode \<Rightarrow> workspace_explorer \<Rightarrow> workspace_explorer" where
  "liara_workspace_explorer_set_view_mode fs wraps mode ex =
     (let ex = ex\<lparr>we_mode := mode\<rparr>
      in if mode = EXPLORER_VIEW_DETAILS
         then load_detail_view fs (Some (we_current_path ex)) (show_tile_parent wraps False (ex\<lparr>we_detail_shown := True\<rparr>))
         else load_tile_view fs (Some (we_current_path ex)) (show_tile_parent wraps True (ex\<lparr>we_detail_shown := False\<rparr>)))"

definition liara_workspace_explorer_get_selected :: "workspace_explorer \<Rightarrow> string" where
  "liara_workspace_explorer_get_selected ex =
     (if we_mode ex = EXPLORER_VIEW_DETAILS
      then (case we_selected ex of None \<Rightarrow> [] | Some i \<Rightarrow> dr_path (we_details ex ! i)) else [])"

text \<open>What the program and the user can do to an explorer: a row can be selected, the field of the path be typed into.\<close>

datatype explorer_op = Navigate "string option" | Set_view_mode ExplorerViewMode | Select nat | Type_path string

fun explorer_step :: "files \<Rightarrow> bool \<Rightarrow> explorer_op \<Rightarrow> workspace_explorer \<Rightarrow> workspace_explorer" where
  "explorer_step fs wraps (Navigate p) ex = liara_workspace_explorer_navigate fs p ex"
| "explorer_step fs wraps (Set_view_mode m) ex = liara_workspace_explorer_set_view_mode fs wraps m ex"
| "explorer_step fs wraps (Select i) ex = (if i < length (we_details ex) then ex\<lparr>we_selected := Some i\<rparr> else ex)"
| "explorer_step fs wraps (Type_path t) ex = ex\<lparr>we_path_entry := t\<rparr>"

fun explore :: "files \<Rightarrow> bool \<Rightarrow> explorer_op list \<Rightarrow> workspace_explorer \<Rightarrow> workspace_explorer" where
  "explore fs wraps [] ex = ex"
| "explore fs wraps (a # as) ex = explore fs wraps as (explorer_step fs wraps a ex)"

section \<open>What is shown\<close>

text \<open>The names on the screen: those of the table, or those of the tiles if everything around them is visible.\<close>

definition shown_entries :: "workspace_explorer \<Rightarrow> string list" where
  "shown_entries ex =
     (if we_detail_shown ex then map dr_name (we_details ex) else []) @
     (if we_tile_scroller_shown ex \<and> we_tile_parent_shown ex then map ti_name (we_tiles ex) else [])"

fun loads :: "explorer_op \<Rightarrow> bool" where
  "loads (Navigate p) = (p \<noteq> None)"
| "loads (Set_view_mode m) = True"
| "loads _ = False"

definition entries_of :: "files \<Rightarrow> string \<Rightarrow> string list" where
  "entries_of fs p = (case fs_entries fs p of None \<Rightarrow> [] | Some names \<Rightarrow> names)"

text \<open>The state of an explorer that has (\<open>loaded\<close>) or has not read a directory since it was made.\<close>

definition explorer_inv :: "files \<Rightarrow> bool \<Rightarrow> bool \<Rightarrow> workspace_explorer \<Rightarrow> bool" where
  "explorer_inv fs wraps loaded ex \<longleftrightarrow>
     we_folders ex = [] \<and>
     we_detail_shown ex = (we_mode ex = EXPLORER_VIEW_DETAILS) \<and>
     we_tile_scroller_shown ex = (we_mode ex = EXPLORER_VIEW_TILES \<and> \<not> wraps) \<and>
     (wraps \<or> we_tile_parent_shown ex = we_tile_scroller_shown ex) \<and>
     (case we_selected ex of None \<Rightarrow> True | Some i \<Rightarrow> i < length (we_details ex)) \<and>
     (if \<not> loaded then we_mode ex = EXPLORER_VIEW_DETAILS \<and> we_details ex = [] \<and> we_tiles ex = []
      else if we_mode ex = EXPLORER_VIEW_DETAILS
      then we_details ex = map (detail_of fs (we_current_path ex)) (entries_of fs (we_current_path ex))
      else we_tiles ex = map (tile_of fs (we_current_path ex)) (entries_of fs (we_current_path ex)))"

lemmas view_defs = load_detail_view_def load_tile_view_def load_view_def show_tile_parent_def
  liara_workspace_explorer_set_view_mode_def liara_workspace_explorer_navigate_def entries_of_def

lemma loaded_details: "we_details (load_detail_view fs (Some p) ex) = map (detail_of fs p) (entries_of fs p)"
  and loaded_tiles: "we_tiles (load_tile_view fs (Some p) ex) = map (tile_of fs p) (entries_of fs p)"
  by (simp_all add: view_defs split: option.split)

lemma load_keeps_all [simp]:
  "we_folders (load_detail_view fs p ex) = we_folders ex" "we_folders (load_tile_view fs p ex) = we_folders ex"
  "we_mode (load_detail_view fs p ex) = we_mode ex" "we_mode (load_tile_view fs p ex) = we_mode ex"
  "we_current_path (load_detail_view fs p ex) = we_current_path ex" "we_current_path (load_tile_view fs p ex) = we_current_path ex"
  "we_detail_shown (load_detail_view fs p ex) = we_detail_shown ex" "we_detail_shown (load_tile_view fs p ex) = we_detail_shown ex"
  "we_tile_scroller_shown (load_detail_view fs p ex) = we_tile_scroller_shown ex"
  "we_tile_scroller_shown (load_tile_view fs p ex) = we_tile_scroller_shown ex"
  "we_tile_parent_shown (load_detail_view fs p ex) = we_tile_parent_shown ex"
  "we_tile_parent_shown (load_tile_view fs p ex) = we_tile_parent_shown ex"
  "we_selected (load_detail_view fs p ex) = None"
  by (simp_all add: view_defs Let_def split: option.split)

lemma tiles_keep [simp]: "we_details (load_tile_view fs p ex) = we_details ex" "we_selected (load_tile_view fs p ex) = we_selected ex"
  by (simp_all add: view_defs Let_def split: option.split)

lemma inv_new: "explorer_inv fs wraps False (liara_workspace_explorer_new wraps home)"
  by (simp add: explorer_inv_def liara_workspace_explorer_new_def)

lemma inv_step: "explorer_inv fs wraps l ex \<Longrightarrow> explorer_inv fs wraps (l \<or> loads a) (explorer_step fs wraps a ex)"
proof (cases a)
  case (Navigate p)
  then show "explorer_inv fs wraps l ex \<Longrightarrow> ?thesis"
    by (cases p; cases "we_mode ex")
      (auto simp: explorer_inv_def liara_workspace_explorer_navigate_def load_view_def loaded_details loaded_tiles
        split: option.splits if_splits)
next
  case (Set_view_mode m)
  then show "explorer_inv fs wraps l ex \<Longrightarrow> ?thesis"
    by (cases m)
      (auto simp: explorer_inv_def liara_workspace_explorer_set_view_mode_def show_tile_parent_def loaded_details loaded_tiles
        Let_def split: option.splits if_splits)
qed (auto simp: explorer_inv_def split: option.splits if_splits)

lemma inv_explore: "explorer_inv fs wraps l ex \<Longrightarrow> explorer_inv fs wraps (l \<or> list_ex loads ops) (explore fs wraps ops ex)"
proof (induction ops arbitrary: l ex)
  case (Cons a ops)
  then show ?case using Cons.IH[OF inv_step[OF Cons.prems, of a]] by simp
qed simp

lemma inv_shown:
  "explorer_inv fs wraps l ex \<Longrightarrow> shown_entries ex =
     (if \<not> l \<or> (we_mode ex = EXPLORER_VIEW_TILES \<and> wraps) then [] else entries_of fs (we_current_path ex))"
proof -
  have "dr_name (detail_of fs p n) = n" "ti_name (tile_of fs p n) = n" for p n
    by (simp_all add: detail_of_def tile_of_def Let_def)
  then show "explorer_inv fs wraps l ex \<Longrightarrow> ?thesis"
    by (cases "we_mode ex") (auto simp: explorer_inv_def shown_entries_def comp_def)
qed

text \<open>
  C26: What the workspace explorer shows, whatever is done with it. Once a directory has been read the table has
  exactly the entries of the current directory, in the order of the file system, and so have the tiles if GTK puts no
  viewport around them. With the viewport of GTK 4 the tiles are never seen: switching to them hides the table and shows the
  viewport inside a scrolled window that stays hidden. Before that, and so in the chat client, which makes the explorer
  and calls none of its operations, it is empty. The selected row always exists, and selecting gives a path of the current
  directory.
\<close>
theorem workspace_explorer_shows:
  "let ex = explore fs wraps ops (liara_workspace_explorer_new wraps home); p = we_current_path ex
   in shown_entries ex =
        (if list_ex loads ops
         then if wraps then if we_mode ex = EXPLORER_VIEW_DETAILS then entries_of fs p else [] else entries_of fs p
         else []) \<and>
      (liara_workspace_explorer_get_selected ex = [] \<or>
       liara_workspace_explorer_get_selected ex \<in> fs_filename fs p ` set (entries_of fs p)) \<and>
      explorer_inv fs wraps (list_ex loads ops) ex"
proof -
  define ex where "ex = explore fs wraps ops (liara_workspace_explorer_new wraps home)"
  have inv: "explorer_inv fs wraps (list_ex loads ops) ex"
    using inv_explore[OF inv_new] by (simp add: ex_def)
  have path: "dr_path (detail_of fs p n) = fs_filename fs p n" for p n by (simp add: detail_of_def Let_def)
  have "liara_workspace_explorer_get_selected ex = [] \<or>
      liara_workspace_explorer_get_selected ex \<in> fs_filename fs (we_current_path ex) ` set (entries_of fs (we_current_path ex))"
    using inv by (auto simp: explorer_inv_def liara_workspace_explorer_get_selected_def path split: option.splits if_splits)
  moreover have "shown_entries ex = (if list_ex loads ops
      then if wraps then if we_mode ex = EXPLORER_VIEW_DETAILS then entries_of fs (we_current_path ex) else []
        else entries_of fs (we_current_path ex) else [])"
    using inv_shown[OF inv] by (cases "we_mode ex") simp_all
  ultimately show ?thesis using inv unfolding ex_def Let_def by blast
qed

section \<open>Sizes\<close>

lemma rne_near: "\<bar>of_int (rne x) - x\<bar> \<le> 1 / 2"
proof -
  have "of_int \<lfloor>x\<rfloor> \<le> x" "x < of_int \<lfloor>x\<rfloor> + 1" by linarith+
  then show ?thesis by (auto simp: rne_def Let_def)
qed

text \<open>A file size of up to 53 bits divided by a power of two is exact.\<close>

lemma exact_quotient:
  assumes "\<bar>n\<bar> < 2 ^ 53" "k \<le> 20"
  shows "fdiv rnd64 (rnd64 (of_int n)) (Fin (2 ^ k)) = Fin (of_int n / 2 ^ k)"
proof -
  have q: "(of_int n :: rat) / 2 ^ k = of_int n * 2 powi (- int k)"
    by (simp add: power_int_minus divide_inverse)
  have "rnd64 (of_int n / 2 ^ k) = Fin (of_int n / 2 ^ k)"
    unfolding rnd64_def
  proof (rule rnd_exact)
    show "repr 53 (- 1022) (of_int n / 2 ^ k)"
      unfolding repr_def q using assms by (intro exI[of _ n] exI[of _ "- int k"]) simp
    have "\<bar>of_int n / 2 ^ k\<bar> \<le> (of_int \<bar>n\<bar> :: rat)" by (simp add: abs_divide divide_le_eq mult_le_cancel_left1)
    also have "\<dots> < of_int (2 ^ 53)" using assms(1) by (simp only: of_int_less_iff)
    also have "\<dots> = 2 powi 53" by simp
    also have "\<dots> < 2 powi (1023 + 1)" by (simp only: powi_less_iff)
    finally show "\<bar>of_int n / 2 ^ k :: rat\<bar> < 2 powi (1023 + 1)" .
  qed
  then show ?thesis using rnd64_int[OF assms(1)] by simp
qed

lemma show1_quotient:
  assumes "0 \<le> n" "n < 2 ^ 53" "k \<le> 20"
  shows "\<exists>t. show1 (fdiv rnd64 (rnd64 (of_int n)) (Fin (2 ^ k))) = show_tenths t \<and> 2 * \<bar>t * 2 ^ k - 10 * n\<bar> \<le> 2 ^ k"
proof -
  define t where "t = rne (of_int n / 2 ^ k * 10)"
  have "\<bar>of_int t - of_int n / 2 ^ k * 10\<bar> \<le> (1 / 2 :: rat)" unfolding t_def by (rule rne_near)
  then have "\<bar>of_int t - of_int n / 2 ^ k * 10\<bar> * 2 ^ k \<le> (1 / 2 :: rat) * 2 ^ k"
    by (intro mult_right_mono) simp_all
  moreover have "\<bar>of_int t - of_int n / 2 ^ k * 10\<bar> * 2 ^ k = \<bar>of_int t * 2 ^ k - 10 * (of_int n :: rat)\<bar>"
  proof -
    have "(of_int t - of_int n / 2 ^ k * 10) * 2 ^ k = of_int t * 2 ^ k - 10 * (of_int n :: rat)"
      by (simp add: left_diff_distrib)
    moreover have "\<bar>2 ^ k\<bar> = (2 ^ k :: rat)" by simp
    ultimately show ?thesis by (metis abs_mult)
  qed
  ultimately have "\<bar>of_int t * 2 ^ k - 10 * of_int n\<bar> \<le> (1 / 2 :: rat) * 2 ^ k" by (simp only:)
  then have "2 * \<bar>of_int t * 2 ^ k - 10 * of_int n\<bar> \<le> (2 ^ k :: rat)" by simp
  then have "(of_int (2 * \<bar>t * 2 ^ k - 10 * n\<bar>) :: rat) \<le> of_int (2 ^ k)" by simp
  then have "2 * \<bar>t * 2 ^ k - 10 * n\<bar> \<le> 2 ^ k" by (simp only: of_int_le_iff)
  moreover have "\<not> (of_int n / 2 ^ k :: rat) < 0" using assms(1) by (simp add: not_less)
  ultimately show ?thesis
    using exact_quotient[of n k] assms by (intro exI[of _ t]) (simp add: t_def)
qed

text \<open>
  C27: The figure in the size column. It is in bytes up to and including 1024, in KB up to and including 1048576 and in MB
  above; with tenths it is at most half a tenth of its unit from the size of the file, and it lies between 1.0 and 1024.0 KB
  or is at least 1.0 MB. So a file of one byte more than 1024 is shown as 1.0 KB, and one of exactly 1 MB as
  1024.0 KB.
\<close>
theorem size_text_bounds:
  assumes "0 \<le> n" "n < 2 ^ 53"
  shows "if n \<le> 1024 then size_text n = show_int n @ '' B''
     else if n \<le> 1048576
     then \<exists>t. size_text n = show_tenths t @ '' KB'' \<and> 10 \<le> t \<and> t \<le> 10240 \<and> \<bar>t * 1024 - 10 * n\<bar> \<le> 512
     else \<exists>t. size_text n = show_tenths t @ '' MB'' \<and> 10 \<le> t \<and> \<bar>t * 1048576 - 10 * n\<bar> \<le> 524288"
proof -
  have kb: "\<exists>t. show1 (fdiv rnd64 (rnd64 (of_int n)) (Fin 1024)) = show_tenths t \<and> 2 * \<bar>t * 1024 - 10 * n\<bar> \<le> 1024"
    using show1_quotient[OF assms, of 10] by simp
  have mb: "\<exists>t. show1 (fdiv rnd64 (rnd64 (of_int n)) (Fin 1048576)) = show_tenths t \<and> 2 * \<bar>t * 1048576 - 10 * n\<bar> \<le> 1048576"
    using show1_quotient[OF assms, of 20] by simp
  consider "n \<le> 1024" | "1024 < n" "n \<le> 1048576" | "1048576 < n" by linarith
  then show ?thesis
  proof cases
    case 1
    then show ?thesis by (simp add: size_text_def)
  next
    case 2
    obtain t where t: "show1 (fdiv rnd64 (rnd64 (of_int n)) (Fin 1024)) = show_tenths t" "2 * \<bar>t * 1024 - 10 * n\<bar> \<le> 1024"
      using kb by blast
    have near: "\<bar>t * 1024 - 10 * n\<bar> \<le> 512" using t(2) by simp
    then have "t * 1024 - 10 * n \<le> 512" "10 * n - t * 1024 \<le> 512" by simp_all
    then have "10 \<le> t" "t \<le> 10240" using 2 by simp_all
    then show ?thesis using 2 t(1) near by (auto simp: size_text_def)
  next
    case 3
    obtain t where t: "show1 (fdiv rnd64 (rnd64 (of_int n)) (Fin 1048576)) = show_tenths t"
      "2 * \<bar>t * 1048576 - 10 * n\<bar> \<le> 1048576"
      using mb by blast
    have near: "\<bar>t * 1048576 - 10 * n\<bar> \<le> 524288" using t(2) by simp
    then have "10 * n - t * 1048576 \<le> 524288" by simp
    then have "10 \<le> t" using 3 by simp
    then show ?thesis using 3 t(1) near by (auto simp: size_text_def)
  qed
qed

text \<open>A file of 1 GB is shown as so many MB.\<close>

theorem size_text_bounds_witness:
  "\<exists>t. size_text 1073741824 = show_tenths t @ '' MB'' \<and> 10 \<le> t \<and> \<bar>t * 1048576 - 10 * 1073741824\<bar> \<le> (524288 :: int)"
  using size_text_bounds[of 1073741824] by simp

end
