(* ===== verification/Spec2Isabelle.thy ===== *)
theory Spec2Isabelle
  imports Wire_V2 Helper_Contract Linep_Tests Dispatch_Invariants Infer_Server Pipeline_Plugin
    Chat_Runs Manager_App
    Manager_Log Client_Start Client_Views Client_Markdown Workspace_Explorer
begin

text \<open>
  A verification of the C++ and C of LIARA: the embedding service, the LiNeP protocol with its
  scheduler, the common code of the inference helpers, and two C front ends, the server manager
  and the chat client. Paths below are relative to \<open>src/emeddingserver/\<close> of the repository, those that
  start with \<open>frontend/\<close> to its root.

  \<^bold>\<open>The program.\<close> LiNeP (\<open>linep/\<close>) connects a scheduler with workers. Workers announce their slots
  with 12-byte UDP heartbeats; the scheduler keeps a registry of slots, scores them, sends a queued
  task to up to three slots of different workers over TCP and gives the first answer to the
  task's callback. The embedding service is such a worker: \<open>embedding_server.cpp\<close> reads a
  configuration, loads a model through OpenVINO with a fallback to the CPU, starts the LiNeP
  endpoint (\<open>embedding_linep.cpp\<close>: embeddings and a consensus over candidate texts) and serves HTTP.
  The helpers (\<open>liara-inference/\<close>) share a task contract, a second wire format, a heartbeat of
  their own, a loader of pipeline DLLs and a server template.

  \<^bold>\<open>The theories\<close>, in the order they build on each other.

  \<^item> \<open>Prelude\<close>: words, byte encodings, the exceptions as values (\<open>exn\<close>, \<open>'a result\<close>, \<open>bindR\<close>), the
    collections \<open>codec_simps\<close>, \<open>wire_defs\<close>, \<open>enum_codes\<close>. \<open>Cpp_String\<close>, \<open>Cpp_Map\<close>, \<open>Ieee\<close>,
    \<open>Json_Value\<close> and \<open>Thread_Owner\<close> model the parts of the standard library, of IEEE arithmetic, of
    the JSON library and of \<open>std::thread\<close> ownership that the sources use. \<open>Cpp_Map\<close> states ordered maps and
    sorting as locales (\<open>std_map\<close>, \<open>std_sort\<close>), \<open>Thread_Owner\<close> the objects that own a thread.
  \<^item> \<open>Linep_Types\<close> (\<open>include/linep/types.hpp\<close>, \<open>messages.hpp\<close>): the packed structures with their byte
    images. \<open>Crc8\<close> (\<open>core/crc.cpp\<close>, \<open>common/crc8.hpp\<close>): both implementations are one division of
    polynomials; up to three flipped bits and any error within a byte are noticed. \<open>Framing\<close>
    (\<open>core/framing.cpp\<close>): builders and validators over the locale \<open>checked_frame\<close>.
  \<^item> \<open>Wire_V2\<close> (\<open>common/wire_v2.hpp\<close>): the envelope with its FNV checksum and the task payloads, each
    field an interpretation of \<open>wire_field\<close>. \<open>Helper_Contract\<close> (\<open>task_contract.hpp\<close>,
    \<open>helper_contract.hpp\<close>, \<open>heartbeat.hpp\<close>, \<open>protocol.hpp\<close>): profiles, residency, routing, response
    classification and the helper heartbeat.
  \<^item> \<open>Pal_Socket\<close> (\<open>linep/src/pal\<close>): byte order, clocks and sockets of both platforms. A
    connection (\<open>conn\<close>) holds what the peer will send, how the stream ends, what was written, and
    scripts that cut every \<open>recv\<close> and \<open>send\<close> arbitrarily; \<open>exact_reader\<close> is the contract of
    \<open>tcp_recv_all\<close>. \<open>Tcp_Channel\<close> (\<open>tcp.cpp\<close>) and \<open>Udp_Heartbeat\<close> (\<open>heartbeat.cpp\<close>): senders,
    receivers, handlers and their life cycles, interpretations of \<open>thread_owner\<close>.
  \<^item> \<open>Score_Engine\<close> (\<open>slot_registry.hpp\<close>, \<open>score_engine.cpp\<close>): slots, eligibility, score and
    selection. \<open>Scheduler\<close> (\<open>scheduler.cpp\<close>, \<open>task_queue.hpp\<close>): every public operation, the
    loop as a program counter and each dispatch thread as a phase; a step is what happens
    between two lock operations, and \<open>reachable\<close> interleaves the steps of all threads.
    \<open>Dispatch_Invariants\<close>: the invariant \<open>sched_inv\<close> (per correlation id, callbacks made, copies queued
    and dispatches able to answer add up to at most one) and \<open>active_inv\<close> (the count of threads).
    \<open>Linep_Tests\<close> runs the repository's own test programs of these parts (\<open>linep/tests\<close>,
    \<open>common/helper_contract_test_main.cpp\<close>) on the model: they pass with every sorting function and clock.
  \<^item> \<open>Config\<close> (\<open>embedding_config.cpp\<close>, \<open>parse_args\<close>), \<open>Engine\<close> (\<open>embedding_engine.cpp\<close>), \<open>Consensus\<close> and
    \<open>Linep_Endpoint\<close> (\<open>embedding_linep.cpp\<close>), \<open>Http_Server\<close> (\<open>embedding_server.cpp\<close>): from the
    bytes on a socket through JSON values to vectors and back, with every exception followed to
    the handler that catches it, or to the end of the process (\<open>Terminated\<close>, \<open>Crashed\<close>, \<open>Died\<close>).
  \<^item> \<open>Json_Extract\<close>, \<open>Infer_Server\<close> (\<open>templates/generic_infer_server.cpp\<close>) and \<open>Pipeline_Plugin\<close>
    (\<open>common/pipeline_plugin.hpp\<close>): the brace scanner against a grammar, the connection
    thread of the template, and the loader over a count of module references.
  \<^item> \<open>Glib\<close> holds what the C programs use of GLib and json-glib. The server manager
    (\<open>frontend/server-manager\<close>): \<open>Manager_Config\<close> (its configuration and the environment file),
    \<open>Service_Manager\<close> (one service: pid tracking, start, stop, restart, grace period, refresh, health)
    and \<open>Manager_App\<close> (three services, timers, probes and buttons as a state machine). The operations on
    a service are interpretations of the locale \<open>service_operation\<close>, from which every handler of the
    application gets its step. \<open>Manager_Log\<close> is the bounded log view with its records. The chat client (\<open>frontend/WMTool-Liara\<close>): \<open>Formatted_Text\<close>
    (fenced text), \<open>Stream_Client\<close> (server-sent events), \<open>Chat_Payload\<close> (the document of an answer) and
    \<open>Chat_Session\<close> with \<open>Chat_Runs\<close> (\<open>liara_window.c\<close>: sending, the callbacks, the watchdog; messages are
    numbered, and using one that is gone is a \<open>fault\<close>). \<open>Client_Config\<close> is its settings, personas and
    the cleaning of identity words, \<open>Client_Requests\<close> the requests it sends, \<open>Client_Explorer\<close> the
    reading of directory listings, \<open>Client_Start\<close> the start of the services, \<open>Client_Report\<close> the texts
    it makes of health and tool answers, \<open>Client_Views\<close> the pages with their controls and requests as a state machine,
    \<open>Client_Markdown\<close> the renderer of Markdown, and \<open>Workspace_Explorer\<close> (\<open>liara_workspace_explorer.c\<close>) the table and tiles
    of a directory.

  \<^bold>\<open>What the properties show.\<close>
  Codecs: envelopes, task payloads, heartbeats, headers and configuration files survive a round
  trip, accept no second encoding where this is so, and reject the errors their
  checksums are for. Transport: readers and senders are exact under every cutting of the
  stream, descriptors do not leak, a whole session of sender and handler
  delivers task and answer. Scheduling: the selection is sound and best, a task's callback runs
  at most once in every interleaving, \<open>stop\<close> waits for every thread. Service: loading ends ready
  exactly when it returns true, an embedding is the hidden state of the last token that fits,
  a consensus reports figures in range and the first best candidate, every HTTP request that ends is
  answered. Front ends: messages, configuration and environment files survive a round trip, streamed
  events are delivered in order with one completion, a request's query is read back as the text
  that was typed, Markdown is shown line by line and its markup reads back as the text, the user mode never leaves its pages
  and requests, a log keeps the newest lines, the manager stays well-formed whatever the user,
  the timers and the system do, so does the chat client, whose transcript gets the answer that the
  server's bytes describe. Limits: where the code does not do what it is meant to, a property or a lemma states what it does
  (lost retries, a misread header extension, an endpoint that cannot be stopped after a failed
  listen, texts that end the process, requests in two pieces, a late answer taken for the next one).

  \<^bold>\<open>Bounds and termination.\<close> There is no fuel: loops over a stream end because each
  call takes from the script or the input, loops that may wait for ever return \<open>None\<close>, and the sleep
  loop of the heartbeat sender is a \<open>partial_function\<close> whose result is proved for the intervals for
  which it ends. Machine integers keep their width. Floats are rationals with rounding to 24 and 53
  bits, overflow, infinities and NaN; the sign of zero is not kept, which nothing in the sources
  observes.

  \<^bold>\<open>Parameters.\<close> OpenVINO, the file system, the operating system's results, \<open>std::sort\<close> and the JSON parser and
  serialiser are arguments, as are GLib's URI parser and Unicode tables (\<open>unicode_tables\<close>). The hypotheses on them are documented behaviour: \<open>std_sort\<close>
  (a sorted permutation for a strict weak order), \<open>dump_strict\<close> (\<open>dump\<close> throws exactly on texts that are
  not UTF-8), \<open>creates_fresh\<close> (a pipeline that is created did not exist).

  \<^bold>\<open>Not modelled.\<close> \<open>src/llama.cpp\<close> and \<open>vendor/nlohmann\<close> are third-party copies (of the latter the accessors
  the servers use are in \<open>Json_Value\<close>); console output, the optional build-time log of the TCP
  layer, the three tests that open sockets and build files have no behaviour of interest here; memory exhaustion is followed only where
  a length from the network decides the allocation; data races on plain fields that the code shares
  without a lock are outside the step relations, whose steps are the lock-protected sections. The
  front ends' style sheets, margins and headings only arrange what GTK draws (which controls are built in which mode is in
  \<open>Client_Views\<close>); the two builders of a details panel in \<open>liara_window.c\<close> have no caller; \<open>frontend/gtk-ui\<close> and the backup
  directories are
  older copies of the front ends. The Python services are another program.
\<close>

end
